(* ===== verification/JsValue.thy ===== *)
theory JsValue
  imports Complex_Main Prelude
begin

text \<open>
  JavaScript values of type \<open>unknown\<close>, as the code that reads JSON from the server sees them.
  A number is a rational or one of the special values; the sources handled here only compare
  numbers, test them for being integers and convert them, so the rounding of binary floating
  point is not modelled and a decimal literal stands for its decimal value.
  An object is an association list with distinct keys, in insertion order.
\<close>

datatype number = Fin rat | NaN | PosInf | NegInf

datatype jsval =
    Undefined
  | Null
  | JBool bool
  | JNum number
  | JStr string
  | JArr "jsval list"
  | JObj "(string \<times> jsval) list"

type_synonym jsobj = "(string \<times> jsval) list"

text \<open>\<open>o[k]\<close>\<close>

definition get_prop :: "jsobj \<Rightarrow> string \<Rightarrow> jsval" where
  "get_prop ob k = (case map_of ob k of None \<Rightarrow> Undefined | Some v \<Rightarrow> v)"

text \<open>\<open>o[k] = v\<close> in place: an existing key keeps its position, a new one goes to the end.\<close>

fun set_prop :: "string \<Rightarrow> 'v \<Rightarrow> (string \<times> 'v) list \<Rightarrow> (string \<times> 'v) list" where
  "set_prop k v [] = [(k, v)]"
| "set_prop k v ((k', v') # ob) = (if k' = k then (k, v) # ob else (k', v') # set_prop k v ob)"

text \<open>\<open>delete o[k]\<close>\<close>

definition delete_prop :: "string \<Rightarrow> (string \<times> 'v) list \<Rightarrow> (string \<times> 'v) list" where
  "delete_prop k ob = filter (\<lambda>(k', _). k' \<noteq> k) ob"

text \<open>\<open>{ ...a, ...b }\<close>\<close>

definition spread :: "(string \<times> 'v) list \<Rightarrow> (string \<times> 'v) list \<Rightarrow> (string \<times> 'v) list" where
  "spread a b = foldl (\<lambda>ob (k, v). set_prop k v ob) a b"

lemma map_of_set_prop [simp]: "map_of (set_prop k v ob) = (map_of ob)(k \<mapsto> v)"
  by (induction ob) auto

lemma map_of_delete_prop [simp]: "map_of (delete_prop k ob) = (map_of ob)(k := None)"
  by (induction ob) (auto simp: delete_prop_def)

lemma map_of_spread: "map_of (spread a b) = map_of a ++ map_of (rev b)"
proof (induction b arbitrary: a)
  case (Cons kv b)
  obtain k v where kv: "kv = (k, v)" by (cases kv)
  have "spread a (kv # b) = spread (set_prop k v a) b" by (simp add: spread_def kv)
  with Cons [of "set_prop k v a"] show ?case by (simp add: kv fun_upd_def [symmetric])
qed (simp add: spread_def)

lemma delete_prop_comm: "delete_prop j (delete_prop k ob) = delete_prop k (delete_prop j ob)"
  by (auto simp: delete_prop_def intro: filter_cong)

lemma delete_prop_idem [simp]: "delete_prop k (delete_prop k ob) = delete_prop k ob"
  by (simp add: delete_prop_def)

text \<open>Keys keep their place.\<close>

lemma keys_set_prop: "\<exists>ks. map fst (set_prop k v ob) = map fst ob @ ks"
  by (induction ob) auto

lemma distinct_set_prop: "distinct (map fst ob) \<Longrightarrow> distinct (map fst (set_prop k v ob))"
proof (induction ob)
  case (Cons kv ob)
  obtain k' v' where kv: "kv = (k', v')" by (cases kv)
  have "fst ` set (set_prop k v ob) = insert k (fst ` set ob)"
    unfolding dom_map_of_conv_image_fst [symmetric] by simp
  with Cons kv show ?case by auto
qed simp

lemma set_prop_twice [simp]: "set_prop k v (set_prop k w ob) = set_prop k v ob"
  by (induction ob) auto

lemma set_prop_fresh: "k \<notin> fst ` set ob \<Longrightarrow> set_prop k v ob = ob @ [(k, v)]"
  by (induction ob) auto

lemma set_prop_after: "k \<notin> fst ` set ob \<Longrightarrow> set_prop k v (ob @ (k, w) # r) = ob @ (k, v) # r"
  by (induction ob) auto

lemma keys_spread: "\<exists>ks. map fst (spread a b) = map fst a @ ks"
proof (induction b arbitrary: a)
  case (Cons kv b)
  obtain k v where kv: "kv = (k, v)" by (cases kv)
  obtain ks where "map fst (spread (set_prop k v a) b) = map fst (set_prop k v a) @ ks" using Cons by blast
  moreover obtain ks' where "map fst (set_prop k v a) = map fst a @ ks'" using keys_set_prop [of k v a] by blast
  ultimately show ?case by (simp add: spread_def kv)
qed (simp add: spread_def)

lemma distinct_spread: "distinct (map fst a) \<Longrightarrow> distinct (map fst (spread a b))"
proof (induction b arbitrary: a)
  case (Cons kv b)
  obtain k v where kv: "kv = (k, v)" by (cases kv)
  from Cons.IH [OF distinct_set_prop [OF Cons.prems]] show ?case by (simp add: spread_def kv)
qed (simp add: spread_def)

text \<open>Spreading an object over one that has its first keys gives that object.\<close>

lemma spread_over:
  "distinct (map fst (pre @ r)) \<Longrightarrow> \<exists>ks. map fst r = map fst a @ ks \<Longrightarrow> spread (pre @ a) r = pre @ r"
proof (induction r arbitrary: pre a)
  case (Cons kv r)
  obtain k v where kv: "kv = (k, v)" by (cases kv)
  have fresh: "k \<notin> fst ` set pre" using Cons.prems(1) kv by auto
  have "set_prop k v (pre @ a) = (pre @ [(k, v)]) @ tl a"
  proof (cases a)
    case Nil
    then show ?thesis using fresh by (simp add: set_prop_fresh)
  next
    case (Cons b a')
    then have "fst b = k" using Cons.prems(2) kv by simp
    then show ?thesis using fresh Cons by (cases b) (simp add: set_prop_after)
  qed
  moreover have "\<exists>ks'. map fst r = map fst (tl a) @ ks'"
    using Cons.prems(2) by (cases a) auto
  ultimately show ?case
    using Cons.IH [of "pre @ [(k, v)]" "tl a"] Cons.prems(1) kv by (simp add: spread_def)
qed (simp add: spread_def)

section \<open>Truthiness\<close>

fun js_truthy :: "jsval \<Rightarrow> bool" where
  "js_truthy Undefined = False"
| "js_truthy Null = False"
| "js_truthy (JBool b) = b"
| "js_truthy (JNum n) = (n \<noteq> Fin 0 \<and> n \<noteq> NaN)"
| "js_truthy (JStr s) = (s \<noteq> '''')"
| "js_truthy (JArr _) = True"
| "js_truthy (JObj _) = True"

definition is_nullish :: "jsval \<Rightarrow> bool" where
  "is_nullish v = (v = Undefined \<or> v = Null)"

text \<open>\<open>typeof v === 'object'\<close> and not null: an array or an object.\<close>

fun as_fields :: "jsval \<Rightarrow> jsobj option" where
  "as_fields (JObj ob) = Some ob"
| "as_fields (JArr xs) = Some []"
| "as_fields _ = None"

end
