(* ===== verification/Status.thy ===== *)
theory Status
  imports JsValue
begin

text \<open>
  Node and job status, \<open>web/packages/dag-next/src/status.ts\<close>, its second normaliser
  \<open>mapJobStatus\<close> of \<open>web/packages/api-client/src/client.ts\<close>, and the polling predicates of
  \<open>web/apps/secretpad/src/pages/dag/adapters.ts\<close>.
  Case conversion and trimming are those of ASCII strings.
\<close>

section \<open>Normalisation\<close>

datatype node_status = STAGING | INITIALIZED | RUNNING | SUCCEED | FAILED | STOPPED

fun status_text :: "node_status \<Rightarrow> string" where
  "status_text STAGING = ''STAGING''"
| "status_text INITIALIZED = ''INITIALIZED''"
| "status_text RUNNING = ''RUNNING''"
| "status_text SUCCEED = ''SUCCEED''"
| "status_text FAILED = ''FAILED''"
| "status_text STOPPED = ''STOPPED''"

datatype dag_status = Ready | Pending | Running | Success | Failed | Staging | Stopped

datatype badge = BadgeSuccess | BadgeProcessing | BadgeError | BadgeWarning | BadgeDefault

text \<open>The \<open>switch\<close> of \<open>normalizeStatus\<close>, on the trimmed upper-case text.\<close>

definition status_of_text :: "string \<Rightarrow> node_status option" where
  "status_of_text s =
     (if s \<in> {''SUCCEED'', ''SUCCEEDED'', ''SUCCESS''} then Some SUCCEED
      else if s \<in> {''FAILED'', ''FAIL'', ''ERROR''} then Some FAILED
      else if s = ''RUNNING'' then Some RUNNING
      else if s \<in> {''INITIALIZED'', ''PENDING'', ''INITIALIZING''} then Some INITIALIZED
      else if s \<in> {''STOPPED'', ''STOP'', ''CANCELED'', ''CANCELLED''} then Some STOPPED
      else if s \<in> {''STAGING'', ''IDLE''} then Some STAGING
      else None)"

definition normalizeStatus :: "string option \<Rightarrow> node_status option" where
  "normalizeStatus status =
     (if \<not> truthy status then None else status_of_text (to_upper (trim (the status))))"

definition isActiveStatus :: "string option \<Rightarrow> bool" where
  "isActiveStatus status = (normalizeStatus status \<in> {Some RUNNING, Some INITIALIZED})"

definition isTerminalStatus :: "string option \<Rightarrow> bool" where
  "isTerminalStatus status = (normalizeStatus status \<in> {Some SUCCEED, Some FAILED, Some STOPPED})"

definition toCanvasStatus :: "string option \<Rightarrow> dag_status" where
  "toCanvasStatus status =
     (case normalizeStatus status of
        Some RUNNING \<Rightarrow> Running
      | Some INITIALIZED \<Rightarrow> Pending
      | Some SUCCEED \<Rightarrow> Success
      | Some FAILED \<Rightarrow> Failed
      | Some STOPPED \<Rightarrow> Stopped
      | _ \<Rightarrow> Ready)"

definition statusBadge :: "string option \<Rightarrow> badge" where
  "statusBadge status =
     (case normalizeStatus status of
        Some SUCCEED \<Rightarrow> BadgeSuccess
      | Some RUNNING \<Rightarrow> BadgeProcessing
      | Some INITIALIZED \<Rightarrow> BadgeProcessing
      | Some FAILED \<Rightarrow> BadgeError
      | Some STOPPED \<Rightarrow> BadgeWarning
      | _ \<Rightarrow> BadgeDefault)"

text \<open>\<open>mapJobStatus\<close>: the same table, with defaults where \<open>normalizeStatus\<close> is undefined.\<close>

definition mapJobStatus :: "string option \<Rightarrow> node_status" where
  "mapJobStatus status =
     (let s = to_upper (trim (str_or status '''')) in
      if s = ''RUNNING'' then RUNNING
      else if s \<in> {''SUCCEED'', ''SUCCEEDED'', ''SUCCESS''} then SUCCEED
      else if s \<in> {''FAILED'', ''FAIL'', ''ERROR''} then FAILED
      else if s \<in> {''STOPPED'', ''STOP'', ''CANCELED'', ''CANCELLED''} then STOPPED
      else if s \<in> {''STAGING'', ''IDLE'', ''''} then STAGING
      else INITIALIZED)"

lemma trim_no_ws: "(\<And>c. c \<in> set s \<Longrightarrow> \<not> is_ws c) \<Longrightarrow> trim s = s"
proof -
  assume "\<And>c. c \<in> set s \<Longrightarrow> \<not> is_ws c"
  then have "dropWhile is_ws s = s" "dropWhile is_ws (rev s) = rev s"
    by (metis dropWhile_eq_self_iff hd_in_set, metis dropWhile_eq_self_iff hd_in_set set_rev)
  then show ?thesis by (simp add: trim_def)
qed

lemma trim_Nil [simp]: "trim '''' = ''''"
  by (simp add: trim_def)

lemma status_text_upper [simp]: "to_upper (trim (status_text s)) = status_text s"
  by (cases s) (simp_all add: trim_def is_ws_def to_upper_def to_upper_char_def)

lemma status_text_nonempty [simp]: "status_text s \<noteq> ''''"
  by (cases s) simp_all

lemma status_of_text_status [simp]: "status_of_text (status_text s) = Some s"
  by (cases s) (simp_all add: status_of_text_def)

lemma normalizeStatus_text: "normalizeStatus (Some (status_text s)) = Some s"
  by (simp add: normalizeStatus_def)

lemma mapJobStatus_normalize:
  "mapJobStatus s =
     (case normalizeStatus s of
        Some r \<Rightarrow> r
      | None \<Rightarrow> if trim (str_or s '''') = '''' then STAGING else INITIALIZED)"
proof (cases "truthy s")
  case True
  then obtain a where a: "s = Some a" "a \<noteq> ''''" by (auto simp: truthy_iff)
  show ?thesis
    by (simp add: a mapJobStatus_def normalizeStatus_def status_of_text_def Let_def to_upper_def)
next
  case False
  then show ?thesis
    by (cases s) (simp_all add: mapJobStatus_def normalizeStatus_def to_upper_def)
qed

section \<open>Polling predicates of the canvas\<close>

record status_node =
  sn_id :: string
  sn_status :: "string option"
  sn_taskId :: "string option"
  sn_jobId :: "string option"
  sn_progress :: "number option"
  sn_errMsg :: "string option"
  sn_parties :: jsval

record graph_status =
  gs_finished :: bool
  gs_jobId :: "string option"
  gs_nodes :: "status_node list"

definition shouldPollStatus :: "graph_status option \<Rightarrow> bool \<Rightarrow> bool" where
  "shouldPollStatus status runRequested =
     (case status of
        None \<Rightarrow> runRequested
      | Some st \<Rightarrow>
          if list_ex (\<lambda>n. normalizeStatus (sn_status n) = Some RUNNING) (gs_nodes st) then True
          else if list_ex (\<lambda>n. isActiveStatus (sn_status n)) (gs_nodes st) then \<not> gs_finished st
          else runRequested \<and> \<not> gs_finished st)"

definition allSucceeded :: "graph_status option \<Rightarrow> bool" where
  "allSucceeded status =
     (let nodes = filter (\<lambda>n. normalizeStatus (sn_status n) \<noteq> Some STAGING)
                    (case status of None \<Rightarrow> [] | Some st \<Rightarrow> gs_nodes st)
      in nodes \<noteq> [] \<and> list_all (\<lambda>n. normalizeStatus (sn_status n) = Some SUCCEED) nodes)"

definition anyFailed :: "graph_status option \<Rightarrow> bool" where
  "anyFailed status =
     list_ex (\<lambda>n. normalizeStatus (sn_status n) = Some FAILED)
       (case status of None \<Rightarrow> [] | Some st \<Rightarrow> gs_nodes st)"

lemma allSucceeded_not_anyFailed: "allSucceeded st \<Longrightarrow> \<not> anyFailed st"
  by (cases st) (auto simp: allSucceeded_def anyFailed_def Let_def list_all_iff list_ex_iff)

lemma active_not_terminal: "isActiveStatus s \<Longrightarrow> \<not> isTerminalStatus s"
  by (auto simp: isActiveStatus_def isTerminalStatus_def)

end
