(* ===== verification/Polling.thy ===== *)
theory Polling
  imports Status
begin

text \<open>
  The polling of graph/node/status, \<open>web/apps/secretpad/src/pages/dag/use-node-status.ts\<close>, as a
  state machine.  The refs and the \<open>useState\<close> of the hook are one record (\<open>runRequestedRef\<close> is
  kept equal to \<open>runRequested\<close> by the first effect); an event is one call of the hook's
  effects or of the function it returns, and the output is the call of \<open>onFinished\<close>.
\<close>

datatype poll_result = PollSuccess | PollFailed | PollStopped

record poll_state =
  runRequested :: bool
  wasActive :: bool
  pollsSinceStart :: nat

datatype poll_event = Response graph_status | MarkRunStarted | GraphSwitched

definition poll_init :: poll_state where
  "poll_init = \<lparr>runRequested = False, wasActive = False, pollsSinceStart = 0\<rparr>"

definition any_active :: "graph_status \<Rightarrow> bool" where
  "any_active st = list_ex (\<lambda>n. isActiveStatus (sn_status n)) (gs_nodes st)"

text \<open>\<open>refetchInterval\<close>: whether the query asks again, given the data it holds.\<close>

definition refetches :: "poll_state \<Rightarrow> graph_status option \<Rightarrow> bool" where
  "refetches p data =
     (shouldPollStatus data (runRequested p) \<or>
      (runRequested p \<and> \<not> wasActive p \<and> pollsSinceStart p < 3))"

text \<open>The effect on a response: the new state, and the result reported if it is the last one.\<close>

definition on_response :: "poll_state \<Rightarrow> graph_status \<Rightarrow> poll_state \<times> poll_result option" where
  "on_response p data =
     (let p1 = (if runRequested p then p\<lparr>pollsSinceStart := pollsSinceStart p + 1\<rparr> else p);
          active = any_active data;
          waitingForStart = (runRequested p1 \<and> \<not> wasActive p1 \<and> \<not> active \<and> pollsSinceStart p1 < 3);
          polling = (waitingForStart \<or> shouldPollStatus (Some data) (runRequested p1)) in
      if polling then ((if active then p1\<lparr>wasActive := True\<rparr> else p1), None)
      else if wasActive p1 \<or> runRequested p1
        then (p1\<lparr>wasActive := False, runRequested := False\<rparr>,
              Some (if allSucceeded (Some data) then PollSuccess
                    else if anyFailed (Some data) then PollFailed else PollStopped))
      else (p1, None))"

fun poll_step :: "poll_state \<Rightarrow> poll_event \<Rightarrow> poll_state \<times> poll_result option" where
  "poll_step p (Response data) = on_response p data"
| "poll_step p MarkRunStarted =
     (p\<lparr>runRequested := True, pollsSinceStart := 0, wasActive := False\<rparr>, None)"
| "poll_step p GraphSwitched = (p\<lparr>wasActive := False, runRequested := False\<rparr>, None)"

text \<open>A run of the hook: the state after the events, and everything it reported.\<close>

fun poll_run :: "poll_state \<Rightarrow> poll_event list \<Rightarrow> poll_state \<times> poll_result list" where
  "poll_run p [] = (p, [])"
| "poll_run p (e # es) =
     (let (p', r) = poll_step p e; (q, rs) = poll_run p' es
      in (q, (case r of None \<Rightarrow> rs | Some x \<Rightarrow> x # rs)))"

text \<open>The hook is armed while a report is still due.\<close>

definition armed :: "poll_state \<Rightarrow> bool" where
  "armed p \<longleftrightarrow> runRequested p \<or> wasActive p"

lemma report_disarms:
  "poll_step p e = (p', Some r) \<Longrightarrow> armed p \<and> \<not> armed p'"
  by (cases e) (auto simp: on_response_def Let_def armed_def split: if_splits)

text \<open>What can arm the hook again: a run request, or a response that shows an active node.\<close>

definition arming :: "poll_event \<Rightarrow> bool" where
  "arming e = (case e of MarkRunStarted \<Rightarrow> True | Response data \<Rightarrow> any_active data | GraphSwitched \<Rightarrow> False)"

lemma stays_disarmed:
  "\<not> armed p \<Longrightarrow> \<not> arming e \<Longrightarrow> \<not> armed (fst (poll_step p e)) \<and> snd (poll_step p e) = None"
  by (cases e) (auto simp: on_response_def Let_def armed_def arming_def)

lemma disarmed_run_silent:
  "\<not> armed p \<Longrightarrow> list_all (\<lambda>e. \<not> arming e) es \<Longrightarrow> snd (poll_run p es) = []"
proof (induction es arbitrary: p)
  case (Cons e es)
  from Cons.prems stays_disarmed [of p e] obtain p' where
    "poll_step p e = (p', None)" "\<not> armed p'"
    by (metis list.pred_inject(2) prod.collapse)
  with Cons.IH [of p'] Cons.prems show ?case by (simp split: prod.splits)
qed simp

lemma at_most_one_report:
  "list_all (\<lambda>e. \<not> arming e) es \<Longrightarrow> length (snd (poll_run p es)) \<le> 1"
proof (induction es arbitrary: p)
  case (Cons e es)
  show ?case
  proof (cases "snd (poll_step p e)")
    case None
    with Cons.IH [of "fst (poll_step p e)"] Cons.prems show ?thesis
      by (auto split: prod.splits simp: prod_eq_iff)
  next
    case (Some r)
    then have step: "poll_step p e = (fst (poll_step p e), Some r)" by (simp add: prod_eq_iff)
    from report_disarms [OF step] have "\<not> armed (fst (poll_step p e))" by simp
    with disarmed_run_silent Cons.prems have "snd (poll_run (fst (poll_step p e)) es) = []" by simp
    with step show ?thesis by (subst poll_run.simps, subst step) (auto split: prod.splits)
  qed
qed simp

text \<open>A response that finds a running node never ends the run, and it makes the hook remember.\<close>

lemma running_keeps_polling:
  assumes "list_ex (\<lambda>n. normalizeStatus (sn_status n) = Some RUNNING) (gs_nodes data)"
  shows "snd (on_response p data) = None \<and> wasActive (fst (on_response p data)) \<and>
         refetches (fst (on_response p data)) (Some data)"
proof -
  have "any_active data"
    using assms by (auto simp: any_active_def list_ex_iff isActiveStatus_def)
  with assms show ?thesis
    by (simp add: on_response_def Let_def shouldPollStatus_def refetches_def)
qed

text \<open>
  The grace period after a run request: while no response shows an active node, the first two
  responses are taken for the previous job and report nothing.
\<close>

lemma grace_period:
  assumes "runRequested p" "\<not> wasActive p" "pollsSinceStart p < 2" "\<not> any_active data"
  shows "on_response p data = (p\<lparr>pollsSinceStart := pollsSinceStart p + 1\<rparr>, None)"
  using assms by (simp add: on_response_def Let_def)

text \<open>
  The query keeps asking as long as the effect waits: a response that leaves the hook armed
  without a report is followed by another request.
\<close>

lemma armed_refetches:
  "on_response p data = (p', None) \<Longrightarrow> armed p' \<Longrightarrow> refetches p' (Some data)"
  by (auto simp: on_response_def Let_def armed_def refetches_def shouldPollStatus_def
      split: if_splits)

end
