(* ===== verification/Worklist.thy ===== *)
theory Worklist
  imports Prelude
begin

text \<open>
  The graph traversals of the front end.  \<open>graph-model.ts\<close> and \<open>pages/dag/adapters.ts\<close> walk the
  edges of a canvas with an explicit frontier: a queue (\<open>shift\<close> at the head) or a stack
  (\<open>pop\<close> at the end), both filled with \<open>push\<close> at the end.  The loop is written once, over the
  pairs (from, to) it follows, and instantiated by the components; the locale \<open>closure_walk\<close>
  is the contract its clients use.
\<close>

section \<open>The loop\<close>

datatype discipline = Fifo | Lifo

text \<open>\<open>queue.shift()\<close> and \<open>stack.pop()\<close> on a non-empty array: the element and the rest.\<close>

fun take_next :: "discipline \<Rightarrow> 'a list \<Rightarrow> 'a \<times> 'a list" where
  "take_next Fifo xs = (hd xs, tl xs)"
| "take_next Lifo xs = (last xs, butlast xs)"

text \<open>
  The body of the loop for the node \<open>cur\<close>: every pair that starts at \<open>cur\<close> and whose end is not
  yet visited marks its end visited and pushes it.  The result is what was added.
\<close>

fun scan_new :: "('a \<times> 'a) list \<Rightarrow> 'a \<Rightarrow> 'a list \<Rightarrow> 'a list" where
  "scan_new [] cur visited = []"
| "scan_new ((a, b) # ps) cur visited =
     (if a = cur \<and> b \<notin> set visited then b # scan_new ps cur (visited @ [b])
      else scan_new ps cur visited)"

lemma set_scan_new: "set (scan_new ps cur vis) = {b. (cur, b) \<in> set ps \<and> b \<notin> set vis}"
  by (induction ps cur vis rule: scan_new.induct) auto

lemma distinct_scan_new: "distinct (scan_new ps cur vis)"
  by (induction ps cur vis rule: scan_new.induct) (auto simp: set_scan_new)

lemma scan_new_disjoint: "set (scan_new ps cur vis) \<inter> set vis = {}"
  by (auto simp: set_scan_new)

lemma length_take_next: "xs \<noteq> [] \<Longrightarrow> length (snd (take_next d xs)) = length xs - 1"
  by (cases d) auto

lemma set_take_next:
  "xs \<noteq> [] \<Longrightarrow> set xs = insert (fst (take_next d xs)) (set (snd (take_next d xs)))"
proof (cases d)
  case Fifo
  assume "xs \<noteq> []"
  with Fifo show ?thesis by (cases xs) auto
next
  case Lifo
  assume "xs \<noteq> []"
  then have "set xs = set (butlast xs @ [last xs])" by simp
  with Lifo show ?thesis by (simp del: append_butlast_last_id)
qed

lemma card_scan_new_le:
  "card (set (map snd ps) - set (vis @ scan_new ps cur vis)) + length (scan_new ps cur vis)
   = card (set (map snd ps) - set vis)"
proof -
  let ?new = "scan_new ps cur vis" and ?univ = "set (map snd ps)"
  have sub: "set ?new \<subseteq> ?univ - set vis"
    by (force simp: set_scan_new)
  have "?univ - set (vis @ ?new) = (?univ - set vis) - set ?new"
    by auto
  moreover have "card (set ?new) = length ?new"
    by (rule distinct_card [OF distinct_scan_new])
  ultimately show ?thesis
    using sub card_mono [OF _ sub] by (simp add: card_Diff_subset)
qed

text \<open>
  \<open>while (frontier.length) { ... }\<close>.  Each round takes one element off the frontier and adds as
  many as it marks visited, so the number of unvisited ends plus the frontier shrinks by one.
\<close>

function traverse :: "discipline \<Rightarrow> ('a \<times> 'a) list \<Rightarrow> 'a list \<Rightarrow> 'a list \<Rightarrow> 'a list" where
  "traverse d ps frontier visited =
     (if frontier = [] then visited
      else let (cur, rest) = take_next d frontier; new = scan_new ps cur visited
           in traverse d ps (rest @ new) (visited @ new))"
  by pat_completeness auto
termination
proof (relation "measure (\<lambda>(d, ps, fr, vis). card (set (map snd ps) - set vis) + length fr)")
  fix d :: discipline and ps :: "('a \<times> 'a) list" and fr vis x cur rest new
  assume *: "fr \<noteq> []" "x = take_next d fr" "(cur, rest) = x" "new = scan_new ps cur vis"
  then have "length rest = length fr - 1"
    using length_take_next [of fr d] by (metis snd_conv)
  with * card_scan_new_le [of ps vis cur]
  show "((d, ps, rest @ new, vis @ new), d, ps, fr, vis)
      \<in> measure (\<lambda>(d, ps, fr, vis). card (set (map snd ps) - set vis) + length fr)"
    by (cases fr) simp_all
qed simp

declare traverse.simps [simp del]

section \<open>What it computes\<close>

text \<open>
  The visited list stays free of duplicates, and stays within what is reachable from the nodes
  already visited or waiting.
\<close>

lemma traverse_Nil [simp]: "traverse d ps [] vis = vis"
  by (simp add: traverse.simps)

lemma traverse_step:
  "fr \<noteq> [] \<Longrightarrow> take_next d fr = (cur, rest) \<Longrightarrow>
   traverse d ps fr vis = traverse d ps (rest @ scan_new ps cur vis) (vis @ scan_new ps cur vis)"
  by (subst traverse.simps) (simp add: Let_def)

lemma traverse_induct [case_names empty step]:
  assumes "\<And>vis. P [] vis"
    and "\<And>cur rest fr vis. fr \<noteq> [] \<Longrightarrow> take_next d fr = (cur, rest) \<Longrightarrow>
           P (rest @ scan_new ps cur vis) (vis @ scan_new ps cur vis) \<Longrightarrow> P fr vis"
  shows "P fr vis"
proof (induction "card (set (map snd ps) - set vis) + length fr" arbitrary: fr vis
    rule: less_induct)
  case less
  show ?case
  proof (cases "fr = []")
    case False
    obtain cur rest where cr: "take_next d fr = (cur, rest)" by force
    with length_take_next [OF False, of d] have "length rest = length fr - 1" by simp
    with False card_scan_new_le [of ps vis cur] show ?thesis
      by (intro assms(2) [OF False cr] less) (cases fr; simp)
  qed (use assms(1) in simp)
qed

lemma traverse_distinct: "distinct vis \<Longrightarrow> distinct (traverse d ps fr vis)"
  by (induction fr vis rule: traverse_induct [where d = d and ps = ps])
     (auto simp: traverse_step distinct_scan_new set_scan_new)

lemma traverse_sound:
  assumes closed: "\<And>a b. a \<in> R \<Longrightarrow> (a, b) \<in> set ps \<Longrightarrow> b \<in> R \<and> b \<in> S"
  shows "set fr \<subseteq> R \<Longrightarrow> set vis \<subseteq> S \<Longrightarrow> set (traverse d ps fr vis) \<subseteq> S"
proof (induction fr vis rule: traverse_induct [where d = d and ps = ps])
  case (step cur rest fr vis)
  from set_take_next [OF step.hyps(1), of d] step.hyps(2) step.prems(1)
  have "cur \<in> R" "set rest \<subseteq> R" by auto
  with closed step.prems(2)
  have "set (rest @ scan_new ps cur vis) \<subseteq> R" "set (vis @ scan_new ps cur vis) \<subseteq> S"
    by (auto simp: set_scan_new)
  with step.IH step.hyps show ?case by (simp add: traverse_step)
qed simp

text \<open>Every node taken off the frontier has all its successors in the result.\<close>

lemma traverse_closed:
  "(\<And>a b. a \<in> C \<Longrightarrow> (a, b) \<in> set ps \<Longrightarrow> b \<in> set vis) \<Longrightarrow> set vis \<subseteq> C \<union> set fr \<Longrightarrow>
   a \<in> C \<union> set fr \<union> set (traverse d ps fr vis) \<Longrightarrow> (a, b) \<in> set ps \<Longrightarrow> b \<in> set (traverse d ps fr vis)"
proof (induction fr vis arbitrary: C rule: traverse_induct [where d = d and ps = ps])
  case (step cur rest fr vis)
  let ?new = "scan_new ps cur vis"
  have fr: "set fr = insert cur (set rest)"
    using set_take_next [OF step.hyps(1), of d] step.hyps(2) by simp
  have "\<And>a b. a \<in> insert cur C \<Longrightarrow> (a, b) \<in> set ps \<Longrightarrow> b \<in> set (vis @ ?new)"
    using step.prems(1) by (auto simp: set_scan_new)
  moreover have "set (vis @ ?new) \<subseteq> insert cur C \<union> set (rest @ ?new)"
    using step.prems(2) fr by auto
  moreover have "a \<in> insert cur C \<union> set (rest @ ?new) \<union> set (traverse d ps (rest @ ?new) (vis @ ?new))"
    using step.prems(3) fr by (auto simp: traverse_step [OF step.hyps])
  ultimately have "b \<in> set (traverse d ps (rest @ ?new) (vis @ ?new))"
    using step.IH step.prems(4) by blast
  then show ?case by (simp add: traverse_step [OF step.hyps])
qed auto

theorem traverse_trancl: "set (traverse d ps [x] []) = {y. (x, y) \<in> (set ps)\<^sup>+}"
proof
  show "set (traverse d ps [x] []) \<subseteq> {y. (x, y) \<in> (set ps)\<^sup>+}"
    by (rule traverse_sound [where R = "{y. (x, y) \<in> (set ps)\<^sup>*}"])
       (auto intro: rtrancl_into_trancl1 rtrancl_into_rtrancl)
  have closed: "b \<in> set (traverse d ps [x] [])"
    if "a = x \<or> a \<in> set (traverse d ps [x] [])" "(a, b) \<in> set ps" for a b
    using that by (intro traverse_closed [where C = "{}"]) auto
  have "y \<in> set (traverse d ps [x] [])" if "(x, y) \<in> (set ps)\<^sup>+" for y
    using that by (induction rule: trancl_induct) (auto intro: closed)
  then show "{y. (x, y) \<in> (set ps)\<^sup>+} \<subseteq> set (traverse d ps [x] [])" by auto
qed

section \<open>The contract of a closure walk\<close>

text \<open>
  What the callers of \<open>downstreamIds\<close>, \<open>upstreamIds\<close>, \<open>ancestors\<close> and \<open>descendants\<close> rely on:
  the walk over the edges \<open>es\<close> from \<open>x\<close> lists, once each, the nodes at the end of a non-empty
  path of the relation the walk follows.
\<close>

locale closure_walk =
  fixes walk :: "'n \<Rightarrow> 'e list \<Rightarrow> 'n list"
    and follows :: "'e list \<Rightarrow> ('n \<times> 'n) set"
  assumes set_walk: "set (walk x es) = {y. (x, y) \<in> (follows es)\<^sup>+}"
    and distinct_walk: "distinct (walk x es)"
begin

lemma walk_step: "(x, y) \<in> follows es \<Longrightarrow> y \<in> set (walk x es)"
  by (auto simp: set_walk)

lemma walk_trans: "y \<in> set (walk x es) \<Longrightarrow> z \<in> set (walk y es) \<Longrightarrow> z \<in> set (walk x es)"
  by (auto simp: set_walk)

lemma walk_subset: "y \<in> set (walk x es) \<Longrightarrow> set (walk y es) \<subseteq> set (walk x es)"
  using walk_trans by blast

lemma acyclic_iff_walk: "acyclic (follows es) \<longleftrightarrow> (\<forall>x. x \<notin> set (walk x es))"
  by (auto simp: acyclic_def set_walk)

lemma walk_mono: "follows es \<subseteq> follows es' \<Longrightarrow> set (walk x es) \<subseteq> set (walk x es')"
  by (auto simp: set_walk intro: trancl_mono)

text \<open>In an acyclic graph the walk orders the nodes: it is a strict order.\<close>

lemma walk_antisym:
  "acyclic (follows es) \<Longrightarrow> y \<in> set (walk x es) \<Longrightarrow> x \<notin> set (walk y es)"
  using acyclic_iff_walk walk_trans by blast

end

text \<open>Two walks over the same edges in opposite directions are each other's inverse.\<close>

locale walk_pair = down: closure_walk down follows_down + up: closure_walk up follows_up
  for down :: "'n \<Rightarrow> 'e list \<Rightarrow> 'n list" and follows_down
    and up :: "'n \<Rightarrow> 'e list \<Rightarrow> 'n list" and follows_up +
  assumes converse: "follows_up es = (follows_down es)\<inverse>"
begin

lemma walk_inverse: "x \<in> set (up y es) \<longleftrightarrow> y \<in> set (down x es)"
  by (simp add: down.set_walk up.set_walk converse trancl_converse)

end

end
