(* ===== verification/GraphModel.thy ===== *)
theory GraphModel
  imports Worklist
begin

text \<open>
  The canvas graph model, \<open>web/packages/dag-next/src/graph-model.ts\<close>: node identifiers, anchors
  and their parser, ports built from a component's inputs and outputs, the inputs of a node
  derived from the edges, the identifier rewriting of an imported graph, and the upstream and
  downstream walks.  Connection checking is in \<open>Connection\<close>.
\<close>

section \<open>Data\<close>

record io_def =
  io_name :: "string option"
  io_desc :: "string option"
  io_types :: "string list option"
  io_type :: "string option"

record component_io =
  cio_inputs :: "io_def list option"
  cio_outputs :: "io_def list option"

datatype port_group = Input | Output

record port_def =
  port_id :: string
  port_group :: port_group
  port_index :: nat
  port_name :: "string option"
  port_types :: "string list"

record graph_edge =
  edge_id :: string
  edge_source :: string
  edge_target :: string
  source_anchor :: "string option"
  target_anchor :: "string option"

section \<open>Identifiers and anchors\<close>

fun group_name :: "port_group \<Rightarrow> string" where
  "group_name Input = ''input''"
| "group_name Output = ''output''"

definition outputAnchor :: "string \<Rightarrow> nat \<Rightarrow> string" where
  "outputAnchor nodeId index = nodeId @ ''-output-'' @ show_nat index"

definition inputAnchor :: "string \<Rightarrow> nat \<Rightarrow> string" where
  "inputAnchor nodeId index = nodeId @ ''-input-'' @ show_nat index"

definition edgeIdOf :: "string \<Rightarrow> string \<Rightarrow> string" where
  "edgeIdOf sourceAnchor targetAnchor = sourceAnchor @ ''__'' @ targetAnchor"

definition nodeIdOf :: "string \<Rightarrow> nat \<Rightarrow> string" where
  "nodeIdOf graphId index = graphId @ ''-node-'' @ show_nat index"

text \<open>\<open>.\<close> of a regular expression matches everything but a line terminator.\<close>

definition no_line_break :: "string \<Rightarrow> bool" where
  "no_line_break s = list_all (\<lambda>c. c \<noteq> CHR 0x0A \<and> c \<noteq> CHR 0x0D) s"

text \<open>
  The match of \<open>/^(.*)-(input|output)-(\d+)$/\<close>, read from the end of the string: the digits of
  the last group are the whole run of digits at the end, since a \<open>-\<close> stands before them.
\<close>

definition drop_suffix :: "string \<Rightarrow> string \<Rightarrow> string option" where
  "drop_suffix p s =
     (if length p \<le> length s \<and> drop (length s - length p) s = p
      then Some (take (length s - length p) s) else None)"

definition trailing_digits :: "string \<Rightarrow> string \<times> string" where
  "trailing_digits s =
     (rev (dropWhile is_digit (rev s)), rev (takeWhile is_digit (rev s)))"

definition parseAnchor :: "string option \<Rightarrow> (string \<times> port_group \<times> nat) option" where
  "parseAnchor anchor =
     (if \<not> truthy anchor then None
      else let (front, ds) = trailing_digits (the anchor) in
        if ds = '''' then None
        else (case drop_suffix ''-input-'' front of
                Some n \<Rightarrow> if no_line_break n then Some (n, Input, parse_nat ds) else None
              | None \<Rightarrow>
                  (case drop_suffix ''-output-'' front of
                     Some n \<Rightarrow> if no_line_break n then Some (n, Output, parse_nat ds) else None
                   | None \<Rightarrow> None)))"

text \<open>\<open>/-node-(\d+)$/\<close>, and 0 where it does not match.\<close>

definition nodeIndexOf :: "string \<Rightarrow> nat" where
  "nodeIndexOf nodeId =
     (let (front, ds) = trailing_digits nodeId in
      if ds \<noteq> '''' \<and> drop_suffix ''-node-'' front \<noteq> None then parse_nat ds else 0)"

definition maxNodeIndex :: "string list \<Rightarrow> nat" where
  "maxNodeIndex nodeIds = foldl (\<lambda>m i. max m (nodeIndexOf i)) 0 nodeIds"

subsection \<open>The parser inverts the constructors\<close>

lemma drop_suffix_append [simp]: "drop_suffix p (s @ p) = Some s"
  by (simp add: drop_suffix_def)

lemma drop_suffix_Some: "drop_suffix p s = Some t \<longleftrightarrow> s = t @ p"
proof
  assume "drop_suffix p s = Some t"
  then show "s = t @ p"
    by (auto simp: drop_suffix_def split: if_splits) (metis append_take_drop_id)
qed simp

lemma trailing_digits_app:
  assumes "\<And>c. c \<in> set ds \<Longrightarrow> is_digit c" and "\<not> is_digit x"
  shows "trailing_digits (s @ x # ds) = (s @ [x], ds)"
proof -
  have "takeWhile is_digit (rev ds @ x # rev s) = rev ds \<and>
        dropWhile is_digit (rev ds @ x # rev s) = x # rev s"
    by (rule takeWhile_digits_append) (use assms in auto)
  then show ?thesis by (simp add: trailing_digits_def)
qed

lemma trailing_digits_join: "trailing_digits s = (f, ds) \<Longrightarrow> s = f @ ds"
  unfolding trailing_digits_def
  by (metis (no_types) prod.inject rev_append rev_rev_ident takeWhile_dropWhile_id)

lemma trailing_digits_digits: "trailing_digits s = (f, ds) \<Longrightarrow> c \<in> set ds \<Longrightarrow> is_digit c"
  by (auto simp: trailing_digits_def dest: set_takeWhileD)

lemma dash_not_digit [simp]: "\<not> is_digit (CHR ''-'')"
  by (simp add: is_digit_def)

lemma trailing_digits_dash:
  "trailing_digits (s @ CHR ''-'' # show_nat n) = (s @ ''-'', show_nat n)"
  by (rule trailing_digits_app) (auto dest: show_nat_digits)

lemma parseAnchor_input [anchor_simps]:
  "no_line_break n \<Longrightarrow> parseAnchor (Some (inputAnchor n i)) = Some (n, Input, i)"
  using trailing_digits_dash [of "n @ ''-input''" i] drop_suffix_append [of "''-input-''" n]
  by (simp add: parseAnchor_def inputAnchor_def del: drop_suffix_append)

lemma drop_input_of_output: "drop_suffix ''-input-'' (n @ ''-output-'') = None"
proof (rule ccontr)
  assume "drop_suffix ''-input-'' (n @ ''-output-'') \<noteq> None"
  then obtain t where "n @ ''-output-'' = t @ ''-input-''"
    by (auto simp: drop_suffix_Some)
  then have "rev (n @ ''-output-'') = rev (t @ ''-input-'')" by simp
  then show False by simp
qed

lemma parseAnchor_output [anchor_simps]:
  "no_line_break n \<Longrightarrow> parseAnchor (Some (outputAnchor n i)) = Some (n, Output, i)"
  using trailing_digits_dash [of "n @ ''-output''" i] drop_suffix_append [of "''-output-''" n]
    drop_input_of_output [of n]
  by (simp add: parseAnchor_def outputAnchor_def del: drop_suffix_append)

lemma nodeIndexOf_nodeIdOf [simp]: "nodeIndexOf (nodeIdOf g i) = i"
  using trailing_digits_dash [of "g @ ''-node''" i] drop_suffix_append [of "''-node-''" g]
  by (simp add: nodeIndexOf_def nodeIdOf_def del: drop_suffix_append)

text \<open>An anchor determines its node, its side and, up to leading zeros, its text.\<close>

lemma parseAnchor_Some:
  "parseAnchor (Some a) = Some (n, k, i) \<Longrightarrow>
   \<exists>ds. a = n @ ''-'' @ group_name k @ ''-'' @ ds \<and> ds \<noteq> [] \<and> (\<forall>c \<in> set ds. is_digit c) \<and> parse_nat ds = i"
proof -
  assume p: "parseAnchor (Some a) = Some (n, k, i)"
  obtain f ds where t: "trailing_digits a = (f, ds)" by force
  have "ds \<noteq> []" "f = n @ ''-'' @ group_name k @ ''-''" "parse_nat ds = i"
    using p by (auto simp: parseAnchor_def drop_suffix_Some Let_def t split: if_splits option.splits)
  with trailing_digits_join [OF t] trailing_digits_digits [OF t] show ?thesis by auto
qed

lemma parseAnchor_no_line_break: "parseAnchor a = Some (n, k, i) \<Longrightarrow> no_line_break n"
  by (auto simp: parseAnchor_def Let_def split: if_splits option.splits prod.splits)

lemma inputAnchor_inject [simp]: "inputAnchor n i = inputAnchor n j \<longleftrightarrow> i = j"
  by (simp add: inputAnchor_def)

lemma outputAnchor_inject [simp]: "outputAnchor n i = outputAnchor n j \<longleftrightarrow> i = j"
  by (simp add: outputAnchor_def)

lemma nodeIdOf_inject [simp]: "nodeIdOf g i = nodeIdOf g j \<longleftrightarrow> i = j"
  by (simp add: nodeIdOf_def)

lemma anchor_nonempty [simp]: "inputAnchor n i \<noteq> []" "outputAnchor n i \<noteq> []"
  by (simp_all add: inputAnchor_def outputAnchor_def)

lemma input_neq_output [simp]:
  assumes "no_line_break n" "no_line_break m"
  shows "inputAnchor n i \<noteq> outputAnchor m j"
proof
  assume "inputAnchor n i = outputAnchor m j"
  then have "parseAnchor (Some (inputAnchor n i)) = parseAnchor (Some (outputAnchor m j))" by simp
  with assms show False by (simp add: anchor_simps)
qed

lemma foldl_max_ge: "(m::nat) \<le> foldl (\<lambda>m i. max m (f i)) m xs"
proof (induction xs arbitrary: m)
  case (Cons x xs)
  from Cons [of "max m (f x)"] show ?case by simp
qed simp

lemma foldl_max_mem: "x \<in> set xs \<Longrightarrow> (f x :: nat) \<le> foldl (\<lambda>m i. max m (f i)) m xs"
proof (induction xs arbitrary: m)
  case (Cons y ys)
  then show ?case
    using foldl_max_ge [of "max m (f y)" f ys] by (auto intro: order_trans [rotated])
qed simp

lemma foldl_max_le:
  "(\<And>x. x \<in> set xs \<Longrightarrow> f x \<le> (b::nat)) \<Longrightarrow> m \<le> b \<Longrightarrow> foldl (\<lambda>m i. max m (f i)) m xs \<le> b"
  by (induction xs arbitrary: m) auto

lemma maxNodeIndex_ge: "n \<in> set ids \<Longrightarrow> nodeIndexOf n \<le> maxNodeIndex ids"
  by (simp add: maxNodeIndex_def foldl_max_mem)

section \<open>Ports\<close>

definition ioTypes :: "io_def option \<Rightarrow> string list" where
  "ioTypes io =
     (case io of
        None \<Rightarrow> []
      | Some d \<Rightarrow>
          (case io_types d of
             Some (t # ts) \<Rightarrow> t # ts
           | _ \<Rightarrow> if truthy (io_type d) then [the (io_type d)] else []))"

abbreviation REPORT :: string where "REPORT \<equiv> ''sf.report''"
abbreviation READ_DATA :: string where "READ_DATA \<equiv> ''sf.read_data''"

definition buildPorts :: "string \<Rightarrow> component_io option \<Rightarrow> port_def list" where
  "buildPorts nodeId def =
     (case def of
        None \<Rightarrow> []
      | Some d \<Rightarrow>
          map (\<lambda>(i, io). \<lparr>port_id = inputAnchor nodeId i, port_group = Input, port_index = i,
                           port_name = io_name io, port_types = ioTypes (Some io)\<rparr>)
              (enumerate 0 (nullish (cio_inputs d) []))
          @ map (\<lambda>(i, io). \<lparr>port_id = outputAnchor nodeId i, port_group = Output, port_index = i,
                             port_name = io_name io, port_types = ioTypes (Some io)\<rparr>)
              (filter (\<lambda>(i, io). at_opt (ioTypes (Some io)) 0 \<noteq> Some REPORT \<and>
                                 at_opt (ioTypes (Some io)) 0 \<noteq> Some READ_DATA)
                 (enumerate 0 (nullish (cio_outputs d) []))))"

definition buildOutputIds :: "string \<Rightarrow> component_io option \<Rightarrow> string list" where
  "buildOutputIds nodeId def =
     map (\<lambda>(i, _). outputAnchor nodeId i)
         (enumerate 0 (case def of None \<Rightarrow> [] | Some d \<Rightarrow> nullish (cio_outputs d) []))"

record result_output =
  ro_id :: string
  ro_name :: "string option"
  ro_type :: string

text \<open>\<open>(types[0] || '').split('.')[1] || 'table'\<close>.\<close>

definition result_type :: "string list \<Rightarrow> string" where
  "result_type types = str_or (at_opt (split_on CHR ''.'' (str_or (at_opt types 0) '''')) 1) ''table''"

definition buildResultOutputs :: "string \<Rightarrow> component_io option \<Rightarrow> result_output list" where
  "buildResultOutputs nodeId def =
     map (\<lambda>(i, io). \<lparr>ro_id = outputAnchor nodeId i, ro_name = io_name io,
                      ro_type = result_type (ioTypes (Some io))\<rparr>)
         (filter (\<lambda>(i, io). at_opt (ioTypes (Some io)) 0 \<noteq> Some READ_DATA)
            (enumerate 0 (case def of None \<Rightarrow> [] | Some d \<Rightarrow> nullish (cio_outputs d) [])))"

lemma map_fst_comp: "map (\<lambda>p. f (fst p)) ps = map f (map fst ps)"
  by simp

lemma port_ids_distinct:
  assumes "no_line_break n"
  shows "distinct (map port_id (buildPorts n def))"
proof (cases def)
  case (Some d)
  let ?ins = "enumerate 0 (nullish (cio_inputs d) [])"
  let ?outs = "filter (\<lambda>(i, io). at_opt (ioTypes (Some io)) 0 \<noteq> Some REPORT \<and>
                                 at_opt (ioTypes (Some io)) 0 \<noteq> Some READ_DATA)
                 (enumerate 0 (nullish (cio_outputs d) []))"
  have "map port_id (buildPorts n def) = map (inputAnchor n) (map fst ?ins) @ map (outputAnchor n) (map fst ?outs)"
    unfolding Some buildPorts_def option.case map_append map_map comp_def case_prod_beta
    by (simp only: port_def.simps map_fst_comp [symmetric] comp_def)
  moreover have "distinct (map fst ?outs)"
    by (rule distinct_map_filter) simp
  ultimately show ?thesis
    using assms by (auto simp: distinct_map inj_on_def)
qed (simp add: buildPorts_def)

section \<open>The inputs of a node\<close>

text \<open>
  The sparse array \<open>slots\<close> and the largest index written so far; a later edge into the same slot
  overwrites.  The result has no holes: an unused slot is the empty string.
\<close>

definition derive_step ::
  "string \<Rightarrow> (nat \<rightharpoonup> string) \<times> int \<Rightarrow> graph_edge \<Rightarrow> (nat \<rightharpoonup> string) \<times> int" where
  "derive_step nodeId st e =
     (if edge_target e \<noteq> nodeId then st
      else (case parseAnchor (target_anchor e) of
              None \<Rightarrow> st
            | Some (_, _, i) \<Rightarrow>
                if \<not> truthy (source_anchor e) then st
                else ((fst st)(i \<mapsto> the (source_anchor e)), max (snd st) (int i))))"

definition deriveInputs :: "string \<Rightarrow> graph_edge list \<Rightarrow> string list" where
  "deriveInputs nodeId edges =
     (let (slots, mx) = foldl (derive_step nodeId) (Map.empty, -1) edges
      in map (\<lambda>i. nullish (slots i) '''') [0..<nat (mx + 1)])"

text \<open>
  The same function without the sparse array: the slots the edges fill, in edge order.  What it
  returns depends on nothing else.
\<close>

definition fill_of :: "string \<Rightarrow> graph_edge \<Rightarrow> (nat \<times> string) option" where
  "fill_of nodeId e =
     (if edge_target e = nodeId \<and> truthy (source_anchor e)
      then map_option (\<lambda>(_, _, i). (i, the (source_anchor e))) (parseAnchor (target_anchor e))
      else None)"

definition fills :: "string \<Rightarrow> graph_edge list \<Rightarrow> (nat \<times> string) list" where
  "fills nodeId edges = List.map_filter (fill_of nodeId) edges"

definition slot_count :: "(nat \<times> string) list \<Rightarrow> nat" where
  "slot_count fs = foldl (\<lambda>m p. max m (Suc (fst p))) 0 fs"

lemma fills_simps [simp]:
  "fills n [] = []"
  "fills n (e # es) = (case fill_of n e of None \<Rightarrow> fills n es | Some p \<Rightarrow> p # fills n es)"
  by (auto simp: fills_def List.map_filter_def split: option.splits)

lemma fills_append [simp]: "fills n (es @ es') = fills n es @ fills n es'"
  by (induction es) (auto split: option.splits)

lemma fills_filter:
  "(\<And>e. e \<in> set es \<Longrightarrow> fill_of n e \<noteq> None \<Longrightarrow> P e) \<Longrightarrow> fills n (filter P es) = fills n es"
  by (induction es) (auto split: option.splits)

lemma fills_map: "(\<And>e. e \<in> set es \<Longrightarrow> fill_of n (f e) = fill_of m e) \<Longrightarrow> fills n (map f es) = fills m es"
  by (induction es) (auto split: option.splits)

lemma derive_step_fill_of:
  "derive_step n (slots, mx) e =
     (case fill_of n e of None \<Rightarrow> (slots, mx) | Some (i, s) \<Rightarrow> (slots(i \<mapsto> s), max mx (int i)))"
  by (auto simp: derive_step_def fill_of_def split: option.splits)

lemma derive_fold_fills:
  "foldl (derive_step n) (slots, int k - 1) es =
     (slots ++ map_of (rev (fills n es)),
      int (foldl (\<lambda>m p. max m (Suc (fst p))) k (fills n es)) - 1)"
proof (induction es arbitrary: slots k)
  case (Cons e es)
  show ?case
  proof (cases "fill_of n e")
    case None
    with Cons show ?thesis by (simp add: derive_step_fill_of)
  next
    case (Some p)
    obtain i s where p: "p = (i, s)" by (cases p)
    have mx: "max (int k - 1) (int i) = int (max k (Suc i)) - 1" by auto
    show ?thesis
      using Cons [of "slots(i \<mapsto> s)" "max k (Suc i)"]
      by (simp add: Some p derive_step_fill_of mx map_add_assoc [symmetric]) (simp add: map_add_def fun_upd_def)
  qed
qed simp

theorem deriveInputs_fills:
  "deriveInputs n es = map (\<lambda>i. nullish (map_of (rev (fills n es)) i) '''') [0..<slot_count (fills n es)]"
  using derive_fold_fills [of n Map.empty 0 es]
  by (simp add: deriveInputs_def slot_count_def)

lemma deriveInputs_cong: "fills n es = fills m es' \<Longrightarrow> deriveInputs n es = deriveInputs m es'"
  by (simp add: deriveInputs_fills)

lemma slot_count_bound: "(i, s) \<in> set fs \<Longrightarrow> i < slot_count fs"
  using foldl_max_mem [of "(i, s)" fs "\<lambda>p. Suc (fst p)" 0] by (simp add: slot_count_def)

lemma fill_of_nonempty: "fill_of n e = Some (i, s) \<Longrightarrow> s \<noteq> ''''"
  by (auto simp: fill_of_def truthy_iff split: if_splits)

lemma fills_mem: "(i, s) \<in> set (fills n es) \<longleftrightarrow> (\<exists>e \<in> set es. fill_of n e = Some (i, s))"
  by (induction es) (auto split: option.splits)

text \<open>A filled slot holds the source anchor of an edge; every other position is empty.\<close>

lemma deriveInputs_at:
  "i < length (deriveInputs n es) \<Longrightarrow>
   deriveInputs n es ! i = nullish (map_of (rev (fills n es)) i) ''''"
  by (simp add: deriveInputs_fills)

lemma deriveInputs_single:
  assumes "e \<in> set es" "fill_of n e = Some (i, s)"
    and unique: "\<And>e' s'. e' \<in> set es \<Longrightarrow> fill_of n e' = Some (i, s') \<Longrightarrow> s' = s"
  shows "i < length (deriveInputs n es) \<and> deriveInputs n es ! i = s"
proof -
  have mem: "(i, s) \<in> set (fills n es)" unfolding fills_mem using assms(1,2) by blast
  then have "i < length (deriveInputs n es)"
    using slot_count_bound [OF mem] by (simp add: deriveInputs_fills)
  moreover have "map_of (rev (fills n es)) i = Some s"
  proof -
    obtain s' where s': "map_of (rev (fills n es)) i = Some s'"
      using mem weak_map_of_SomeI [of i s "rev (fills n es)"] by auto
    then have "(i, s') \<in> set (fills n es)" by (auto dest: map_of_SomeD)
    with unique have "s' = s" unfolding fills_mem by blast
    with s' show ?thesis by simp
  qed
  ultimately show ?thesis by (simp add: deriveInputs_at)
qed

lemma deriveInputs_mem:
  assumes "i < length (deriveInputs n es)" "deriveInputs n es ! i \<noteq> ''''"
  shows "\<exists>e \<in> set es. fill_of n e = Some (i, deriveInputs n es ! i)"
proof -
  have "map_of (rev (fills n es)) i = Some (deriveInputs n es ! i)"
    using assms by (cases "map_of (rev (fills n es)) i") (simp_all add: deriveInputs_at)
  then have "(i, deriveInputs n es ! i) \<in> set (fills n es)"
    by (auto dest: map_of_SomeD)
  then show ?thesis by (simp add: fills_mem)
qed

section \<open>Walks along the edges\<close>

text \<open>The pairs a walk follows: from source to target downstream, from target to source upstream.\<close>

abbreviation arrows :: "graph_edge list \<Rightarrow> (string \<times> string) list" where
  "arrows edges \<equiv> map (\<lambda>e. (edge_source e, edge_target e)) edges"

abbreviation reversed_arrows :: "graph_edge list \<Rightarrow> (string \<times> string) list" where
  "reversed_arrows edges \<equiv> map (\<lambda>e. (edge_target e, edge_source e)) edges"

definition edge_rel :: "graph_edge list \<Rightarrow> (string \<times> string) set" where
  "edge_rel edges = set (arrows edges)"

definition downstreamIds :: "string \<Rightarrow> graph_edge list \<Rightarrow> string list" where
  "downstreamIds nodeId edges = traverse Fifo (arrows edges) [nodeId] []"

definition upstreamIds :: "string \<Rightarrow> graph_edge list \<Rightarrow> string list" where
  "upstreamIds nodeId edges = traverse Fifo (reversed_arrows edges) [nodeId] []"

lemma set_reversed_arrows: "set (reversed_arrows es) = (edge_rel es)\<inverse>"
  by (auto simp: edge_rel_def)

interpretation canvas_walks: walk_pair
  downstreamIds edge_rel upstreamIds "\<lambda>es. (edge_rel es)\<inverse>"
  by unfold_locales
     (simp_all only: downstreamIds_def upstreamIds_def traverse_trancl traverse_distinct
        set_reversed_arrows distinct.simps(1) simp_thms, simp_all add: edge_rel_def)

text \<open>
  \<open>isReachable\<close>: a depth-first search with a stack that stops at the first edge into \<open>to\<close>.
  \<open>None\<close> is the early \<open>return true\<close>; otherwise the new contents of \<open>seen\<close> and \<open>stack\<close>.
\<close>

definition successors :: "string \<Rightarrow> graph_edge list \<Rightarrow> string list" where
  "successors n edges = map edge_target (filter (\<lambda>e. edge_source e = n) edges)"

fun scan_to :: "string \<Rightarrow> string list \<Rightarrow> string list \<Rightarrow> string list \<Rightarrow> (string list \<times> string list) option" where
  "scan_to goal [] seen stack = Some (seen, stack)"
| "scan_to goal (nxt # rest) seen stack =
     (if nxt = goal then None
      else if nxt \<in> set seen then scan_to goal rest seen stack
      else scan_to goal rest (seen @ [nxt]) (stack @ [nxt]))"

lemma scan_to_Some:
  "scan_to goal ns seen stack = Some (seen', stack') \<Longrightarrow>
   goal \<notin> set ns \<and> (\<exists>new. seen' = seen @ new \<and> stack' = stack @ new \<and> distinct new \<and>
     set new = set ns - set seen)"
proof (induction goal ns seen stack rule: scan_to.induct)
  case (2 goal nxt rest seen stack)
  show ?case
  proof (cases "nxt \<in> set seen")
    case True
    with 2 show ?thesis by (auto split: if_splits)
  next
    case False
    with "2.prems" have nxt: "nxt \<noteq> goal" and
      rec: "scan_to goal rest (seen @ [nxt]) (stack @ [nxt]) = Some (seen', stack')"
      by (auto split: if_splits)
    from "2.IH"(2) [OF nxt False rec] obtain new where
      "goal \<notin> set rest" "seen' = seen @ [nxt] @ new" "stack' = stack @ [nxt] @ new"
      "distinct new" "set new = set rest - set (seen @ [nxt])" by auto
    with nxt False show ?thesis
      by (intro conjI exI [of _ "nxt # new"]) auto
  qed
qed simp

lemma scan_to_None: "scan_to goal ns seen stack = None \<longleftrightarrow> goal \<in> set ns"
  by (induction goal ns seen stack rule: scan_to.induct) auto

lemma set_successors: "set (successors n es) = {b. (n, b) \<in> edge_rel es}"
  by (auto simp: successors_def edge_rel_def image_iff)

function reach_loop :: "string \<Rightarrow> graph_edge list \<Rightarrow> string list \<Rightarrow> string list \<Rightarrow> bool" where
  "reach_loop goal edges seen stack =
     (if stack = [] then False
      else (case scan_to goal (successors (last stack) edges) seen (butlast stack) of
              None \<Rightarrow> True
            | Some (seen', stack') \<Rightarrow> reach_loop goal edges seen' stack'))"
  by pat_completeness auto
termination
proof (relation "measure (\<lambda>(goal, es, seen, stack).
      card (edge_target ` set es - set seen) + length stack)")
  fix goal :: string and es seen stack p seen' stack'
  assume *: "stack \<noteq> []" "scan_to goal (successors (last stack) es) seen (butlast stack) = Some p"
    "(seen', stack') = p"
  then obtain new where new: "seen' = seen @ new" "stack' = butlast stack @ new" "distinct new"
      "set new = set (successors (last stack) es) - set seen"
    using scan_to_Some by metis
  have sub: "set new \<subseteq> edge_target ` set es - set seen"
    using new(4) by (auto simp: successors_def)
  have "edge_target ` set es - set seen' = (edge_target ` set es - set seen) - set new"
    using new(1) by auto
  then have "card (edge_target ` set es - set seen') + length new = card (edge_target ` set es - set seen)"
    using sub card_mono [OF _ sub] distinct_card [OF new(3)] by (simp add: card_Diff_subset)
  with * new(2) show "((goal, es, seen', stack'), goal, es, seen, stack) \<in>
      measure (\<lambda>(goal, es, seen, stack). card (edge_target ` set es - set seen) + length stack)"
    by (cases stack) auto
qed simp

declare reach_loop.simps [simp del]

definition isReachable :: "string \<Rightarrow> string \<Rightarrow> graph_edge list \<Rightarrow> bool" where
  "isReachable from to edges = (from = to \<or> reach_loop to edges [from] [from])"

lemma reach_loop_sound:
  "reach_loop goal es seen stack \<Longrightarrow> (\<And>n. n \<in> set stack \<Longrightarrow> (x, n) \<in> (edge_rel es)\<^sup>*) \<Longrightarrow>
   (x, goal) \<in> (edge_rel es)\<^sup>*"
proof (induction goal es seen stack rule: reach_loop.induct)
  case (1 goal es seen stack)
  from "1.prems"(1) have ne: "stack \<noteq> []" by (auto simp: reach_loop.simps)
  show ?case
  proof (cases "scan_to goal (successors (last stack) es) seen (butlast stack)")
    case None
    then have "(last stack, goal) \<in> edge_rel es" by (simp add: scan_to_None set_successors)
    with "1.prems"(2) [OF last_in_set [OF ne]] show ?thesis by auto
  next
    case (Some p)
    obtain seen' stack' where p: "p = (seen', stack')" by (cases p)
    obtain new where new: "stack' = butlast stack @ new"
      "set new = set (successors (last stack) es) - set seen"
      using scan_to_Some [OF Some [unfolded p]] by blast
    have sub: "set stack' \<subseteq> set (butlast stack) \<union> set (successors (last stack) es)"
      unfolding new(1) set_append using new(2) by blast
    have "(x, n) \<in> (edge_rel es)\<^sup>*" if "n \<in> set stack'" for n
    proof (cases "n \<in> set (butlast stack)")
      case True
      then have "n \<in> set stack" by (rule in_set_butlastD)
      then show ?thesis by (rule "1.prems"(2))
    next
      case False
      with sub that have "(last stack, n) \<in> edge_rel es" by (auto simp: set_successors)
      with "1.prems"(2) [OF last_in_set [OF ne]] show ?thesis by auto
    qed
    moreover have "reach_loop goal es seen' stack'"
      using "1.prems"(1) ne Some p by (subst (asm) reach_loop.simps) simp
    ultimately show ?thesis using "1.IH" ne Some p by auto
  qed
qed

text \<open>
  A failed search has seen a set closed under the edges that does not contain the goal's
  predecessors.
\<close>

lemma reach_loop_complete:
  "\<not> reach_loop goal es seen stack \<Longrightarrow> set stack \<subseteq> set seen \<Longrightarrow>
   (\<And>a b. a \<in> set seen - set stack \<Longrightarrow> (a, b) \<in> edge_rel es \<Longrightarrow> b \<in> set seen \<and> b \<noteq> goal) \<Longrightarrow>
   \<exists>C. set seen \<subseteq> C \<and> (\<forall>a b. a \<in> C \<longrightarrow> (a, b) \<in> edge_rel es \<longrightarrow> b \<in> C \<and> b \<noteq> goal)"
proof (induction goal es seen stack rule: reach_loop.induct)
  case (1 goal es seen stack)
  show ?case
  proof (cases "stack = []")
    case True
    with "1.prems"(3) show ?thesis by (intro exI [of _ "set seen"]) auto
  next
    case ne: False
    with "1.prems"(1) obtain seen' stack' where
      sc: "scan_to goal (successors (last stack) es) seen (butlast stack) = Some (seen', stack')"
      and rec: "\<not> reach_loop goal es seen' stack'"
      by (subst (asm) reach_loop.simps) (auto split: option.splits)
    from scan_to_Some [OF sc] obtain new where new: "goal \<notin> set (successors (last stack) es)"
      "seen' = seen @ new" "stack' = butlast stack @ new"
      "set new = set (successors (last stack) es) - set seen" by auto
    have "set stack' \<subseteq> set seen'"
      using new "1.prems"(2) by (auto dest: in_set_butlastD)
    moreover have "b \<in> set seen' \<and> b \<noteq> goal" if ab: "a \<in> set seen' - set stack'" "(a, b) \<in> edge_rel es" for a b
    proof (cases "a = last stack")
      case True
      with ab(2) have "b \<in> set (successors (last stack) es)" by (simp add: set_successors)
      with new show ?thesis by auto
    next
      case False
      have "stack = butlast stack @ [last stack]" using ne by simp
      then have "set stack = insert (last stack) (set (butlast stack))"
        by (metis list.simps(15) rotate1.simps(2) set_append set_rotate1 Un_insert_right append.right_neutral)
      with False ab(1) new have "a \<in> set seen - set stack" by auto
      with "1.prems"(3) [OF this ab(2)] new show ?thesis by auto
    qed
    ultimately obtain C where "set seen' \<subseteq> C" "\<forall>a b. a \<in> C \<longrightarrow> (a, b) \<in> edge_rel es \<longrightarrow> b \<in> C \<and> b \<noteq> goal"
      using "1.IH" [OF ne sc refl rec] by blast
    with new(2) show ?thesis by auto
  qed
qed

lemma isReachable_rtrancl: "isReachable x y es \<longleftrightarrow> (x, y) \<in> (edge_rel es)\<^sup>*"
proof
  assume "isReachable x y es"
  then show "(x, y) \<in> (edge_rel es)\<^sup>*"
    by (auto simp: isReachable_def intro: reach_loop_sound)
next
  assume path: "(x, y) \<in> (edge_rel es)\<^sup>*"
  show "isReachable x y es"
  proof (rule ccontr)
    assume neg: "\<not> isReachable x y es"
    then obtain C where C: "x \<in> C" "\<And>a b. a \<in> C \<Longrightarrow> (a, b) \<in> edge_rel es \<Longrightarrow> b \<in> C \<and> b \<noteq> y"
      using reach_loop_complete [of y es "[x]" "[x]"] by (auto simp: isReachable_def)
    from path have "y \<in> C \<and> (x = y \<or> (\<exists>a \<in> C. (a, y) \<in> edge_rel es))"
    proof (induction rule: rtrancl_induct)
      case (step a b)
      then have "a \<in> C" by simp
      with step.hyps(2) C(2) [of a b] show ?case by blast
    qed (use C in simp)
    with C neg show False by (auto simp: isReachable_def)
  qed
qed

end
