(* ===== verification/Connection.thy ===== *)
theory Connection
  imports GraphModel
begin

text \<open>
  Connection checking of \<open>graph-model.ts\<close>: \<open>validateConnection\<close>, which decides whether an edge may
  be drawn, and \<open>pickConnection\<close>, which chooses the ports of a click-to-connect gesture.
\<close>

section \<open>Checking one candidate\<close>

datatype connection_error = SELF | NO_PORT | DIRECTION | TYPE_CLASH | DUPLICATE | OCCUPIED | CYCLE

record candidate =
  cand_source :: string
  cand_target :: string
  cand_source_anchor :: string
  cand_target_anchor :: string

text \<open>The context of a check: the edges of the canvas, and the ports of a node when known.\<close>

record conn_ctx =
  ctx_edges :: "graph_edge list"
  ctx_portsOf :: "string \<Rightarrow> port_def list option"

definition find_port :: "port_def list option \<Rightarrow> string \<Rightarrow> port_def option" where
  "find_port ports a = (case ports of None \<Rightarrow> None | Some ps \<Rightarrow> List.find (\<lambda>p. port_id p = a) ps)"

text \<open>\<open>ports && ports.length > 0 && !port\<close>: the ports are known and the anchor is none of them.\<close>

definition port_missing :: "port_def list option \<Rightarrow> string \<Rightarrow> bool" where
  "port_missing ports a = (nullish ports [] \<noteq> [] \<and> find_port ports a = None)"

text \<open>Both ports are known and typed, and no type is common.\<close>

definition types_clash :: "port_def option \<Rightarrow> port_def option \<Rightarrow> bool" where
  "types_clash src tgt =
     (case (src, tgt) of
        (Some s, Some t) \<Rightarrow> port_types s \<noteq> [] \<and> port_types t \<noteq> [] \<and>
                            \<not> list_ex (\<lambda>x. x \<in> set (port_types t)) (port_types s)
      | _ \<Rightarrow> False)"

definition validateConnection :: "candidate \<Rightarrow> conn_ctx \<Rightarrow> connection_error + unit" where
  "validateConnection c ctx =
     (let source = cand_source c; target = cand_target c;
          sa = cand_source_anchor c; ta = cand_target_anchor c in
      if source = target then Inl SELF
      else
       (let srcPorts = ctx_portsOf ctx source; tgtPorts = ctx_portsOf ctx target in
        case (parseAnchor (Some sa), parseAnchor (Some ta)) of
          (Some (sn, sk, _), Some (tn, tk, _)) \<Rightarrow>
            (if sk \<noteq> Output \<or> tk \<noteq> Input then Inl DIRECTION
             else if sn \<noteq> source \<or> tn \<noteq> target then Inl DIRECTION
             else if port_missing srcPorts sa then Inl NO_PORT
             else if port_missing tgtPorts ta then Inl NO_PORT
             else if types_clash (find_port srcPorts sa) (find_port tgtPorts ta) then Inl TYPE_CLASH
             else if list_ex (\<lambda>e. source_anchor e = Some sa \<and> target_anchor e = Some ta) (ctx_edges ctx)
               then Inl DUPLICATE
             else if list_ex (\<lambda>e. target_anchor e = Some ta) (ctx_edges ctx) then Inl OCCUPIED
             else if isReachable target source (ctx_edges ctx) then Inl CYCLE
             else Inr ())
        | _ \<Rightarrow> Inl NO_PORT))"

text \<open>
  What an accepted candidate is, without the order of the checks.
\<close>

definition acceptable :: "candidate \<Rightarrow> conn_ctx \<Rightarrow> bool" where
  "acceptable c ctx \<longleftrightarrow>
     cand_source c \<noteq> cand_target c \<and>
     (\<exists>i. parseAnchor (Some (cand_source_anchor c)) = Some (cand_source c, Output, i)) \<and>
     (\<exists>j. parseAnchor (Some (cand_target_anchor c)) = Some (cand_target c, Input, j)) \<and>
     \<not> port_missing (ctx_portsOf ctx (cand_source c)) (cand_source_anchor c) \<and>
     \<not> port_missing (ctx_portsOf ctx (cand_target c)) (cand_target_anchor c) \<and>
     \<not> types_clash (find_port (ctx_portsOf ctx (cand_source c)) (cand_source_anchor c))
                   (find_port (ctx_portsOf ctx (cand_target c)) (cand_target_anchor c)) \<and>
     (\<forall>e \<in> set (ctx_edges ctx). target_anchor e \<noteq> Some (cand_target_anchor c)) \<and>
     (cand_target c, cand_source c) \<notin> (edge_rel (ctx_edges ctx))\<^sup>*"

lemma validateConnection_ok: "validateConnection c ctx = Inr () \<longleftrightarrow> acceptable c ctx"
  by (auto simp: validateConnection_def acceptable_def Let_def list_ex_iff isReachable_rtrancl
      split: option.splits prod.splits)

lemma validateConnection_cycle:
  "validateConnection c ctx = Inl CYCLE \<Longrightarrow> (cand_target c, cand_source c) \<in> (edge_rel (ctx_edges ctx))\<^sup>*"
  by (auto simp: validateConnection_def Let_def isReachable_rtrancl split: option.splits prod.splits if_splits)

section \<open>Choosing the ports\<close>

text \<open>
  The two nested loops over the free ports: every rejection but \<open>CYCLE\<close> is recorded in
  \<open>reasons\<close>.  \<open>Inl\<close> is an early return, \<open>Inr\<close> the reasons gathered so far.
\<close>

type_synonym pick_result = "connection_error + candidate"

fun pick_outputs ::
  "string \<Rightarrow> string \<Rightarrow> conn_ctx \<Rightarrow> port_def \<Rightarrow> port_def list \<Rightarrow> connection_error list
   \<Rightarrow> pick_result + connection_error list" where
  "pick_outputs source target ctx inp [] reasons = Inr reasons"
| "pick_outputs source target ctx inp (out # outs) reasons =
     (let c = \<lparr>cand_source = source, cand_target = target,
               cand_source_anchor = port_id out, cand_target_anchor = port_id inp\<rparr>
      in case validateConnection c ctx of
           Inr _ \<Rightarrow> Inl (Inr c)
         | Inl r \<Rightarrow> if r = CYCLE then Inl (Inl CYCLE)
                   else pick_outputs source target ctx inp outs (reasons @ [r]))"

fun pick_inputs ::
  "string \<Rightarrow> string \<Rightarrow> conn_ctx \<Rightarrow> port_def list \<Rightarrow> port_def list \<Rightarrow> connection_error list
   \<Rightarrow> pick_result + connection_error list" where
  "pick_inputs source target ctx [] outs reasons = Inr reasons"
| "pick_inputs source target ctx (inp # ins) outs reasons =
     (case pick_outputs source target ctx inp outs reasons of
        Inl r \<Rightarrow> Inl r
      | Inr reasons' \<Rightarrow> pick_inputs source target ctx ins outs reasons')"

definition reason_priority :: "connection_error list" where
  "reason_priority = [DUPLICATE, OCCUPIED, TYPE_CLASH, NO_PORT, DIRECTION]"

definition ports_in_group :: "port_group \<Rightarrow> port_def list option \<Rightarrow> port_def list" where
  "ports_in_group g ports = filter (\<lambda>p. port_group p = g) (nullish ports [])"

definition pickConnection :: "string \<Rightarrow> string \<Rightarrow> conn_ctx \<Rightarrow> pick_result" where
  "pickConnection source target ctx =
     (if source = target then Inl SELF
      else let outs = ports_in_group Output (ctx_portsOf ctx source);
               ins = ports_in_group Input (ctx_portsOf ctx target) in
        if outs = [] \<or> ins = [] then Inl NO_PORT
        else (case pick_inputs source target ctx ins outs [] of
                Inl r \<Rightarrow> r
              | Inr reasons \<Rightarrow>
                  Inl (nullish (List.find (\<lambda>r. r \<in> set reasons) reason_priority) TYPE_CLASH)))"

abbreviation port_pair :: "string \<Rightarrow> string \<Rightarrow> port_def \<Rightarrow> port_def \<Rightarrow> candidate" where
  "port_pair source target inp out \<equiv>
     \<lparr>cand_source = source, cand_target = target,
      cand_source_anchor = port_id out, cand_target_anchor = port_id inp\<rparr>"

lemma pick_outputs_result:
  "(case pick_outputs s t ctx inp outs rs of
      Inl (Inr c) \<Rightarrow> validateConnection c ctx = Inr () \<and> (\<exists>out \<in> set outs. c = port_pair s t inp out)
    | Inl (Inl r) \<Rightarrow> r = CYCLE \<and> (t, s) \<in> (edge_rel (ctx_edges ctx))\<^sup>*
    | Inr rs' \<Rightarrow> (\<forall>out \<in> set outs. validateConnection (port_pair s t inp out) ctx \<noteq> Inr ()) \<and>
                set rs' = set rs \<union> {r. \<exists>out \<in> set outs. validateConnection (port_pair s t inp out) ctx = Inl r} \<and>
                (CYCLE \<in> set rs' \<longrightarrow> CYCLE \<in> set rs))"
proof (induction s t ctx inp outs rs rule: pick_outputs.induct)
  case (2 s t ctx inp out outs rs)
  show ?case
  proof (cases "validateConnection (port_pair s t inp out) ctx")
    case (Inr u)
    then show ?thesis by (cases u) auto
  next
    case (Inl r)
    show ?thesis
    proof (cases "r = CYCLE")
      case True
      with Inl validateConnection_cycle [of "port_pair s t inp out" ctx] show ?thesis by simp
    next
      case False
      with "2.IH" [OF refl Inl False] Inl show ?thesis
        by (auto split: sum.splits)
    qed
  qed
qed simp

lemma pick_inputs_result:
  "(case pick_inputs s t ctx ins outs rs of
      Inl (Inr c) \<Rightarrow> validateConnection c ctx = Inr () \<and>
        (\<exists>inp \<in> set ins. \<exists>out \<in> set outs. c = port_pair s t inp out)
    | Inl (Inl r) \<Rightarrow> r = CYCLE \<and> (t, s) \<in> (edge_rel (ctx_edges ctx))\<^sup>*
    | Inr rs' \<Rightarrow> (\<forall>inp \<in> set ins. \<forall>out \<in> set outs. validateConnection (port_pair s t inp out) ctx \<noteq> Inr ()) \<and>
        set rs' = set rs \<union> {r. \<exists>inp \<in> set ins. \<exists>out \<in> set outs. validateConnection (port_pair s t inp out) ctx = Inl r} \<and>
        (CYCLE \<in> set rs' \<longrightarrow> CYCLE \<in> set rs))"
proof (induction s t ctx ins outs rs rule: pick_inputs.induct)
  case (2 s t ctx inp ins outs rs)
  show ?case
  proof (cases "pick_outputs s t ctx inp outs rs")
    case (Inl p)
    with pick_outputs_result [where s = s and t = t and ctx = ctx and inp = inp and outs = outs and rs = rs] show ?thesis
      by (cases p) auto
  next
    case (Inr rs')
    with pick_outputs_result [where s = s and t = t and ctx = ctx and inp = inp and outs = outs and rs = rs] "2.IH" [OF Inr] show ?thesis
      by (auto split: sum.splits)
  qed
qed simp

lemma pickConnection_sound:
  "pickConnection s t ctx = Inr c \<Longrightarrow>
   acceptable c ctx \<and>
   (\<exists>inp \<in> set (ports_in_group Input (ctx_portsOf ctx t)).
      \<exists>out \<in> set (ports_in_group Output (ctx_portsOf ctx s)). c = port_pair s t inp out)"
  using pick_inputs_result [where s = s and t = t and ctx = ctx
      and ins = "ports_in_group Input (ctx_portsOf ctx t)"
      and outs = "ports_in_group Output (ctx_portsOf ctx s)" and rs = "[]"]
  by (auto simp: pickConnection_def Let_def validateConnection_ok split: if_splits sum.splits)

text \<open>A rejected gesture has no acceptable pair of ports at all.\<close>

lemma pickConnection_complete:
  assumes "pickConnection s t ctx = Inl r"
    and "inp \<in> set (ports_in_group Input (ctx_portsOf ctx t))"
    and "out \<in> set (ports_in_group Output (ctx_portsOf ctx s))"
  shows "\<not> acceptable (port_pair s t inp out) ctx"
proof (cases "s = t")
  case True
  then show ?thesis by (simp add: acceptable_def)
next
  case False
  let ?ins = "ports_in_group Input (ctx_portsOf ctx t)" and ?outs = "ports_in_group Output (ctx_portsOf ctx s)"
  show ?thesis
  proof (cases "pick_inputs s t ctx ?ins ?outs []")
    case (Inl p)
    with assms False have "p = Inl r"
      by (auto simp: pickConnection_def Let_def split: if_splits)
    with Inl pick_inputs_result [where s = s and t = t and ctx = ctx and ins = ?ins and outs = ?outs and rs = "[]"] show ?thesis
      by (simp add: acceptable_def)
  next
    case (Inr rs)
    with assms pick_inputs_result [where s = s and t = t and ctx = ctx and ins = ?ins and outs = ?outs and rs = "[]"] show ?thesis
      by (auto simp: validateConnection_ok)
  qed
qed

end
