(* ===== verification/Canvas.thy ===== *)
theory Canvas
  imports Connection Status JsValue
begin

text \<open>
  The editing operations of the canvas that change edges, \<open>web/packages/dag-next/src/index.tsx\<close>:
  \<open>commitEdge\<close>, \<open>handleConnect\<close>, \<open>handleDeleteEdge\<close>, \<open>handleDeleteNodes\<close> and
  \<open>applyImportedGraph\<close>, with \<open>remapImportedGraph\<close> and \<open>clearNodeDefAttrs\<close> of
  \<open>graph-model.ts\<close>.  Selection, history and drawing are not part of the state here.
  A node carries the fields these operations read or write, its place and its status.
\<close>

section \<open>State\<close>

record dag_node =
  node_id :: string
  node_name :: string
  node_status :: dag_status
  node_x :: rat
  node_y :: rat
  node_progress :: "rat option"
  node_codeName :: "string option"
  node_def :: "jsobj option"
  node_inputs :: "string list option"
  node_outputs :: "string list option"
  node_ports :: "port_def list option"
  node_results :: "result_output list option"
  node_category :: string
  node_icon :: string
  node_configFinished :: "bool option"

record canvas =
  canvas_nodes :: "dag_node list"
  canvas_edges :: "graph_edge list"

section \<open>Modification nodes\<close>

definition MODIFICATION_CODE_NAMES :: "string list" where
  "MODIFICATION_CODE_NAMES =
     [''feature/binning_modifications'', ''preprocessing/model_param_modifications'']"

definition isModificationNode :: "string option \<Rightarrow> bool" where
  "isModificationNode c = (truthy c \<and> the c \<in> set MODIFICATION_CODE_NAMES)"

definition clearNodeDefAttrs :: "jsobj option \<Rightarrow> jsobj option" where
  "clearNodeDefAttrs def = map_option (\<lambda>d. delete_prop ''attrPaths'' (delete_prop ''attrs'' d)) def"

lemma clearNodeDefAttrs_idem [simp]:
  "clearNodeDefAttrs (clearNodeDefAttrs d) = clearNodeDefAttrs d"
  by (cases d) (simp_all add: clearNodeDefAttrs_def delete_prop_comm [of "''attrs''"])

lemma clearNodeDefAttrs_get:
  "clearNodeDefAttrs (Some d) = Some d' \<Longrightarrow>
   get_prop d' k = (if k = ''attrs'' \<or> k = ''attrPaths'' then Undefined else get_prop d k)"
  by (auto simp: clearNodeDefAttrs_def get_prop_def)

section \<open>Operations\<close>

text \<open>\<open>commitEdge\<close>: append the edge and bring its two nodes up to date.\<close>

definition commit_node :: "graph_edge \<Rightarrow> graph_edge list \<Rightarrow> dag_node \<Rightarrow> dag_node" where
  "commit_node edge nextEdges n =
     (if node_id n = edge_target edge then
        (let updated = n\<lparr>node_inputs := Some (deriveInputs (node_id n) nextEdges)\<rparr> in
         if isModificationNode (node_codeName n) then updated\<lparr>node_def := clearNodeDefAttrs (node_def n)\<rparr>
         else updated)
      else if node_id n = edge_source edge \<and> truthy (source_anchor edge) \<and>
              the (source_anchor edge) \<notin> set (nullish (node_outputs n) []) \<and> nullish (node_ports n) [] = []
        then n\<lparr>node_outputs := Some (nullish (node_outputs n) [] @ [the (source_anchor edge)])\<rparr>
      else n)"

definition commitEdge :: "graph_edge \<Rightarrow> canvas \<Rightarrow> canvas" where
  "commitEdge edge c =
     (let nextEdges = canvas_edges c @ [edge] in
      c\<lparr>canvas_edges := nextEdges, canvas_nodes := map (commit_node edge nextEdges) (canvas_nodes c)\<rparr>)"

definition node_of :: "canvas \<Rightarrow> string \<Rightarrow> dag_node option" where
  "node_of c i = List.find (\<lambda>n. node_id n = i) (canvas_nodes c)"

definition portsOf :: "canvas \<Rightarrow> string \<Rightarrow> port_def list option" where
  "portsOf c i = Option.bind (node_of c i) node_ports"

definition new_edge :: "string \<Rightarrow> string \<Rightarrow> string \<Rightarrow> string \<Rightarrow> graph_edge" where
  "new_edge source target sa ta =
     \<lparr>edge_id = edgeIdOf sa ta, edge_source = source, edge_target = target,
      source_anchor = Some sa, target_anchor = Some ta\<rparr>"

text \<open>\<open>while (usedInputs.includes(idx)) idx++\<close>: the least index not in use.\<close>

function first_free :: "int list \<Rightarrow> nat \<Rightarrow> nat" where
  "first_free used i = (if int i \<in> set used then first_free used (Suc i) else i)"
  by pat_completeness auto
termination
proof (relation "measure (\<lambda>(used, i). card {k \<in> set used. int i \<le> k})")
  fix used :: "int list" and i :: nat
  assume "int i \<in> set used"
  moreover have "{k \<in> set used. int i \<le> k} = insert (int i) {k \<in> set used. int (Suc i) \<le> k}"
    using \<open>int i \<in> set used\<close> by auto
  ultimately show "((used, Suc i), used, i) \<in> measure (\<lambda>(used, i). card {k \<in> set used. int i \<le> k})"
    by simp
qed simp

declare first_free.simps [simp del]

definition used_inputs :: "string \<Rightarrow> graph_edge list \<Rightarrow> int list" where
  "used_inputs target es =
     map (\<lambda>e. case parseAnchor (target_anchor e) of Some (_, _, i) \<Rightarrow> int i | None \<Rightarrow> -1)
         (filter (\<lambda>e. edge_target e = target) es)"

text \<open>
  \<open>handleConnect\<close> without a host callback (\<open>onConnect\<close> absent): \<open>Inl\<close> is the reason passed to
  \<open>onConnectionRejected\<close>.
\<close>

definition has_ports :: "canvas \<Rightarrow> string \<Rightarrow> bool" where
  "has_ports c i = (nullish (portsOf c i) [] \<noteq> [])"

text \<open>The anchors used when a node has no ports (data of older versions).\<close>

definition fallback_source :: "string \<Rightarrow> (string \<times> string) option \<Rightarrow> canvas \<Rightarrow> string" where
  "fallback_source s explicit c =
     nullish (map_option fst explicit)
       (nullish (Option.bind (Option.bind (node_of c s) node_outputs) (\<lambda>os. at_opt os 0)) (outputAnchor s 0))"

definition fallback_target :: "string \<Rightarrow> (string \<times> string) option \<Rightarrow> canvas \<Rightarrow> string" where
  "fallback_target t explicit c =
     nullish (map_option snd explicit) (inputAnchor t (first_free (used_inputs t (canvas_edges c)) 0))"

definition handleConnect ::
  "string \<Rightarrow> string \<Rightarrow> (string \<times> string) option \<Rightarrow> canvas \<Rightarrow> connection_error + canvas" where
  "handleConnect s t explicit c =
     (if s = t then Inl SELF
      else if has_ports c s \<and> has_ports c t then
        (let ctx = \<lparr>ctx_edges = canvas_edges c, ctx_portsOf = portsOf c\<rparr> in
         case explicit of
           Some (sa, ta) \<Rightarrow>
             (case validateConnection \<lparr>cand_source = s, cand_target = t, cand_source_anchor = sa, cand_target_anchor = ta\<rparr> ctx of
                Inl r \<Rightarrow> Inl r
              | Inr _ \<Rightarrow> Inr (commitEdge (new_edge s t sa ta) c))
         | None \<Rightarrow>
             (case pickConnection s t ctx of
                Inl r \<Rightarrow> Inl r
              | Inr k \<Rightarrow> Inr (commitEdge (new_edge s t (cand_source_anchor k) (cand_target_anchor k)) c)))
      else
        (let sa = fallback_source s explicit c; ta = fallback_target t explicit c in
         case validateConnection \<lparr>cand_source = s, cand_target = t, cand_source_anchor = sa, cand_target_anchor = ta\<rparr>
                \<lparr>ctx_edges = canvas_edges c, ctx_portsOf = (\<lambda>_. None)\<rparr> of
           Inl r \<Rightarrow> Inl r
         | Inr _ \<Rightarrow> Inr (commitEdge (new_edge s t sa ta) c)))"

definition handleDeleteEdge :: "string \<Rightarrow> canvas \<Rightarrow> canvas" where
  "handleDeleteEdge edgeId c =
     (case List.find (\<lambda>e. edge_id e = edgeId) (canvas_edges c) of
        None \<Rightarrow> c
      | Some edge \<Rightarrow>
          (let nextEdges = filter (\<lambda>e. edge_id e \<noteq> edgeId) (canvas_edges c) in
           c\<lparr>canvas_edges := nextEdges,
             canvas_nodes := map (\<lambda>n. if node_id n = edge_target edge
                                then n\<lparr>node_inputs := Some (deriveInputs (node_id n) nextEdges)\<rparr> else n) (canvas_nodes c)\<rparr>))"

definition handleDeleteNodes :: "string list \<Rightarrow> canvas \<Rightarrow> canvas" where
  "handleDeleteNodes ids c =
     (if ids = [] then c
      else let remaining = filter (\<lambda>e. edge_source e \<notin> set ids \<and> edge_target e \<notin> set ids) (canvas_edges c) in
        c\<lparr>canvas_edges := remaining,
          canvas_nodes := map (\<lambda>n. if list_ex (\<lambda>e. edge_target e = node_id n \<and> edge_source e \<in> set ids) (canvas_edges c)
                             then n\<lparr>node_inputs := Some (deriveInputs (node_id n) remaining)\<rparr> else n)
                     (filter (\<lambda>n. node_id n \<notin> set ids) (canvas_nodes c))\<rparr>)"

section \<open>What the operations keep\<close>

text \<open>
  The canvas is consistent: the edges form an acyclic graph; a readable target anchor is used by
  one edge only; every edge leaves an output and enters an input of its own nodes; and the
  inputs stored in each node are those the edges give.
\<close>

definition edge_ok :: "graph_edge \<Rightarrow> bool" where
  "edge_ok e \<longleftrightarrow>
     (\<exists>i. parseAnchor (source_anchor e) = Some (edge_source e, Output, i)) \<and>
     (\<exists>j. parseAnchor (target_anchor e) = Some (edge_target e, Input, j))"

definition canvas_ok :: "canvas \<Rightarrow> bool" where
  "canvas_ok c \<longleftrightarrow>
     acyclic (edge_rel (canvas_edges c)) \<and>
     distinct (map target_anchor (canvas_edges c)) \<and>
     (\<forall>e \<in> set (canvas_edges c). edge_ok e) \<and>
     (\<forall>n \<in> set (canvas_nodes c). nullish (node_inputs n) [] = deriveInputs (node_id n) (canvas_edges c))"

lemma edge_rel_append: "edge_rel (es @ [e]) = insert (edge_source e, edge_target e) (edge_rel es)"
  by (auto simp: edge_rel_def)

lemma edge_rel_filter: "edge_rel (filter P es) \<subseteq> edge_rel es"
  by (auto simp: edge_rel_def)

lemma fill_of_other: "edge_target e \<noteq> n \<Longrightarrow> fill_of n e = None"
  by (simp add: fill_of_def)

lemma deriveInputs_other:
  "edge_target e \<noteq> n \<Longrightarrow> deriveInputs n (es @ [e]) = deriveInputs n es"
  by (rule deriveInputs_cong) (simp add: fill_of_other)

lemma commit_node_id [simp]: "node_id (commit_node e es n) = node_id n"
  by (simp add: commit_node_def Let_def)

lemma commit_node_inputs:
  "node_inputs (commit_node e es n) =
     (if node_id n = edge_target e then Some (deriveInputs (node_id n) es) else node_inputs n)"
  by (simp add: commit_node_def Let_def)

text \<open>An accepted candidate extends a consistent canvas to a consistent one.\<close>

lemma commitEdge_ok:
  assumes ok: "canvas_ok c"
    and acc: "acceptable \<lparr>cand_source = s, cand_target = t, cand_source_anchor = sa, cand_target_anchor = ta\<rparr> ctx"
    and ctx: "ctx_edges ctx = canvas_edges c"
  shows "canvas_ok (commitEdge (new_edge s t sa ta) c)"
proof -
  let ?e = "new_edge s t sa ta"
  have "(t, s) \<notin> (edge_rel (canvas_edges c))\<^sup>*" using acc ctx by (simp add: acceptable_def)
  then have "acyclic (edge_rel (canvas_edges c @ [?e]))"
    using ok by (simp add: canvas_ok_def edge_rel_append acyclic_insert new_edge_def)
  moreover have "edge_ok ?e" using acc by (simp add: acceptable_def edge_ok_def new_edge_def)
  moreover have "Some ta \<notin> target_anchor ` set (canvas_edges c)"
    using acc ctx by (auto simp: acceptable_def)
  then have "distinct (map target_anchor (canvas_edges c @ [?e]))"
    using ok by (simp add: canvas_ok_def new_edge_def)
  ultimately show ?thesis
    using ok by (auto simp: canvas_ok_def commitEdge_def Let_def commit_node_inputs deriveInputs_other)
qed

text \<open>Every branch of \<open>handleConnect\<close> that changes the canvas commits a checked edge.\<close>

lemma handleConnect_commits:
  assumes "handleConnect s t x c = Inr c'"
  shows "\<exists>sa ta ctx. ctx_edges ctx = canvas_edges c \<and> c' = commitEdge (new_edge s t sa ta) c \<and>
    acceptable \<lparr>cand_source = s, cand_target = t, cand_source_anchor = sa, cand_target_anchor = ta\<rparr> ctx"
proof (cases "has_ports c s \<and> has_ports c t")
  case True
  let ?ctx = "\<lparr>ctx_edges = canvas_edges c, ctx_portsOf = portsOf c\<rparr>"
  show ?thesis
  proof (cases x)
    case None
    with assms True obtain k where k: "pickConnection s t ?ctx = Inr k"
      "c' = commitEdge (new_edge s t (cand_source_anchor k) (cand_target_anchor k)) c"
      by (auto simp: handleConnect_def Let_def split: if_splits sum.splits)
    from pickConnection_sound [OF k(1)] k(2) show ?thesis
      by (intro exI [of _ "cand_source_anchor k"] exI [of _ "cand_target_anchor k"] exI [of _ ?ctx]) auto
  next
    case (Some p)
    obtain sa ta where "p = (sa, ta)" by (cases p)
    with assms True Some show ?thesis
      by (intro exI [of _ sa] exI [of _ ta] exI [of _ ?ctx])
         (auto simp: handleConnect_def Let_def simp flip: validateConnection_ok split: if_splits sum.splits)
  qed
next
  case False
  with assms show ?thesis
    by (intro exI [of _ "fallback_source s x c"] exI [of _ "fallback_target t x c"]
          exI [of _ "\<lparr>ctx_edges = canvas_edges c, ctx_portsOf = (\<lambda>_. None)\<rparr>"])
       (auto simp: handleConnect_def Let_def simp flip: validateConnection_ok split: if_splits sum.splits)
qed

lemma handleConnect_ok: "canvas_ok c \<Longrightarrow> handleConnect s t x c = Inr c' \<Longrightarrow> canvas_ok c'"
  using handleConnect_commits commitEdge_ok by blast

lemma acyclic_filter: "acyclic (edge_rel es) \<Longrightarrow> acyclic (edge_rel (filter P es))"
  by (rule acyclic_subset [OF _ edge_rel_filter])

lemma deriveInputs_filter:
  "(\<And>e. e \<in> set es \<Longrightarrow> edge_target e = n \<Longrightarrow> P e) \<Longrightarrow> deriveInputs n (filter P es) = deriveInputs n es"
  by (rule deriveInputs_cong, rule fills_filter) (auto simp: fill_of_def split: if_splits)

text \<open>Deleting keeps the canvas consistent; edges that share an identifier share their target.\<close>

lemma handleDeleteEdge_ok:
  assumes ok: "canvas_ok c"
    and ids: "\<And>e e'. e \<in> set (canvas_edges c) \<Longrightarrow> e' \<in> set (canvas_edges c) \<Longrightarrow> edge_id e = edge_id e' \<Longrightarrow>
                edge_target e = edge_target e'"
  shows "canvas_ok (handleDeleteEdge i c)"
proof (cases "List.find (\<lambda>e. edge_id e = i) (canvas_edges c)")
  case None
  with ok show ?thesis by (simp add: handleDeleteEdge_def)
next
  case (Some edge)
  then have edge: "edge \<in> set (canvas_edges c)" "edge_id edge = i" by (auto dest: find_Some_iff_mem)
  have "deriveInputs n (filter (\<lambda>e. edge_id e \<noteq> i) (canvas_edges c)) = deriveInputs n (canvas_edges c)"
    if "n \<noteq> edge_target edge" for n
  proof (rule deriveInputs_filter)
    fix e assume "e \<in> set (canvas_edges c)" "edge_target e = n"
    with ids [OF this(1) edge(1)] edge(2) that show "edge_id e \<noteq> i" by auto
  qed
  with ok Some show ?thesis
    by (auto simp: canvas_ok_def handleDeleteEdge_def Let_def acyclic_filter distinct_map_filter)
qed

lemma handleDeleteNodes_ok:
  assumes ok: "canvas_ok c"
  shows "canvas_ok (handleDeleteNodes ids c)"
proof -
  let ?P = "\<lambda>e. edge_source e \<notin> set ids \<and> edge_target e \<notin> set ids"
  have "deriveInputs n (filter ?P (canvas_edges c)) = deriveInputs n (canvas_edges c)"
    if "n \<notin> set ids" "\<not> list_ex (\<lambda>e. edge_target e = n \<and> edge_source e \<in> set ids) (canvas_edges c)" for n
    using that by (intro deriveInputs_filter) (auto simp: list_ex_iff)
  with ok show ?thesis
    by (auto simp: canvas_ok_def handleDeleteNodes_def Let_def acyclic_filter distinct_map_filter)
qed

section \<open>A session of edits\<close>

text \<open>
  The edges drawn here are named after their anchors; when node identifiers contain no
  underscore, such a name determines the target anchor, which is what deleting by name relies on.
\<close>

definition named_by_anchors :: "graph_edge \<Rightarrow> bool" where
  "named_by_anchors e \<longleftrightarrow>
     (\<exists>sa ta. source_anchor e = Some sa \<and> target_anchor e = Some ta \<and> edge_id e = edgeIdOf sa ta)"

datatype canvas_op =
    Connect string string "(string \<times> string) option"
  | DeleteEdge string
  | DeleteNodes "string list"

text \<open>A rejected connection leaves the canvas as it is.\<close>

fun apply_op :: "canvas \<Rightarrow> canvas_op \<Rightarrow> canvas" where
  "apply_op c (Connect s t x) = (case handleConnect s t x c of Inl _ \<Rightarrow> c | Inr c' \<Rightarrow> c')"
| "apply_op c (DeleteEdge i) = handleDeleteEdge i c"
| "apply_op c (DeleteNodes ids) = handleDeleteNodes ids c"

definition canvas_inv :: "canvas \<Rightarrow> bool" where
  "canvas_inv c \<longleftrightarrow> canvas_ok c \<and>
     (\<forall>e \<in> set (canvas_edges c). named_by_anchors e \<and> CHR ''_'' \<notin> set (edge_target e))"

text \<open>The nodes an operation names have no underscore in their identifiers.\<close>

fun op_names_ok :: "canvas_op \<Rightarrow> bool" where
  "op_names_ok (Connect s t x) = (CHR ''_'' \<notin> set t)"
| "op_names_ok _ = True"

lemma last_sep_unique:
  "CHR ''_'' \<notin> set t \<Longrightarrow> CHR ''_'' \<notin> set t' \<Longrightarrow> s @ CHR ''_'' # t = s' @ CHR ''_'' # t' \<Longrightarrow> t = t'"
proof -
  assume *: "CHR ''_'' \<notin> set t" "CHR ''_'' \<notin> set t'" "s @ CHR ''_'' # t = s' @ CHR ''_'' # t'"
  have tw: "takeWhile (\<lambda>c. c \<noteq> CHR ''_'') (rev (s @ CHR ''_'' # t)) = rev t" if "CHR ''_'' \<notin> set t" for s t
    using that by (simp add: takeWhile_to_sep)
  from tw [OF *(1)] tw [OF *(2)] *(3) show "t = t'" by (metis rev_rev_ident)
qed

lemma underscore_not_digit: "\<not> is_digit (CHR ''_'')"
  by (simp add: is_digit_def)

lemma edge_name_target:
  assumes "edge_ok e" "edge_ok e'" "named_by_anchors e" "named_by_anchors e'" "edge_id e = edge_id e'"
    and "CHR ''_'' \<notin> set (edge_target e)" "CHR ''_'' \<notin> set (edge_target e')"
  shows "edge_target e = edge_target e'"
proof -
  obtain sa ta where e: "source_anchor e = Some sa" "target_anchor e = Some ta" "edge_id e = edgeIdOf sa ta"
    using assms(3) by (auto simp: named_by_anchors_def)
  obtain sa' ta' where e': "source_anchor e' = Some sa'" "target_anchor e' = Some ta'" "edge_id e' = edgeIdOf sa' ta'"
    using assms(4) by (auto simp: named_by_anchors_def)
  have no_us: "CHR ''_'' \<notin> set a" if "parseAnchor (Some a) = Some (n, Input, i)" "CHR ''_'' \<notin> set n" for a n i
    using parseAnchor_Some [OF that(1)] that(2) underscore_not_digit by auto
  obtain j j' where "parseAnchor (Some ta) = Some (edge_target e, Input, j)"
      "parseAnchor (Some ta') = Some (edge_target e', Input, j')"
    using assms(1,2) e e' by (auto simp: edge_ok_def)
  moreover from this have "ta = ta'"
    using last_sep_unique [of ta ta' "sa @ ''_''" "sa' @ ''_''"] no_us assms(5-7) e e'
    by (simp add: edgeIdOf_def)
  ultimately show ?thesis by simp
qed

lemma apply_op_inv:
  assumes inv: "canvas_inv c" and names: "op_names_ok op"
  shows "canvas_inv (apply_op c op)"
proof (cases op)
  case (Connect s t x)
  show ?thesis
  proof (cases "handleConnect s t x c")
    case (Inr c')
    then obtain sa ta where "c' = commitEdge (new_edge s t sa ta) c"
      using handleConnect_commits by blast
    with handleConnect_ok [of c s t x c'] Inr inv names Connect show ?thesis
      by (auto simp: canvas_inv_def commitEdge_def Let_def named_by_anchors_def new_edge_def)
  qed (use inv Connect in simp)
next
  case (DeleteEdge i)
  have "canvas_ok (handleDeleteEdge i c)"
    using inv by (intro handleDeleteEdge_ok edge_name_target) (auto simp: canvas_inv_def canvas_ok_def)
  moreover have "set (canvas_edges (handleDeleteEdge i c)) \<subseteq> set (canvas_edges c)"
    by (auto simp: handleDeleteEdge_def Let_def split: option.splits)
  ultimately show ?thesis using inv DeleteEdge by (auto simp: canvas_inv_def)
next
  case (DeleteNodes ids)
  have "set (canvas_edges (handleDeleteNodes ids c)) \<subseteq> set (canvas_edges c)"
    by (auto simp: handleDeleteNodes_def Let_def)
  with inv DeleteNodes handleDeleteNodes_ok [of c ids] show ?thesis by (auto simp: canvas_inv_def)
qed

lemma session_inv:
  "canvas_inv c \<Longrightarrow> list_all op_names_ok ops \<Longrightarrow> canvas_inv (foldl apply_op c ops)"
  by (induction ops arbitrary: c) (auto intro: apply_op_inv)

end
