(* ===== verification/GraphImport.thy ===== *)
theory GraphImport
  imports Canvas
begin

text \<open>
  Importing a graph, \<open>remapImportedGraph\<close> of \<open>graph-model.ts\<close> and \<open>applyImportedGraph\<close> of
  \<open>index.tsx\<close> (\<open>web/packages/dag-next/src\<close>): every node gets the identifier allocated for its
  position, and anchors, ports, result outputs and edges are rewritten with it.
\<close>

section \<open>Rewriting\<close>

text \<open>\<open>idMap.set(n.id, ids[i] ?? n.id)\<close> for each node in order.\<close>

definition id_map :: "dag_node list \<Rightarrow> string list \<Rightarrow> (string \<rightharpoonup> string)" where
  "id_map ns ids =
     map_set_all (map (\<lambda>(i, n). (node_id n, nullish (at_opt ids i) (node_id n))) (enumerate 0 ns))"

definition remap_anchor :: "(string \<rightharpoonup> string) \<Rightarrow> string option \<Rightarrow> string option" where
  "remap_anchor m a =
     (case parseAnchor a of
        None \<Rightarrow> a
      | Some (n, k, i) \<Rightarrow>
          if truthy (m n) then Some (the (m n) @ ''-'' @ group_name k @ ''-'' @ show_nat i) else a)"

text \<open>\<open>anchor(a) ?? a\<close> on a string.\<close>

definition remap_text :: "(string \<rightharpoonup> string) \<Rightarrow> string \<Rightarrow> string" where
  "remap_text m a = nullish (remap_anchor m (Some a)) a"

definition remap_node :: "(string \<rightharpoonup> string) \<Rightarrow> dag_node \<Rightarrow> dag_node" where
  "remap_node m n = n\<lparr>
     node_id := the (m (node_id n)),
     node_inputs := map_option (map (remap_text m)) (node_inputs n),
     node_outputs := map_option (map (remap_text m)) (node_outputs n),
     node_ports := map_option (map (\<lambda>p. p\<lparr>port_id := remap_text m (port_id p)\<rparr>)) (node_ports n),
     node_results := map_option (map (\<lambda>r. r\<lparr>ro_id := remap_text m (ro_id r)\<rparr>)) (node_results n)\<rparr>"

definition remap_edge :: "(string \<rightharpoonup> string) \<Rightarrow> graph_edge \<Rightarrow> graph_edge" where
  "remap_edge m e =
     (let s = the (m (edge_source e)); t = the (m (edge_target e));
          sa = remap_anchor m (source_anchor e); ta = remap_anchor m (target_anchor e) in
      \<lparr>edge_id = (if truthy sa \<and> truthy ta then edgeIdOf (the sa) (the ta) else s @ ''__'' @ t),
       edge_source = s, edge_target = t, source_anchor = sa, target_anchor = ta\<rparr>)"

definition remapImportedGraph ::
  "dag_node list \<Rightarrow> graph_edge list \<Rightarrow> string list \<Rightarrow> dag_node list \<times> graph_edge list \<times> (string \<rightharpoonup> string)" where
  "remapImportedGraph ns es ids =
     (let m = id_map ns ids in
      (map (remap_node m) ns,
       map (remap_edge m) (filter (\<lambda>e. m (edge_source e) \<noteq> None \<and> m (edge_target e) \<noteq> None) es),
       m))"

text \<open>\<open>applyImportedGraph\<close>, with the identifiers the host allocated.\<close>

definition applyImportedGraph :: "dag_node list \<Rightarrow> graph_edge list \<Rightarrow> string list \<Rightarrow> canvas" where
  "applyImportedGraph ns es ids =
     (let (ns', es', _) = remapImportedGraph ns es ids in
      \<lparr>canvas_nodes = map (\<lambda>n. n\<lparr>node_status := Ready, node_progress := None,
                                  node_inputs := Some (deriveInputs (node_id n) es')\<rparr>) ns',
       canvas_edges = es'\<rparr>)"

section \<open>A proper import\<close>

text \<open>
  The nodes have distinct identifiers, and the host allocated as many distinct, non-empty
  identifiers without line breaks.
\<close>

definition proper_ids :: "dag_node list \<Rightarrow> string list \<Rightarrow> bool" where
  "proper_ids ns ids \<longleftrightarrow>
     distinct (map node_id ns) \<and> distinct ids \<and> length ids = length ns \<and>
     (\<forall>i \<in> set ids. i \<noteq> '''' \<and> no_line_break i)"

lemma id_map_eq:
  assumes "length ids = length ns"
  shows "id_map ns ids = map_set_all (zip (map node_id ns) ids)"
proof -
  have "map (\<lambda>(i, n). (node_id n, nullish (at_opt ids i) (node_id n))) (enumerate 0 ns) = zip (map node_id ns) ids"
    using assms by (intro nth_equalityI) (simp_all add: nth_enumerate_eq at_opt_def)
  then show ?thesis by (simp add: id_map_def)
qed

lemma id_map_nth:
  assumes "proper_ids ns ids" "i < length ns"
  shows "id_map ns ids (node_id (ns ! i)) = Some (ids ! i)"
proof -
  have len: "length ids = length ns" and d: "distinct (map node_id ns)"
    using assms(1) by (simp_all add: proper_ids_def)
  have "zip (map node_id ns) ids ! i = (node_id (ns ! i), ids ! i)" "i < length (zip (map node_id ns) ids)"
    using assms(2) len by simp_all
  then have "(node_id (ns ! i), ids ! i) \<in> set (zip (map node_id ns) ids)"
    by (metis nth_mem)
  then show ?thesis
    using len d by (simp add: id_map_eq map_set_all_distinct)
qed

lemma id_map_dom:
  assumes "proper_ids ns ids"
  shows "id_map ns ids n = None \<longleftrightarrow> n \<notin> node_id ` set ns"
proof -
  have len: "length ids = length ns" using assms by (simp add: proper_ids_def)
  have "map fst (zip (map node_id ns) ids) = map node_id ns" using len by (simp add: map_fst_zip)
  then have "fst ` set (zip (map node_id ns) ids) = node_id ` set ns" by (metis list.set_map)
  then have "dom (id_map ns ids) = node_id ` set ns" using len by (simp add: id_map_eq)
  then show ?thesis by (metis domIff)
qed

lemma id_map_index:
  assumes "proper_ids ns ids" "id_map ns ids n = Some x"
  obtains i where "i < length ns" "n = node_id (ns ! i)" "x = ids ! i"
proof -
  have "n \<in> node_id ` set ns" using id_map_dom [OF assms(1), of n] assms(2) by simp
  then obtain nd where "nd \<in> set ns" "n = node_id nd" by blast
  then obtain i where i: "i < length ns" "n = node_id (ns ! i)" by (metis in_set_conv_nth)
  moreover have "x = ids ! i" using id_map_nth [OF assms(1) i(1)] assms(2) i(2) by simp
  ultimately show thesis by (rule that)
qed

lemma id_map_defined:
  assumes "proper_ids ns ids" "n \<in> node_id ` set ns"
  obtains x where "id_map ns ids n = Some x"
  using id_map_dom [OF assms(1), of n] assms(2) that by (cases "id_map ns ids n") simp_all

lemma id_map_props:
  assumes "proper_ids ns ids" "id_map ns ids n = Some x"
  shows "x \<in> set ids" "x \<noteq> ''''" "no_line_break x"
proof -
  obtain i where i: "i < length ns" "x = ids ! i" using assms by (rule id_map_index)
  then show "x \<in> set ids" using assms(1) by (simp add: proper_ids_def)
  then show "x \<noteq> ''''" "no_line_break x" using assms(1) by (simp_all add: proper_ids_def)
qed

lemma id_map_inj:
  assumes "proper_ids ns ids" "id_map ns ids n = Some x" "id_map ns ids n' = Some x"
  shows "n = n'"
proof -
  obtain i where i: "i < length ns" "n = node_id (ns ! i)" "x = ids ! i" using assms(1,2) by (rule id_map_index)
  obtain i' where i': "i' < length ns" "n' = node_id (ns ! i')" "x = ids ! i'" using assms(1,3) by (rule id_map_index)
  have "distinct ids" "length ids = length ns" using assms(1) by (simp_all add: proper_ids_def)
  then have "i = i'" using i i' by (metis nth_eq_iff_index_eq)
  then show ?thesis using i i' by simp
qed

text \<open>A rewritten anchor keeps its side and index and belongs to the new node.\<close>

lemma anchor_text: "n @ ''-'' @ group_name k @ ''-'' @ show_nat i = (case k of Input \<Rightarrow> inputAnchor n i | Output \<Rightarrow> outputAnchor n i)"
  by (cases k) (simp_all add: inputAnchor_def outputAnchor_def)

lemma remap_anchor_parse:
  assumes "parseAnchor a = Some (n, k, i)" "m n = Some x" "x \<noteq> ''''" "no_line_break x"
  shows "parseAnchor (remap_anchor m a) = Some (x, k, i)"
  using assms
  by (cases k) (simp_all add: remap_anchor_def anchor_text anchor_simps del: append.simps append_assoc)

lemma remap_anchor_truthy [simp]: "truthy (remap_anchor m a) = truthy a"
  by (auto simp: remap_anchor_def truthy_iff parseAnchor_def split: option.splits if_splits)

definition kept :: "dag_node list \<Rightarrow> graph_edge list \<Rightarrow> graph_edge list" where
  "kept ns es = filter (\<lambda>e. edge_source e \<in> node_id ` set ns \<and> edge_target e \<in> node_id ` set ns) es"

lemma remap_edges_kept:
  "proper_ids ns ids \<Longrightarrow>
   fst (snd (remapImportedGraph ns es ids)) = map (remap_edge (id_map ns ids)) (kept ns es)"
  unfolding remapImportedGraph_def kept_def Let_def fst_conv snd_conv id_map_dom by simp

text \<open>The slots of the renamed node are the renamed slots.\<close>

lemma remap_anchor_Some: "\<exists>b. remap_anchor m (Some a) = Some b"
  by (cases "parseAnchor (Some a)") (simp_all add: remap_anchor_def split: prod.splits)

lemma remap_anchor_text: "truthy a \<Longrightarrow> the (remap_anchor m a) = remap_text m (the a)"
  using remap_anchor_Some [of m "the a"] by (cases a) (auto simp: remap_text_def)

lemma remap_fills:
  assumes "proper_ids ns ids" "id_map ns ids n = Some x"
    and "\<And>e. e \<in> set es \<Longrightarrow> edge_ok e \<and> edge_target e \<in> node_id ` set ns"
  shows "fills x (map (remap_edge (id_map ns ids)) es) =
         map (\<lambda>(i, s). (i, remap_text (id_map ns ids) s)) (fills n es)"
  using assms(3)
proof (induction es)
  case (Cons e es)
  let ?m = "id_map ns ids"
  have "edge_ok e" "edge_target e \<in> node_id ` set ns" using Cons.prems [of e] by simp_all
  then obtain j y where e: "parseAnchor (target_anchor e) = Some (edge_target e, Input, j)"
    "?m (edge_target e) = Some y"
    unfolding edge_ok_def using id_map_defined [OF assms(1)] by metis
  have p: "parseAnchor (remap_anchor ?m (target_anchor e)) = Some (y, Input, j)"
    by (rule remap_anchor_parse [where n = "edge_target e"]) (rule e id_map_props [OF assms(1) e(2)])+
  have y: "y = x \<longleftrightarrow> edge_target e = n"
    using id_map_inj [OF assms(1) e(2), of n] assms(2) e(2) by fastforce
  have t: "target_anchor (remap_edge ?m e) = remap_anchor ?m (target_anchor e)"
    "source_anchor (remap_edge ?m e) = remap_anchor ?m (source_anchor e)" "edge_target (remap_edge ?m e) = y"
    using e(2) by (simp_all add: remap_edge_def Let_def)
  have "fill_of x (remap_edge ?m e) = map_option (\<lambda>(i, s). (i, remap_text ?m s)) (fill_of n e)"
  proof (cases "edge_target e = n \<and> truthy (source_anchor e)")
    case True
    with y have "y = x" by simp
    with True show ?thesis
      unfolding fill_of_def t p e(1) by (simp add: remap_anchor_text)
  next
    case False
    with y show ?thesis unfolding fill_of_def t by auto
  qed
  with Cons show ?case by (auto split: option.splits)
qed simp

lemma map_of_map_snd: "map_of (map (\<lambda>(i, s). (i, f s)) ps) i = map_option f (map_of ps i)"
  by (induction ps) auto

lemma slot_count_map: "slot_count (map (\<lambda>(i, s). (i, f s)) ps) = slot_count ps"
proof -
  have "foldl (\<lambda>m p. max m (Suc (fst p))) k (map (\<lambda>(i, s). (i, f s)) ps) =
        foldl (\<lambda>m p. max m (Suc (fst p))) k ps" for k
    by (induction ps arbitrary: k) auto
  then show ?thesis by (simp add: slot_count_def)
qed

text \<open>
  What a node of the imported graph receives: the same slots, each holding the renamed anchor;
  an empty slot stays empty.
\<close>

lemma remap_inputs:
  assumes "proper_ids ns ids" "id_map ns ids n = Some x"
    and "\<And>e. e \<in> set es \<Longrightarrow> edge_ok e \<and> edge_target e \<in> node_id ` set ns"
  shows "deriveInputs x (map (remap_edge (id_map ns ids)) es) =
         map (\<lambda>s. if s = '''' then '''' else remap_text (id_map ns ids) s) (deriveInputs n es)"
proof -
  have "nullish (map_of (rev (map (\<lambda>(i, s). (i, f s)) (fills n es))) i) '''' =
        (if nullish (map_of (rev (fills n es)) i) '''' = '''' then '''' else f (nullish (map_of (rev (fills n es)) i) ''''))"
    for i and f :: "string \<Rightarrow> string"
  proof (cases "map_of (rev (fills n es)) i")
    case (Some s)
    then have "(i, s) \<in> set (fills n es)" by (metis map_of_SomeD set_rev)
    then have "s \<noteq> ''''" by (auto simp: fills_mem dest: fill_of_nonempty)
    with Some show ?thesis by (simp add: rev_map map_of_map_snd)
  qed (simp add: rev_map map_of_map_snd)
  moreover have "fills x (map (remap_edge (id_map ns ids)) es) = map (\<lambda>(i, s). (i, remap_text (id_map ns ids) s)) (fills n es)"
    using assms by (rule remap_fills)
  ultimately show ?thesis
    unfolding deriveInputs_fills [of x] slot_count_map
    by (simp add: deriveInputs_fills [of n] slot_count_map)
qed

section \<open>The imported canvas is consistent\<close>

lemma remap_edge_ok:
  assumes "proper_ids ns ids" "edge_ok e" "edge_source e \<in> node_id ` set ns" "edge_target e \<in> node_id ` set ns"
  shows "edge_ok (remap_edge (id_map ns ids) e)"
proof -
  obtain x y where xy: "id_map ns ids (edge_source e) = Some x" "id_map ns ids (edge_target e) = Some y"
    using id_map_defined [OF assms(1) assms(3)] id_map_defined [OF assms(1) assms(4)] by metis
  obtain i j where "parseAnchor (source_anchor e) = Some (edge_source e, Output, i)"
    "parseAnchor (target_anchor e) = Some (edge_target e, Input, j)"
    using assms(2) by (auto simp: edge_ok_def)
  with xy id_map_props [OF assms(1) xy(1)] id_map_props [OF assms(1) xy(2)] show ?thesis
    by (auto simp: edge_ok_def remap_edge_def Let_def intro!: remap_anchor_parse)
qed

lemma remap_edge_rel:
  "edge_rel (map (remap_edge m) es) =
   (\<lambda>(a, b). (the (m a), the (m b))) ` edge_rel es"
  by (force simp: edge_rel_def remap_edge_def Let_def)

lemma acyclic_inj_image:
  assumes "acyclic r" "inj_on f (Field r)"
  shows "acyclic ((\<lambda>(a, b). (f a, f b)) ` r)"
proof -
  have "\<exists>a b. x = f a \<and> y = f b \<and> (a, b) \<in> r\<^sup>+" if "(x, y) \<in> ((\<lambda>(a, b). (f a, f b)) ` r)\<^sup>+" for x y
    using that
  proof (induction rule: trancl_induct)
    case (step y z)
    then obtain a b c d where "x = f a" "y = f b" "(a, b) \<in> r\<^sup>+" "y = f c" "z = f d" "(c, d) \<in> r" by auto
    moreover from this have "b = c"
      using assms(2) by (intro inj_onD [OF assms(2)]) (auto simp: Field_def dest: tranclD2)
    ultimately show ?case by (metis trancl_into_trancl)
  qed auto
  note path = this
  have "(z, z) \<notin> ((\<lambda>(a, b). (f a, f b)) ` r)\<^sup>+" for z
  proof
    assume "(z, z) \<in> ((\<lambda>(a, b). (f a, f b)) ` r)\<^sup>+"
    then obtain a b where "z = f a" "z = f b" "(a, b) \<in> r\<^sup>+" using path by blast
    moreover from this have "a = b"
      using assms(2) by (intro inj_onD [OF assms(2)]) (auto simp: Field_def dest: tranclD tranclD2)
    ultimately show False using assms(1) by (auto simp: acyclic_def)
  qed
  then show ?thesis by (simp add: acyclic_def)
qed

lemma remap_targets_distinct:
  assumes "proper_ids ns ids" "distinct (map target_anchor es)"
    and ok: "\<And>e. e \<in> set es \<Longrightarrow> edge_ok e \<and> edge_target e \<in> node_id ` set ns"
    and one: "\<And>e e'. e \<in> set es \<Longrightarrow> e' \<in> set es \<Longrightarrow>
      parseAnchor (target_anchor e) = parseAnchor (target_anchor e') \<Longrightarrow> target_anchor e = target_anchor e'"
  shows "distinct (map target_anchor (map (remap_edge (id_map ns ids)) es))"
proof -
  have "target_anchor e = target_anchor e'"
    if mem: "e \<in> set es" "e' \<in> set es" and
       eq: "target_anchor (remap_edge (id_map ns ids) e) = target_anchor (remap_edge (id_map ns ids) e')" for e e'
  proof -
    obtain j j' y y' where
      e: "parseAnchor (target_anchor e) = Some (edge_target e, Input, j)" "id_map ns ids (edge_target e) = Some y" and
      e': "parseAnchor (target_anchor e') = Some (edge_target e', Input, j')" "id_map ns ids (edge_target e') = Some y'"
      using ok [OF mem(1)] ok [OF mem(2)] id_map_defined [OF assms(1)] unfolding edge_ok_def
      by metis
    have "parseAnchor (target_anchor (remap_edge (id_map ns ids) e)) = Some (y, Input, j)"
      using e id_map_props [OF assms(1) e(2)] by (auto simp: remap_edge_def Let_def intro!: remap_anchor_parse)
    moreover have "parseAnchor (target_anchor (remap_edge (id_map ns ids) e')) = Some (y', Input, j')"
      using e' id_map_props [OF assms(1) e'(2)] by (auto simp: remap_edge_def Let_def intro!: remap_anchor_parse)
    ultimately have "y = y'" "j = j'" using eq by auto
    with id_map_inj [OF assms(1) e(2)] e' e have "parseAnchor (target_anchor e) = parseAnchor (target_anchor e')" by simp
    then show ?thesis by (rule one [OF mem])
  qed
  then have "inj_on (\<lambda>e. target_anchor (remap_edge (id_map ns ids) e)) (set es)"
    using assms(2) unfolding distinct_map inj_on_def by blast
  with assms(2) show ?thesis by (simp add: distinct_map comp_def)
qed

lemma applyImportedGraph_ok:
  assumes p: "proper_ids ns ids" and ac: "acyclic (edge_rel es)" and d: "distinct (map target_anchor es)"
    and ok: "\<And>e. e \<in> set es \<Longrightarrow> edge_ok e"
    and one: "\<And>e e'. e \<in> set es \<Longrightarrow> e' \<in> set es \<Longrightarrow>
      parseAnchor (target_anchor e) = parseAnchor (target_anchor e') \<Longrightarrow> target_anchor e = target_anchor e'"
  shows "canvas_ok (applyImportedGraph ns es ids)"
proof -
  let ?m = "id_map ns ids" and ?k = "kept ns es"
  have k: "edge_ok e \<and> edge_source e \<in> node_id ` set ns \<and> edge_target e \<in> node_id ` set ns" if "e \<in> set ?k" for e
    using that ok by (auto simp: kept_def)
  have fld: "Field (edge_rel ?k) \<subseteq> node_id ` set ns" using k by (auto simp: edge_rel_def Field_def)
  have "inj_on (\<lambda>n. the (?m n)) (node_id ` set ns)"
  proof (rule inj_onI)
    fix n n' assume n: "n \<in> node_id ` set ns" "n' \<in> node_id ` set ns" "the (?m n) = the (?m n')"
    obtain x x' where "?m n = Some x" "?m n' = Some x'"
      using id_map_defined [OF p n(1)] id_map_defined [OF p n(2)] by metis
    with n(3) show "n = n'" using id_map_inj [OF p] by simp
  qed
  then have "acyclic (edge_rel (map (remap_edge ?m) ?k))"
    unfolding remap_edge_rel
    by (intro acyclic_inj_image inj_on_subset [OF _ fld]) (auto simp: kept_def intro: acyclic_filter ac)
  moreover have "distinct (map target_anchor (map (remap_edge ?m) ?k))"
  proof (rule remap_targets_distinct [OF p])
    show "distinct (map target_anchor ?k)" using d by (simp add: kept_def distinct_map_filter)
    fix e e' assume "e \<in> set ?k" "e' \<in> set ?k" "parseAnchor (target_anchor e) = parseAnchor (target_anchor e')"
    then show "target_anchor e = target_anchor e'" by (intro one) (auto simp: kept_def)
  qed (use k in blast)
  moreover have "\<forall>e \<in> set (map (remap_edge ?m) ?k). edge_ok e"
    using k by (auto intro!: remap_edge_ok [OF p])
  moreover have "snd (remapImportedGraph ns es ids) = (map (remap_edge ?m) ?k, ?m)"
    using remap_edges_kept [OF p, of es] by (simp add: remapImportedGraph_def Let_def)
  ultimately show ?thesis
    by (cases "remapImportedGraph ns es ids") (auto simp: canvas_ok_def applyImportedGraph_def)
qed

section \<open>What an import yields, node by node\<close>

lemma kept_inner: "set (kept ns es) = {e \<in> set es. edge_source e \<in> node_id ` set ns \<and> edge_target e \<in> node_id ` set ns}"
  by (auto simp: kept_def)

lemma kept_twice: "kept ns (kept ns es) = kept ns es"
  by (simp add: kept_def)

lemma import_kept:
  assumes "proper_ids ns ids"
  shows "applyImportedGraph ns es ids = applyImportedGraph ns (kept ns es) ids"
  using remap_edges_kept [OF assms, of es] remap_edges_kept [OF assms, of "kept ns es"]
  by (simp add: applyImportedGraph_def remapImportedGraph_def Let_def kept_twice)

lemma import_ok:
  assumes "proper_ids ns ids" "acyclic (edge_rel (kept ns es))"
    and "distinct (map (\<lambda>e. parseAnchor (target_anchor e)) (kept ns es))"
    and "\<forall>e \<in> set (kept ns es). edge_ok e"
  shows "canvas_ok (applyImportedGraph ns es ids)"
  unfolding import_kept [OF assms(1), of es]
proof (rule applyImportedGraph_ok [OF assms(1,2)])
  have d: "distinct (map parseAnchor (map target_anchor (kept ns es)))" using assms(3) by (simp add: comp_def)
  then show "distinct (map target_anchor (kept ns es))" unfolding distinct_map [of parseAnchor] by blast
  show "edge_ok e" if "e \<in> set (kept ns es)" for e using that assms(4) by blast
  show "target_anchor e = target_anchor e'"
    if "e \<in> set (kept ns es)" "e' \<in> set (kept ns es)" "parseAnchor (target_anchor e) = parseAnchor (target_anchor e')" for e e'
    using that d by (auto simp: distinct_map inj_on_def)
qed

lemma imported_node:
  assumes "proper_ids ns ids" "\<forall>e \<in> set (kept ns es). edge_ok e" "i < length ns"
  shows "node_id (canvas_nodes (applyImportedGraph ns es ids) ! i) = ids ! i \<and>
    node_inputs (canvas_nodes (applyImportedGraph ns es ids) ! i) =
      Some (map (\<lambda>s. if s = '''' then '''' else remap_text (id_map ns ids) s) (deriveInputs (node_id (ns ! i)) (kept ns es)))"
proof -
  have x: "id_map ns ids (node_id (ns ! i)) = Some (ids ! i)" using id_map_nth [OF assms(1,3)] .
  have "deriveInputs (ids ! i) (map (remap_edge (id_map ns ids)) (kept ns es)) =
      map (\<lambda>s. if s = '''' then '''' else remap_text (id_map ns ids) s) (deriveInputs (node_id (ns ! i)) (kept ns es))"
    by (rule remap_inputs [OF assms(1) x]) (use assms(2) in \<open>auto simp: kept_inner\<close>)
  then show ?thesis
    using assms(3) remap_edges_kept [OF assms(1), of es] x
    by (simp add: applyImportedGraph_def remapImportedGraph_def Let_def remap_node_def)
qed

end
