(* ===== verification/Builder.thy ===== *)
theory Builder
  imports GraphModel JsValue
begin

text \<open>
  The construction kit of the canvas templates
  (\<open>web/apps/secretpad/src/features/dag-templates/builder.ts\<close>, \<open>types.ts\<close>): identifiers, edges,
  attribute values and the nodes the templates share.

  A component's \<open>nodeDef\<close> is a record; \<open>attrPaths\<close> and \<open>attrs\<close> are optional because some
  templates leave them out.  Chinese labels are written as their UTF-8 bytes (\<open>utf8\<close>).
\<close>

section \<open>Data\<close>

record component_def =
  def_domain :: string
  def_name :: "string option"
  def_version :: string
  def_attrPaths :: "string list option"
  def_attrs :: "jsval list option"

text \<open>\<open>GraphNodeInfo\<close> (\<open>web/packages/api-client/src/ext/graph.ts\<close>), the fields a template fills.\<close>

record graph_node =
  gn_id :: string
  gn_codeName :: string
  gn_label :: string
  gn_x :: rat
  gn_y :: rat
  gn_inputs :: "string list"
  gn_outputs :: "string list"
  gn_def :: component_def

record template_graph =
  tg_nodes :: "graph_node list"
  tg_edges :: "graph_edge list"

text \<open>A key selection is one column or several.\<close>

datatype key_sel = One string | Many "string list"

record label_sel =
  ls_s :: "string option"
  ls_ss :: "string list option"

text \<open>
  The \<open>configs\<close> object a template reads.  The wizard passes one untyped dictionary, so there is
  one record with every field the templates look at; \<open>{ ss }\<close> and \<open>{ s }\<close> wrappers with a single
  required field are their content.
\<close>

record configs =
  cfg_receiverNodeId :: "string option"
  cfg_senderNodeId :: "string option"
  cfg_receiverTableId :: "string option"
  cfg_senderTableId :: "string option"
  cfg_receiverKey :: "key_sel option"
  cfg_senderKey :: "key_sel option"
  cfg_receiverPartition :: "string option"
  cfg_senderPartition :: "string option"
  cfg_receiverParties :: "string list option"
  cfg_featureSelects :: "string list option"
  cfg_labelSelects :: "label_sel option"
  cfg_pred :: "string option"
  cfg_predictReceiver :: "string option"
  cfg_trainIdSelect :: "string list option"
  cfg_predictIdSelect :: "string list option"
  cfg_saveId :: "bool option"
  cfg_saveLabel :: "bool option"
  cfg_label :: "string option"
  cfg_score :: "string option"
  cfg_tableId :: "string option"
  cfg_qiCols :: "string list option"
  cfg_saCols :: "string list option"
  cfg_queryCol :: "string option"
  cfg_sanitizationCols :: "string list option"

definition no_configs :: configs where
  "no_configs = \<lparr>cfg_receiverNodeId = None, cfg_senderNodeId = None, cfg_receiverTableId = None,
     cfg_senderTableId = None, cfg_receiverKey = None, cfg_senderKey = None,
     cfg_receiverPartition = None, cfg_senderPartition = None, cfg_receiverParties = None,
     cfg_featureSelects = None, cfg_labelSelects = None, cfg_pred = None, cfg_predictReceiver = None,
     cfg_trainIdSelect = None, cfg_predictIdSelect = None, cfg_saveId = None, cfg_saveLabel = None,
     cfg_label = None, cfg_score = None, cfg_tableId = None, cfg_qiCols = None, cfg_saCols = None,
     cfg_queryCol = None, cfg_sanitizationCols = None\<rparr>"

text \<open>\<open>filter(Boolean)\<close> on strings.\<close>

definition non_empty :: "string list \<Rightarrow> string list" where
  "non_empty xs = filter (\<lambda>s. s \<noteq> '''') xs"

definition toList :: "key_sel option \<Rightarrow> string list" where
  "toList v = non_empty
     (case v of None \<Rightarrow> [] | Some (Many xs) \<Rightarrow> xs | Some (One s) \<Rightarrow> if s \<noteq> '''' then [s] else [])"

text \<open>\<open>v?.s || v?.ss?.[0] || ''\<close>\<close>

definition labelOf :: "label_sel option \<Rightarrow> string" where
  "labelOf v = (case v of
       None \<Rightarrow> ''''
     | Some l \<Rightarrow> str_or (ls_s l)
         (str_or (case ls_ss l of None \<Rightarrow> None | Some ss \<Rightarrow> at_opt ss 0) ''''))"

text \<open>\<open>key || ''\<close>: an array is truthy even when it is empty.\<close>

definition key_or_empty :: "key_sel option \<Rightarrow> key_sel" where
  "key_or_empty k = nullish k (One '''')"

section \<open>Identifiers\<close>

definition nodeId :: "string \<Rightarrow> nat \<Rightarrow> string" where
  "nodeId graphId idx = graphId @ ''-node-'' @ show_nat idx"

definition outAnchor :: "string \<Rightarrow> nat \<Rightarrow> nat \<Rightarrow> string" where
  "outAnchor graphId nodeIdx outputIdx = nodeId graphId nodeIdx @ ''-output-'' @ show_nat outputIdx"

definition inAnchor :: "string \<Rightarrow> nat \<Rightarrow> nat \<Rightarrow> string" where
  "inAnchor graphId nodeIdx inputIdx = nodeId graphId nodeIdx @ ''-input-'' @ show_nat inputIdx"

definition edgeId :: "string \<Rightarrow> nat \<Rightarrow> nat \<Rightarrow> nat \<Rightarrow> nat \<Rightarrow> string" where
  "edgeId graphId sourceIdx sourceOutputIdx targetIdx targetInputIdx =
     (let sourceAnchor = outAnchor graphId sourceIdx sourceOutputIdx;
          targetAnchor = inAnchor graphId targetIdx targetInputIdx
      in sourceAnchor @ ''__'' @ targetAnchor)"

definition connect :: "string \<Rightarrow> nat \<Rightarrow> nat \<Rightarrow> nat \<Rightarrow> nat \<Rightarrow> graph_edge" where
  "connect graphId sourceIdx sourceOutputIdx targetIdx targetInputIdx =
     \<lparr>edge_id = edgeId graphId sourceIdx sourceOutputIdx targetIdx targetInputIdx,
      edge_source = nodeId graphId sourceIdx,
      edge_target = nodeId graphId targetIdx,
      source_anchor = Some (outAnchor graphId sourceIdx sourceOutputIdx),
      target_anchor = Some (inAnchor graphId targetIdx targetInputIdx)\<rparr>"

section \<open>Attribute values\<close>

text \<open>
  The values the templates serialise with \<open>JSON.stringify\<close>: strings, integral numbers, arrays and
  objects.  A string is escaped as the language does it: the quotation mark, the backslash and
  the control characters.
\<close>

datatype json = JsonStr string | JsonInt int | JsonArr "json list" | JsonObj "(string \<times> json) list"

definition hex_digit :: "nat \<Rightarrow> char" where
  "hex_digit d = (if d < 10 then char_of (48 + d) else char_of (87 + d))"

definition json_escape_char :: "char \<Rightarrow> string" where
  "json_escape_char c =
     (if c = CHR 0x22 \<or> c = CHR 0x5C then [CHR 0x5C, c]
      else if c = CHR 0x08 then [CHR 0x5C, CHR ''b'']
      else if c = CHR 0x09 then [CHR 0x5C, CHR ''t'']
      else if c = CHR 0x0A then [CHR 0x5C, CHR ''n'']
      else if c = CHR 0x0C then [CHR 0x5C, CHR ''f'']
      else if c = CHR 0x0D then [CHR 0x5C, CHR ''r'']
      else if of_char c < (32::nat)
        then [CHR 0x5C, CHR ''u'', CHR ''0'', CHR ''0'', hex_digit (of_char c div 16), hex_digit (of_char c mod 16)]
      else [c])"

definition json_string :: "string \<Rightarrow> string" where
  "json_string s = CHR 0x22 # concat (map json_escape_char s) @ [CHR 0x22]"

definition show_int :: "int \<Rightarrow> string" where
  "show_int i = (if i < 0 then CHR ''-'' # show_nat (nat (- i)) else show_nat (nat i))"

fun json_stringify :: "json \<Rightarrow> string" where
  "json_stringify (JsonStr s) = json_string s"
| "json_stringify (JsonInt i) = show_int i"
| "json_stringify (JsonArr xs) = ''['' @ join_with '','' (map json_stringify xs) @ '']''"
| "json_stringify (JsonObj kvs) =
     ''{'' @ join_with '','' (map (\<lambda>(k, v). json_string k @ '':'' @ json_stringify v) kvs) @ ''}''"

definition ssAttr :: "string list \<Rightarrow> jsval" where
  "ssAttr values = JObj [(''ss'', JArr (map JStr values)), (''is_na'', JBool False)]"

definition sAttr :: "string \<Rightarrow> jsval" where
  "sAttr value = JObj [(''s'', JStr value), (''is_na'', JBool False)]"

definition jsonAttr :: "json \<Rightarrow> jsval" where
  "jsonAttr value = JObj [(''s'', JStr (json_stringify value)), (''is_na'', JBool False)]"

definition i64Attr :: "int \<Rightarrow> jsval" where
  "i64Attr value = JObj [(''i64'', JNum (Fin (of_int value))), (''is_na'', JBool False)]"

definition fAttr :: "rat \<Rightarrow> jsval" where
  "fAttr value = JObj [(''f'', JNum (Fin value)), (''is_na'', JBool False)]"

definition bAttr :: "bool \<Rightarrow> jsval" where
  "bAttr value = JObj [(''b'', JBool value), (''is_na'', JBool False)]"

definition naAttr :: jsval where
  "naAttr = JObj [(''is_na'', JBool True)]"

section \<open>Nodes\<close>

definition plain_def :: "string \<Rightarrow> string \<Rightarrow> string \<Rightarrow> component_def" where
  "plain_def domain name version =
     \<lparr>def_domain = domain, def_name = Some name, def_version = version,
      def_attrPaths = None, def_attrs = None\<rparr>"

definition with_attrs :: "string list \<Rightarrow> jsval list \<Rightarrow> component_def \<Rightarrow> component_def" where
  "with_attrs paths attrs d = d\<lparr>def_attrPaths := Some paths, def_attrs := Some attrs\<rparr>"

text \<open>\<open>...(c ? { attrPaths, attrs } : {})\<close>\<close>

definition attrs_if :: "bool \<Rightarrow> string list \<Rightarrow> jsval list \<Rightarrow> component_def \<Rightarrow> component_def" where
  "attrs_if c paths attrs d = (if c then with_attrs paths attrs d else d)"

definition datatableDef :: "string option \<Rightarrow> string option \<Rightarrow> string list \<times> jsval list" where
  "datatableDef tableId part =
     (if \<not> truthy tableId then ([], [])
      else if truthy part
        then ([''datatable_selected'', ''datatable_partition''], [sAttr (the tableId), sAttr (the part)])
        else ([''datatable_selected''], [sAttr (the tableId)]))"

text \<open>\<open>createNode\<close>; the options are the position, inputs, outputs and the component definition.\<close>

definition createNode ::
  "string \<Rightarrow> nat \<Rightarrow> string \<Rightarrow> string \<Rightarrow> rat \<Rightarrow> rat \<Rightarrow> string list option \<Rightarrow> string list option \<Rightarrow>
   component_def option \<Rightarrow> graph_node" where
  "createNode graphId idx codeName label x y inputs outputs nodeDef =
     \<lparr>gn_id = nodeId graphId idx, gn_codeName = codeName, gn_label = label, gn_x = x, gn_y = y,
      gn_inputs = nullish inputs [], gn_outputs = nullish outputs [],
      gn_def = nullish nodeDef
        \<lparr>def_domain = hd (split_on (CHR ''/'') codeName),
         def_name = at_opt (split_on (CHR ''/'') codeName) 1,
         def_version = ''0.0.1'', def_attrPaths = None, def_attrs = None\<rparr>\<rparr>"

definition createReadDataNode ::
  "string \<Rightarrow> nat \<Rightarrow> string option \<Rightarrow> rat \<Rightarrow> rat \<Rightarrow> string option \<Rightarrow> string option \<Rightarrow> graph_node" where
  "createReadDataNode graphId idx tableId x y part label =
     (let (paths, attrs) = datatableDef tableId part in
      createNode graphId idx ''read_data/datatable'' (nullish label (utf8 [0xE6, 0xA0, 0xB7, 0xE6, 0x9C, 0xAC, 0xE8, 0xA1, 0xA8])) x y
        None (Some [outAnchor graphId idx 0])
        (Some (with_attrs paths attrs (plain_def ''read_data'' ''datatable'' ''0.0.1''))))"

definition createPsiNode ::
  "string \<Rightarrow> nat \<Rightarrow> string list \<Rightarrow> key_sel \<Rightarrow> key_sel \<Rightarrow> string \<Rightarrow> string \<Rightarrow> string list option \<Rightarrow> rat \<Rightarrow> rat \<Rightarrow>
   graph_node" where
  "createPsiNode graphId idx inputs receiverKey senderKey receiverNodeId senderNodeId receiverParties x y =
     (let rk = toList (Some receiverKey);
          sk = toList (Some senderKey);
          parties = (case receiverParties of
              None \<Rightarrow> non_empty [receiverNodeId, senderNodeId]
            | Some ps \<Rightarrow> if ps \<noteq> [] then ps else non_empty [receiverNodeId, senderNodeId])
      in createNode graphId idx ''data_prep/psi'' (utf8 [0xE9, 0x9A, 0x90, 0xE7, 0xA7, 0x81, 0xE6, 0xB1, 0x82, 0xE4, 0xBA, 0xA4]) x y
           (Some inputs) (Some [outAnchor graphId idx 0, outAnchor graphId idx 1])
           (Some (attrs_if (rk \<noteq> [] \<and> sk \<noteq> [])
              [''input/input_ds1/keys'', ''input/input_ds2/keys'', ''protocol'', ''sort_result'',
               ''receiver_parties'', ''allow_empty_result'', ''join_type'',
               ''input_ds1_keys_duplicated'', ''input_ds2_keys_duplicated'']
              [ssAttr rk, ssAttr sk, sAttr ''PROTOCOL_RR22'', bAttr True, ssAttr parties, naAttr,
               sAttr ''inner_join'', bAttr True, bAttr True]
              (plain_def ''data_prep'' ''psi'' ''1.0.0''))))"

definition buildSingleTablePrivacyTemplate ::
  "string \<Rightarrow> string option \<Rightarrow> string \<Rightarrow> string \<Rightarrow> component_def \<Rightarrow> template_graph" where
  "buildSingleTablePrivacyTemplate graphId tableId codeName label nodeDef =
     (let readNode = createReadDataNode graphId 1 tableId (-260) (-210) None None;
          output0 = outAnchor graphId 1 0;
          processNode = createNode graphId 2 codeName label (-260) (-80)
            (Some [output0]) (Some [outAnchor graphId 2 0, outAnchor graphId 2 1]) (Some nodeDef)
      in \<lparr>tg_nodes = [readNode, processNode], tg_edges = [connect graphId 1 0 2 0]\<rparr>)"

definition createTeePsiNode ::
  "string \<Rightarrow> nat \<Rightarrow> string list \<Rightarrow> key_sel \<Rightarrow> key_sel \<Rightarrow> rat \<Rightarrow> rat \<Rightarrow> graph_node" where
  "createTeePsiNode graphId idx inputs receiverKey senderKey x y =
     (let rk = toList (Some receiverKey); sk = toList (Some senderKey) in
      createNode graphId idx ''preprocessing/psi'' (utf8 [0xE9, 0x9A, 0x90, 0xE7, 0xA7, 0x81, 0xE6, 0xB1, 0x82, 0xE4, 0xBA, 0xA4]) x y
        (Some inputs) (Some [outAnchor graphId idx 0])
        (Some (attrs_if (rk \<noteq> [] \<and> sk \<noteq> [])
           [''input/input1/key'', ''input/input2/key''] [ssAttr rk, ssAttr sk]
           (plain_def ''preprocessing'' ''psi'' ''0.0.1''))))"

definition createTableStatisticsNode ::
  "string \<Rightarrow> nat \<Rightarrow> string \<Rightarrow> rat \<Rightarrow> rat \<Rightarrow> string list option \<Rightarrow> string option \<Rightarrow> graph_node" where
  "createTableStatisticsNode graphId idx input x y features version =
     (let hasFeatures = (case features of None \<Rightarrow> False | Some fs \<Rightarrow> fs \<noteq> []) in
      createNode graphId idx ''stats/table_statistics'' (utf8 [0xE5, 0x85, 0xA8, 0xE8, 0xA1, 0xA8, 0xE7, 0xBB, 0x9F, 0xE8, 0xAE, 0xA1]) x y
        (Some [input]) (Some [outAnchor graphId idx 0])
        (Some (attrs_if hasFeatures [''input/input_ds/features''] [ssAttr (nullish features [])]
           (plain_def ''stats'' ''table_statistics'' (nullish version ''0.0.1'')))))"

definition createTrainTestSplitNode ::
  "string \<Rightarrow> nat \<Rightarrow> string \<Rightarrow> rat \<Rightarrow> rat \<Rightarrow> string option \<Rightarrow> string option \<Rightarrow> graph_node" where
  "createTrainTestSplitNode graphId idx input x y domain version =
     (let d = nullish domain ''data_prep'' in
      createNode graphId idx (d @ ''/train_test_split'') (utf8 [0xE9, 0x9A, 0x8F, 0xE6, 0x9C, 0xBA, 0xE5, 0x88, 0x86, 0xE5, 0x89, 0xB2]) x y
        (Some [input]) (Some [outAnchor graphId idx 0, outAnchor graphId idx 1])
        (Some (plain_def d ''train_test_split'' (nullish version ''1.0.0''))))"

record dp_options =
  dp_queryType :: "string option"
  dp_queryCol :: "string option"
  dp_epsilonTotal :: "rat option"
  dp_delta :: "rat option"
  dp_epsilonPerQuery :: "rat option"
  dp_deltaPerQuery :: "rat option"
  dp_mechanism :: "string option"
  dp_columnSensitivities :: "json option"
  dp_bins :: "json option"
  dp_trueCount :: "rat option"
  dp_trueSum :: "rat option"
  dp_trueCounts :: "json option"
  dp_sensitivity :: "rat option"
  dp_randomState :: "int option"

definition dp_defaults :: dp_options where
  "dp_defaults = \<lparr>dp_queryType = None, dp_queryCol = None, dp_epsilonTotal = None, dp_delta = None,
     dp_epsilonPerQuery = None, dp_deltaPerQuery = None, dp_mechanism = None,
     dp_columnSensitivities = None, dp_bins = None, dp_trueCount = None, dp_trueSum = None,
     dp_trueCounts = None, dp_sensitivity = None, dp_randomState = None\<rparr>"

definition createDifferentialPrivacyNode ::
  "string \<Rightarrow> nat \<Rightarrow> string \<Rightarrow> rat \<Rightarrow> rat \<Rightarrow> dp_options \<Rightarrow> graph_node" where
  "createDifferentialPrivacyNode graphId idx input x y opts =
     createNode graphId idx ''privacy/differential_privacy'' (utf8 [0xE5, 0xB7, 0xAE, 0xE5, 0x88, 0x86, 0xE9, 0x9A, 0x90, 0xE7, 0xA7, 0x81]) x y
       (Some [input]) (Some [outAnchor graphId idx 0])
       (Some (with_attrs
          [''query_type'', ''query_col'', ''epsilon_total'', ''delta'', ''epsilon_per_query'',
           ''delta_per_query'', ''mechanism'', ''column_sensitivities_json'', ''bins_json'',
           ''true_count'', ''true_sum'', ''true_counts_json'', ''sensitivity'', ''random_state'']
          [sAttr (nullish (dp_queryType opts) ''mean''), sAttr (nullish (dp_queryCol opts) ''age''),
           fAttr (nullish (dp_epsilonTotal opts) 1), fAttr (nullish (dp_delta opts) 0),
           fAttr (nullish (dp_epsilonPerQuery opts) (1/10)), fAttr (nullish (dp_deltaPerQuery opts) 0),
           sAttr (nullish (dp_mechanism opts) ''laplace''),
           jsonAttr (nullish (dp_columnSensitivities opts) (JsonObj [(''age'', JsonInt 1)])),
           jsonAttr (nullish (dp_bins opts) (JsonArr [])), fAttr (nullish (dp_trueCount opts) 0),
           fAttr (nullish (dp_trueSum opts) 0), jsonAttr (nullish (dp_trueCounts opts) (JsonObj [])),
           fAttr (nullish (dp_sensitivity opts) 0), i64Attr (nullish (dp_randomState opts) 0)]
          (plain_def ''privacy'' ''differential_privacy'' ''1.1.0'')))"

section \<open>What the constructors promise\<close>

text \<open>The naming of the templates is the naming of the canvas.\<close>

lemma nodeId_canvas: "nodeId g i = nodeIdOf g i"
  by (simp add: nodeId_def nodeIdOf_def)

lemma outAnchor_canvas: "outAnchor g i k = outputAnchor (nodeIdOf g i) k"
  by (simp add: outAnchor_def outputAnchor_def nodeId_canvas)

lemma inAnchor_canvas: "inAnchor g i k = inputAnchor (nodeIdOf g i) k"
  by (simp add: inAnchor_def inputAnchor_def nodeId_canvas)

lemma edgeId_canvas:
  "edgeId g s o' t i = edgeIdOf (outputAnchor (nodeIdOf g s) o') (inputAnchor (nodeIdOf g t) i)"
  by (simp add: edgeId_def edgeIdOf_def outAnchor_canvas inAnchor_canvas)

lemma nodeId_inject [simp]: "nodeId g i = nodeId g j \<longleftrightarrow> i = j"
  by (simp add: nodeId_canvas)

lemma no_line_break_append [simp]: "no_line_break (a @ b) \<longleftrightarrow> no_line_break a \<and> no_line_break b"
  by (simp add: no_line_break_def)

lemma no_line_break_show_nat [simp]: "no_line_break (show_nat n)"
  by (auto simp: no_line_break_def list_all_iff is_digit_def dest!: show_nat_digits)

lemma no_line_break_Nil [simp]: "no_line_break []"
  by (simp add: no_line_break_def)

lemma no_line_break_Cons [simp]: "no_line_break (c # s) \<longleftrightarrow> c \<noteq> CHR 0x0A \<and> c \<noteq> CHR 0x0D \<and> no_line_break s"
  by (simp add: no_line_break_def)

lemma no_line_break_nodeId [simp]: "no_line_break (nodeId g i) \<longleftrightarrow> no_line_break g"
  by (simp add: nodeId_def)

lemma createNode_simps [simp]:
  "gn_id (createNode g i c l x y ins outs d) = nodeId g i"
  "gn_codeName (createNode g i c l x y ins outs d) = c"
  "gn_inputs (createNode g i c l x y ins outs d) = nullish ins []"
  "gn_outputs (createNode g i c l x y ins outs d) = nullish outs []"
  "gn_def (createNode g i c l x y ins outs (Some nd)) = nd"
  by (simp_all add: createNode_def)

text \<open>\<open>attrPaths\<close> and \<open>attrs\<close> come together and have the same length.\<close>

definition attrs_match :: "component_def \<Rightarrow> bool" where
  "attrs_match d = (case (def_attrPaths d, def_attrs d) of
      (None, None) \<Rightarrow> True
    | (Some ps, Some as) \<Rightarrow> length ps = length as \<and> distinct ps
    | _ \<Rightarrow> False)"

lemma attrs_match_plain [simp]: "attrs_match (plain_def d n v)"
  by (simp add: attrs_match_def plain_def_def)

lemma attrs_match_with [simp]: "attrs_match (with_attrs ps as d) \<longleftrightarrow> length ps = length as \<and> distinct ps"
  by (simp add: attrs_match_def with_attrs_def)

lemma attrs_match_if: "attrs_match (attrs_if c ps as d) \<longleftrightarrow> (if c then length ps = length as \<and> distinct ps else attrs_match d)"
  by (simp add: attrs_if_def)

lemma toList_nonempty: "s \<in> set (toList k) \<Longrightarrow> s \<noteq> ''''"
  by (simp add: toList_def non_empty_def)

lemma createPsiNode_simps [simp]:
  "gn_id (createPsiNode g i ins rk sk r s ps x y) = nodeId g i"
  "gn_codeName (createPsiNode g i ins rk sk r s ps x y) = ''data_prep/psi''"
  "gn_inputs (createPsiNode g i ins rk sk r s ps x y) = ins"
  "gn_outputs (createPsiNode g i ins rk sk r s ps x y) = [outAnchor g i 0, outAnchor g i 1]"
  "attrs_match (gn_def (createPsiNode g i ins rk sk r s ps x y))"
  by (simp_all add: createPsiNode_def Let_def attrs_match_if)

lemma createTeePsiNode_simps [simp]:
  "gn_id (createTeePsiNode g i ins rk sk x y) = nodeId g i"
  "gn_codeName (createTeePsiNode g i ins rk sk x y) = ''preprocessing/psi''"
  "gn_inputs (createTeePsiNode g i ins rk sk x y) = ins"
  "gn_outputs (createTeePsiNode g i ins rk sk x y) = [outAnchor g i 0]"
  "attrs_match (gn_def (createTeePsiNode g i ins rk sk x y))"
  by (simp_all add: createTeePsiNode_def Let_def attrs_match_if)

lemma createReadDataNode_simps [simp]:
  "gn_id (createReadDataNode g i tbl x y part lbl) = nodeId g i"
  "gn_codeName (createReadDataNode g i tbl x y part lbl) = ''read_data/datatable''"
  "gn_inputs (createReadDataNode g i tbl x y part lbl) = []"
  "gn_outputs (createReadDataNode g i tbl x y part lbl) = [outAnchor g i 0]"
  "attrs_match (gn_def (createReadDataNode g i tbl x y part lbl))"
  by (simp_all add: createReadDataNode_def datatableDef_def)

lemma createTableStatisticsNode_simps [simp]:
  "gn_id (createTableStatisticsNode g i inp x y fs v) = nodeId g i"
  "gn_codeName (createTableStatisticsNode g i inp x y fs v) = ''stats/table_statistics''"
  "gn_inputs (createTableStatisticsNode g i inp x y fs v) = [inp]"
  "gn_outputs (createTableStatisticsNode g i inp x y fs v) = [outAnchor g i 0]"
  "attrs_match (gn_def (createTableStatisticsNode g i inp x y fs v))"
  by (simp_all add: createTableStatisticsNode_def Let_def attrs_match_if)

lemma createTrainTestSplitNode_simps [simp]:
  "gn_id (createTrainTestSplitNode g i inp x y d v) = nodeId g i"
  "gn_codeName (createTrainTestSplitNode g i inp x y d v) = nullish d ''data_prep'' @ ''/train_test_split''"
  "gn_inputs (createTrainTestSplitNode g i inp x y d v) = [inp]"
  "gn_outputs (createTrainTestSplitNode g i inp x y d v) = [outAnchor g i 0, outAnchor g i 1]"
  "attrs_match (gn_def (createTrainTestSplitNode g i inp x y d v))"
  by (simp_all add: createTrainTestSplitNode_def Let_def)

lemma createDifferentialPrivacyNode_simps [simp]:
  "gn_id (createDifferentialPrivacyNode g i inp x y ops) = nodeId g i"
  "gn_codeName (createDifferentialPrivacyNode g i inp x y ops) = ''privacy/differential_privacy''"
  "gn_inputs (createDifferentialPrivacyNode g i inp x y ops) = [inp]"
  "gn_outputs (createDifferentialPrivacyNode g i inp x y ops) = [outAnchor g i 0]"
  "attrs_match (gn_def (createDifferentialPrivacyNode g i inp x y ops))"
  by (simp_all add: createDifferentialPrivacyNode_def)

end
