(* ===== verification/TemplateLayout.thy ===== *)
theory TemplateLayout
  imports Builder
begin

text \<open>
  \<open>layoutTemplate\<close> (\<open>web/apps/secretpad/src/features/dag-templates/layout.ts\<close>): the nodes of a new
  template are placed in topological layers, one row per layer.  The loop removes a layer of the
  remaining nodes at a time; when no node is free of predecessors it takes all of them, so it ends
  on cyclic graphs too.
\<close>

section \<open>Layers\<close>

definition ready_nodes :: "string list \<Rightarrow> graph_edge list \<Rightarrow> string list \<Rightarrow> string list" where
  "ready_nodes ids edges remaining =
     filter (\<lambda>id. id \<in> set remaining \<and>
       \<not> (\<exists>e \<in> set edges. edge_target e = id \<and> edge_source e \<in> set remaining)) ids"

definition next_layer :: "string list \<Rightarrow> graph_edge list \<Rightarrow> string list \<Rightarrow> string list" where
  "next_layer ids edges remaining =
     (let ready = ready_nodes ids edges remaining in if ready \<noteq> [] then ready else remaining)"

lemma next_layer_subset: "set (next_layer ids es rem) \<subseteq> set rem"
  by (auto simp: next_layer_def ready_nodes_def Let_def)

lemma next_layer_nonempty: "rem \<noteq> [] \<Longrightarrow> next_layer ids es rem \<noteq> []"
  by (simp add: next_layer_def Let_def)

function layers_from :: "string list \<Rightarrow> graph_edge list \<Rightarrow> string list \<Rightarrow> string list list" where
  "layers_from ids edges [] = []"
| "layers_from ids edges (r # rs) =
     next_layer ids edges (r # rs) #
     layers_from ids edges (filter (\<lambda>id. id \<notin> set (next_layer ids edges (r # rs))) (r # rs))"
  by pat_completeness auto
termination
proof (relation "measure (\<lambda>(ids, es, rem). length rem)")
  fix ids es and r :: string and rs
  have "next_layer ids es (r # rs) \<noteq> []" by (rule next_layer_nonempty) simp
  then obtain x where "x \<in> set (next_layer ids es (r # rs))" by (cases "next_layer ids es (r # rs)") auto
  moreover from this have "x \<in> set (r # rs)" using next_layer_subset by blast
  ultimately have "length (filter (\<lambda>id. id \<notin> set (next_layer ids es (r # rs))) (r # rs)) < length (r # rs)"
    by (intro length_filter_less) auto
  then show "((ids, es, filter (\<lambda>id. id \<notin> set (next_layer ids es (r # rs))) (r # rs)), ids, es, r # rs)
    \<in> measure (\<lambda>(ids, es, rem). length rem)" by simp
qed simp

definition layers :: "template_graph \<Rightarrow> string list list" where
  "layers g = (let ids = map gn_id (tg_nodes g) in layers_from ids (tg_edges g) (dedup ids))"

section \<open>Positions\<close>

definition max_columns :: "string list list \<Rightarrow> nat" where
  "max_columns ls = foldl max 1 (map length ls)"

definition cell_x :: "nat \<Rightarrow> nat \<Rightarrow> nat \<Rightarrow> rat" where
  "cell_x maxColumns len column = 80 + ((of_nat maxColumns - of_nat len) / 2 + of_nat column) * 260"

definition cell_y :: "nat \<Rightarrow> rat" where
  "cell_y row = 60 + of_nat row * 200"

definition cells :: "string list list \<Rightarrow> (string \<times> rat \<times> rat) list" where
  "cells ls = concat (map (\<lambda>(row, layer).
       map (\<lambda>(column, id). (id, cell_x (max_columns ls) (length layer) column, cell_y row)) (enumerate 0 layer))
     (enumerate 0 ls))"

definition place :: "(string \<rightharpoonup> rat \<times> rat) \<Rightarrow> graph_node \<Rightarrow> graph_node" where
  "place positions node = (case positions (gn_id node) of
       None \<Rightarrow> node
     | Some (x, y) \<Rightarrow> node\<lparr>gn_x := x, gn_y := y\<rparr>)"

definition layoutTemplate :: "template_graph \<Rightarrow> template_graph" where
  "layoutTemplate g = g\<lparr>tg_nodes := map (place (map_set_all (cells (layers g)))) (tg_nodes g)\<rparr>"

section \<open>The layers partition the nodes and follow the edges\<close>

lemma layers_from_Cons:
  "rem \<noteq> [] \<Longrightarrow> layers_from ids es rem = next_layer ids es rem #
     layers_from ids es (filter (\<lambda>id. id \<notin> set (next_layer ids es rem)) rem)"
  by (cases rem) auto

lemma set_layers_from: "set (concat (layers_from ids es rem)) = set rem"
proof (induction ids es rem rule: layers_from.induct)
  case (2 ids es r rs)
  let ?rem = "r # rs"
  let ?layer = "next_layer ids es ?rem"
  have "set (filter (\<lambda>id. id \<notin> set ?layer) ?rem) = set ?rem - set ?layer" by (simp only: set_filter) blast
  then have "set (concat (layers_from ids es ?rem)) = set ?layer \<union> (set ?rem - set ?layer)"
    unfolding layers_from.simps concat.simps set_append 2 by (rule arg_cong)
  also have "\<dots> = set ?rem" using next_layer_subset [of ids es ?rem] by blast
  finally show ?case .
qed simp

lemma distinct_layers_from:
  "distinct ids \<Longrightarrow> distinct rem \<Longrightarrow> distinct (concat (layers_from ids es rem))"
proof (induction ids es rem rule: layers_from.induct)
  case (2 ids es r rs)
  have "distinct (next_layer ids es (r # rs))"
    using 2(2,3) by (simp add: next_layer_def ready_nodes_def Let_def)
  moreover have "distinct (filter (\<lambda>id. id \<notin> set (next_layer ids es (r # rs))) (r # rs))"
    using 2(3) by (rule distinct_filter)
  ultimately show ?case
    using 2(1) [OF 2(2)] by (simp add: set_layers_from [unfolded set_concat] del: filter.simps) blast
qed simp

text \<open>In an acyclic graph some remaining node has no remaining predecessor.\<close>

lemma ready_nonempty:
  assumes "acyclic (edge_rel es)" "rem \<noteq> []" "set rem \<subseteq> set ids"
  shows "ready_nodes ids es rem \<noteq> []"
proof -
  have "wf (edge_rel es)"
    using assms(1) by (intro finite_acyclic_wf) (simp_all add: edge_rel_def)
  moreover obtain x where "x \<in> set rem" using assms(2) by (cases rem) auto
  ultimately obtain z where z: "z \<in> set rem" "\<And>y. (y, z) \<in> edge_rel es \<Longrightarrow> y \<notin> set rem"
    by (rule wfE_min) blast
  then have "z \<in> set (ready_nodes ids es rem)"
    using assms(3) by (force simp: ready_nodes_def edge_rel_def)
  then show ?thesis by auto
qed

lemma concat_nth: "x \<in> set (concat ls) \<Longrightarrow> \<exists>i. i < length ls \<and> x \<in> set (ls ! i)"
  by (auto simp: in_set_conv_nth) (metis in_set_conv_nth)

lemma layers_from_edge:
  "acyclic (edge_rel es) \<Longrightarrow> set rem \<subseteq> set ids \<Longrightarrow> e \<in> set es \<Longrightarrow>
   edge_source e \<in> set rem \<Longrightarrow> edge_target e \<in> set rem \<Longrightarrow>
   \<exists>i j. i < j \<and> j < length (layers_from ids es rem) \<and>
     edge_source e \<in> set (layers_from ids es rem ! i) \<and> edge_target e \<in> set (layers_from ids es rem ! j)"
proof (induction ids es rem rule: layers_from.induct)
  case (2 ids es r rs)
  let ?rem = "r # rs"
  let ?layer = "next_layer ids es ?rem"
  let ?rest = "filter (\<lambda>id. id \<notin> set ?layer) ?rem"
  have layer: "?layer = ready_nodes ids es ?rem"
    using ready_nonempty [OF 2(2) _ 2(3)] by (simp add: next_layer_def Let_def)
  have t: "edge_target e \<notin> set ?layer"
    using 2(4,5) by (auto simp: layer ready_nodes_def)
  with 2(6) have t': "edge_target e \<in> set ?rest" unfolding set_filter by blast
  define ls where "ls = layers_from ids es ?rest"
  have L: "layers_from ids es ?rem = ?layer # ls" unfolding ls_def by (rule layers_from.simps)
  have set_ls: "set (concat ls) = set ?rest" unfolding ls_def by (rule set_layers_from)
  show ?case
  proof (cases "edge_source e \<in> set ?layer")
    case True
    have "edge_target e \<in> set (concat ls)" using t' unfolding set_ls .
    from concat_nth [OF this] obtain j where j: "j < length ls" "edge_target e \<in> set (ls ! j)"
      by (elim exE conjE)
    show ?thesis
      unfolding L by (rule exI [of _ 0], rule exI [of _ "Suc j"]) (simp add: j True)
  next
    case False
    have "\<exists>i j. i < j \<and> j < length ls \<and> edge_source e \<in> set (ls ! i) \<and> edge_target e \<in> set (ls ! j)"
      unfolding ls_def
    proof (rule 2(1) [OF 2(2) _ 2(4) _ t'])
      show "set ?rest \<subseteq> set ids" using 2(3) unfolding set_filter by blast
      show "edge_source e \<in> set ?rest" using False 2(5) unfolding set_filter by blast
    qed
    then obtain i j where j: "i < j" "j < length ls" "edge_source e \<in> set (ls ! i)" "edge_target e \<in> set (ls ! j)"
      by (elim exE conjE)
    show ?thesis
      unfolding L by (rule exI [of _ "Suc i"], rule exI [of _ "Suc j"]) (simp add: j)
  qed
qed simp

section \<open>Where a node ends up\<close>

lemma map_fst_cells: "map fst (cells ls) = concat ls"
proof -
  have "map fst (concat (map (\<lambda>(row, layer). map (\<lambda>(column, id). (id, f (length layer) column, g row)) (enumerate 0 layer))
      (enumerate k ls))) = concat ls" for f :: "nat \<Rightarrow> nat \<Rightarrow> rat" and g :: "nat \<Rightarrow> rat" and k
  proof (induction ls arbitrary: k)
    case (Cons l ls)
    have "map (fst \<circ> (\<lambda>(column, id). (id, f (length l) column, g k))) (enumerate 0 l) = map snd (enumerate 0 l)"
      by (rule map_cong) auto
    with Cons show ?case by simp
  qed simp
  then show ?thesis by (simp add: cells_def)
qed

lemma cells_mem:
  assumes "i < length ls" "j < length (ls ! i)"
  shows "(ls ! i ! j, cell_x (max_columns ls) (length (ls ! i)) j, cell_y i) \<in> set (cells ls)"
proof -
  have "(i, ls ! i) \<in> set (enumerate 0 ls)" "(j, ls ! i ! j) \<in> set (enumerate 0 (ls ! i))"
    using assms by (simp_all add: in_set_enumerate_eq)
  then show ?thesis by (force simp: cells_def)
qed

lemma position_of:
  assumes "distinct (concat ls)" "i < length ls" "j < length (ls ! i)"
  shows "map_set_all (cells ls) (ls ! i ! j) = Some (cell_x (max_columns ls) (length (ls ! i)) j, cell_y i)"
  using assms by (intro map_set_all_distinct cells_mem) (simp_all add: map_fst_cells)

lemma place_id [simp]: "gn_id (place p n) = gn_id n"
  by (simp add: place_def split: option.splits)

text \<open>Everything but the coordinates is kept.\<close>

definition same_but_position :: "graph_node \<Rightarrow> graph_node \<Rightarrow> bool" where
  "same_but_position n n' \<longleftrightarrow> n' = n\<lparr>gn_x := gn_x n', gn_y := gn_y n'\<rparr>"

lemma layoutTemplate_keeps:
  "tg_edges (layoutTemplate g) = tg_edges g"
  "list_all2 same_but_position (tg_nodes g) (tg_nodes (layoutTemplate g))"
  by (simp_all add: layoutTemplate_def list_all2_conv_all_nth same_but_position_def place_def split: option.splits)

definition cell_of :: "template_graph \<Rightarrow> string \<Rightarrow> nat \<Rightarrow> nat \<Rightarrow> bool" where
  "cell_of g n i j \<longleftrightarrow> i < length (layers g) \<and> j < length (layers g ! i) \<and> layers g ! i ! j = n"

lemma cell_exists:
  assumes "n \<in> set (tg_nodes g)"
  shows "\<exists>i j. cell_of g (gn_id n) i j"
proof -
  have "gn_id n \<in> set (concat (layers g))"
    using assms by (simp only: layers_def Let_def set_layers_from) simp
  then obtain l where "l \<in> set (layers g)" "gn_id n \<in> set l" by auto
  then show ?thesis unfolding cell_of_def by (metis in_set_conv_nth)
qed

lemma distinct_layers: "distinct (map gn_id (tg_nodes g)) \<Longrightarrow> distinct (concat (layers g))"
  unfolding layers_def Let_def by (intro distinct_layers_from) simp_all

lemma placed_at:
  assumes "distinct (map gn_id (tg_nodes g))" "cell_of g (gn_id n) i j"
  shows "gn_x (place (map_set_all (cells (layers g))) n) = cell_x (max_columns (layers g)) (length (layers g ! i)) j"
    and "gn_y (place (map_set_all (cells (layers g))) n) = cell_y i"
  using position_of [OF distinct_layers [OF assms(1)], of i j] assms(2)
  by (simp_all add: place_def cell_of_def)

text \<open>Two nodes are never closer than a card: 260 apart in a row, 200 between rows.\<close>

definition apart :: "graph_node \<Rightarrow> graph_node \<Rightarrow> bool" where
  "apart n n' \<longleftrightarrow> 260 \<le> \<bar>gn_x n - gn_x n'\<bar> \<or> 200 \<le> \<bar>gn_y n - gn_y n'\<bar>"

lemma cell_y_apart: "i \<noteq> i' \<Longrightarrow> 200 \<le> \<bar>cell_y i - cell_y i'\<bar>"
proof -
  assume "i \<noteq> i'"
  then have "(1::rat) \<le> \<bar>of_int (int i - int i')\<bar>" by linarith
  then show ?thesis by (simp add: cell_y_def abs_if split: if_splits)
qed

lemma cell_x_apart: "j \<noteq> j' \<Longrightarrow> 260 \<le> \<bar>cell_x m l j - cell_x m l j'\<bar>"
proof -
  assume "j \<noteq> j'"
  then have "(1::rat) \<le> \<bar>of_int (int j - int j')\<bar>" by linarith
  then show ?thesis by (simp add: cell_x_def algebra_simps abs_if split: if_splits)
qed

lemma layout_apart:
  assumes d: "distinct (map gn_id (tg_nodes g))"
    and n: "n \<in> set (tg_nodes (layoutTemplate g))" "n' \<in> set (tg_nodes (layoutTemplate g))" "gn_id n \<noteq> gn_id n'"
  shows "apart n n'"
proof -
  let ?p = "place (map_set_all (cells (layers g)))"
  obtain m m' where m: "m \<in> set (tg_nodes g)" "n = ?p m" "m' \<in> set (tg_nodes g)" "n' = ?p m'"
    using n(1,2) by (auto simp: layoutTemplate_def)
  obtain i j where c: "cell_of g (gn_id m) i j" using cell_exists [OF m(1)] by blast
  obtain i' j' where c': "cell_of g (gn_id m') i' j'" using cell_exists [OF m(3)] by blast
  have "i \<noteq> i' \<or> j \<noteq> j'" using c c' n(3) m by (auto simp: cell_of_def)
  then show ?thesis
    unfolding apart_def m(2) m(4) placed_at [OF d c] placed_at [OF d c']
    using cell_y_apart [of i i'] cell_x_apart [of j j'] by (cases "i = i'") auto
qed

text \<open>Edges point down: the target of an edge stands at least a row below its source.\<close>

lemma layout_down:
  assumes d: "distinct (map gn_id (tg_nodes g))" and ac: "acyclic (edge_rel (tg_edges g))"
    and e: "e \<in> set (tg_edges g)"
    and n: "n \<in> set (tg_nodes (layoutTemplate g))" "gn_id n = edge_source e"
    and n': "n' \<in> set (tg_nodes (layoutTemplate g))" "gn_id n' = edge_target e"
  shows "gn_y n + 200 \<le> gn_y n'"
proof -
  let ?p = "place (map_set_all (cells (layers g)))" and ?ids = "map gn_id (tg_nodes g)"
  obtain m m' where m: "m \<in> set (tg_nodes g)" "n = ?p m" "m' \<in> set (tg_nodes g)" "n' = ?p m'"
    using n n' by (auto simp: layoutTemplate_def)
  have ends: "edge_source e \<in> set (dedup ?ids)" "edge_target e \<in> set (dedup ?ids)"
    using m n(2) n'(2) by force+
  obtain i j where ij: "i < j" "j < length (layers g)" "edge_source e \<in> set (layers g ! i)" "edge_target e \<in> set (layers g ! j)"
    using layers_from_edge [OF ac _ e ends, of ?ids] unfolding layers_def Let_def by auto
  obtain a where a: "a < length (layers g ! i)" "layers g ! i ! a = edge_source e" using ij(3) by (metis in_set_conv_nth)
  obtain b where b: "b < length (layers g ! j)" "layers g ! j ! b = edge_target e" using ij(4) by (metis in_set_conv_nth)
  have "cell_of g (gn_id m) i a" "cell_of g (gn_id m') j b"
    using ij a b m n(2) n'(2) by (simp_all add: cell_of_def)
  then have "gn_y n = cell_y i" "gn_y n' = cell_y j" using placed_at [OF d] m by auto
  moreover have "of_nat (Suc i) \<le> (of_nat j :: rat)" using ij(1) by (simp only: of_nat_le_iff)
  ultimately show ?thesis by (simp add: cell_y_def algebra_simps)
qed

end
