(* ===== verification/TemplateShape.thy ===== *)
theory TemplateShape
  imports TemplateLayout Canvas
begin

text \<open>
  What it means for a template to be wired correctly, and a way to decide it: the wiring of a
  template does not depend on the graph identifier, so it is read off as a list of indices (the
  shape) and checked by evaluation.
\<close>

section \<open>The specification\<close>

definition has_source :: "template_graph \<Rightarrow> graph_edge \<Rightarrow> bool" where
  "has_source t e \<longleftrightarrow> (\<exists>n \<in> set (tg_nodes t). gn_id n = edge_source e \<and> the (source_anchor e) \<in> set (gn_outputs n))"

definition has_target :: "template_graph \<Rightarrow> graph_edge \<Rightarrow> bool" where
  "has_target t e \<longleftrightarrow> (\<exists>n \<in> set (tg_nodes t). gn_id n = edge_target e)"

definition inputs_agree :: "template_graph \<Rightarrow> graph_node \<Rightarrow> bool" where
  "inputs_agree t n \<longleftrightarrow> gn_inputs n = deriveInputs (gn_id n) (tg_edges t)"

text \<open>Every edge joins an output of a node of the graph to an input slot of its own, without cycle.\<close>

definition well_formed :: "template_graph \<Rightarrow> bool" where
  "well_formed t \<longleftrightarrow>
     distinct (map gn_id (tg_nodes t)) \<and>
     (\<forall>e \<in> set (tg_edges t). edge_ok e \<and> has_source t e \<and> has_target t e) \<and>
     distinct (map target_anchor (tg_edges t)) \<and>
     acyclic (edge_rel (tg_edges t)) \<and>
     (\<forall>n \<in> set (tg_nodes t). attrs_match (gn_def n))"

text \<open>And the inputs a node declares are those its edges give it.\<close>

definition well_wired :: "template_graph \<Rightarrow> bool" where
  "well_wired t \<longleftrightarrow> well_formed t \<and> (\<forall>n \<in> set (tg_nodes t). inputs_agree t n)"

section \<open>Shapes\<close>

text \<open>A node: its index, the outputs it reads as pairs of indices, its number of outputs.\<close>

type_synonym shape_node = "nat \<times> (nat \<times> nat) list \<times> nat"

text \<open>An edge: the arguments of \<open>connect\<close>.\<close>

type_synonym shape_edge = "nat \<times> nat \<times> nat \<times> nat"

definition draw_node :: "string \<Rightarrow> shape_node \<Rightarrow> string \<times> string list \<times> string list" where
  "draw_node g = (\<lambda>(i, ins, outs). (nodeId g i, map (\<lambda>(s, out). outAnchor g s out) ins, map (outAnchor g i) [0..<outs]))"

definition draw_edge :: "string \<Rightarrow> shape_edge \<Rightarrow> graph_edge" where
  "draw_edge g = (\<lambda>(s, out, t, i). connect g s out t i)"

definition drawn :: "string \<Rightarrow> shape_node list \<Rightarrow> shape_edge list \<Rightarrow> template_graph \<Rightarrow> bool" where
  "drawn g ns es t \<longleftrightarrow>
     map (\<lambda>n. (gn_id n, gn_inputs n, gn_outputs n)) (tg_nodes t) = map (draw_node g) ns \<and>
     tg_edges t = map (draw_edge g) es"

fun before :: "nat \<Rightarrow> nat \<Rightarrow> nat list \<Rightarrow> bool" where
  "before s t [] = False"
| "before s t (x # xs) = (x \<noteq> t \<and> (x = s \<or> before s t xs))"

definition shape_ok :: "shape_node list \<Rightarrow> shape_edge list \<Rightarrow> bool" where
  "shape_ok ns es \<longleftrightarrow>
     distinct (map fst ns) \<and>
     distinct (map (\<lambda>(s, out, t, i). (t, i)) es) \<and>
     list_all (\<lambda>(s, out, t, i).
       list_ex (\<lambda>(n, ins, outs). n = s \<and> out < outs) ns \<and>
       t \<in> set (map fst ns) \<and> before s t (map fst ns)) es"

definition shape_inputs :: "shape_edge list \<Rightarrow> shape_node \<Rightarrow> bool" where
  "shape_inputs es = (\<lambda>(n, ins, outs).
     list_all (\<lambda>(s, out, t, i). t = n \<longrightarrow> i < length ins \<and> ins ! i = (s, out)) es \<and>
     list_all (\<lambda>i. (fst (ins ! i), snd (ins ! i), n, i) \<in> set es) [0..<length ins])"

lemma draw_edge_simps [simp]:
  "edge_source (draw_edge g (s, out, t, i)) = nodeId g s"
  "edge_target (draw_edge g (s, out, t, i)) = nodeId g t"
  "source_anchor (draw_edge g (s, out, t, i)) = Some (outAnchor g s out)"
  "target_anchor (draw_edge g (s, out, t, i)) = Some (inAnchor g t i)"
  by (simp_all add: draw_edge_def connect_def)

lemma outAnchor_nonempty [simp]: "outAnchor g s out \<noteq> []"
  by (simp add: outAnchor_canvas)

lemma parse_inAnchor [simp]: "no_line_break g \<Longrightarrow> parseAnchor (Some (inAnchor g t i)) = Some (nodeId g t, Input, i)"
  using parseAnchor_input [of "nodeId g t" i] by (simp add: inAnchor_canvas nodeId_canvas [symmetric])

lemma parse_outAnchor [simp]: "no_line_break g \<Longrightarrow> parseAnchor (Some (outAnchor g t i)) = Some (nodeId g t, Output, i)"
  using parseAnchor_output [of "nodeId g t" i] by (simp add: outAnchor_canvas nodeId_canvas [symmetric])

lemma outAnchor_inject: "no_line_break g \<Longrightarrow> outAnchor g s i = outAnchor g s' i' \<longleftrightarrow> s = s' \<and> i = i'"
  by (metis parse_outAnchor nodeId_inject option.inject prod.inject)

lemma inAnchor_inject: "no_line_break g \<Longrightarrow> inAnchor g s i = inAnchor g s' i' \<longleftrightarrow> s = s' \<and> i = i'"
  by (metis parse_inAnchor nodeId_inject option.inject prod.inject)

lemma draw_edge_ok: "no_line_break g \<Longrightarrow> edge_ok (draw_edge g e)"
  by (cases e) (simp add: edge_ok_def)

lemma fill_of_draw:
  "no_line_break g \<Longrightarrow>
   fill_of (nodeId g n) (draw_edge g (s, out, t, i)) = (if t = n then Some (i, outAnchor g s out) else None)"
  by (simp add: fill_of_def)

text \<open>The inputs derived from the edges are the declared ones.\<close>

lemma derive_drawn:
  assumes g: "no_line_break g" and sh: "shape_inputs es (n, ins, outs)"
  shows "deriveInputs (nodeId g n) (map (draw_edge g) es) = map (\<lambda>(s, out). outAnchor g s out) ins"
proof (rule nth_equalityI)
  let ?d = "deriveInputs (nodeId g n) (map (draw_edge g) es)"
  have into: "i < length ins \<and> ins ! i = (s, out)" if "(s, out, n, i) \<in> set es" for s out i
    using sh that by (auto simp: shape_inputs_def list_all_iff)
  have onto: "(fst (ins ! i), snd (ins ! i), n, i) \<in> set es" if "i < length ins" for i
    using sh that by (simp add: shape_inputs_def list_all_iff)
  have fills: "\<exists>s out. (s, out, n, i) \<in> set es \<and> x = outAnchor g s out"
    if h: "e \<in> set (map (draw_edge g) es)" "fill_of (nodeId g n) e = Some (i, x)" for e i x
  proof -
    obtain e' where e': "e' \<in> set es" "e = draw_edge g e'" using h(1) unfolding set_map by blast
    obtain s out t j where "e' = (s, out, t, j)" by (cases e')
    with e' have q: "(s, out, t, j) \<in> set es" "e = draw_edge g (s, out, t, j)" by simp_all
    with h(2) have "t = n \<and> j = i \<and> x = outAnchor g s out" by (simp add: fill_of_draw g split: if_splits)
    with q(1) show ?thesis by blast
  qed
  have slot: "i < length ?d \<and> ?d ! i = outAnchor g (fst (ins ! i)) (snd (ins ! i))" if "i < length ins" for i
  proof (rule deriveInputs_single)
    show "draw_edge g (fst (ins ! i), snd (ins ! i), n, i) \<in> set (map (draw_edge g) es)"
      using onto [OF that] by (metis image_eqI list.set_map)
    show "fill_of (nodeId g n) (draw_edge g (fst (ins ! i), snd (ins ! i), n, i)) =
      Some (i, outAnchor g (fst (ins ! i)) (snd (ins ! i)))" by (simp add: fill_of_draw g)
    fix e' s' assume "e' \<in> set (map (draw_edge g) es)" "fill_of (nodeId g n) e' = Some (i, s')"
    then obtain s out where "(s, out, n, i) \<in> set es" "s' = outAnchor g s out" using fills by blast
    with into [of s out i] show "s' = outAnchor g (fst (ins ! i)) (snd (ins ! i))" by simp
  qed
  show len: "length ?d = length (map (\<lambda>(s, out). outAnchor g s out) ins)"
  proof (rule antisym)
    show "length ?d \<le> length (map (\<lambda>(s, out). outAnchor g s out) ins)"
    proof (rule ccontr)
      assume "\<not> ?thesis"
      then have "length ?d > length ins" by simp
      have "slot_count (fills (nodeId g n) (map (draw_edge g) es)) \<le> length ins"
        unfolding slot_count_def
      proof (rule foldl_max_le)
        fix p assume "p \<in> set (fills (nodeId g n) (map (draw_edge g) es))"
        then obtain e where "e \<in> set (map (draw_edge g) es)" "fill_of (nodeId g n) e = Some (fst p, snd p)"
          by (metis fills_mem prod.collapse)
        then obtain s out where "(s, out, n, fst p) \<in> set es" using fills by blast
        then show "Suc (fst p) \<le> length ins" using into by (metis Suc_leI)
      qed simp
      with \<open>length ?d > length ins\<close> show False by (simp add: deriveInputs_fills)
    qed
    show "length (map (\<lambda>(s, out). outAnchor g s out) ins) \<le> length ?d"
    proof (cases ins rule: rev_cases)
      case (snoc xs x)
      with slot [of "length xs"] show ?thesis by simp
    qed simp
  qed
  fix i assume "i < length ?d"
  with len slot [of i] show "?d ! i = map (\<lambda>(s, out). outAnchor g s out) ins ! i"
    by (simp add: case_prod_beta)
qed

text \<open>Acyclicity from the order of the nodes.\<close>

lemma before_nth:
  "before s t xs \<Longrightarrow> t \<in> set xs \<Longrightarrow> \<exists>i j. i < j \<and> j < length xs \<and> xs ! i = s \<and> xs ! j = t"
proof (induction xs)
  case (Cons x xs)
  then have x: "x \<noteq> t" "t \<in> set xs" by auto
  show ?case
  proof (cases "x = s")
    case True
    from x(2) obtain j where "j < length xs" "xs ! j = t" by (metis in_set_conv_nth)
    with True show ?thesis by (intro exI [of _ 0] exI [of _ "Suc j"]) simp
  next
    case False
    with Cons x obtain i j where "i < j" "j < length xs" "xs ! i = s" "xs ! j = t" by auto
    then show ?thesis by (intro exI [of _ "Suc i"] exI [of _ "Suc j"]) simp
  qed
qed simp

lemma acyclic_before:
  assumes d: "distinct xs" and r: "\<And>a b. (a, b) \<in> r \<Longrightarrow> \<exists>i j. i < j \<and> j < length xs \<and> xs ! i = a \<and> xs ! j = b"
  shows "acyclic r"
proof -
  let ?rank = "\<lambda>x. THE i. i < length xs \<and> xs ! i = x"
  have rank: "?rank (xs ! i) = i" if "i < length xs" for i
    using that d by (intro the_equality) (auto simp: nth_eq_iff_index_eq)
  have "r \<subseteq> measure ?rank"
  proof
    fix p assume "p \<in> r"
    obtain a b where p: "p = (a, b)" by (cases p)
    with \<open>p \<in> r\<close> obtain i j where "i < j" "j < length xs" "xs ! i = a" "xs ! j = b" using r by blast
    with rank [of i] rank [of j] show "p \<in> measure ?rank" by (auto simp: p)
  qed
  then have "wf r" using wf_subset [OF wf_measure] by blast
  then show ?thesis by (rule wf_acyclic)
qed

lemma acyclic_drawn:
  assumes "shape_ok ns es"
  shows "acyclic (edge_rel (map (draw_edge g) es))"
proof (rule acyclic_before)
  let ?xs = "map (nodeId g) (map fst ns)"
  show "distinct ?xs" using assms by (simp add: shape_ok_def distinct_map inj_on_def)
  fix a b assume "(a, b) \<in> edge_rel (map (draw_edge g) es)"
  then obtain s out t i where e: "(s, out, t, i) \<in> set es" "a = nodeId g s" "b = nodeId g t"
    by (auto simp: edge_rel_def)
  with assms have "before s t (map fst ns)" "t \<in> set (map fst ns)"
    by (auto simp: shape_ok_def list_all_iff)
  then obtain i j where "i < j" "j < length ns" "map fst ns ! i = s" "map fst ns ! j = t"
    using before_nth [of s t "map fst ns"] by auto
  with e show "\<exists>i j. i < j \<and> j < length ?xs \<and> ?xs ! i = a \<and> ?xs ! j = b"
    by (intro exI [of _ i] exI [of _ j]) simp
qed

section \<open>A drawn shape is well formed\<close>

lemma drawn_node:
  assumes "drawn g ns es t" "(n, ins, outs) \<in> set ns"
  shows "\<exists>nd \<in> set (tg_nodes t). gn_id nd = nodeId g n \<and> gn_outputs nd = map (outAnchor g n) [0..<outs]"
proof -
  have "draw_node g (n, ins, outs) \<in> set (map (\<lambda>n. (gn_id n, gn_inputs n, gn_outputs n)) (tg_nodes t))"
    using assms unfolding drawn_def by (metis (no_types) image_eqI list.set_map)
  then obtain nd where nd: "nd \<in> set (tg_nodes t)"
    "draw_node g (n, ins, outs) = (gn_id nd, gn_inputs nd, gn_outputs nd)" unfolding set_map by blast
  from nd(2) have "gn_id nd = nodeId g n \<and> gn_outputs nd = map (outAnchor g n) [0..<outs]"
    unfolding draw_node_def by simp
  with nd(1) show ?thesis by blast
qed

lemma drawn_ids: "drawn g ns es t \<Longrightarrow> map gn_id (tg_nodes t) = map (nodeId g) (map fst ns)"
proof -
  assume "drawn g ns es t"
  then have "map fst (map (\<lambda>n. (gn_id n, gn_inputs n, gn_outputs n)) (tg_nodes t)) = map fst (map (draw_node g) ns)"
    by (simp only: drawn_def)
  then show ?thesis by (simp add: comp_def draw_node_def case_prod_beta)
qed

lemma drawn_well_formed:
  assumes g: "no_line_break g" and dr: "drawn g ns es t" and sh: "shape_ok ns es"
    and at: "list_all (\<lambda>n. attrs_match (gn_def n)) (tg_nodes t)"
  shows "well_formed t"
  unfolding well_formed_def
proof (intro conjI ballI)
  have edges: "tg_edges t = map (draw_edge g) es" using dr by (simp add: drawn_def)
  show "distinct (map gn_id (tg_nodes t))"
    using sh unfolding drawn_ids [OF dr] by (simp add: shape_ok_def distinct_map inj_on_def)
  have "inj_on (\<lambda>(t, i). Some (inAnchor g t i)) (set (map (\<lambda>(s, out, t, i). (t, i)) es))"
    by (auto simp: inj_on_def inAnchor_inject [OF g])
  moreover have "map target_anchor (tg_edges t) = map (\<lambda>(t, i). Some (inAnchor g t i)) (map (\<lambda>(s, out, t, i). (t, i)) es)"
    by (auto simp: edges)
  ultimately show "distinct (map target_anchor (tg_edges t))"
    using sh by (simp add: shape_ok_def distinct_map del: map_map)
  show "acyclic (edge_rel (tg_edges t))" using acyclic_drawn [OF sh] by (simp add: edges)
  fix e assume "e \<in> set (tg_edges t)"
  then obtain s out tt i where e: "(s, out, tt, i) \<in> set es" "e = draw_edge g (s, out, tt, i)"
    by (auto simp: edges)
  then show "edge_ok e" by (simp add: draw_edge_ok g)
  have w: "list_ex (\<lambda>(n, ins, outs). n = s \<and> out < outs) ns" "tt \<in> set (map fst ns)"
    using sh e(1) by (auto simp: shape_ok_def list_all_iff)
  then obtain ins outs where "(s, ins, outs) \<in> set ns" "out < outs" by (auto simp: list_ex_iff)
  with drawn_node [OF dr this(1)] show "has_source t e" by (auto simp: has_source_def e(2))
  from w(2) obtain ins outs where "(tt, ins, outs) \<in> set ns" by auto
  with drawn_node [OF dr this] show "has_target t e" by (auto simp: has_target_def e(2))
next
  fix n assume "n \<in> set (tg_nodes t)"
  with at show "attrs_match (gn_def n)" by (simp add: list_all_iff)
qed

lemma drawn_inputs_agree:
  assumes g: "no_line_break g" and dr: "drawn g ns es t" and n: "nd \<in> set (tg_nodes t)"
    and sh: "\<And>n. n \<in> set ns \<Longrightarrow> gn_id nd = nodeId g (fst n) \<Longrightarrow> shape_inputs es n"
  shows "inputs_agree t nd"
proof -
  have "(gn_id nd, gn_inputs nd, gn_outputs nd) \<in> set (map (draw_node g) ns)"
    using dr n unfolding drawn_def by (metis (mono_tags, lifting) image_eqI list.set_map)
  then obtain i ins outs where i: "(i, ins, outs) \<in> set ns" "gn_id nd = nodeId g i"
    "gn_inputs nd = map (\<lambda>(s, out). outAnchor g s out) ins" unfolding draw_node_def by auto
  have "shape_inputs es (i, ins, outs)" using sh [OF i(1)] i(2) by simp
  from derive_drawn [OF g this] show ?thesis
    using dr i by (simp add: inputs_agree_def drawn_def)
qed

lemma drawn_well_wired:
  assumes "no_line_break g" "drawn g ns es t" "shape_ok ns es" "list_all (shape_inputs es) ns"
    and "list_all (\<lambda>n. attrs_match (gn_def n)) (tg_nodes t)"
  shows "well_wired t"
  unfolding well_wired_def
  using drawn_well_formed [OF assms(1-3,5)] drawn_inputs_agree [OF assms(1,2)] assms(4)
  by (simp add: list_all_iff)

text \<open>The layout does not change any of it.\<close>

lemma layout_ids: "map gn_id (tg_nodes (layoutTemplate t)) = map gn_id (tg_nodes t)"
  by (simp add: layoutTemplate_def comp_def)

lemma place_fields [simp]:
  "gn_inputs (place p n) = gn_inputs n" "gn_outputs (place p n) = gn_outputs n" "gn_def (place p n) = gn_def n"
  "gn_codeName (place p n) = gn_codeName n"
  by (simp_all add: place_def split: option.splits)

lemma layout_well_formed [simp]: "well_formed (layoutTemplate t) = well_formed t"
  unfolding well_formed_def has_source_def has_target_def layout_ids
  by (simp add: layoutTemplate_def)

lemma layout_well_wired [simp]: "well_wired (layoutTemplate t) = well_wired t"
  unfolding well_wired_def layout_well_formed
  by (simp add: layoutTemplate_def inputs_agree_def)

end
