(* ===== verification/TemplatesBasic.thy ===== *)
theory TemplatesBasic
  imports TemplateShape
begin

text \<open>
  The templates of \<open>web/apps/secretpad/src/features/dag-templates/templates\<close>, part one: the blank
  canvas, private set intersection, and the single-table privacy components.  A template is its
  metadata and its \<open>build\<close> function.
\<close>

section \<open>Templates\<close>

record template =
  tpl_key :: string
  tpl_nameKey :: string
  tpl_descKey :: string
  tpl_computeModes :: "string list option"
  tpl_category :: "string option"
  tpl_build :: "string \<Rightarrow> configs \<Rightarrow> template_graph"

text \<open>The key doubles as the name and description key in every template.\<close>

definition metadata ::
  "string \<Rightarrow> string list option \<Rightarrow> string \<Rightarrow> (string \<Rightarrow> configs \<Rightarrow> template_graph) \<Rightarrow> template" where
  "metadata key modes category build =
     \<lparr>tpl_key = key, tpl_nameKey = key, tpl_descKey = key, tpl_computeModes = modes,
      tpl_category = Some category, tpl_build = build\<rparr>"

definition JsonStrs :: "string list \<Rightarrow> json" where
  "JsonStrs xs = JsonArr (map JsonStr xs)"

section \<open>Blank canvas\<close>

definition blank_build :: "string \<Rightarrow> configs \<Rightarrow> template_graph" where
  "blank_build graphId configs = \<lparr>tg_nodes = [], tg_edges = []\<rparr>"

definition blankTemplate :: template where
  "blankTemplate = metadata ''blank'' None ''basic'' blank_build"

section \<open>Private set intersection\<close>

definition psi_build :: "string \<Rightarrow> configs \<Rightarrow> template_graph" where
  "psi_build graphId configs =
     (let receiverNode = createReadDataNode graphId 1 (cfg_receiverTableId configs) (-390) (-210)
            (cfg_receiverPartition configs) (Some (utf8 [0xE6, 0x8E, 0xA5, 0xE6, 0x94, 0xB6, 0xE6, 0x96, 0xB9, 0xE6, 0xA0, 0xB7, 0xE6, 0x9C, 0xAC, 0xE8, 0xA1, 0xA8]));
          senderNode = createReadDataNode graphId 2 (cfg_senderTableId configs) (-150) (-210)
            (cfg_senderPartition configs) (Some (utf8 [0xE5, 0x8F, 0x91, 0xE9, 0x80, 0x81, 0xE6, 0x96, 0xB9, 0xE6, 0xA0, 0xB7, 0xE6, 0x9C, 0xAC, 0xE8, 0xA1, 0xA8]));
          receiverOut = outAnchor graphId 1 0;
          senderOut = outAnchor graphId 2 0;
          psiNode = createPsiNode graphId 3 [receiverOut, senderOut]
            (key_or_empty (cfg_receiverKey configs)) (key_or_empty (cfg_senderKey configs))
            (str_or (cfg_receiverNodeId configs) '''') (str_or (cfg_senderNodeId configs) '''')
            (cfg_receiverParties configs) (-260) (-100);
          statsNode = createTableStatisticsNode graphId 4 (outAnchor graphId 3 0) (-260) 20
            (cfg_featureSelects configs) (Some ''1.0.0'')
      in \<lparr>tg_nodes = [receiverNode, senderNode, psiNode, statsNode],
          tg_edges = [connect graphId 1 0 3 0, connect graphId 2 0 3 1, connect graphId 3 0 4 0]\<rparr>)"

definition psiTemplate :: template where
  "psiTemplate = metadata ''psi'' None ''basic'' psi_build"

definition psiGuide_build :: "string \<Rightarrow> configs \<Rightarrow> template_graph" where
  "psiGuide_build graphId configs =
     (let receiverNode = createReadDataNode graphId 1 (Some ''alice-table'') (-390) (-210) None (Some (utf8 [0xE6, 0xA0, 0xB7, 0xE6, 0x9C, 0xAC, 0xE8, 0xA1, 0xA8]));
          senderNode = createReadDataNode graphId 2 (Some ''bob-table'') (-150) (-210) None (Some (utf8 [0xE6, 0xA0, 0xB7, 0xE6, 0x9C, 0xAC, 0xE8, 0xA1, 0xA8]));
          receiverOut = outAnchor graphId 1 0;
          senderOut = outAnchor graphId 2 0;
          psiNode = createPsiNode graphId 3 [receiverOut, senderOut] (One ''id1'') (One ''id2'')
            ''alice'' ''bob'' None (-260) (-100);
          psiOut = outAnchor graphId 3 0;
          statsNode = createTableStatisticsNode graphId 4 psiOut (-260) 20
            (Some [''y'', ''age'', ''education'', ''default'']) (Some ''1.0.0'')
      in \<lparr>tg_nodes = [receiverNode, senderNode, psiNode, statsNode],
          tg_edges = [connect graphId 1 0 3 0, connect graphId 2 0 3 1, connect graphId 3 0 4 0]\<rparr>)"

definition psiGuideTemplate :: template where
  "psiGuideTemplate = metadata ''psiGuide'' (Some [''MPC'']) ''guide'' psiGuide_build"

definition psiTee_build :: "string \<Rightarrow> configs \<Rightarrow> template_graph" where
  "psiTee_build graphId configs =
     (let receiverNode = createReadDataNode graphId 1 (cfg_receiverTableId configs) (-390) (-210)
            (cfg_receiverPartition configs) (Some (utf8 [0xE6, 0xA0, 0xB7, 0xE6, 0x9C, 0xAC, 0xE8, 0xA1, 0xA8]));
          senderNode = createReadDataNode graphId 2 (cfg_senderTableId configs) (-150) (-210)
            (cfg_senderPartition configs) (Some (utf8 [0xE6, 0xA0, 0xB7, 0xE6, 0x9C, 0xAC, 0xE8, 0xA1, 0xA8]));
          receiverOut = outAnchor graphId 1 0;
          senderOut = outAnchor graphId 2 0;
          psiNode = createTeePsiNode graphId 3 [receiverOut, senderOut]
            (key_or_empty (cfg_receiverKey configs)) (key_or_empty (cfg_senderKey configs)) (-260) (-100);
          psiOut = outAnchor graphId 3 0;
          statsNode = createTableStatisticsNode graphId 4 psiOut (-260) 20 None (Some ''0.0.1'')
      in \<lparr>tg_nodes = [receiverNode, senderNode, psiNode, statsNode],
          tg_edges = [connect graphId 1 0 3 0, connect graphId 2 0 3 1, connect graphId 3 0 4 0]\<rparr>)"

definition psiTeeTemplate :: template where
  "psiTeeTemplate = metadata ''psiTee'' (Some [''TEE'']) ''basic'' psiTee_build"

definition psiTeeGuide_build :: "string \<Rightarrow> configs \<Rightarrow> template_graph" where
  "psiTeeGuide_build graphId configs =
     (let receiverNode = createReadDataNode graphId 1 (Some ''alice-table'') (-390) (-210) None (Some (utf8 [0xE6, 0xA0, 0xB7, 0xE6, 0x9C, 0xAC, 0xE8, 0xA1, 0xA8]));
          senderNode = createReadDataNode graphId 2 (Some ''bob-table'') (-150) (-210) None (Some (utf8 [0xE6, 0xA0, 0xB7, 0xE6, 0x9C, 0xAC, 0xE8, 0xA1, 0xA8]));
          receiverOut = outAnchor graphId 1 0;
          senderOut = outAnchor graphId 2 0;
          psiNode = createTeePsiNode graphId 3 [receiverOut, senderOut] (One ''id1'') (One ''id2'') (-260) (-100);
          psiOut = outAnchor graphId 3 0;
          statsNode = createTableStatisticsNode graphId 4 psiOut (-260) 20 None (Some ''0.0.1'')
      in \<lparr>tg_nodes = [receiverNode, senderNode, psiNode, statsNode],
          tg_edges = [connect graphId 1 0 3 0, connect graphId 2 0 3 1, connect graphId 3 0 4 0]\<rparr>)"

definition psiTeeGuideTemplate :: template where
  "psiTeeGuideTemplate = metadata ''psiTeeGuide'' (Some [''TEE'']) ''guide'' psiTeeGuide_build"

definition scenarioPsi_build :: "string \<Rightarrow> configs \<Rightarrow> template_graph" where
  "scenarioPsi_build graphId configs =
     (let receiverNode = createReadDataNode graphId 1 (cfg_receiverTableId configs) (-390) (-210)
            (cfg_receiverPartition configs) (Some (utf8 [0xE6, 0xA0, 0xB7, 0xE6, 0x9C, 0xAC, 0xE8, 0xA1, 0xA8]));
          senderNode = createReadDataNode graphId 2 (cfg_senderTableId configs) (-150) (-210)
            (cfg_senderPartition configs) (Some (utf8 [0xE6, 0xA0, 0xB7, 0xE6, 0x9C, 0xAC, 0xE8, 0xA1, 0xA8]));
          receiverOut = outAnchor graphId 1 0;
          senderOut = outAnchor graphId 2 0;
          psiNode = createPsiNode graphId 3 [receiverOut, senderOut]
            (key_or_empty (cfg_receiverKey configs)) (key_or_empty (cfg_senderKey configs))
            (str_or (cfg_receiverNodeId configs) '''') (str_or (cfg_senderNodeId configs) '''')
            None (-260) (-100)
      in \<lparr>tg_nodes = [receiverNode, senderNode, psiNode],
          tg_edges = [connect graphId 1 0 3 0, connect graphId 2 0 3 1]\<rparr>)"

definition scenarioPsiTemplate :: template where
  "scenarioPsiTemplate = metadata ''scenarioPsi'' (Some [''MPC'']) ''basic'' scenarioPsi_build"

section \<open>Single-table privacy components\<close>

definition dataClassification_build :: "string \<Rightarrow> configs \<Rightarrow> template_graph" where
  "dataClassification_build graphId configs =
     buildSingleTablePrivacyTemplate graphId (cfg_tableId configs)
       ''privacy/data_classification'' (utf8 [0xE6, 0x95, 0xB0, 0xE6, 0x8D, 0xAE, 0xE5, 0x88, 0x86, 0xE7, 0xB1, 0xBB, 0xE5, 0x88, 0x86, 0xE7, 0xBA, 0xA7])
       (with_attrs [''mode'', ''mode/auto/default_level''] [sAttr ''auto'', sAttr ''L3'']
          (plain_def ''privacy'' ''data_classification'' ''1.1.0''))"

definition dataClassificationTemplate :: template where
  "dataClassificationTemplate =
     metadata ''dataClassification'' (Some [''MPC'', ''TEE'']) ''privacy'' dataClassification_build"

definition sanitization_build :: "string \<Rightarrow> configs \<Rightarrow> template_graph" where
  "sanitization_build graphId configs =
     (let rules = map (\<lambda>col. JsonObj [(''column'', JsonStr col), (''method'', JsonStr ''auto_mask'')])
            (nullish (cfg_sanitizationCols configs) [])
      in buildSingleTablePrivacyTemplate graphId (cfg_tableId configs)
           ''privacy/sanitization'' (utf8 [0xE6, 0x95, 0xB0, 0xE6, 0x8D, 0xAE, 0xE8, 0x84, 0xB1, 0xE6, 0x95, 0x8F])
           (with_attrs [''rules_json''] [jsonAttr (JsonArr rules)]
              (plain_def ''privacy'' ''sanitization'' ''1.1.0'')))"

definition sanitizationTemplate :: template where
  "sanitizationTemplate = metadata ''sanitization'' (Some [''MPC'', ''TEE'']) ''privacy'' sanitization_build"

definition kAnonymity_build :: "string \<Rightarrow> configs \<Rightarrow> template_graph" where
  "kAnonymity_build graphId configs =
     buildSingleTablePrivacyTemplate graphId (cfg_tableId configs)
       ''privacy/k_anonymity'' (utf8 [0x4B, 0x2D, 0xE5, 0x8C, 0xBF, 0xE5, 0x90, 0x8D])
       (with_attrs
          [''k'', ''qi_cols_json'', ''sa_cols_json'', ''suppression_rate'', ''report_result'',
           ''max_depth'', ''hierarchies_json'']
          [i64Attr 2, jsonAttr (JsonStrs (nullish (cfg_qiCols configs) [])),
           jsonAttr (JsonStrs (nullish (cfg_saCols configs) [])), fAttr (5/100), bAttr True,
           i64Attr 10, jsonAttr (JsonObj [])]
          (plain_def ''privacy'' ''k_anonymity'' ''1.1.0''))"

definition kAnonymityTemplate :: template where
  "kAnonymityTemplate = metadata ''kAnonymity'' (Some [''MPC'', ''TEE'']) ''privacy'' kAnonymity_build"

definition lDiversity_build :: "string \<Rightarrow> configs \<Rightarrow> template_graph" where
  "lDiversity_build graphId configs =
     buildSingleTablePrivacyTemplate graphId (cfg_tableId configs)
       ''privacy/l_diversity'' (utf8 [0x4C, 0x2D, 0xE5, 0xA4, 0x9A, 0xE6, 0xA0, 0xB7, 0xE6, 0x80, 0xA7])
       (with_attrs
          [''k'', ''l'', ''qi_cols_json'', ''sa_cols_json'', ''suppression_rate'', ''report_result'']
          [i64Attr 2, i64Attr 2, jsonAttr (JsonStrs (nullish (cfg_qiCols configs) [])),
           jsonAttr (JsonStrs (nullish (cfg_saCols configs) [])), fAttr (5/100), bAttr True]
          (plain_def ''privacy'' ''l_diversity'' ''1.0.0''))"

definition lDiversityTemplate :: template where
  "lDiversityTemplate = metadata ''lDiversity'' (Some [''MPC'', ''TEE'']) ''privacy'' lDiversity_build"

definition localDifferentialPrivacy_build :: "string \<Rightarrow> configs \<Rightarrow> template_graph" where
  "localDifferentialPrivacy_build graphId configs =
     (let queryCol = str_or (cfg_queryCol configs) '''' in
      buildSingleTablePrivacyTemplate graphId (cfg_tableId configs)
        ''privacy/local_differential_privacy'' (utf8 [0xE6, 0x9C, 0xAC, 0xE5, 0x9C, 0xB0, 0xE5, 0xB7, 0xAE, 0xE5, 0x88, 0x86, 0xE9, 0x9A, 0x90, 0xE7, 0xA7, 0x81])
        (with_attrs [''op'', ''mechanism'', ''query_col'', ''epsilon'', ''categories_json'', ''random_state'']
           [sAttr ''perturb'', sAttr ''binary_rr'',
            JObj [(''s'', JStr queryCol), (''is_na'', JBool (queryCol = ''''))],
            fAttr 1, jsonAttr (JsonArr []), i64Attr 42]
           (plain_def ''privacy'' ''local_differential_privacy'' ''1.0.0'')))"

definition localDifferentialPrivacyTemplate :: template where
  "localDifferentialPrivacyTemplate =
     metadata ''localDifferentialPrivacy'' (Some [''MPC'', ''TEE'']) ''privacy'' localDifferentialPrivacy_build"

definition differentialPrivacy_build :: "string \<Rightarrow> configs \<Rightarrow> template_graph" where
  "differentialPrivacy_build graphId configs =
     buildSingleTablePrivacyTemplate graphId (cfg_tableId configs)
       ''privacy/differential_privacy'' (utf8 [0xE5, 0xB7, 0xAE, 0xE5, 0x88, 0x86, 0xE9, 0x9A, 0x90, 0xE7, 0xA7, 0x81])
       (with_attrs
          [''query_type'', ''epsilon_total'', ''epsilon_per_query'', ''mechanism'', ''random_state'',
           ''min_count'', ''mode'']
          [sAttr ''count'', fAttr 10, fAttr 1, sAttr ''laplace'', i64Attr 42, fAttr 5,
           sAttr ''use_column_sensitivity'']
          (plain_def ''privacy'' ''differential_privacy'' ''1.1.0''))"

definition differentialPrivacyTemplate :: template where
  "differentialPrivacyTemplate =
     metadata ''differentialPrivacy'' (Some [''MPC'', ''TEE'']) ''privacy'' differentialPrivacy_build"

definition privacyGuide_build :: "string \<Rightarrow> configs \<Rightarrow> template_graph" where
  "privacyGuide_build graphId configs =
     (let readNode = createReadDataNode graphId 1 (Some ''alice-table'') (-260) (-210) None (Some (utf8 [0xE6, 0xA0, 0xB7, 0xE6, 0x9C, 0xAC, 0xE8, 0xA1, 0xA8]));
          dpNode = createDifferentialPrivacyNode graphId 2 (outAnchor graphId 1 0) (-260) (-80) dp_defaults
      in \<lparr>tg_nodes = [readNode, dpNode], tg_edges = [connect graphId 1 0 2 0]\<rparr>)"

definition privacyGuideTemplate :: template where
  "privacyGuideTemplate = metadata ''privacyGuide'' (Some [''MPC'', ''TEE'']) ''guide'' privacyGuide_build"

definition queryObfuscation_build :: "string \<Rightarrow> configs \<Rightarrow> template_graph" where
  "queryObfuscation_build graphId configs =
     (let node = createNode graphId 1 ''privacy/query_obfuscation'' (utf8 [0xE6, 0x9F, 0xA5, 0xE8, 0xAF, 0xA2, 0xE6, 0xB7, 0xB7, 0xE6, 0xB7, 0x86]) (-260) (-80)
            None (Some [outAnchor graphId 1 0])
            (Some (with_attrs
               [''op'', ''query'', ''queries_json'', ''synonym_map_json'', ''num_dummies'', ''random_state'',
                ''domain'', ''medical_pool_json'', ''generic_pool_json'']
               [sAttr ''batch'', JObj [(''s'', JStr ''''), (''is_na'', JBool True)],
                jsonAttr (JsonStrs
                  [(utf8 [0xE6, 0x82, 0xA3, 0xE8, 0x80, 0x85, 0xE5, 0xBC, 0xA0, 0xE4, 0xB8, 0x89, 0xE6, 0x82, 0xA3, 0xE6, 0x9C, 0x89, 0xE8, 0x89, 0xBE, 0xE6, 0xBB, 0x8B, 0xE7, 0x97, 0x85, 0xEF, 0xBC, 0x8C, 0xE5, 0xA6, 0x82, 0xE4, 0xBD, 0x95, 0xE6, 0x9F, 0xA5, 0xE8, 0xAF, 0xA2, 0xE7, 0x9B, 0xB8, 0xE5, 0x85, 0xB3, 0xE8, 0xAF, 0x8A, 0xE7, 0x96, 0x97, 0xE6, 0x96, 0xB9, 0xE6, 0xA1, 0x88]),
                   (utf8 [0xE6, 0x82, 0xA3, 0xE8, 0x80, 0x85, 0xE6, 0x9D, 0x8E, 0xE5, 0x9B, 0x9B, 0xE6, 0x82, 0xA3, 0xE6, 0x9C, 0x89, 0xE9, 0xAB, 0x98, 0xE8, 0xA1, 0x80, 0xE5, 0x8E, 0x8B, 0xEF, 0xBC, 0x8C, 0xE5, 0xA6, 0x82, 0xE4, 0xBD, 0x95, 0xE6, 0x9F, 0xA5, 0xE8, 0xAF, 0xA2, 0xE7, 0x9B, 0xB8, 0xE5, 0x85, 0xB3, 0xE8, 0xAF, 0x8A, 0xE7, 0x96, 0x97, 0xE6, 0x96, 0xB9, 0xE6, 0xA1, 0x88])]),
                jsonAttr (JsonObj []), i64Attr 3, i64Attr 42, sAttr ''medical'',
                jsonAttr (JsonArr []), jsonAttr (JsonArr [])]
               (plain_def ''privacy'' ''query_obfuscation'' ''1.1.0'')))
      in \<lparr>tg_nodes = [node], tg_edges = []\<rparr>)"

definition queryObfuscationTemplate :: template where
  "queryObfuscationTemplate =
     metadata ''queryObfuscation'' (Some [''MPC'', ''TEE'']) ''privacy'' queryObfuscation_build"

section \<open>Their wiring\<close>

lemmas draw_defs = drawn_def draw_node_def draw_edge_def Let_def
lemmas shape_defs = shape_ok_def shape_inputs_def

text \<open>The four shapes: two tables into an intersection, with or without statistics, one table
  into a component with one or two outputs.\<close>

definition psi_shape_nodes :: "nat \<Rightarrow> shape_node list" where
  "psi_shape_nodes outs = [(1, [], 1), (2, [], 1), (3, [(1, 0), (2, 0)], outs), (4, [(3, 0)], 1)]"

definition psi_shape_edges :: "shape_edge list" where
  "psi_shape_edges = [(1, 0, 3, 0), (2, 0, 3, 1), (3, 0, 4, 0)]"

lemma psi_shape_ok: "0 < outs \<Longrightarrow> shape_ok (psi_shape_nodes outs) psi_shape_edges \<and>
    list_all (shape_inputs psi_shape_edges) (psi_shape_nodes outs)"
  by (simp add: shape_defs psi_shape_nodes_def psi_shape_edges_def upt_rec nth_Cons split: nat.splits)

lemma upt_small [simp]: "[0..<Suc 0] = [0]" "[0..<2] = [0, 1]" "[0..<3] = [0, 1, 2]"
  by (simp_all add: upt_rec)

lemma psi_wired:
  assumes "no_line_break g"
  shows "well_wired (psi_build g c)" "well_wired (psiGuide_build g c)"
    "well_wired (psiTee_build g c)" "well_wired (psiTeeGuide_build g c)"
proof -
  have "drawn g (psi_shape_nodes 2) psi_shape_edges (psi_build g c)"
    "drawn g (psi_shape_nodes 2) psi_shape_edges (psiGuide_build g c)"
    "drawn g (psi_shape_nodes 1) psi_shape_edges (psiTee_build g c)"
    "drawn g (psi_shape_nodes 1) psi_shape_edges (psiTeeGuide_build g c)"
    by (simp_all add: draw_defs psi_shape_nodes_def psi_shape_edges_def psi_build_def psiGuide_build_def
        psiTee_build_def psiTeeGuide_build_def)
  moreover have "list_all (\<lambda>n. attrs_match (gn_def n)) (tg_nodes (psi_build g c))"
    "list_all (\<lambda>n. attrs_match (gn_def n)) (tg_nodes (psiGuide_build g c))"
    "list_all (\<lambda>n. attrs_match (gn_def n)) (tg_nodes (psiTee_build g c))"
    "list_all (\<lambda>n. attrs_match (gn_def n)) (tg_nodes (psiTeeGuide_build g c))"
    by (simp_all add: psi_build_def psiGuide_build_def psiTee_build_def psiTeeGuide_build_def Let_def)
  ultimately show "well_wired (psi_build g c)" "well_wired (psiGuide_build g c)"
    "well_wired (psiTee_build g c)" "well_wired (psiTeeGuide_build g c)"
    using assms psi_shape_ok [of 1] psi_shape_ok [of 2] by (auto intro: drawn_well_wired)
qed

lemma scenarioPsi_wired:
  assumes "no_line_break g"
  shows "well_wired (scenarioPsi_build g c)"
proof (rule drawn_well_wired [OF assms])
  show "drawn g [(1, [], 1), (2, [], 1), (3, [(1, 0), (2, 0)], 2)] [(1, 0, 3, 0), (2, 0, 3, 1)] (scenarioPsi_build g c)"
    by (simp add: draw_defs scenarioPsi_build_def)
qed (simp_all add: shape_defs scenarioPsi_build_def Let_def upt_rec nth_Cons)

lemma single_table_wired:
  assumes "no_line_break g" "attrs_match d"
  shows "well_wired (buildSingleTablePrivacyTemplate g t cn l d)"
proof (rule drawn_well_wired [OF assms(1)])
  show "drawn g [(1, [], 1), (2, [(1, 0)], 2)] [(1, 0, 2, 0)] (buildSingleTablePrivacyTemplate g t cn l d)"
    by (simp add: draw_defs buildSingleTablePrivacyTemplate_def)
qed (use assms(2) in \<open>simp_all add: shape_defs buildSingleTablePrivacyTemplate_def Let_def\<close>)

lemma privacy_wired:
  assumes "no_line_break g"
  shows "well_wired (dataClassification_build g c)" "well_wired (sanitization_build g c)"
    "well_wired (kAnonymity_build g c)" "well_wired (lDiversity_build g c)"
    "well_wired (localDifferentialPrivacy_build g c)" "well_wired (differentialPrivacy_build g c)"
  unfolding dataClassification_build_def sanitization_build_def kAnonymity_build_def lDiversity_build_def
    localDifferentialPrivacy_build_def differentialPrivacy_build_def Let_def
  by (rule single_table_wired [OF assms]; simp)+

lemma privacyGuide_wired:
  assumes "no_line_break g"
  shows "well_wired (privacyGuide_build g c)"
proof (rule drawn_well_wired [OF assms])
  show "drawn g [(1, [], 1), (2, [(1, 0)], 1)] [(1, 0, 2, 0)] (privacyGuide_build g c)"
    by (simp add: draw_defs privacyGuide_build_def)
qed (simp_all add: shape_defs privacyGuide_build_def Let_def)

lemma queryObfuscation_wired:
  assumes "no_line_break g"
  shows "well_wired (queryObfuscation_build g c)"
proof (rule drawn_well_wired [OF assms])
  show "drawn g [(1, [], 1)] [] (queryObfuscation_build g c)"
    by (simp add: draw_defs queryObfuscation_build_def)
qed (simp_all add: shape_defs queryObfuscation_build_def Let_def)

lemma blank_wired: "well_wired (blank_build g c)"
  by (simp add: well_wired_def well_formed_def blank_build_def edge_rel_def acyclic_def)

end
