(* ===== verification/TemplatesRisk.thy ===== *)
theory TemplatesRisk
  imports TemplatesBasic
begin

text \<open>
  The binary-classification pipelines of \<open>templates/risk.ts\<close> and \<open>templates/risk-guide.ts\<close>
  (\<open>web/apps/secretpad/src/features/dag-templates\<close>): fourteen nodes, numbered 1 to 15 without 7,
  as in the code.  The builder is cut into the preparation of the data, the feature engineering
  and the training with its evaluation; the parts are put together by \<open>risk_build\<close>.
\<close>

section \<open>The configured pipeline\<close>

definition risk_features :: "configs \<Rightarrow> string list" where
  "risk_features configs = nullish (cfg_featureSelects configs) []"

definition risk_prepare :: "string \<Rightarrow> configs \<Rightarrow> graph_node list" where
  "risk_prepare graphId configs =
     (let receiverRead = createReadDataNode graphId 1 (cfg_receiverTableId configs) (-370) (-250)
            (cfg_receiverPartition configs) (Some (utf8 [0xE6, 0xA0, 0xB7, 0xE6, 0x9C, 0xAC, 0xE8, 0xA1, 0xA8]));
          senderRead = createReadDataNode graphId 2 (cfg_senderTableId configs) (-140) (-250)
            (cfg_senderPartition configs) (Some (utf8 [0xE6, 0xA0, 0xB7, 0xE6, 0x9C, 0xAC, 0xE8, 0xA1, 0xA8]));
          psi = createPsiNode graphId 3 [outAnchor graphId 1 0, outAnchor graphId 2 0]
            (key_or_empty (cfg_receiverKey configs)) (key_or_empty (cfg_senderKey configs))
            (str_or (cfg_receiverNodeId configs) '''') (str_or (cfg_senderNodeId configs) '''')
            (cfg_receiverParties configs) (-240) (-160);
          featureSelects = risk_features configs;
          labelName = labelOf (cfg_labelSelects configs);
          hasFeature = (featureSelects \<noteq> []);
          hasLabel = (labelName \<noteq> '''');
          tableStats = createNode graphId 4 ''stats/table_statistics'' (utf8 [0xE5, 0x85, 0xA8, 0xE8, 0xA1, 0xA8, 0xE7, 0xBB, 0x9F, 0xE8, 0xAE, 0xA1]) (-430) (-90)
            (Some [outAnchor graphId 3 0]) (Some [outAnchor graphId 4 0])
            (Some (attrs_if hasFeature [''input/input_ds/features''] [ssAttr featureSelects]
               (plain_def ''stats'' ''table_statistics'' ''1.0.0'')));
          split = createNode graphId 5 ''data_prep/train_test_split'' (utf8 [0xE9, 0x9A, 0x8F, 0xE6, 0x9C, 0xBA, 0xE5, 0x88, 0x86, 0xE5, 0x89, 0xB2]) (-120) (-80)
            (Some [outAnchor graphId 3 0]) (Some [outAnchor graphId 5 0, outAnchor graphId 5 1])
            (Some (plain_def ''data_prep'' ''train_test_split'' ''1.0.0''));
          woeBinning = createNode graphId 6 ''preprocessing/vert_woe_binning'' (utf8 [0x57, 0x4F, 0x45, 0xE5, 0x88, 0x86, 0xE7, 0xAE, 0xB1]) (-140) 20
            (Some [outAnchor graphId 5 0])
            (Some [outAnchor graphId 6 0, outAnchor graphId 6 1, outAnchor graphId 6 2])
            (Some (attrs_if (hasFeature \<and> hasLabel)
               [''input/input_ds/feature_selects'', ''input/input_ds/label'']
               [ssAttr featureSelects, sAttr labelName]
               (plain_def ''preprocessing'' ''vert_woe_binning'' ''1.0.0'')))
      in [receiverRead, senderRead, psi, tableStats, split, woeBinning])"

definition risk_explore :: "string \<Rightarrow> configs \<Rightarrow> graph_node list" where
  "risk_explore graphId configs =
     (let featureSelects = risk_features configs;
          hasFeature = (featureSelects \<noteq> []);
          substitution = createNode graphId 8 ''preprocessing/substitution'' (utf8 [0xE7, 0x89, 0xB9, 0xE5, 0xBE, 0x81, 0xE5, 0xB7, 0xA5, 0xE7, 0xA8, 0x8B, 0xE5, 0xBA, 0x94, 0xE7, 0x94, 0xA8]) (-10) 100
            (Some [outAnchor graphId 5 1, outAnchor graphId 6 1]) (Some [outAnchor graphId 8 0])
            (Some (plain_def ''preprocessing'' ''substitution'' ''1.0.0''));
          pearson = createNode graphId 9 ''stats/ss_pearsonr'' (utf8 [0xE7, 0x9B, 0xB8, 0xE5, 0x85, 0xB3, 0xE7, 0xB3, 0xBB, 0xE6, 0x95, 0xB0, 0xE7, 0x9F, 0xA9, 0xE9, 0x98, 0xB5]) (-450) 190
            (Some [outAnchor graphId 6 0]) (Some [outAnchor graphId 9 0])
            (Some (attrs_if hasFeature [''input/input_ds/feature_selects''] [ssAttr featureSelects]
               (plain_def ''stats'' ''ss_pearsonr'' ''1.0.0'')));
          vif = createNode graphId 10 ''stats/ss_vif'' (utf8 [0x56, 0x49, 0x46, 0xE6, 0x8C, 0x87, 0xE6, 0xA0, 0x87, 0xE8, 0xAE, 0xA1, 0xE7, 0xAE, 0x97]) (-240) 190
            (Some [outAnchor graphId 6 0]) (Some [outAnchor graphId 10 0])
            (Some (attrs_if hasFeature [''input/input_ds/feature_selects''] [ssAttr featureSelects]
               (plain_def ''stats'' ''ss_vif'' ''1.0.0'')))
      in [substitution, pearson, vif])"

definition risk_model :: "string \<Rightarrow> configs \<Rightarrow> graph_node list" where
  "risk_model graphId configs =
     (let predictReceiver = (if truthy (cfg_predictReceiver configs) then cfg_predictReceiver configs
                             else cfg_receiverNodeId configs);
          featureSelects = risk_features configs;
          labelName = labelOf (cfg_labelSelects configs);
          predName = nullish (cfg_pred configs) ''pred'';
          hasFeature = (featureSelects \<noteq> []);
          hasLabel = (labelName \<noteq> '''');
          train = createNode graphId 11 ''ml.train/ss_sgd_train'' (utf8 [0xE9, 0x80, 0xBB, 0xE8, 0xBE, 0x91, 0xE5, 0x9B, 0x9E, 0xE5, 0xBD, 0x92, 0xE8, 0xAE, 0xAD, 0xE7, 0xBB, 0x83]) (-40) 220
            (Some [outAnchor graphId 6 0]) (Some [outAnchor graphId 11 0, outAnchor graphId 11 1])
            (Some (attrs_if (hasFeature \<and> hasLabel)
               [''input/input_ds/label'', ''input/input_ds/feature_selects'']
               [sAttr labelName, ssAttr featureSelects]
               (plain_def ''ml.train'' ''ss_sgd_train'' ''1.0.0'')));
          pvalue = createNode graphId 12 ''ml.eval/ss_pvalue'' (utf8 [0x50, 0x2D, 0x56, 0x41, 0x4C, 0x55, 0x45, 0xE8, 0xAF, 0x84, 0xE4, 0xBC, 0xB0]) (-250) 310
            (Some [outAnchor graphId 11 0, outAnchor graphId 6 0]) (Some [outAnchor graphId 12 0])
            (Some (plain_def ''ml.eval'' ''ss_pvalue'' ''1.0.0''));
          predict = createNode graphId 13 ''ml.predict/ss_sgd_predict'' (utf8 [0xE9, 0x80, 0xBB, 0xE8, 0xBE, 0x91, 0xE5, 0x9B, 0x9E, 0xE5, 0xBD, 0x92, 0xE9, 0xA2, 0x84, 0xE6, 0xB5, 0x8B]) 40 330
            (Some [outAnchor graphId 11 0, outAnchor graphId 8 0]) (Some [outAnchor graphId 13 0])
            (Some (attrs_if (truthy predictReceiver \<and> predName \<noteq> '''')
               [''receiver'', ''pred_name'', ''save_label'']
               [sAttr (the predictReceiver), sAttr predName, bAttr True]
               (plain_def ''ml.predict'' ''ss_sgd_predict'' ''1.0.0'')));
          biEval = createNode graphId 14 ''ml.eval/biclassification_eval'' (utf8 [0xE4, 0xBA, 0x8C, 0xE5, 0x88, 0x86, 0xE7, 0xB1, 0xBB, 0xE8, 0xAF, 0x84, 0xE4, 0xBC, 0xB0]) 130 450
            (Some [outAnchor graphId 13 0]) (Some [outAnchor graphId 14 0])
            (Some (attrs_if (hasLabel \<and> predName \<noteq> '''')
               [''input/input_ds/label'', ''input/input_ds/prediction''] [sAttr labelName, ssAttr [predName]]
               (plain_def ''ml.eval'' ''biclassification_eval'' ''1.0.0'')));
          biasEval = createNode graphId 15 ''ml.eval/prediction_bias_eval'' (utf8 [0xE9, 0xA2, 0x84, 0xE6, 0xB5, 0x8B, 0xE5, 0x81, 0x8F, 0xE5, 0xB7, 0xAE, 0xE8, 0xAF, 0x84, 0xE4, 0xBC, 0xB0]) (-110) 540
            (Some [outAnchor graphId 13 0]) (Some [outAnchor graphId 15 0])
            (Some (attrs_if (hasLabel \<and> predName \<noteq> '''')
               [''input/input_ds/label'', ''input/input_ds/prediction''] [sAttr labelName, ssAttr [predName]]
               (plain_def ''ml.eval'' ''prediction_bias_eval'' ''1.0.0'')))
      in [train, pvalue, predict, biEval, biasEval])"

definition risk_edges :: "string \<Rightarrow> graph_edge list" where
  "risk_edges graphId =
     [connect graphId 1 0 3 0, connect graphId 2 0 3 1, connect graphId 3 0 4 0, connect graphId 3 0 5 0,
      connect graphId 5 0 6 0, connect graphId 5 1 8 0, connect graphId 6 1 8 1, connect graphId 6 0 9 0,
      connect graphId 6 0 10 0, connect graphId 6 0 11 0, connect graphId 6 0 12 1,
      connect graphId 11 0 12 0, connect graphId 11 0 13 0, connect graphId 8 0 13 1,
      connect graphId 13 0 14 0, connect graphId 13 0 15 0]"

definition risk_build :: "string \<Rightarrow> configs \<Rightarrow> template_graph" where
  "risk_build graphId configs =
     \<lparr>tg_nodes = risk_prepare graphId configs @ risk_explore graphId configs @ risk_model graphId configs,
      tg_edges = risk_edges graphId\<rparr>"

definition riskTemplate :: template where
  "riskTemplate = metadata ''risk'' (Some [''MPC'']) ''ml'' risk_build"

section \<open>The guided pipeline\<close>

definition riskGuide_prepare :: "string \<Rightarrow> graph_node list" where
  "riskGuide_prepare graphId =
     (let receiverRead = createReadDataNode graphId 1 (Some ''alice-table'') (-370) (-250) None (Some (utf8 [0xE6, 0xA0, 0xB7, 0xE6, 0x9C, 0xAC, 0xE8, 0xA1, 0xA8]));
          senderRead = createReadDataNode graphId 2 (Some ''bob-table'') (-140) (-250) None (Some (utf8 [0xE6, 0xA0, 0xB7, 0xE6, 0x9C, 0xAC, 0xE8, 0xA1, 0xA8]));
          receiverOut = outAnchor graphId 1 0;
          senderOut = outAnchor graphId 2 0;
          psi = createPsiNode graphId 3 [receiverOut, senderOut] (One ''id1'') (One ''id2'')
            ''alice'' ''bob'' None (-240) (-160);
          psiOut = outAnchor graphId 3 0;
          tableStats = createTableStatisticsNode graphId 4 psiOut (-430) (-90)
            (Some [''y'', ''age'', ''education'', ''default'']) (Some ''1.0.0'');
          split = createTrainTestSplitNode graphId 5 psiOut (-120) (-80) None (Some ''1.0.0'');
          splitTrainOut = outAnchor graphId 5 0;
          woeBinning = createNode graphId 6 ''preprocessing/vert_woe_binning'' (utf8 [0x57, 0x4F, 0x45, 0xE5, 0x88, 0x86, 0xE7, 0xAE, 0xB1]) (-140) 20
            (Some [splitTrainOut])
            (Some [outAnchor graphId 6 0, outAnchor graphId 6 1, outAnchor graphId 6 2])
            (Some (with_attrs
               [''input/input_ds/feature_selects'', ''input/input_ds/label'', ''secure_device_type'',
                ''binning_method'', ''bin_num'', ''positive_label'', ''chimerge_init_bins'',
                ''chimerge_target_bins'', ''chimerge_target_pvalue'', ''report_rules'']
               [ssAttr [''duration''], ssAttr [''y''], sAttr ''spu'', sAttr ''quantile'', i64Attr 10,
                sAttr ''1'', i64Attr 100, i64Attr 10, fAttr (1/10), naAttr]
               (plain_def ''preprocessing'' ''vert_woe_binning'' ''1.0.0'')))
      in [receiverRead, senderRead, psi, tableStats, split, woeBinning])"

definition riskGuide_explore :: "string \<Rightarrow> graph_node list" where
  "riskGuide_explore graphId =
     (let splitTestOut = outAnchor graphId 5 1;
          woeBinningSubstOut = outAnchor graphId 6 1;
          substitution = createNode graphId 8 ''preprocessing/substitution'' (utf8 [0xE7, 0x89, 0xB9, 0xE5, 0xBE, 0x81, 0xE5, 0xB7, 0xA5, 0xE7, 0xA8, 0x8B, 0xE5, 0xBA, 0x94, 0xE7, 0x94, 0xA8]) (-10) 100
            (Some [splitTestOut, woeBinningSubstOut]) (Some [outAnchor graphId 8 0])
            (Some (plain_def ''preprocessing'' ''substitution'' ''1.0.0''));
          woeBinningOut = outAnchor graphId 6 0;
          pearson = createNode graphId 9 ''stats/ss_pearsonr'' (utf8 [0xE7, 0x9B, 0xB8, 0xE5, 0x85, 0xB3, 0xE7, 0xB3, 0xBB, 0xE6, 0x95, 0xB0, 0xE7, 0x9F, 0xA9, 0xE9, 0x98, 0xB5]) (-450) 190
            (Some [woeBinningOut]) (Some [outAnchor graphId 9 0])
            (Some (with_attrs [''input/input_ds/feature_selects''] [ssAttr [''contact_cellular'']]
               (plain_def ''stats'' ''ss_pearsonr'' ''1.0.0'')));
          vif = createNode graphId 10 ''stats/ss_vif'' (utf8 [0x56, 0x49, 0x46, 0xE6, 0x8C, 0x87, 0xE6, 0xA0, 0x87, 0xE8, 0xAE, 0xA1, 0xE7, 0xAE, 0x97]) (-240) 190
            (Some [woeBinningOut]) (Some [outAnchor graphId 10 0])
            (Some (with_attrs [''input/input_ds/feature_selects''] [ssAttr [''duration'']]
               (plain_def ''stats'' ''ss_vif'' ''1.0.0'')))
      in [substitution, pearson, vif])"

definition riskGuide_model :: "string \<Rightarrow> graph_node list" where
  "riskGuide_model graphId =
     (let woeBinningOut = outAnchor graphId 6 0;
          train = createNode graphId 11 ''ml.train/ss_sgd_train'' (utf8 [0xE9, 0x80, 0xBB, 0xE8, 0xBE, 0x91, 0xE5, 0x9B, 0x9E, 0xE5, 0xBD, 0x92, 0xE8, 0xAE, 0xAD, 0xE7, 0xBB, 0x83]) (-40) 220
            (Some [woeBinningOut]) (Some [outAnchor graphId 11 0, outAnchor graphId 11 1])
            (Some (with_attrs
               [''input/input_ds/feature_selects'', ''input/input_ds/label'', ''epochs'', ''learning_rate'',
                ''batch_size'', ''sig_type'', ''reg_type'', ''penalty'', ''l2_norm'', ''eps'']
               [ssAttr [''duration''], ssAttr [''y''], i64Attr 10, fAttr (1/10), i64Attr 1024,
                sAttr ''t1'', sAttr ''logistic'', sAttr ''None'', fAttr (1/2), fAttr (1/1000)]
               (plain_def ''ml.train'' ''ss_sgd_train'' ''1.0.0'')));
          trainOut = outAnchor graphId 11 0;
          pvalue = createNode graphId 12 ''ml.eval/ss_pvalue'' (utf8 [0x50, 0x2D, 0x56, 0x41, 0x4C, 0x55, 0x45, 0xE8, 0xAF, 0x84, 0xE4, 0xBC, 0xB0]) (-250) 310
            (Some [trainOut, woeBinningOut]) (Some [outAnchor graphId 12 0])
            (Some (plain_def ''ml.eval'' ''ss_pvalue'' ''1.0.0''));
          substitutionOut = outAnchor graphId 8 0;
          predict = createNode graphId 13 ''ml.predict/ss_sgd_predict'' (utf8 [0xE9, 0x80, 0xBB, 0xE8, 0xBE, 0x91, 0xE5, 0x9B, 0x9E, 0xE5, 0xBD, 0x92, 0xE9, 0xA2, 0x84, 0xE6, 0xB5, 0x8B]) 40 330
            (Some [trainOut, substitutionOut]) (Some [outAnchor graphId 13 0])
            (Some (with_attrs
               [''input/input_ds/saved_features'', ''batch_size'', ''receiver'', ''pred_name'', ''save_ids'',
                ''save_label'']
               [ssAttr [''contact_cellular''], i64Attr 1024, ssAttr [''bob''], sAttr ''pred'', bAttr True,
                bAttr True]
               (plain_def ''ml.predict'' ''ss_sgd_predict'' ''1.0.0'')));
          predictOut = outAnchor graphId 13 0;
          biEval = createNode graphId 14 ''ml.eval/biclassification_eval'' (utf8 [0xE4, 0xBA, 0x8C, 0xE5, 0x88, 0x86, 0xE7, 0xB1, 0xBB, 0xE8, 0xAF, 0x84, 0xE4, 0xBC, 0xB0]) 130 450
            (Some [predictOut]) (Some [outAnchor graphId 14 0])
            (Some (with_attrs [''input/input_ds/label'', ''input/input_ds/prediction'']
               [ssAttr [''y''], ssAttr [''pred'']]
               (plain_def ''ml.eval'' ''biclassification_eval'' ''1.0.0'')));
          biasEval = createNode graphId 15 ''ml.eval/prediction_bias_eval'' (utf8 [0xE9, 0xA2, 0x84, 0xE6, 0xB5, 0x8B, 0xE5, 0x81, 0x8F, 0xE5, 0xB7, 0xAE, 0xE8, 0xAF, 0x84, 0xE4, 0xBC, 0xB0]) (-110) 540
            (Some [predictOut]) (Some [outAnchor graphId 15 0])
            (Some (with_attrs [''input/input_ds/label'', ''input/input_ds/prediction'']
               [ssAttr [''y''], ssAttr [''pred'']]
               (plain_def ''ml.eval'' ''prediction_bias_eval'' ''1.0.0'')))
      in [train, pvalue, predict, biEval, biasEval])"

definition riskGuide_edges :: "string \<Rightarrow> graph_edge list" where
  "riskGuide_edges graphId =
     [connect graphId 1 0 3 0, connect graphId 2 0 3 1, connect graphId 3 0 4 0, connect graphId 3 0 5 0,
      connect graphId 5 0 6 0, connect graphId 5 1 8 0, connect graphId 6 1 8 1, connect graphId 6 0 9 0,
      connect graphId 6 0 10 0, connect graphId 6 0 11 0, connect graphId 6 0 12 1,
      connect graphId 11 0 12 0, connect graphId 11 0 13 0, connect graphId 8 0 13 1,
      connect graphId 13 0 14 0, connect graphId 13 0 15 0]"

definition riskGuide_build :: "string \<Rightarrow> configs \<Rightarrow> template_graph" where
  "riskGuide_build graphId configs =
     \<lparr>tg_nodes = riskGuide_prepare graphId @ riskGuide_explore graphId @ riskGuide_model graphId,
      tg_edges = riskGuide_edges graphId\<rparr>"

definition riskGuideTemplate :: template where
  "riskGuideTemplate = metadata ''riskGuide'' (Some [''MPC'']) ''guide'' riskGuide_build"

section \<open>The wiring\<close>

definition risk_shape_nodes :: "shape_node list" where
  "risk_shape_nodes =
     [(1, [], 1), (2, [], 1), (3, [(1, 0), (2, 0)], 2), (4, [(3, 0)], 1), (5, [(3, 0)], 2), (6, [(5, 0)], 3),
      (8, [(5, 1), (6, 1)], 1), (9, [(6, 0)], 1), (10, [(6, 0)], 1), (11, [(6, 0)], 2),
      (12, [(11, 0), (6, 0)], 1), (13, [(11, 0), (8, 0)], 1), (14, [(13, 0)], 1), (15, [(13, 0)], 1)]"

definition risk_shape_edges :: "shape_edge list" where
  "risk_shape_edges =
     [(1, 0, 3, 0), (2, 0, 3, 1), (3, 0, 4, 0), (3, 0, 5, 0), (5, 0, 6, 0), (5, 1, 8, 0), (6, 1, 8, 1),
      (6, 0, 9, 0), (6, 0, 10, 0), (6, 0, 11, 0), (6, 0, 12, 1), (11, 0, 12, 0), (11, 0, 13, 0),
      (8, 0, 13, 1), (13, 0, 14, 0), (13, 0, 15, 0)]"

lemma risk_shape_ok: "shape_ok risk_shape_nodes risk_shape_edges"
  by code_simp

lemma risk_shape_inputs: "list_all (shape_inputs risk_shape_edges) risk_shape_nodes"
  by code_simp

lemma risk_drawn: "drawn g risk_shape_nodes risk_shape_edges (risk_build g c)"
  by (simp add: draw_defs risk_shape_nodes_def risk_shape_edges_def risk_build_def risk_prepare_def
      risk_explore_def risk_model_def risk_edges_def)

lemma riskGuide_drawn: "drawn g risk_shape_nodes risk_shape_edges (riskGuide_build g c)"
  by (simp add: draw_defs risk_shape_nodes_def risk_shape_edges_def riskGuide_build_def riskGuide_prepare_def
      riskGuide_explore_def riskGuide_model_def riskGuide_edges_def)

lemma risk_attrs: "list_all (\<lambda>n. attrs_match (gn_def n)) (tg_nodes (risk_build g c))"
  by (simp add: risk_build_def risk_prepare_def risk_explore_def risk_model_def Let_def attrs_match_if)

lemma riskGuide_attrs: "list_all (\<lambda>n. attrs_match (gn_def n)) (tg_nodes (riskGuide_build g c))"
  by (simp add: riskGuide_build_def riskGuide_prepare_def riskGuide_explore_def riskGuide_model_def Let_def)

lemma risk_wired: "no_line_break g \<Longrightarrow> well_wired (risk_build g c)"
  by (rule drawn_well_wired [OF _ risk_drawn risk_shape_ok risk_shape_inputs risk_attrs])

lemma riskGuide_wired: "no_line_break g \<Longrightarrow> well_wired (riskGuide_build g c)"
  by (rule drawn_well_wired [OF _ riskGuide_drawn risk_shape_ok risk_shape_inputs riskGuide_attrs])

end
