(* ===== verification/TemplatesTee.thy ===== *)
theory TemplatesTee
  imports TemplatesBasic
begin

text \<open>
  The binary-classification pipelines for trusted hardware, \<open>templates/tee.ts\<close> and
  \<open>templates/tee-guide.ts\<close> (\<open>web/apps/secretpad/src/features/dag-templates\<close>): fourteen nodes,
  the prediction (11) after the conversion of the test set (12) that it reads.
\<close>

section \<open>The configured pipeline\<close>

definition tee_features :: "configs \<Rightarrow> string list" where
  "tee_features configs = nullish (cfg_featureSelects configs) []"

definition tee_prepare :: "string \<Rightarrow> configs \<Rightarrow> graph_node list" where
  "tee_prepare graphId configs =
     (let receiverRead = createReadDataNode graphId 1 (cfg_receiverTableId configs) (-380) (-180) None
            (Some (utf8 [0xE6, 0xA0, 0xB7, 0xE6, 0x9C, 0xAC, 0xE8, 0xA1, 0xA8]));
          senderRead = createReadDataNode graphId 2 (cfg_senderTableId configs) (-160) (-180) None
            (Some (utf8 [0xE6, 0xA0, 0xB7, 0xE6, 0x9C, 0xAC, 0xE8, 0xA1, 0xA8]));
          psi = createTeePsiNode graphId 3 [outAnchor graphId 1 0, outAnchor graphId 2 0]
            (key_or_empty (cfg_receiverKey configs)) (key_or_empty (cfg_senderKey configs)) (-270) (-90);
          featureSelects = tee_features configs;
          labelName = labelOf (cfg_labelSelects configs);
          hasFeature = (featureSelects \<noteq> []);
          hasLabel = (labelName \<noteq> '''');
          tableStats = createNode graphId 4 ''stats/table_statistics'' (utf8 [0xE5, 0x85, 0xA8, 0xE8, 0xA1, 0xA8, 0xE7, 0xBB, 0x9F, 0xE8, 0xAE, 0xA1]) (-470) 10
            (Some [outAnchor graphId 3 0]) (Some [outAnchor graphId 4 0])
            (Some (plain_def ''stats'' ''table_statistics'' ''0.0.1''));
          split = createNode graphId 5 ''preprocessing/train_test_split'' (utf8 [0xE9, 0x9A, 0x8F, 0xE6, 0x9C, 0xBA, 0xE5, 0x88, 0x86, 0xE5, 0x89, 0xB2]) (-160) 10
            (Some [outAnchor graphId 3 0]) (Some [outAnchor graphId 5 0, outAnchor graphId 5 1])
            (Some (plain_def ''preprocessing'' ''train_test_split'' ''0.0.1''));
          woeBinning = createNode graphId 6 ''feature/vert_woe_binning'' (utf8 [0x57, 0x4F, 0x45, 0xE5, 0x88, 0x86, 0xE7, 0xAE, 0xB1]) (-140) 120
            (Some [outAnchor graphId 5 0]) (Some [outAnchor graphId 6 0])
            (Some (attrs_if (hasFeature \<and> hasLabel)
               [''input/input_data/feature_selects'', ''input/input_data/label'']
               [ssAttr featureSelects, sAttr labelName]
               (plain_def ''feature'' ''vert_woe_binning'' ''0.0.1'')))
      in [receiverRead, senderRead, psi, tableStats, split, woeBinning])"

definition tee_explore :: "string \<Rightarrow> configs \<Rightarrow> graph_node list" where
  "tee_explore graphId configs =
     (let featureSelects = tee_features configs;
          hasFeature = (featureSelects \<noteq> []);
          woeSubstTrain = createNode graphId 7 ''feature/vert_woe_substitution'' (utf8 [0x57, 0x4F, 0x45, 0xE8, 0xBD, 0xAC, 0xE6, 0x8D, 0xA2]) (-410) 200
            (Some [outAnchor graphId 5 0, outAnchor graphId 6 0]) (Some [outAnchor graphId 7 0])
            (Some (plain_def ''feature'' ''vert_woe_substitution'' ''0.0.1''));
          pearson = createNode graphId 8 ''stats/pearsonr'' (utf8 [0xE7, 0x9B, 0xB8, 0xE5, 0x85, 0xB3, 0xE7, 0xB3, 0xBB, 0xE6, 0x95, 0xB0, 0xE7, 0x9F, 0xA9, 0xE9, 0x98, 0xB5]) (-540) 320
            (Some [outAnchor graphId 7 0]) (Some [outAnchor graphId 8 0])
            (Some (attrs_if hasFeature [''input/input_data/feature_selects''] [ssAttr featureSelects]
               (plain_def ''stats'' ''pearsonr'' ''0.0.1'')));
          vif = createNode graphId 9 ''stats/vif'' (utf8 [0x56, 0x49, 0x46, 0xE6, 0x8C, 0x87, 0xE6, 0xA0, 0x87, 0xE8, 0xAE, 0xA1, 0xE7, 0xAE, 0x97]) (-280) 320
            (Some [outAnchor graphId 7 0]) (Some [outAnchor graphId 9 0])
            (Some (attrs_if hasFeature [''input/input_data/feature_selects''] [ssAttr featureSelects]
               (plain_def ''stats'' ''vif'' ''0.0.1'')))
      in [woeSubstTrain, pearson, vif])"

text \<open>\<open>ids.length ? ssAttr(ids) : { ss: [], is_na: true }\<close>\<close>

definition ids_attr :: "string list \<Rightarrow> jsval" where
  "ids_attr ids = (if ids \<noteq> [] then ssAttr ids else JObj [(''ss'', JArr []), (''is_na'', JBool True)])"

definition tee_model :: "string \<Rightarrow> configs \<Rightarrow> graph_node list" where
  "tee_model graphId configs =
     (let labelName = labelOf (cfg_labelSelects configs);
          trainIds = nullish (cfg_trainIdSelect configs) [];
          predictIds = nullish (cfg_predictIdSelect configs) [];
          evalLabel = str_or (cfg_label configs) labelName;
          evalScore = str_or (cfg_score configs) ''pred'';
          hasLabel = (labelName \<noteq> '''');
          train = createNode graphId 10 ''ml.train/lr_train'' (utf8 [0x4C, 0x52, 0xE8, 0xAE, 0xAD, 0xE7, 0xBB, 0x83]) (-60) 320
            (Some [outAnchor graphId 7 0]) (Some [outAnchor graphId 10 0])
            (Some (attrs_if hasLabel [''input/train_dataset/ids'', ''input/train_dataset/label'']
               [ids_attr trainIds, sAttr labelName]
               (plain_def ''ml.train'' ''lr_train'' ''0.0.1'')));
          woeSubstTest = createNode graphId 12 ''feature/vert_woe_substitution'' (utf8 [0x57, 0x4F, 0x45, 0xE8, 0xBD, 0xAC, 0xE6, 0x8D, 0xA2]) (-60) 200
            (Some [outAnchor graphId 5 1, outAnchor graphId 6 0]) (Some [outAnchor graphId 12 0])
            (Some (plain_def ''feature'' ''vert_woe_substitution'' ''0.0.1''));
          predict = createNode graphId 11 ''ml.predict/lr_predict'' (utf8 [0x4C, 0x52, 0xE9, 0xA2, 0x84, 0xE6, 0xB5, 0x8B]) (-40) 390
            (Some [outAnchor graphId 12 0, outAnchor graphId 10 0]) (Some [outAnchor graphId 11 0])
            (Some (attrs_if hasLabel
               [''input/feature_dataset/ids'', ''input/feature_dataset/label'', ''save_id'', ''save_label'']
               [ids_attr predictIds, sAttr labelName, bAttr (nullish (cfg_saveId configs) True),
                bAttr (nullish (cfg_saveLabel configs) True)]
               (plain_def ''ml.predict'' ''lr_predict'' ''0.0.1'')));
          biEval = createNode graphId 13 ''ml.eval/biclassification_eval'' (utf8 [0xE4, 0xBA, 0x8C, 0xE5, 0x88, 0x86, 0xE7, 0xB1, 0xBB, 0xE8, 0xAF, 0x84, 0xE4, 0xBC, 0xB0]) (-40) 490
            (Some [outAnchor graphId 11 0]) (Some [outAnchor graphId 13 0])
            (Some (attrs_if (evalLabel \<noteq> '''' \<and> evalScore \<noteq> '''')
               [''input/predictions/label'', ''input/predictions/score''] [sAttr evalLabel, sAttr evalScore]
               (plain_def ''ml.eval'' ''biclassification_eval'' ''0.0.1'')));
          biasEval = createNode graphId 14 ''ml.eval/prediction_bias_eval'' (utf8 [0xE9, 0xA2, 0x84, 0xE6, 0xB5, 0x8B, 0xE5, 0x81, 0x8F, 0xE5, 0xB7, 0xAE, 0xE8, 0xAF, 0x84, 0xE4, 0xBC, 0xB0]) (-270) 490
            (Some [outAnchor graphId 11 0]) (Some [outAnchor graphId 14 0])
            (Some (attrs_if (evalLabel \<noteq> '''' \<and> evalScore \<noteq> '''')
               [''input/predictions/label'', ''input/predictions/score''] [sAttr evalLabel, sAttr evalScore]
               (plain_def ''ml.eval'' ''prediction_bias_eval'' ''0.0.1'')))
      in [train, woeSubstTest, predict, biEval, biasEval])"

definition tee_edges :: "string \<Rightarrow> graph_edge list" where
  "tee_edges graphId =
     [connect graphId 1 0 3 0, connect graphId 2 0 3 1, connect graphId 3 0 4 0, connect graphId 3 0 5 0,
      connect graphId 5 0 6 0, connect graphId 5 1 7 0, connect graphId 6 0 7 1, connect graphId 7 0 8 0,
      connect graphId 7 0 9 0, connect graphId 7 0 10 0, connect graphId 6 0 12 1, connect graphId 5 1 12 0,
      connect graphId 12 0 11 0, connect graphId 10 0 11 1, connect graphId 11 0 13 0,
      connect graphId 11 0 14 0]"

definition tee_build :: "string \<Rightarrow> configs \<Rightarrow> template_graph" where
  "tee_build graphId configs =
     \<lparr>tg_nodes = tee_prepare graphId configs @ tee_explore graphId configs @ tee_model graphId configs,
      tg_edges = tee_edges graphId\<rparr>"

definition teeTemplate :: template where
  "teeTemplate = metadata ''tee'' (Some [''TEE'']) ''ml'' tee_build"

section \<open>The guided pipeline\<close>

definition TEE_WOE_FEATURES :: "string list" where
  "TEE_WOE_FEATURES =
     [''contact_cellular'', ''contact_telephone'', ''contact_unknown'', ''month_apr'', ''month_aug'',
      ''month_dec'', ''month_feb'', ''month_jan'', ''month_jul'', ''month_jun'', ''month_mar'', ''month_may'',
      ''month_nov'', ''month_oct'', ''month_sep'', ''poutcome_failure'', ''poutcome_other'',
      ''poutcome_success'', ''poutcome_unknown'', ''age'', ''education'', ''default'', ''balance'',
      ''housing'', ''loan'', ''day'', ''duration'', ''campaign'', ''pdays'', ''previous'',
      ''job_blue-collar'', ''job_entrepreneur'', ''job_housemaid'', ''job_management'', ''job_retired'',
      ''job_self-employed'', ''job_services'', ''job_student'', ''job_technician'', ''job_unemployed'',
      ''marital_divorced'', ''marital_married'', ''marital_single'']"

definition teeGuide_prepare :: "string \<Rightarrow> graph_node list" where
  "teeGuide_prepare graphId =
     (let receiverRead = createReadDataNode graphId 1 (Some ''alice-table'') (-380) (-180) None (Some (utf8 [0xE6, 0xA0, 0xB7, 0xE6, 0x9C, 0xAC, 0xE8, 0xA1, 0xA8]));
          senderRead = createReadDataNode graphId 2 (Some ''bob-table'') (-160) (-180) None (Some (utf8 [0xE6, 0xA0, 0xB7, 0xE6, 0x9C, 0xAC, 0xE8, 0xA1, 0xA8]));
          receiverOut = outAnchor graphId 1 0;
          senderOut = outAnchor graphId 2 0;
          psi = createTeePsiNode graphId 3 [receiverOut, senderOut] (One ''id1'') (One ''id2'') (-270) (-90);
          psiOut = outAnchor graphId 3 0;
          tableStats = createTableStatisticsNode graphId 4 psiOut (-470) 10 None (Some ''0.0.1'');
          split = createTrainTestSplitNode graphId 5 psiOut (-160) 10 (Some ''preprocessing'') (Some ''0.0.1'');
          splitTrainOut = outAnchor graphId 5 0;
          woeBinning = createNode graphId 6 ''feature/vert_woe_binning'' (utf8 [0x57, 0x4F, 0x45, 0xE5, 0x88, 0x86, 0xE7, 0xAE, 0xB1]) (-140) 120
            (Some [splitTrainOut]) (Some [outAnchor graphId 6 0])
            (Some (with_attrs
               [''input/input_data/feature_selects'', ''input/input_data/label'', ''binning_method'',
                ''positive_label'', ''bin_num'']
               [ssAttr TEE_WOE_FEATURES, ssAttr [''y''], sAttr ''quantile'', sAttr ''1'', i64Attr 10]
               (plain_def ''feature'' ''vert_woe_binning'' ''0.0.1'')))
      in [receiverRead, senderRead, psi, tableStats, split, woeBinning])"

definition teeGuide_explore :: "string \<Rightarrow> graph_node list" where
  "teeGuide_explore graphId =
     (let splitTrainOut = outAnchor graphId 5 0;
          woeBinningOut = outAnchor graphId 6 0;
          woeSubstTrain = createNode graphId 7 ''feature/vert_woe_substitution'' (utf8 [0x57, 0x4F, 0x45, 0xE8, 0xBD, 0xAC, 0xE6, 0x8D, 0xA2]) (-410) 200
            (Some [splitTrainOut, woeBinningOut]) (Some [outAnchor graphId 7 0])
            (Some (plain_def ''feature'' ''vert_woe_substitution'' ''0.0.1''));
          woeTrainOut = outAnchor graphId 7 0;
          pearson = createNode graphId 8 ''stats/pearsonr'' (utf8 [0xE7, 0x9B, 0xB8, 0xE5, 0x85, 0xB3, 0xE7, 0xB3, 0xBB, 0xE6, 0x95, 0xB0, 0xE7, 0x9F, 0xA9, 0xE9, 0x98, 0xB5]) (-540) 320
            (Some [woeTrainOut]) (Some [outAnchor graphId 8 0])
            (Some (plain_def ''stats'' ''pearsonr'' ''0.0.1''));
          vif = createNode graphId 9 ''stats/vif'' (utf8 [0x56, 0x49, 0x46, 0xE6, 0x8C, 0x87, 0xE6, 0xA0, 0x87, 0xE8, 0xAE, 0xA1, 0xE7, 0xAE, 0x97]) (-280) 320
            (Some [woeTrainOut]) (Some [outAnchor graphId 9 0])
            (Some (plain_def ''stats'' ''vif'' ''0.0.1''))
      in [woeSubstTrain, pearson, vif])"

definition teeGuide_model :: "string \<Rightarrow> graph_node list" where
  "teeGuide_model graphId =
     (let woeTrainOut = outAnchor graphId 7 0;
          train = createNode graphId 10 ''ml.train/lr_train'' (utf8 [0x4C, 0x52, 0xE8, 0xAE, 0xAD, 0xE7, 0xBB, 0x83]) (-60) 320
            (Some [woeTrainOut]) (Some [outAnchor graphId 10 0])
            (Some (with_attrs
               [''input/train_dataset/ids'', ''input/train_dataset/label'', ''max_iter'', ''reg_type'',
                ''l2_norm'', ''tol'', ''penalty'']
               [ssAttr [''id2'', ''id1''], ssAttr [''y''], i64Attr 10, sAttr ''logistic'', fAttr 1,
                fAttr (1/10000), sAttr ''l2'']
               (plain_def ''ml.train'' ''lr_train'' ''0.0.1'')));
          splitTestOut = outAnchor graphId 5 1;
          woeBinningOut = outAnchor graphId 6 0;
          woeSubstTest = createNode graphId 12 ''feature/vert_woe_substitution'' (utf8 [0x57, 0x4F, 0x45, 0xE8, 0xBD, 0xAC, 0xE6, 0x8D, 0xA2]) (-60) 200
            (Some [splitTestOut, woeBinningOut]) (Some [outAnchor graphId 12 0])
            (Some (plain_def ''feature'' ''vert_woe_substitution'' ''0.0.1''));
          woeTestOut = outAnchor graphId 12 0;
          trainOut = outAnchor graphId 10 0;
          predict = createNode graphId 11 ''ml.predict/lr_predict'' (utf8 [0x4C, 0x52, 0xE9, 0xA2, 0x84, 0xE6, 0xB5, 0x8B]) (-40) 390
            (Some [woeTestOut, trainOut]) (Some [outAnchor graphId 11 0])
            (Some (with_attrs
               [''input/feature_dataset/ids'', ''input/feature_dataset/label'', ''pred_name'', ''save_label'',
                ''label_name'', ''save_id'', ''id_name'', ''col_names'']
               [ssAttr [''id1''], ssAttr [''y''], sAttr ''pred'', bAttr True, sAttr ''label'', bAttr True,
                sAttr ''id'', ssAttr []]
               (plain_def ''ml.predict'' ''lr_predict'' ''0.0.1'')));
          predictOut = outAnchor graphId 11 0;
          biEval = createNode graphId 13 ''ml.eval/biclassification_eval'' (utf8 [0xE4, 0xBA, 0x8C, 0xE5, 0x88, 0x86, 0xE7, 0xB1, 0xBB, 0xE8, 0xAF, 0x84, 0xE4, 0xBC, 0xB0]) (-40) 490
            (Some [predictOut]) (Some [outAnchor graphId 13 0])
            (Some (with_attrs
               [''input/predictions/label'', ''input/predictions/score'', ''bucket_num'',
                ''min_item_cnt_per_bucket'']
               [ssAttr [''label''], ssAttr [''pred''], i64Attr 10, i64Attr 2]
               (plain_def ''ml.eval'' ''biclassification_eval'' ''0.0.1'')));
          biasEval = createNode graphId 14 ''ml.eval/prediction_bias_eval'' (utf8 [0xE9, 0xA2, 0x84, 0xE6, 0xB5, 0x8B, 0xE5, 0x81, 0x8F, 0xE5, 0xB7, 0xAE, 0xE8, 0xAF, 0x84, 0xE4, 0xBC, 0xB0]) (-270) 490
            (Some [predictOut]) (Some [outAnchor graphId 14 0])
            (Some (with_attrs
               [''input/predictions/label'', ''input/predictions/score'', ''bucket_num'',
                ''min_item_cnt_per_bucket'', ''bucket_method'']
               [ssAttr [''label''], ssAttr [''pred''], i64Attr 10, i64Attr 2, sAttr ''equal_width'']
               (plain_def ''ml.eval'' ''prediction_bias_eval'' ''0.0.1'')))
      in [train, woeSubstTest, predict, biEval, biasEval])"

definition teeGuide_edges :: "string \<Rightarrow> graph_edge list" where
  "teeGuide_edges graphId =
     [connect graphId 1 0 3 0, connect graphId 2 0 3 1, connect graphId 3 0 4 0, connect graphId 3 0 5 0,
      connect graphId 5 0 6 0, connect graphId 5 0 7 0, connect graphId 6 0 7 1, connect graphId 7 0 8 0,
      connect graphId 7 0 9 0, connect graphId 7 0 10 0, connect graphId 10 0 11 1, connect graphId 6 0 12 1,
      connect graphId 5 1 12 0, connect graphId 12 0 11 0, connect graphId 11 0 13 0,
      connect graphId 11 0 14 0]"

definition teeGuide_build :: "string \<Rightarrow> configs \<Rightarrow> template_graph" where
  "teeGuide_build graphId configs =
     \<lparr>tg_nodes = teeGuide_prepare graphId @ teeGuide_explore graphId @ teeGuide_model graphId,
      tg_edges = teeGuide_edges graphId\<rparr>"

definition teeGuideTemplate :: template where
  "teeGuideTemplate = metadata ''teeGuide'' (Some [''TEE'']) ''guide'' teeGuide_build"

section \<open>The wiring\<close>

definition tee_shape_nodes :: "shape_node list" where
  "tee_shape_nodes =
     [(1, [], 1), (2, [], 1), (3, [(1, 0), (2, 0)], 1), (4, [(3, 0)], 1), (5, [(3, 0)], 2), (6, [(5, 0)], 1),
      (7, [(5, 0), (6, 0)], 1), (8, [(7, 0)], 1), (9, [(7, 0)], 1), (10, [(7, 0)], 1),
      (12, [(5, 1), (6, 0)], 1), (11, [(12, 0), (10, 0)], 1), (13, [(11, 0)], 1), (14, [(11, 0)], 1)]"

definition tee_shape_edges :: "shape_edge list" where
  "tee_shape_edges =
     [(1, 0, 3, 0), (2, 0, 3, 1), (3, 0, 4, 0), (3, 0, 5, 0), (5, 0, 6, 0), (5, 1, 7, 0), (6, 0, 7, 1),
      (7, 0, 8, 0), (7, 0, 9, 0), (7, 0, 10, 0), (6, 0, 12, 1), (5, 1, 12, 0), (12, 0, 11, 0),
      (10, 0, 11, 1), (11, 0, 13, 0), (11, 0, 14, 0)]"

definition teeGuide_shape_edges :: "shape_edge list" where
  "teeGuide_shape_edges =
     [(1, 0, 3, 0), (2, 0, 3, 1), (3, 0, 4, 0), (3, 0, 5, 0), (5, 0, 6, 0), (5, 0, 7, 0), (6, 0, 7, 1),
      (7, 0, 8, 0), (7, 0, 9, 0), (7, 0, 10, 0), (10, 0, 11, 1), (6, 0, 12, 1), (5, 1, 12, 0),
      (12, 0, 11, 0), (11, 0, 13, 0), (11, 0, 14, 0)]"

lemma tee_shape_ok: "shape_ok tee_shape_nodes tee_shape_edges"
  by code_simp

lemma tee_shape_inputs: "list_all (\<lambda>n. fst n = 7 \<or> shape_inputs tee_shape_edges n) tee_shape_nodes"
  by code_simp

lemma teeGuide_shape_ok:
  "shape_ok tee_shape_nodes teeGuide_shape_edges \<and> list_all (shape_inputs teeGuide_shape_edges) tee_shape_nodes"
  by code_simp

lemma tee_drawn: "drawn g tee_shape_nodes tee_shape_edges (tee_build g c)"
  by (simp add: draw_defs tee_shape_nodes_def tee_shape_edges_def tee_build_def tee_prepare_def
      tee_explore_def tee_model_def tee_edges_def)

lemma teeGuide_drawn: "drawn g tee_shape_nodes teeGuide_shape_edges (teeGuide_build g c)"
  by (simp add: draw_defs tee_shape_nodes_def teeGuide_shape_edges_def teeGuide_build_def teeGuide_prepare_def
      teeGuide_explore_def teeGuide_model_def teeGuide_edges_def)

lemma tee_attrs: "list_all (\<lambda>n. attrs_match (gn_def n)) (tg_nodes (tee_build g c))"
  by (simp add: tee_build_def tee_prepare_def tee_explore_def tee_model_def Let_def attrs_match_if)

lemma teeGuide_attrs: "list_all (\<lambda>n. attrs_match (gn_def n)) (tg_nodes (teeGuide_build g c))"
  by (simp add: teeGuide_build_def teeGuide_prepare_def teeGuide_explore_def teeGuide_model_def Let_def)

lemma teeGuide_wired: "no_line_break g \<Longrightarrow> well_wired (teeGuide_build g c)"
  using teeGuide_shape_ok by (intro drawn_well_wired [OF _ teeGuide_drawn _ _ teeGuide_attrs]) simp_all

lemma tee_well_formed: "no_line_break g \<Longrightarrow> well_formed (tee_build g c)"
  by (rule drawn_well_formed [OF _ tee_drawn tee_shape_ok tee_attrs])

text \<open>
  The edges of \<open>tee.ts\<close> feed the conversion of the training set (node 7) from the test half of
  the split, while the node declares the training half.  It is the only node that disagrees.
\<close>

lemma tee_inputs_agree:
  assumes g: "no_line_break g" and n: "n \<in> set (tg_nodes (tee_build g c))"
  shows "inputs_agree (tee_build g c) n \<longleftrightarrow> gn_id n \<noteq> nodeId g 7"
proof (cases "gn_id n = nodeId g 7")
  case False
  have "shape_inputs tee_shape_edges m" if "m \<in> set tee_shape_nodes" "gn_id n = nodeId g (fst m)" for m
    using tee_shape_inputs that False by (auto simp: list_all_iff)
  with False show ?thesis using drawn_inputs_agree [OF g tee_drawn n] by blast
next
  case True
  have "(gn_id n, gn_inputs n, gn_outputs n) \<in> set (map (draw_node g) tee_shape_nodes)"
    using tee_drawn [of g c] n unfolding drawn_def by (metis (mono_tags, lifting) image_eqI list.set_map)
  with True have "gn_inputs n = [outAnchor g 5 0, outAnchor g 6 0]"
    by (auto simp: tee_shape_nodes_def draw_node_def)
  moreover have "deriveInputs (nodeId g 7) (tg_edges (tee_build g c)) = [outAnchor g 5 1, outAnchor g 6 0]"
  proof -
    have "shape_inputs tee_shape_edges (7, [(5, 1), (6, 0)], 1)" by code_simp
    from derive_drawn [OF g this] show ?thesis using tee_drawn [of g c] by (simp add: drawn_def)
  qed
  moreover have "outAnchor g 5 0 \<noteq> outAnchor g 5 1" by (simp add: outAnchor_inject g)
  ultimately show ?thesis using True by (simp add: inputs_agree_def)
qed

lemma tee_conversion:
  assumes g: "no_line_break g"
  shows "(\<exists>n \<in> set (tg_nodes (tee_build g c)). gn_id n = nodeId g 7 \<and> gn_inputs n = [outAnchor g 5 0, outAnchor g 6 0])"
    and "deriveInputs (nodeId g 7) (tg_edges (tee_build g c)) = [outAnchor g 5 1, outAnchor g 6 0]"
proof -
  have "draw_node g (7, [(5, 0), (6, 0)], 1) \<in> set (map (draw_node g) tee_shape_nodes)" by (simp add: tee_shape_nodes_def)
  then have "draw_node g (7, [(5, 0), (6, 0)], 1) \<in> set (map (\<lambda>n. (gn_id n, gn_inputs n, gn_outputs n)) (tg_nodes (tee_build g c)))"
    using tee_drawn [of g c] unfolding drawn_def by simp
  then show "\<exists>n \<in> set (tg_nodes (tee_build g c)). gn_id n = nodeId g 7 \<and> gn_inputs n = [outAnchor g 5 0, outAnchor g 6 0]"
    by (auto simp: draw_node_def)
  have "shape_inputs tee_shape_edges (7, [(5, 1), (6, 0)], 1)" by code_simp
  from derive_drawn [OF g this] show "deriveInputs (nodeId g 7) (tg_edges (tee_build g c)) = [outAnchor g 5 1, outAnchor g 6 0]"
    using tee_drawn [of g c] by (simp add: drawn_def)
qed

end
