(* ===== verification/TemplatesModeling.thy ===== *)
theory TemplatesModeling
  imports TemplatesBasic
begin

text \<open>
  The eight two-party modelling templates, \<open>templates/modeling.ts\<close>
  (\<open>web/apps/secretpad/src/features/dag-templates\<close>): one builder parametrised by a preset.
  An attribute object is an association list in the order of its literal; its keys are distinct.
\<close>

section \<open>Presets\<close>

datatype attr_value = VStr string | VNum int | VBool bool | VStrs "string list"

record preset =
  pre_key :: string
  pre_algorithm :: string
  pre_version :: "string option"
  pre_trainOutputs :: nat
  pre_attrs :: "(string \<times> attr_value) list"

definition modelingPresets :: "preset list" where
  "modelingPresets =
     [\<lparr>pre_key = ''logisticRegression'', pre_algorithm = ''ss_sgd'', pre_version = None, pre_trainOutputs = 2,
       pre_attrs = [(''epochs'', VNum 10), (''batch_size'', VNum 128), (''reg_type'', VStr ''logistic'')]\<rparr>,
      \<lparr>pre_key = ''ssGlm'', pre_algorithm = ''ss_glm'', pre_version = Some ''1.1.0'', pre_trainOutputs = 2,
       pre_attrs = [(''epochs'', VNum 10), (''batch_size'', VNum 128), (''link_type'', VStr ''Logit''),
         (''label_dist_type'', VStr ''Bernoulli''), (''optimizer'', VStr ''SGD'')]\<rparr>,
      \<lparr>pre_key = ''secureBoost'', pre_algorithm = ''sgb'', pre_version = Some ''1.1.0'', pre_trainOutputs = 2,
       pre_attrs = [(''num_boost_round'', VNum 10), (''max_depth'', VNum 3)]\<rparr>,
      \<lparr>pre_key = ''ssXgb'', pre_algorithm = ''ss_xgb'', pre_version = None, pre_trainOutputs = 1,
       pre_attrs = [(''num_boost_round'', VNum 10), (''max_depth'', VNum 3)]\<rparr>,
      \<lparr>pre_key = ''naiveBayes'', pre_algorithm = ''gnb'', pre_version = None, pre_trainOutputs = 1, pre_attrs = []\<rparr>,
      \<lparr>pre_key = ''gaussianProcess'', pre_algorithm = ''gpc'', pre_version = None, pre_trainOutputs = 1,
       pre_attrs = [(''max_iter_predict'', VNum 3)]\<rparr>,
      \<lparr>pre_key = ''knn'', pre_algorithm = ''knn'', pre_version = None, pre_trainOutputs = 1,
       pre_attrs = [(''weights'', VStr ''uniform''), (''n_neighbors'', VNum 5)]\<rparr>,
      \<lparr>pre_key = ''kmeans'', pre_algorithm = ''kmeans'', pre_version = None, pre_trainOutputs = 1,
       pre_attrs = [(''n_clusters'', VNum 2), (''max_iter'', VNum 10), (''n_init'', VNum 1),
         (''init_method'', VStr ''random'')]\<rparr>]"

definition isModelingKey :: "string \<Rightarrow> bool" where
  "isModelingKey key = list_ex (\<lambda>p. pre_key p = key) modelingPresets"

fun attribute_of :: "attr_value \<Rightarrow> jsval" where
  "attribute_of (VStrs xs) = JObj [(''ss'', JArr (map JStr xs)), (''is_na'', JBool False)]"
| "attribute_of (VBool b) = JObj [(''b'', JBool b), (''is_na'', JBool False)]"
| "attribute_of (VNum n) = JObj [(''i64'', JNum (Fin (of_int n))), (''is_na'', JBool False)]"
| "attribute_of (VStr s) = JObj [(''s'', JStr s), (''is_na'', JBool False)]"

section \<open>The builder\<close>

definition modeling_identifiers :: "configs \<Rightarrow> string list" where
  "modeling_identifiers configs = toList (cfg_receiverKey configs) @ toList (cfg_senderKey configs)"

definition modeling_features :: "configs \<Rightarrow> string list" where
  "modeling_features configs =
     (let label = labelOf (cfg_labelSelects configs); identifiers = modeling_identifiers configs in
      filter (\<lambda>c. c \<noteq> label \<and> c \<notin> set identifiers) (nullish (cfg_featureSelects configs) []))"

text \<open>The inner \<open>make\<close>, with \<open>version\<close> defaulting to \<open>1.0.0\<close>.\<close>

definition make_node ::
  "string \<Rightarrow> nat \<Rightarrow> string \<Rightarrow> string \<Rightarrow> string list \<Rightarrow> nat \<Rightarrow> (string \<times> attr_value) list \<Rightarrow> string option \<Rightarrow> graph_node" where
  "make_node graphId idx domain name inputs count attrs version =
     createNode graphId idx (domain @ ''/'' @ name) name 280 ((of_nat idx - 2) * 160)
       (Some inputs) (Some (map (outAnchor graphId idx) [0..<count]))
       (Some (with_attrs (map fst attrs) (map (attribute_of \<circ> snd) attrs)
          (plain_def domain name (nullish version ''1.0.0''))))"

definition train_attrs :: "preset \<Rightarrow> configs \<Rightarrow> (string \<times> attr_value) list" where
  "train_attrs pre configs =
     (let clustering = (pre_key pre = ''kmeans'');
          label = labelOf (cfg_labelSelects configs);
          features = modeling_features configs
      in pre_attrs pre @
         (if features \<noteq> [] then [(''input/input_ds/feature_selects'', VStrs features)] else []) @
         (if \<not> clustering \<and> label \<noteq> '''' then [(''input/input_ds/label'', VStrs [label])] else []))"

definition modeling_build :: "preset \<Rightarrow> string \<Rightarrow> configs \<Rightarrow> template_graph" where
  "modeling_build pre graphId configs =
     (let out = outAnchor graphId;
          clustering = (pre_key pre = ''kmeans'');
          label = labelOf (cfg_labelSelects configs);
          pred = str_or (cfg_pred configs) ''pred'';
          nodes =
            [createReadDataNode graphId 1 (cfg_receiverTableId configs) 80 0 (cfg_receiverPartition configs) None,
             createReadDataNode graphId 2 (cfg_senderTableId configs) 480 0 (cfg_senderPartition configs) None,
             make_node graphId 3 ''data_prep'' ''psi'' [out 1 0, out 2 0] 2
               [(''input/input_ds1/input_ds1_keys'', VStrs (toList (cfg_receiverKey configs))),
                (''input/input_ds2/input_ds2_keys'', VStrs (toList (cfg_senderKey configs))),
                (''protocol'', VStr ''PROTOCOL_RR22''), (''join_type'', VStr ''inner_join'')] None,
             make_node graphId 4 ''data_prep'' ''train_test_split'' [out 3 0] 2 [] None,
             make_node graphId 5 ''ml.train'' (pre_algorithm pre @ ''_train'') [out 4 0] (pre_trainOutputs pre)
               (train_attrs pre configs) (pre_version pre),
             make_node graphId 6 ''ml.predict'' (pre_algorithm pre @ ''_predict'') [out 5 0, out 4 1] 1
               ([(''receiver'', VStrs (non_empty [str_or (cfg_predictReceiver configs)
                    (str_or (cfg_receiverNodeId configs) '''')])),
                 (''pred_name'', VStr pred)] @ (if \<not> clustering then [(''save_label'', VBool True)] else []))
               (Some (if pre_algorithm pre = ''ss_glm'' then ''1.1.0'' else ''1.0.0''))];
          edges =
            [connect graphId 1 0 3 0, connect graphId 2 0 3 1, connect graphId 3 0 4 0,
             connect graphId 4 0 5 0, connect graphId 5 0 6 0, connect graphId 4 1 6 1];
          eval = make_node graphId 7 ''ml.eval'' ''biclassification_eval'' [out 6 0] 1
            ((if label \<noteq> '''' then [(''input/input_ds/label'', VStrs [label])] else []) @
             [(''input/input_ds/prediction'', VStrs [pred])] @
             (if pre_algorithm pre = ''gpc'' then [(''bucket_size'', VNum 2)] else [])) None
      in if \<not> clustering
         then \<lparr>tg_nodes = nodes @ [eval], tg_edges = edges @ [connect graphId 6 0 7 0]\<rparr>
         else \<lparr>tg_nodes = nodes, tg_edges = edges\<rparr>)"

definition modelingTemplates :: "template list" where
  "modelingTemplates = map (\<lambda>pre. metadata (pre_key pre) (Some [''MPC'']) ''ml'' (modeling_build pre)) modelingPresets"

section \<open>The wiring\<close>

definition modeling_shape_nodes :: "nat \<Rightarrow> bool \<Rightarrow> shape_node list" where
  "modeling_shape_nodes k clustering =
     [(1, [], 1), (2, [], 1), (3, [(1, 0), (2, 0)], 2), (4, [(3, 0)], 2), (5, [(4, 0)], k),
      (6, [(5, 0), (4, 1)], 1)] @ (if clustering then [] else [(7, [(6, 0)], 1)])"

definition modeling_shape_edges :: "bool \<Rightarrow> shape_edge list" where
  "modeling_shape_edges clustering =
     [(1, 0, 3, 0), (2, 0, 3, 1), (3, 0, 4, 0), (4, 0, 5, 0), (5, 0, 6, 0), (4, 1, 6, 1)] @
     (if clustering then [] else [(6, 0, 7, 0)])"

lemma modeling_shape:
  assumes "0 < k"
  shows "shape_ok (modeling_shape_nodes k b) (modeling_shape_edges b)"
    and "list_all (shape_inputs (modeling_shape_edges b)) (modeling_shape_nodes k b)"
  using assms
  by (cases b; simp add: shape_ok_def modeling_shape_nodes_def modeling_shape_edges_def)
     (cases b; simp add: shape_inputs_def modeling_shape_nodes_def modeling_shape_edges_def upt_rec nth_Cons)

definition preset_ok :: "preset \<Rightarrow> bool" where
  "preset_ok pre \<longleftrightarrow> 0 < pre_trainOutputs pre \<and> distinct (map fst (pre_attrs pre)) \<and>
     ''input/input_ds/feature_selects'' \<notin> set (map fst (pre_attrs pre)) \<and>
     ''input/input_ds/label'' \<notin> set (map fst (pre_attrs pre))"

lemma presets_ok: "list_all preset_ok modelingPresets"
  by (simp add: modelingPresets_def preset_ok_def)

lemma make_node_simps [simp]:
  "gn_id (make_node g i d n ins k as v) = nodeId g i"
  "gn_codeName (make_node g i d n ins k as v) = d @ ''/'' @ n"
  "gn_inputs (make_node g i d n ins k as v) = ins"
  "gn_outputs (make_node g i d n ins k as v) = map (outAnchor g i) [0..<k]"
  "attrs_match (gn_def (make_node g i d n ins k as v)) = distinct (map fst as)"
  by (simp_all add: make_node_def)

lemma modeling_drawn:
  "drawn g (modeling_shape_nodes (pre_trainOutputs pre) (pre_key pre = ''kmeans''))
     (modeling_shape_edges (pre_key pre = ''kmeans'')) (modeling_build pre g c)"
  by (simp add: draw_defs modeling_build_def modeling_shape_nodes_def modeling_shape_edges_def)

lemma train_attrs_distinct: "preset_ok pre \<Longrightarrow> distinct (map fst (train_attrs pre c))"
  by (auto simp: preset_ok_def train_attrs_def Let_def)

lemma modeling_attrs:
  "preset_ok pre \<Longrightarrow> list_all (\<lambda>n. attrs_match (gn_def n)) (tg_nodes (modeling_build pre g c))"
  by (simp add: modeling_build_def Let_def train_attrs_distinct)

lemma modeling_wired:
  assumes "no_line_break g" "preset_ok pre"
  shows "well_wired (modeling_build pre g c)"
proof (rule drawn_well_wired [OF assms(1) modeling_drawn _ _ modeling_attrs [OF assms(2)]])
  show "shape_ok (modeling_shape_nodes (pre_trainOutputs pre) (pre_key pre = ''kmeans''))
      (modeling_shape_edges (pre_key pre = ''kmeans''))"
    and "list_all (shape_inputs (modeling_shape_edges (pre_key pre = ''kmeans'')))
      (modeling_shape_nodes (pre_trainOutputs pre) (pre_key pre = ''kmeans''))"
    using assms(2) by (auto simp: preset_ok_def intro!: modeling_shape)
qed

section \<open>No leak\<close>

text \<open>The columns a training node is given never include the label or a join key.\<close>

lemma modeling_features_safe:
  "f \<in> set (modeling_features c) \<Longrightarrow>
   f \<noteq> labelOf (cfg_labelSelects c) \<and> f \<notin> set (toList (cfg_receiverKey c)) \<and> f \<notin> set (toList (cfg_senderKey c))"
  by (auto simp: modeling_features_def modeling_identifiers_def Let_def)

text \<open>Nothing else is dropped.\<close>

lemma modeling_features_complete:
  "f \<in> set (nullish (cfg_featureSelects c) []) \<Longrightarrow> f \<noteq> labelOf (cfg_labelSelects c) \<Longrightarrow>
   f \<notin> set (toList (cfg_receiverKey c)) \<Longrightarrow> f \<notin> set (toList (cfg_senderKey c)) \<Longrightarrow> f \<in> set (modeling_features c)"
  by (auto simp: modeling_features_def modeling_identifiers_def Let_def)

definition feature_attrs :: "graph_node \<Rightarrow> jsval list" where
  "feature_attrs n = (case (def_attrPaths (gn_def n), def_attrs (gn_def n)) of
       (Some ps, Some as) \<Rightarrow> map snd (filter (\<lambda>(p, a). p = ''input/input_ds/feature_selects'') (zip ps as))
     | _ \<Rightarrow> [])"

lemma feature_attrs_make:
  "feature_attrs (make_node g i d n ins k as v) =
     map (attribute_of \<circ> snd) (filter (\<lambda>(p, a). p = ''input/input_ds/feature_selects'') as)"
proof -
  have "map snd (filter (\<lambda>(p, a). p = q) (zip (map fst as) (map (attribute_of \<circ> snd) as))) =
        map (attribute_of \<circ> snd) (filter (\<lambda>(p, a). p = q) as)" for q
    by (induction as) auto
  then show ?thesis
    by (simp add: feature_attrs_def make_node_def with_attrs_def plain_def_def)
qed

lemma feature_attrs_read [simp]: "feature_attrs (createReadDataNode g i tbl x y part lbl) = []"
  by (simp add: feature_attrs_def createReadDataNode_def datatableDef_def with_attrs_def)

lemma preset_no_features:
  "preset_ok pre \<Longrightarrow> filter (\<lambda>(p, a). p = ''input/input_ds/feature_selects'') (pre_attrs pre) = []"
  by (force simp: preset_ok_def filter_empty_conv)

text \<open>Every node that selects features selects exactly the safe ones.\<close>

lemma modeling_feature_attrs:
  assumes "preset_ok pre" "n \<in> set (tg_nodes (modeling_build pre g c))"
  shows "feature_attrs n =
     (if gn_id n = nodeId g 5 \<and> modeling_features c \<noteq> [] then [ssAttr (modeling_features c)] else [])"
proof -
  have train: "feature_attrs (make_node g 5 d nm ins k (train_attrs pre c) v) =
      (if modeling_features c \<noteq> [] then [ssAttr (modeling_features c)] else [])" for d nm ins k v
    using preset_no_features [OF assms(1)] by (simp add: feature_attrs_make train_attrs_def Let_def ssAttr_def)
  have id: "gn_id (make_node g i d nm ins k as v) = nodeId g i" for i d nm ins k as v
    by (simp add: make_node_def createNode_def)
  have read: "gn_id (createReadDataNode g i tbl x y part lbl) = nodeId g i" for i tbl x y part lbl
    by (simp add: createReadDataNode_def createNode_def split_beta)
  define ok where "ok n \<longleftrightarrow> feature_attrs n =
     (if gn_id n = nodeId g 5 \<and> modeling_features c \<noteq> [] then [ssAttr (modeling_features c)] else [])" for n
  have r: "ok (createReadDataNode g (Suc 0) tbl x y part lbl)" "ok (createReadDataNode g 2 tbl x y part lbl)" for tbl x y part lbl
    by (simp_all add: ok_def read)
  have m: "ok (make_node g i d nm ins k as v)" if "i \<noteq> 5" "filter (\<lambda>(p, a). p = ''input/input_ds/feature_selects'') as = []"
    for i d nm ins k as v using that by (simp add: ok_def id feature_attrs_make)
  have t: "ok (make_node g 5 d nm ins k (train_attrs pre c) v)" for d nm ins k v by (simp add: ok_def id train)
  have "list_all ok (tg_nodes (modeling_build pre g c))"
    unfolding modeling_build_def Let_def by (simp add: r m t)
  then show ?thesis using assms(2) by (simp add: list_all_iff ok_def)
qed

lemma modeling_train_node: "\<exists>n \<in> set (tg_nodes (modeling_build pre g c)). gn_id n = nodeId g 5"
  by (simp add: modeling_build_def Let_def make_node_def createNode_def split_beta)

end
