(* ===== verification/TemplateRegistry.thy ===== *)
theory TemplateRegistry
  imports TemplatesRisk TemplatesTee TemplatesModeling "HOL-Library.Multiset"
begin

text \<open>
  The registry of the templates (\<open>registry.ts\<close>, \<open>columns.ts\<close> of
  \<open>web/apps/secretpad/src/features/dag-templates\<close>) and what the project wizard reads of it
  (\<open>features/create-project/templates.ts\<close>).
\<close>

section \<open>The registry\<close>

definition with_layout :: "template \<Rightarrow> template" where
  "with_layout t = t\<lparr>tpl_build := (\<lambda>g c. layoutTemplate (tpl_build t g c))\<rparr>"

definition registered :: "template list" where
  "registered = [blankTemplate] @ modelingTemplates @
     [psiTemplate, psiGuideTemplate, psiTeeTemplate, psiTeeGuideTemplate, scenarioPsiTemplate,
      dataClassificationTemplate, sanitizationTemplate, kAnonymityTemplate, lDiversityTemplate,
      localDifferentialPrivacyTemplate, differentialPrivacyTemplate, privacyGuideTemplate,
      queryObfuscationTemplate, riskTemplate, riskGuideTemplate, teeTemplate, teeGuideTemplate]"

definition allTemplates :: "template list" where
  "allTemplates = map with_layout registered"

definition templateCategories :: "string list" where
  "templateCategories = [''basic'', ''privacy'', ''ml'', ''guide'']"

definition category_of :: "template \<Rightarrow> string" where
  "category_of t = str_or (tpl_category t) ''basic''"

fun push_group :: "string \<Rightarrow> template \<Rightarrow> (string \<times> template list) list \<Rightarrow> (string \<times> template list) list" where
  "push_group cat t [] = [(cat, [t])]"
| "push_group cat t ((c, ts) # gs) = (if c = cat then (c, ts @ [t]) # gs else (c, ts) # push_group cat t gs)"

definition grouped :: "template list \<Rightarrow> (string \<times> template list) list" where
  "grouped ts = foldl (\<lambda>gs t. push_group (category_of t) t gs) [] ts"

definition templatesByCategory :: "(string \<times> template list) list" where
  "templatesByCategory =
     (let gs = grouped allTemplates in
      List.map_filter (\<lambda>cat. map_option (Pair cat) (map_of gs cat)) templateCategories)"

definition templateByKey :: "string \<Rightarrow> template option" where
  "templateByKey key = List.find (\<lambda>t. tpl_key t = key) allTemplates"

definition isTwoTableTemplate :: "template \<Rightarrow> bool" where
  "isTwoTableTemplate t \<longleftrightarrow>
     isModelingKey (tpl_key t) \<or> tpl_key t \<in> set [''psi'', ''psiTee'', ''scenarioPsi'', ''risk'', ''tee'']"

definition isSingleTableTemplate :: "template \<Rightarrow> bool" where
  "isSingleTableTemplate t \<longleftrightarrow>
     tpl_key t \<in> set [''dataClassification'', ''sanitization'', ''kAnonymity'', ''lDiversity'',
       ''localDifferentialPrivacy'', ''differentialPrivacy'']"

definition needsFeatureColumns :: "template \<Rightarrow> bool" where
  "needsFeatureColumns t \<longleftrightarrow> isModelingKey (tpl_key t) \<or> tpl_key t \<in> set [''risk'', ''tee'']"

definition needsLabelColumn :: "template \<Rightarrow> bool" where
  "needsLabelColumn t \<longleftrightarrow>
     (isModelingKey (tpl_key t) \<and> tpl_key t \<noteq> ''kmeans'') \<or> tpl_key t \<in> set [''risk'', ''tee'']"

definition needsPredictionName :: "template \<Rightarrow> bool" where
  "needsPredictionName t \<longleftrightarrow> isModelingKey (tpl_key t) \<or> tpl_key t = ''risk''"

definition needsNoInputs :: "template \<Rightarrow> bool" where
  "needsNoInputs t \<longleftrightarrow>
     tpl_key t \<in> set [''blank'', ''queryObfuscation'', ''psiGuide'', ''psiTeeGuide'', ''privacyGuide'',
       ''riskGuide'', ''teeGuide'']"

section \<open>The project wizard\<close>

definition templateSupportsMode :: "template \<Rightarrow> compute_mode \<Rightarrow> bool" where
  "templateSupportsMode t mode \<longleftrightarrow>
     (if tpl_key t = ''blank'' then True
      else mode_name mode \<in> set (nullish (tpl_computeModes t) [''MPC'']))"

definition templatesForMode :: "compute_mode \<Rightarrow> template list" where
  "templatesForMode mode = filter (\<lambda>t. templateSupportsMode t mode) allTemplates"

record participant =
  pt_nodeId :: string
  pt_datatableId :: "string option"

definition defaultJoinKey :: "string \<Rightarrow> string" where
  "defaultJoinKey n = (if n = ''alice'' then ''id1'' else if n = ''bob'' then ''id2'' else '''')"

record column_config =
  cc_colName :: string
  cc_isAssociateKey :: "bool option"
  cc_isProtection :: "bool option"
  cc_isLabelKey :: "bool option"

definition defaultTableConfigs :: "string \<Rightarrow> string \<Rightarrow> column_config list option" where
  "defaultTableConfigs n templateKey =
     (case templateByKey templateKey of
        None \<Rightarrow> None
      | Some t \<Rightarrow>
          if templateKey = ''blank'' \<or> isSingleTableTemplate t then None
          else let key = defaultJoinKey n in
            if key = '''' then None
            else Some
              [\<lparr>cc_colName = key, cc_isAssociateKey = Some True, cc_isProtection = Some True, cc_isLabelKey = None\<rparr>,
               \<lparr>cc_colName = ''y'', cc_isAssociateKey = None, cc_isProtection = None, cc_isLabelKey = Some True\<rparr>])"

text \<open>The configuration of a wizard that knows the participants only.\<close>

definition two_table_configs :: "template \<Rightarrow> participant list \<Rightarrow> configs" where
  "two_table_configs t participants =
     (let receiver = at_opt participants 0; sender = at_opt participants 1;
          join = (\<lambda>p. case p of None \<Rightarrow> '''' | Some q \<Rightarrow> defaultJoinKey (pt_nodeId q));
          base = no_configs\<lparr>
            cfg_receiverNodeId := Some (str_or (map_option pt_nodeId receiver) ''''),
            cfg_senderNodeId := Some (str_or (map_option pt_nodeId sender) ''''),
            cfg_receiverTableId := Some (str_or (Option.bind receiver pt_datatableId) ''''),
            cfg_senderTableId := Some (str_or (Option.bind sender pt_datatableId) ''''),
            cfg_receiverKey := Some (One (join receiver)),
            cfg_senderKey := Some (One (join sender))\<rparr>;
          base = (if needsFeatureColumns t then base\<lparr>cfg_featureSelects := Some []\<rparr> else base);
          base = (if needsFeatureColumns t \<and> needsLabelColumn t
                  then base\<lparr>cfg_labelSelects := Some \<lparr>ls_s = Some (if join receiver \<noteq> '''' then ''y'' else ''''),
                                                       ls_ss = None\<rparr>\<rparr>
                  else base)
      in if needsPredictionName t then base\<lparr>cfg_pred := Some ''pred''\<rparr> else base)"

definition single_table_configs :: "string \<Rightarrow> participant list \<Rightarrow> configs" where
  "single_table_configs templateKey participants =
     (let target = (case List.find (\<lambda>p. truthy (pt_datatableId p)) participants of
                      Some p \<Rightarrow> Some p | None \<Rightarrow> at_opt participants 0);
          base = no_configs\<lparr>cfg_tableId := Some (str_or (Option.bind target pt_datatableId) '''')\<rparr>
      in if templateKey \<in> {''kAnonymity'', ''lDiversity''}
           then base\<lparr>cfg_qiCols := Some [], cfg_saCols := Some []\<rparr>
         else if templateKey = ''localDifferentialPrivacy''
           then base\<lparr>cfg_queryCol := Some (if map_option pt_nodeId target = Some ''alice'' then ''age'' else '''')\<rparr>
         else if templateKey = ''sanitization'' then base\<lparr>cfg_sanitizationCols := Some []\<rparr>
         else base)"

definition buildTemplateConfigs :: "string \<Rightarrow> participant list \<Rightarrow> configs" where
  "buildTemplateConfigs templateKey participants =
     (case templateByKey templateKey of
        None \<Rightarrow> no_configs
      | Some t \<Rightarrow>
          if isTwoTableTemplate t then two_table_configs t participants
          else if isSingleTableTemplate t then single_table_configs templateKey participants
          else no_configs)"

section \<open>Columns\<close>

record column =
  col_name :: string
  col_type :: string

text \<open>\<open>[...new Map(cs.map(c => [c.name, c])).values()]\<close>: the place of the first column of a name,
  the content of the last.\<close>

definition mergeTableColumns :: "column list option list \<Rightarrow> column list" where
  "mergeTableColumns tables =
     map snd (foldl (\<lambda>m c. set_prop (col_name c) c m) [] (concat (map (\<lambda>t. nullish t []) tables)))"

section \<open>What the registry guarantees\<close>

lemma tpl_fields [simp]:
  "tpl_key (with_layout t) = tpl_key t" "tpl_category (with_layout t) = tpl_category t"
  "tpl_computeModes (with_layout t) = tpl_computeModes t"
  "tpl_build (with_layout t) g c = layoutTemplate (tpl_build t g c)"
  by (simp_all add: with_layout_def)

lemmas template_defs = blankTemplate_def psiTemplate_def psiGuideTemplate_def psiTeeTemplate_def
  psiTeeGuideTemplate_def scenarioPsiTemplate_def dataClassificationTemplate_def sanitizationTemplate_def
  kAnonymityTemplate_def lDiversityTemplate_def localDifferentialPrivacyTemplate_def
  differentialPrivacyTemplate_def privacyGuideTemplate_def queryObfuscationTemplate_def riskTemplate_def
  riskGuideTemplate_def teeTemplate_def teeGuideTemplate_def metadata_def

text \<open>The keys, as a list.\<close>

definition all_keys :: "string list" where
  "all_keys = [''blank'', ''logisticRegression'', ''ssGlm'', ''secureBoost'', ''ssXgb'', ''naiveBayes'',
     ''gaussianProcess'', ''knn'', ''kmeans'', ''psi'', ''psiGuide'', ''psiTee'', ''psiTeeGuide'', ''scenarioPsi'',
     ''dataClassification'', ''sanitization'', ''kAnonymity'', ''lDiversity'', ''localDifferentialPrivacy'',
     ''differentialPrivacy'', ''privacyGuide'', ''queryObfuscation'', ''risk'', ''riskGuide'', ''tee'', ''teeGuide'']"

lemma all_keys: "map tpl_key allTemplates = all_keys"
  by (simp add: allTemplates_def registered_def modelingTemplates_def modelingPresets_def template_defs
      with_layout_def all_keys_def)

lemma distinct_all_keys: "distinct all_keys"
  by code_simp

lemma key_in_all_keys: "t \<in> set allTemplates \<Longrightarrow> tpl_key t \<in> set all_keys"
  unfolding all_keys [symmetric] by simp

lemma find_by_key:
  "distinct (map f xs) \<Longrightarrow> x \<in> set xs \<Longrightarrow> List.find (\<lambda>y. f y = f x) xs = Some x"
  by (induction xs) auto

lemma templateByKey_found: "t \<in> set allTemplates \<Longrightarrow> templateByKey (tpl_key t) = Some t"
  unfolding templateByKey_def using distinct_all_keys all_keys by (intro find_by_key) simp_all

lemma templateByKey_Some: "templateByKey k = Some t \<Longrightarrow> t \<in> set allTemplates \<and> tpl_key t = k"
  unfolding templateByKey_def by (rule find_Some_iff_mem)

text \<open>Every template is asked for two tables, one table or nothing, and for exactly one of them.\<close>

definition kind_count :: "string \<Rightarrow> nat" where
  "kind_count k =
     length (filter id
       [isModelingKey k \<or> k \<in> set [''psi'', ''psiTee'', ''scenarioPsi'', ''risk'', ''tee''],
        k \<in> set [''dataClassification'', ''sanitization'', ''kAnonymity'', ''lDiversity'',
          ''localDifferentialPrivacy'', ''differentialPrivacy''],
        k \<in> set [''blank'', ''queryObfuscation'', ''psiGuide'', ''psiTeeGuide'', ''privacyGuide'', ''riskGuide'',
          ''teeGuide'']])"

lemma kind_count_one: "list_all (\<lambda>k. kind_count k = 1) all_keys"
  by code_simp

lemma one_kind:
  assumes "t \<in> set allTemplates"
  shows "length (filter id [isTwoTableTemplate t, isSingleTableTemplate t, needsNoInputs t]) = 1"
  using kind_count_one key_in_all_keys [OF assms]
  by (simp add: list_all_iff kind_count_def isTwoTableTemplate_def isSingleTableTemplate_def needsNoInputs_def)

text \<open>Grouping loses no template.\<close>

lemma push_group_mset:
  "mset (concat (map snd (push_group cat t gs))) = mset (concat (map snd gs)) + {#t#}"
  by (induction gs) auto

lemma map_of_push_group:
  "map_of (push_group cat t gs) = (map_of gs)(cat \<mapsto> nullish (map_of gs cat) [] @ [t])"
  by (induction gs) (auto simp: fun_eq_iff)

lemma grouped_at: "map_of (grouped ts) cat =
    (if filter (\<lambda>t. category_of t = cat) ts = [] then None else Some (filter (\<lambda>t. category_of t = cat) ts))"
proof -
  have "map_of (foldl (\<lambda>gs t. push_group (category_of t) t gs) gs ts) cat =
    (let fs = filter (\<lambda>t. category_of t = cat) ts in
     if fs = [] then map_of gs cat else Some (nullish (map_of gs cat) [] @ fs))" for gs
    by (induction ts arbitrary: gs) (auto simp: map_of_push_group Let_def)
  then show ?thesis by (simp add: grouped_def Let_def)
qed

lemma mset_filter_by:
  "distinct cats \<Longrightarrow> (\<And>t. t \<in> set ts \<Longrightarrow> f t \<in> set cats) \<Longrightarrow>
   mset (concat (map (\<lambda>c. filter (\<lambda>t. f t = c) ts) cats)) = mset ts"
proof (induction cats arbitrary: ts)
  case (Cons c cats)
  have "mset (concat (map (\<lambda>c'. filter (\<lambda>t. f t = c') (filter (\<lambda>t. f t \<noteq> c) ts)) cats)) = mset (filter (\<lambda>t. f t \<noteq> c) ts)"
  proof (rule Cons.IH [of "filter (\<lambda>t. f t \<noteq> c) ts"])
    show "distinct cats" using Cons.prems(1) by simp
    fix t assume "t \<in> set (filter (\<lambda>t. f t \<noteq> c) ts)"
    then show "f t \<in> set cats" using Cons.prems(2) [of t] by auto
  qed
  moreover have "map (\<lambda>c'. filter (\<lambda>t. f t = c') (filter (\<lambda>t. f t \<noteq> c) ts)) cats = map (\<lambda>c. filter (\<lambda>t. f t = c) ts) cats"
    using Cons.prems(1) by (auto intro!: filter_cong)
  ultimately have "mset (concat (map (\<lambda>c. filter (\<lambda>t. f t = c) ts) cats)) = filter_mset (\<lambda>t. f t \<noteq> c) (mset ts)"
    unfolding mset_filter by (simp only:)
  moreover have "mset ts = filter_mset (\<lambda>t. f t = c) (mset ts) + filter_mset (\<lambda>t. f t \<noteq> c) (mset ts)"
    by (rule multiset_partition)
  ultimately show ?case by simp
next
  case Nil
  then show ?case by (cases ts) auto
qed

lemma templatesByCategory_eq:
  "map snd templatesByCategory =
     filter (\<lambda>ts. ts \<noteq> []) (map (\<lambda>cat. filter (\<lambda>t. category_of t = cat) allTemplates) templateCategories)"
proof -
  have "map snd (List.map_filter (\<lambda>cat. map_option (Pair cat) (map_of (grouped allTemplates) cat)) cats) =
     filter (\<lambda>ts. ts \<noteq> []) (map (\<lambda>cat. filter (\<lambda>t. category_of t = cat) allTemplates) cats)" for cats
    by (induction cats) (auto simp: map_filter_simps grouped_at)
  then show ?thesis by (simp add: templatesByCategory_def Let_def)
qed

lemma all_categories: "list_all (\<lambda>t. category_of t \<in> set templateCategories) allTemplates"
  by (simp add: allTemplates_def registered_def modelingTemplates_def modelingPresets_def template_defs
      with_layout_def category_of_def templateCategories_def)

lemma concat_nonempty: "concat (filter (\<lambda>ts. ts \<noteq> []) tss) = concat tss"
  by (induction tss) auto

lemma templatesByCategory_all: "mset (concat (map snd templatesByCategory)) = mset allTemplates"
  unfolding templatesByCategory_eq concat_nonempty
  using all_categories by (intro mset_filter_by) (simp_all add: list_all_iff templateCategories_def)

text \<open>The templates for the two modes: nothing is out of reach of the wizard.\<close>

lemma some_mode: "t \<in> set allTemplates \<Longrightarrow> templateSupportsMode t MPC \<or> templateSupportsMode t TEE"
proof -
  have "list_all (\<lambda>t. templateSupportsMode t MPC \<or> templateSupportsMode t TEE) allTemplates"
    by (simp add: allTemplates_def registered_def modelingTemplates_def modelingPresets_def template_defs
        with_layout_def templateSupportsMode_def)
  then show "t \<in> set allTemplates \<Longrightarrow> ?thesis" by (simp add: list_all_iff)
qed

section \<open>Every registered template is wired correctly\<close>

lemma registered_well_formed:
  assumes "t \<in> set registered" "no_line_break g"
  shows "well_formed (tpl_build t g c)"
proof -
  have "list_all (\<lambda>t. well_formed (tpl_build t g c)) modelingTemplates"
    using modeling_wired [OF assms(2)] presets_ok
    by (simp add: modelingTemplates_def list_all_iff metadata_def well_wired_def)
  moreover note psi_wired [OF assms(2)] scenarioPsi_wired [OF assms(2)] privacy_wired [OF assms(2)]
    privacyGuide_wired [OF assms(2)] queryObfuscation_wired [OF assms(2)] blank_wired
    risk_wired [OF assms(2)] riskGuide_wired [OF assms(2)] tee_well_formed [OF assms(2)] teeGuide_wired [OF assms(2)]
  ultimately have "list_all (\<lambda>t. well_formed (tpl_build t g c)) registered"
    by (simp add: registered_def template_defs well_wired_def)
  with assms(1) show ?thesis by (simp add: list_all_iff)
qed

lemma registered_well_wired:
  assumes "t \<in> set registered" "tpl_key t \<noteq> ''tee''" "no_line_break g"
  shows "well_wired (tpl_build t g c)"
proof -
  have "list_all (\<lambda>t. well_wired (tpl_build t g c)) modelingTemplates"
    using modeling_wired [OF assms(3)] presets_ok
    by (simp add: modelingTemplates_def list_all_iff metadata_def)
  moreover note psi_wired [OF assms(3)] scenarioPsi_wired [OF assms(3)] privacy_wired [OF assms(3)]
    privacyGuide_wired [OF assms(3)] queryObfuscation_wired [OF assms(3)] blank_wired
    risk_wired [OF assms(3)] riskGuide_wired [OF assms(3)] teeGuide_wired [OF assms(3)]
  ultimately have "list_all (\<lambda>t. tpl_key t = ''tee'' \<or> well_wired (tpl_build t g c)) registered"
    by (simp add: registered_def template_defs list_all_iff)
  with assms(1,2) show ?thesis by (auto simp: list_all_iff)
qed

lemma all_well_formed: "t \<in> set allTemplates \<Longrightarrow> no_line_break g \<Longrightarrow> well_formed (tpl_build t g c)"
  by (auto simp: allTemplates_def registered_well_formed)

lemma all_well_wired:
  "t \<in> set allTemplates \<Longrightarrow> tpl_key t \<noteq> ''tee'' \<Longrightarrow> no_line_break g \<Longrightarrow> well_wired (tpl_build t g c)"
  by (auto simp: allTemplates_def registered_well_wired)

text \<open>An attribute of a node of a graph.\<close>

definition node_attr :: "template_graph \<Rightarrow> string \<Rightarrow> string \<Rightarrow> jsval option" where
  "node_attr tg i path =
     (case List.find (\<lambda>n. gn_id n = i) (tg_nodes tg) of
        None \<Rightarrow> None
      | Some n \<Rightarrow> map_of (zip (nullish (def_attrPaths (gn_def n)) []) (nullish (def_attrs (gn_def n)) [])) path)"

lemma find_map: "List.find P (map f xs) = map_option f (List.find (P \<circ> f) xs)"
  by (induction xs) auto

lemma node_attr_layout [simp]: "node_attr (layoutTemplate tg) i path = node_attr tg i path"
proof -
  let ?p = "place (map_set_all (cells (layers tg)))"
  have "gn_id (?p n) = gn_id n" "gn_def (?p n) = gn_def n" for n by (simp_all add: place_def split: option.split)
  then show ?thesis by (simp add: node_attr_def layoutTemplate_def find_map comp_def split: option.split)
qed

end
