(* ===== verification/Access.thy ===== *)
theory Access
  imports Prelude "HOL-Library.Multiset"
begin

text \<open>
  Who may open which page and write on which node:
  \<open>web/apps/secretpad/src/shared/lib/platform.ts\<close>, \<open>shared/lib/access.ts\<close>,
  \<open>pages/dag/edit-permissions.ts\<close>.  The platform type comes from the server and is cast without
  a check, so it is a string here and need not be one of the five platforms.
\<close>

section \<open>Platform context\<close>

definition CENTER :: string where "CENTER = ''CENTER''"
definition EDGE :: string where "EDGE = ''EDGE''"
definition AUTONOMY :: string where "AUTONOMY = ''AUTONOMY''"
definition TEST :: string where "TEST = ''TEST''"
definition P2P :: string where "P2P = ''P2P''"

lemmas platform_names = CENTER_def EDGE_def AUTONOMY_def TEST_def P2P_def

datatype pad_mode = TEE_MODE | MPC_MODE | ALL_IN_ONE

record platform_user =
  pu_platformType :: "string option"
  pu_ownerType :: "string option"
  pu_ownerId :: "string option"
  pu_platformNodeId :: "string option"
  pu_deployMode :: "string option"

record platform_context =
  platformType :: string
  ownerType :: string
  ownerId :: string
  deployMode :: pad_mode

definition ALL_PLATFORMS :: "string list" where
  "ALL_PLATFORMS = [CENTER, EDGE, AUTONOMY, P2P, TEST]"

definition ALL_MODES :: "pad_mode list" where
  "ALL_MODES = [ALL_IN_ONE, MPC_MODE, TEE_MODE]"

definition EMBEDDED_NODES :: "string list" where
  "EMBEDDED_NODES = [''alice'', ''bob'', ''tee'']"

definition normalizeMode :: "string option \<Rightarrow> pad_mode" where
  "normalizeMode mode =
     (let m = to_upper (str_or mode '''') in
      if m = ''TEE'' then TEE_MODE else if m = ''MPC'' then MPC_MODE else ALL_IN_ONE)"

definition user_field :: "(platform_user \<Rightarrow> string option) \<Rightarrow> platform_user option \<Rightarrow> string option" where
  "user_field f user = Option.bind user f"

definition toPlatformContext ::
  "platform_user option \<Rightarrow> string option \<Rightarrow> string option \<Rightarrow> platform_context" where
  "toPlatformContext user fallbackType fallbackNode =
     (let pt = to_upper (str_or (user_field pu_platformType user) (str_or fallbackType CENTER)) in
      \<lparr>platformType = (if pt = '''' then CENTER else pt),
       ownerType = to_upper (str_or (user_field pu_ownerType user) ''CENTER''),
       ownerId = str_or (user_field pu_ownerId user)
         (str_or (user_field pu_platformNodeId user) (str_or fallbackNode '''')),
       deployMode = normalizeMode (user_field pu_deployMode user)\<rparr>)"

definition isEdgeAccountOnCenter :: "platform_context \<Rightarrow> bool" where
  "isEdgeAccountOnCenter ctx \<longleftrightarrow> platformType ctx = CENTER \<and> ownerType ctx = ''EDGE''"

section \<open>Nodes\<close>

definition canAccessEmbeddedNode :: "platform_context \<Rightarrow> string option \<Rightarrow> bool" where
  "canAccessEmbeddedNode ctx nodeId \<longleftrightarrow>
     platformType ctx = CENTER \<and> ownerType ctx = ''CENTER'' \<and> truthy nodeId \<and> the nodeId \<in> set EMBEDDED_NODES"

definition canEnterNode :: "platform_context \<Rightarrow> string option \<Rightarrow> bool" where
  "canEnterNode ctx nodeId =
     (if \<not> truthy nodeId then False
      else if platformType ctx = CENTER then ownerType ctx = ''CENTER'' \<or> nodeId = Some (ownerId ctx)
      else if platformType ctx \<in> {EDGE, AUTONOMY, P2P} then nodeId = Some (ownerId ctx)
      else if platformType ctx = TEST then True
      else False)"

definition resolveMyNodeId :: "platform_context \<Rightarrow> string option \<Rightarrow> string option" where
  "resolveMyNodeId ctx requested =
     (if platformType ctx = CENTER \<and> ownerType ctx = ''CENTER''
        then (if truthy requested \<and> canAccessEmbeddedNode ctx requested then requested else None)
      else if platformType ctx = TEST then Some (str_or requested (ownerId ctx))
      else Some (ownerId ctx))"

record node_write_scope =
  nws_instId :: "string option"
  nws_instNodeIds :: "string list option"

definition canWriteNode :: "platform_context \<Rightarrow> string option \<Rightarrow> node_write_scope option \<Rightarrow> bool" where
  "canWriteNode ctx nodeId scope =
     (if platformType ctx = TEST then True
      else if platformType ctx = CENTER \<and> ownerType ctx = ''CENTER'' then True
      else if \<not> truthy nodeId then True
      else if nodeId = Some (ownerId ctx) then True
      else if ownerId ctx = '''' then False
      else if truthy (Option.bind scope nws_instId) \<and> Option.bind scope nws_instId = Some (ownerId ctx) then True
      else platformType ctx = AUTONOMY \<and>
           (case Option.bind scope nws_instNodeIds of None \<Rightarrow> False | Some ids \<Rightarrow> the nodeId \<in> set ids))"

record access_type =
  at_types :: "string list option"
  at_modes :: "pad_mode list option"

definition hasAccess :: "platform_context \<Rightarrow> access_type \<Rightarrow> bool" where
  "hasAccess ctx access \<longleftrightarrow>
     platformType ctx \<in> set (nullish (at_types access) ALL_PLATFORMS) \<and>
     deployMode ctx \<in> set (nullish (at_modes access) ALL_MODES)"

definition supportsTee :: "platform_context \<Rightarrow> bool" where
  "supportsTee ctx \<longleftrightarrow> deployMode ctx = TEE_MODE \<or> deployMode ctx = ALL_IN_ONE"

definition supportsMpc :: "platform_context \<Rightarrow> bool" where
  "supportsMpc ctx \<longleftrightarrow> deployMode ctx = MPC_MODE \<or> deployMode ctx = ALL_IN_ONE"

section \<open>Percent-encoding\<close>

text \<open>
  \<open>encodeURIComponent\<close> on the UTF-8 bytes, and \<open>decodeURIComponent\<close>, which raises on a malformed
  escape (\<open>None\<close>).  The check that the decoded bytes are UTF-8 is left out.
\<close>

definition uri_safe :: "char \<Rightarrow> bool" where
  "uri_safe c \<longleftrightarrow> is_digit c \<or> (65 \<le> (of_char c :: nat) \<and> (of_char c :: nat) \<le> 90) \<or>
     (97 \<le> (of_char c :: nat) \<and> (of_char c :: nat) \<le> 122) \<or> c \<in> set ''-_.!~*()'' \<or> c = CHR 0x27"

definition hex_upper :: "nat \<Rightarrow> char" where
  "hex_upper d = (if d < 10 then char_of (48 + d) else char_of (55 + d))"

definition hex_value :: "char \<Rightarrow> nat option" where
  "hex_value c =
     (let n = (of_char c :: nat) in
      if 48 \<le> n \<and> n \<le> 57 then Some (n - 48)
      else if 65 \<le> n \<and> n \<le> 70 then Some (n - 55)
      else if 97 \<le> n \<and> n \<le> 102 then Some (n - 87)
      else None)"

definition encode_char :: "char \<Rightarrow> string" where
  "encode_char c = (if uri_safe c then [c]
     else [CHR ''%'', hex_upper (of_char c div 16), hex_upper (of_char c mod 16)])"

definition encodeURIComponent :: "string \<Rightarrow> string" where
  "encodeURIComponent s = concat (map encode_char s)"

fun decodeURIComponent :: "string \<Rightarrow> string option" where
  "decodeURIComponent [] = Some []"
| "decodeURIComponent (c # s) =
     (if c \<noteq> CHR ''%'' then map_option ((#) c) (decodeURIComponent s)
      else (case s of
          h # l # r \<Rightarrow> (case (hex_value h, hex_value l) of
              (Some a, Some b) \<Rightarrow> map_option ((#) (char_of (16 * a + b))) (decodeURIComponent r)
            | _ \<Rightarrow> None)
        | _ \<Rightarrow> None))"

text \<open>\<open>URLSearchParams\<close>: the form encoding, one field.\<close>

definition form_char :: "char \<Rightarrow> string" where
  "form_char c = (if c = CHR '' '' then ''+''
     else if is_digit c \<or> (65 \<le> (of_char c :: nat) \<and> (of_char c :: nat) \<le> 90) \<or>
       (97 \<le> (of_char c :: nat) \<and> (of_char c :: nat) \<le> 122) \<or> c \<in> set ''*-._'' then [c]
     else [CHR ''%'', hex_upper (of_char c div 16), hex_upper (of_char c mod 16)])"

section \<open>Landing pages\<close>

record home_target =
  ht_to :: string
  ht_nodeId :: "string option"
  ht_ownerId :: "string option"

definition plain_target :: "string \<Rightarrow> home_target" where
  "plain_target p = \<lparr>ht_to = p, ht_nodeId = None, ht_ownerId = None\<rparr>"

definition resolveHomePath :: "platform_context \<Rightarrow> bool \<Rightarrow> home_target" where
  "resolveHomePath ctx firstLogin =
     (if platformType ctx = AUTONOMY
        then (if ownerId ctx \<noteq> '''' then (plain_target ''/workbench'')\<lparr>ht_ownerId := Some (ownerId ctx)\<rparr>
              else plain_target ''/workbench'')
      else if platformType ctx = P2P then plain_target ''/workbench''
      else if platformType ctx = EDGE
        then (if ownerId ctx \<noteq> '''' then (plain_target ''/node/$nodeId'')\<lparr>ht_nodeId := Some (ownerId ctx)\<rparr>
              else plain_target ''/p2p/my-node'')
      else if platformType ctx = CENTER
        then (if isEdgeAccountOnCenter ctx then plain_target ''/dashboard''
              else if firstLogin then plain_target ''/guide'' else plain_target ''/dashboard'')
      else plain_target ''/dashboard'')"

text \<open>\<open>path.replace(pattern, text)\<close>: the first occurrence.\<close>

fun replace_first :: "string \<Rightarrow> string \<Rightarrow> string \<Rightarrow> string" where
  "replace_first p r [] = (if p = '''' then r else '''')"
| "replace_first p r (c # s) =
     (if starts_with (c # s) p then r @ drop (length p) (c # s) else c # replace_first p r s)"

definition target_path :: "string \<Rightarrow> string option \<Rightarrow> string" where
  "target_path to n = (case n of None \<Rightarrow> to | Some v \<Rightarrow> replace_first ''$nodeId'' (encodeURIComponent v) to)"

definition homeHref :: "home_target \<Rightarrow> string" where
  "homeHref t =
     (let path = target_path (ht_to t) (ht_nodeId t);
          qs = (case ht_ownerId t of None \<Rightarrow> '''' | Some v \<Rightarrow> ''ownerId='' @ concat (map form_char v))
      in if qs \<noteq> '''' then path @ ''?'' @ qs else path)"

section \<open>Route rules\<close>

definition anyOf :: "string list \<Rightarrow> platform_context \<Rightarrow> bool" where
  "anyOf types ctx \<longleftrightarrow> platformType ctx \<in> set types"

definition centerAdmin :: "platform_context \<Rightarrow> bool" where
  "centerAdmin ctx \<longleftrightarrow> platformType ctx = TEST \<or> (platformType ctx = CENTER \<and> \<not> isEdgeAccountOnCenter ctx)"

definition everyone :: "platform_context \<Rightarrow> bool" where
  "everyone ctx = True"

definition ROUTE_RULES :: "(string \<times> (platform_context \<Rightarrow> bool)) list" where
  "ROUTE_RULES =
     [(''/nodes'', centerAdmin), (''/all-data-sources'', centerAdmin), (''/all-data-tables'', centerAdmin),
      (''/guide'', \<lambda>ctx. centerAdmin ctx \<or> anyOf [AUTONOMY, P2P] ctx),
      (''/institutions'', anyOf [AUTONOMY, P2P, TEST]), (''/inst-register'', anyOf [AUTONOMY, P2P, TEST]),
      (''/projects'', anyOf [CENTER, TEST]), (''/privacy-scenes'', anyOf [CENTER, TEST, AUTONOMY, P2P]),
      (''/dashboard'', anyOf [CENTER, TEST]), (''/graphs'', anyOf [CENTER, TEST, AUTONOMY, P2P]),
      (''/dag-templates'', anyOf [CENTER, TEST, AUTONOMY, P2P]), (''/dag'', anyOf [CENTER, TEST, AUTONOMY, P2P]),
      (''/job-records'', anyOf [CENTER, TEST, AUTONOMY, P2P]), (''/models'', anyOf [CENTER, TEST, AUTONOMY, P2P]),
      (''/periodic-tasks'', anyOf [CENTER, TEST, AUTONOMY, P2P]),
      (''/p2p/projects'', anyOf [AUTONOMY, P2P, TEST]), (''/workbench'', anyOf [CENTER, AUTONOMY, P2P, TEST]),
      (''/p2p/my-node'', everyone), (''/messages'', everyone), (''/account'', everyone),
      (''/data-sources'', everyone), (''/data-tables'', everyone), (''/results'', everyone),
      (''/node-routes'', everyone), (''/feature-datasource'', everyone), (''/cloud-logs'', everyone),
      (''/component-versions'', everyone), (''/audit'', everyone)]"

definition matchesPrefix :: "string \<Rightarrow> string \<Rightarrow> bool" where
  "matchesPrefix pathname pre \<longleftrightarrow> pathname = pre \<or> starts_with pathname (pre @ ''/'')"

text \<open>\<open>/^\/node\/([^/]+)/\<close>: the identifier in the path, if there is one.\<close>

definition node_segment :: "string \<Rightarrow> string option" where
  "node_segment pathname =
     (if starts_with pathname ''/node/''
      then let seg = takeWhile (\<lambda>c. c \<noteq> CHR ''/'') (drop 6 pathname) in if seg = '''' then None else Some seg
      else None)"

text \<open>\<open>None\<close>: the decoding of the identifier raises.\<close>

definition canAccessPath :: "string \<Rightarrow> platform_context \<Rightarrow> bool option" where
  "canAccessPath pathname ctx =
     (case node_segment pathname of
        Some seg \<Rightarrow> map_option (\<lambda>n. canEnterNode ctx (Some n)) (decodeURIComponent seg)
      | None \<Rightarrow>
          (case List.find (\<lambda>(pre, rule). matchesPrefix pathname pre) ROUTE_RULES of
             Some (pre, rule) \<Rightarrow> Some (rule ctx)
           | None \<Rightarrow> Some True))"

section \<open>The menu\<close>

record menu_item =
  mi_section :: "string option"
  mi_path :: "string option"
  mi_labelKey :: "string option"
  mi_icon :: "string option"
  mi_nodeId :: "string option"
  mi_search :: "string option"

definition heading :: "string \<Rightarrow> menu_item" where
  "heading s = \<lparr>mi_section = Some s, mi_path = None, mi_labelKey = None, mi_icon = None, mi_nodeId = None, mi_search = None\<rparr>"

definition entry :: "string \<Rightarrow> string \<Rightarrow> nat list \<Rightarrow> menu_item" where
  "entry path labelKey icon = \<lparr>mi_section = None, mi_path = Some path, mi_labelKey = Some labelKey,
     mi_icon = Some (map char_of icon), mi_nodeId = None, mi_search = None\<rparr>"

definition node_entry :: "string \<Rightarrow> string \<Rightarrow> string \<Rightarrow> nat list \<Rightarrow> menu_item" where
  "node_entry path n labelKey icon = (entry path labelKey icon)\<lparr>mi_nodeId := Some n\<rparr>"

definition edge_menu :: "string \<Rightarrow> menu_item list" where
  "edge_menu own =
     [heading ''sidebar.nodeView''] @
     (if own \<noteq> '''' then
       [node_entry ''/node/$nodeId/data-sources'' own ''sidebar.dataSources'' [0xF0, 0x9F, 0x94, 0x8C],
      node_entry ''/node/$nodeId/data-tables'' own ''sidebar.dataTables'' [0xF0, 0x9F, 0x97, 0x84, 0xEF, 0xB8, 0x8F],
      node_entry ''/node/$nodeId/cooperative-nodes'' own ''sidebar.cooperativeNodes'' [0xF0, 0x9F, 0x94, 0x97],
      node_entry ''/node/$nodeId/results'' own ''sidebar.results'' [0xF0, 0x9F, 0x93, 0xA6]] else []) @
     [heading ''sidebar.governance'',
      entry ''/p2p/my-node'' ''sidebar.p2pMyNode'' [0xF0, 0x9F, 0x96, 0xA5, 0xEF, 0xB8, 0x8F],
      entry ''/messages'' ''sidebar.messages'' [0xF0, 0x9F, 0x94, 0x94],
      entry ''/audit'' ''sidebar.audit'' [0xF0, 0x9F, 0xA7, 0xBE],
      entry ''/account'' ''sidebar.account'' [0xF0, 0x9F, 0x91, 0xA4]]"

definition p2p_menu :: "string \<Rightarrow> menu_item list" where
  "p2p_menu own =
     [heading ''sidebar.overview'',
      (entry ''/workbench'' ''sidebar.workbench'' [0xF0, 0x9F, 0xA7, 0xAD])\<lparr>mi_search := (if own \<noteq> '''' then Some own else None)\<rparr>,
      entry ''/guide'' ''sidebar.guide'' [0xF0, 0x9F, 0x9A, 0x80],
      heading ''sidebar.p2p'',
      entry ''/p2p/projects'' ''sidebar.p2pProjects'' [0xF0, 0x9F, 0x93, 0x81],
      entry ''/dag'' ''sidebar.dag'' [0xE2, 0x9A, 0xA1],
      entry ''/dag-templates'' ''sidebar.predefinedCanvases'' [0xF0, 0x9F, 0xA7, 0xA9],
      entry ''/periodic-tasks'' ''sidebar.periodicTasks'' [0xE2, 0x8F, 0xB0],
      entry ''/p2p/my-node'' ''sidebar.p2pMyNode'' [0xF0, 0x9F, 0x96, 0xA5, 0xEF, 0xB8, 0x8F],
      entry ''/institutions'' ''sidebar.institutions'' [0xF0, 0x9F, 0x8F, 0xA2],
      entry ''/node-routes'' ''sidebar.cooperativeNodes'' [0xF0, 0x9F, 0x94, 0x97],
      heading ''sidebar.resources'',
      entry ''/data-sources'' ''sidebar.dataSources'' [0xF0, 0x9F, 0x94, 0x8C],
      entry ''/data-tables'' ''sidebar.dataTables'' [0xF0, 0x9F, 0x97, 0x84, 0xEF, 0xB8, 0x8F],
      entry ''/feature-datasource'' ''sidebar.featureDatasource'' [0xF0, 0x9F, 0xA7, 0xAC],
      heading ''sidebar.governance'',
      entry ''/results'' ''sidebar.results'' [0xF0, 0x9F, 0x93, 0xA6],
      entry ''/models'' ''sidebar.models'' [0xF0, 0x9F, 0xA4, 0x96],
      entry ''/job-records'' ''sidebar.jobRecords'' [0xF0, 0x9F, 0x93, 0x8B],
      entry ''/messages'' ''sidebar.messages'' [0xF0, 0x9F, 0x94, 0x94],
      entry ''/cloud-logs'' ''sidebar.cloudLogs'' [0xE2, 0x98, 0x81, 0xEF, 0xB8, 0x8F],
      entry ''/privacy-scenes'' ''sidebar.privacyScenes'' [0xF0, 0x9F, 0x9B, 0xA1, 0xEF, 0xB8, 0x8F],
      entry ''/audit'' ''sidebar.audit'' [0xF0, 0x9F, 0xA7, 0xBE],
      entry ''/account'' ''sidebar.account'' [0xF0, 0x9F, 0x91, 0xA4]]"

definition center_menu :: "platform_context \<Rightarrow> menu_item list" where
  "center_menu ctx =
     (let own = ownerId ctx; admin = centerAdmin ctx in
      [heading ''sidebar.overview'',
      entry ''/dashboard'' ''sidebar.dashboard'' [0xF0, 0x9F, 0x93, 0x8A],
      entry ''/workbench'' ''sidebar.workbench'' [0xF0, 0x9F, 0xA7, 0xAD]] @
      (if admin then [entry ''/guide'' ''sidebar.guide'' [0xF0, 0x9F, 0x9A, 0x80]] else []) @
      [heading ''sidebar.collaboration'',
      entry ''/projects'' ''sidebar.projects'' [0xF0, 0x9F, 0x93, 0x81],
      entry ''/dag'' ''sidebar.dag'' [0xE2, 0x9A, 0xA1],
      entry ''/dag-templates'' ''sidebar.predefinedCanvases'' [0xF0, 0x9F, 0xA7, 0xA9],
      entry ''/graphs'' ''sidebar.graphs'' [0xF0, 0x9F, 0x95, 0xB8, 0xEF, 0xB8, 0x8F],
      heading ''sidebar.resources''] @
      (if admin then
        [entry ''/nodes'' ''sidebar.nodes'' [0xF0, 0x9F, 0x96, 0xA5, 0xEF, 0xB8, 0x8F],
      entry ''/all-data-sources'' ''sidebar.allDataSources'' [0xF0, 0x9F, 0x94, 0x8C],
      entry ''/all-data-tables'' ''sidebar.allDataTables'' [0xF0, 0x9F, 0x97, 0x84, 0xEF, 0xB8, 0x8F]]
       else if own \<noteq> '''' then [node_entry ''/node/$nodeId'' own ''sidebar.myNodeView'' [0xF0, 0x9F, 0x96, 0xA5, 0xEF, 0xB8, 0x8F]]
       else []) @
      [entry ''/data-sources'' ''sidebar.dataSources'' [0xF0, 0x9F, 0x94, 0x8C],
      entry ''/data-tables'' ''sidebar.dataTables'' [0xF0, 0x9F, 0x97, 0x84, 0xEF, 0xB8, 0x8F],
      entry ''/feature-datasource'' ''sidebar.featureDatasource'' [0xF0, 0x9F, 0xA7, 0xAC],
      entry ''/node-routes'' ''sidebar.nodeRoutes'' [0xF0, 0x9F, 0x94, 0x97],
      heading ''sidebar.governance'',
      entry ''/models'' ''sidebar.models'' [0xF0, 0x9F, 0xA4, 0x96],
      entry ''/results'' ''sidebar.results'' [0xF0, 0x9F, 0x93, 0xA6],
      entry ''/periodic-tasks'' ''sidebar.periodicTasks'' [0xE2, 0x8F, 0xB0],
      entry ''/job-records'' ''sidebar.jobRecords'' [0xF0, 0x9F, 0x93, 0x8B],
      entry ''/messages'' ''sidebar.messages'' [0xF0, 0x9F, 0x94, 0x94],
      entry ''/cloud-logs'' ''sidebar.cloudLogs'' [0xE2, 0x98, 0x81, 0xEF, 0xB8, 0x8F],
      entry ''/component-versions'' ''sidebar.componentVersions'' [0xF0, 0x9F, 0x8F, 0xB7, 0xEF, 0xB8, 0x8F],
      entry ''/privacy-scenes'' ''sidebar.privacyScenes'' [0xF0, 0x9F, 0x9B, 0xA1, 0xEF, 0xB8, 0x8F]] @
      (if admin then [entry ''/audit'' ''sidebar.audit'' [0xF0, 0x9F, 0xA7, 0xBE]] else []) @
      [entry ''/account'' ''sidebar.account'' [0xF0, 0x9F, 0x91, 0xA4]])"

definition getPlatformMenu :: "platform_context \<Rightarrow> menu_item list" where
  "getPlatformMenu ctx =
     (if platformType ctx = EDGE then edge_menu (ownerId ctx)
      else if platformType ctx = AUTONOMY \<or> platformType ctx = P2P then p2p_menu (ownerId ctx)
      else center_menu ctx)"

definition MENU_SECTIONS :: "(string \<times> string list) list" where
  "MENU_SECTIONS =
     [(''sidebar.startSection'', [''/dashboard'', ''/workbench'', ''/guide'', ''/privacy-scenes'']),
      (''sidebar.projectsSection'', [''/projects'', ''/p2p/projects'', ''/dag'', ''/dag-templates'', ''/graphs'']),
      (''sidebar.dataSection'', [''/all-data-sources'', ''/all-data-tables'', ''/data-sources'', ''/data-tables'',
         ''/feature-datasource'', ''/node/$nodeId/data-sources'', ''/node/$nodeId/data-tables'']),
      (''sidebar.tasksSection'', [''/job-records'', ''/periodic-tasks'', ''/results'', ''/node/$nodeId/results'', ''/models'']),
      (''sidebar.networkSection'', [''/nodes'', ''/node/$nodeId'', ''/p2p/my-node'', ''/institutions'', ''/node-routes'',
         ''/node/$nodeId/cooperative-nodes'']),
      (''sidebar.platformSection'', [''/messages'', ''/cloud-logs'', ''/component-versions'', ''/audit'', ''/account''])]"

text \<open>\<open>remaining\<close> as an association list in insertion order.\<close>

fun take_paths :: "string list \<Rightarrow> (string \<times> menu_item) list \<Rightarrow> menu_item list \<times> (string \<times> menu_item) list" where
  "take_paths [] remaining = ([], remaining)"
| "take_paths (p # ps) remaining =
     (case map_of remaining p of
        None \<Rightarrow> take_paths ps remaining
      | Some item \<Rightarrow>
          (let (items, rest) = take_paths ps (filter (\<lambda>(q, _). q \<noteq> p) remaining) in (item # items, rest)))"

fun menu_groups :: "(string \<times> string list) list \<Rightarrow> (string \<times> menu_item) list \<Rightarrow> menu_item list \<times> (string \<times> menu_item) list" where
  "menu_groups [] remaining = ([], remaining)"
| "menu_groups ((section, paths) # gs) remaining =
     (let (items, rest) = take_paths paths remaining;
          (menu, left) = menu_groups gs rest
      in ((if items \<noteq> [] then heading section # items else []) @ menu, left))"

fun set_item :: "string \<Rightarrow> menu_item \<Rightarrow> (string \<times> menu_item) list \<Rightarrow> (string \<times> menu_item) list" where
  "set_item p i [] = [(p, i)]"
| "set_item p i ((q, j) # m) = (if q = p then (q, i) # m else (q, j) # set_item p i m)"

definition getMenu :: "platform_context \<Rightarrow> menu_item list" where
  "getMenu ctx =
     (let entries = filter (\<lambda>i. truthy (mi_path i)) (getPlatformMenu ctx);
          remaining = foldl (\<lambda>m i. set_item (the (mi_path i)) i m) [] entries;
          (menu, rest) = menu_groups MENU_SECTIONS remaining
      in if rest \<noteq> [] then menu @ heading ''sidebar.otherSection'' # map snd rest else menu)"

definition isMenuActive :: "string \<Rightarrow> string \<Rightarrow> bool" where
  "isMenuActive pathname href \<longleftrightarrow>
     (let path = takeWhile (\<lambda>c. c \<noteq> CHR ''?'') href in
      pathname = path \<or> (path \<noteq> ''/dashboard'' \<and> starts_with pathname (path @ ''/'')))"

section \<open>Editing a canvas\<close>

datatype read_only_reason = NoPermission | ProjectMissing | Archived | Reviewing | ForeignGraph

record edit_permissions =
  ep_project :: bool
  ep_graph :: bool
  ep_reason :: "read_only_reason option"

record dag_edit_input =
  di_platformType :: string
  di_ownerId :: string
  di_project :: "string option option"
  di_projectsLoaded :: bool
  di_graphOwnerId :: "string option"

definition EDITABLE_PLATFORMS :: "string list" where
  "EDITABLE_PLATFORMS = [CENTER, TEST, AUTONOMY, P2P]"

definition denied :: "read_only_reason \<Rightarrow> edit_permissions" where
  "denied r = \<lparr>ep_project = False, ep_graph = False, ep_reason = Some r\<rparr>"

text \<open>\<open>di_project\<close>: \<open>None\<close> for no project, \<open>Some s\<close> for one whose status is \<open>s\<close>.\<close>

definition dagEditPermissions :: "dag_edit_input \<Rightarrow> edit_permissions" where
  "dagEditPermissions i =
     (let p2p = (di_platformType i = AUTONOMY \<or> di_platformType i = P2P);
          status = to_upper (str_or (Option.bind (di_project i) id) '''') in
      if di_platformType i \<notin> set EDITABLE_PLATFORMS then denied NoPermission
      else if p2p \<and> di_projectsLoaded i \<and> di_project i = None then denied ProjectMissing
      else if status = ''ARCHIVED'' then denied Archived
      else if status = ''REVIEWING'' then denied Reviewing
      else if p2p \<and> truthy (di_graphOwnerId i) \<and> di_ownerId i \<noteq> '''' \<and> di_graphOwnerId i \<noteq> Some (di_ownerId i)
        then \<lparr>ep_project = True, ep_graph = False, ep_reason = Some ForeignGraph\<rparr>
      else \<lparr>ep_project = True, ep_graph = True, ep_reason = None\<rparr>)"

section \<open>Percent-encoding round trip\<close>

lemma of_char_less_256: "(of_char (c :: char) :: nat) < 256"
  by simp

lemma of_char_div_16: "(of_char (c :: char) :: nat) div 16 < 16"
  using of_char_less_256 [of c] by (intro less_mult_imp_div_less) simp

lemma hex_value_upper: "d < 16 \<Longrightarrow> hex_value (hex_upper d) = Some d"
  by (auto simp: hex_value_def hex_upper_def Let_def)

lemma uri_safe_not_percent: "uri_safe c \<Longrightarrow> c \<noteq> CHR ''%''"
  by (auto simp: uri_safe_def is_digit_def)

lemma decode_encode_char: "decodeURIComponent (encode_char c @ s) = map_option ((#) c) (decodeURIComponent s)"
proof (cases "uri_safe c")
  case True
  then show ?thesis by (simp add: encode_char_def uri_safe_not_percent)
next
  case False
  from of_char_div_16 have "hex_value (hex_upper (of_char c div 16)) = Some (of_char c div 16)"
    "hex_value (hex_upper (of_char c mod 16)) = Some (of_char c mod 16)"
    by (simp_all add: hex_value_upper)
  with False show ?thesis by (simp add: encode_char_def)
qed

lemma decode_encode: "decodeURIComponent (encodeURIComponent s) = Some s"
  by (induction s) (simp_all add: encodeURIComponent_def decode_encode_char)

lemma hex_upper_not_slash: "d < 16 \<Longrightarrow> hex_upper d \<noteq> CHR ''/''"
  using hex_value_upper [of d] by (auto simp: hex_value_def Let_def)

lemma encode_no_slash: "CHR ''/'' \<notin> set (encodeURIComponent s)"
proof -
  have "CHR ''/'' \<notin> set (encode_char c)" for c
  proof (cases "uri_safe c")
    case True
    then show ?thesis by (auto simp: encode_char_def uri_safe_def is_digit_def)
  next
    case False
    with False show ?thesis
      using of_char_div_16 [of c] hex_upper_not_slash [of "of_char c div 16"] hex_upper_not_slash [of "of_char c mod 16"]
      by (auto simp: encode_char_def)
  qed
  then show ?thesis by (simp add: encodeURIComponent_def)
qed

lemma encode_nonempty: "s \<noteq> '''' \<Longrightarrow> encodeURIComponent s \<noteq> ''''"
  by (cases s) (simp_all add: encodeURIComponent_def encode_char_def)

section \<open>Pages of a node\<close>

lemma replace_node: "replace_first ''$nodeId'' r (''/node/$nodeId'' @ rest) = ''/node/'' @ r @ rest"
  by (simp add: starts_with_def)

lemma node_path_segment:
  assumes "own \<noteq> ''''" "rest = '''' \<or> hd rest = CHR ''/''"
  shows "node_segment (''/node/'' @ encodeURIComponent own @ rest) = Some (encodeURIComponent own)"
proof -
  have "takeWhile (\<lambda>c. c \<noteq> CHR ''/'') (encodeURIComponent own @ rest) = encodeURIComponent own"
    using encode_no_slash [of own] assms(2)
    by (cases rest) (auto simp: takeWhile_to_sep takeWhile_eq_all_conv)
  then show ?thesis
    using encode_nonempty [OF assms(1)] by (simp add: node_segment_def starts_with_def)
qed

lemma node_page_access:
  assumes "own \<noteq> ''''" "rest = '''' \<or> hd rest = CHR ''/''"
  shows "canAccessPath (''/node/'' @ encodeURIComponent own @ rest) ctx = Some (canEnterNode ctx (Some own))"
  using node_path_segment [OF assms] by (simp add: canAccessPath_def decode_encode)

section \<open>Landing pages can be opened\<close>

definition known_platform :: "platform_context \<Rightarrow> bool" where
  "known_platform ctx \<longleftrightarrow> platformType ctx \<in> set ALL_PLATFORMS"

lemmas rule_defs = canAccessPath_def ROUTE_RULES_def matchesPrefix_def starts_with_def node_segment_def
  anyOf_def everyone_def centerAdmin_def

lemma known_cases: "known_platform ctx \<Longrightarrow>
  platformType ctx = ''CENTER'' \<or> platformType ctx = ''EDGE'' \<or> platformType ctx = ''AUTONOMY'' \<or>
  platformType ctx = ''P2P'' \<or> platformType ctx = ''TEST''"
  by (auto simp: known_platform_def ALL_PLATFORMS_def platform_names)

lemma landing_accessible:
  "canAccessPath (target_path (ht_to (resolveHomePath ctx first)) (ht_nodeId (resolveHomePath ctx first))) ctx =
   Some (known_platform ctx)"
proof (cases "platformType ctx = EDGE \<and> ownerId ctx \<noteq> ''''")
  case True
  then have "target_path (ht_to (resolveHomePath ctx first)) (ht_nodeId (resolveHomePath ctx first)) =
    ''/node/'' @ encodeURIComponent (ownerId ctx) @ ''''"
    using replace_node [of "encodeURIComponent (ownerId ctx)" "''''"]
    by (simp add: resolveHomePath_def target_path_def plain_target_def platform_names)
  with True node_page_access [of "ownerId ctx" "''''" ctx] show ?thesis
    by (simp add: canEnterNode_def known_platform_def ALL_PLATFORMS_def platform_names)
next
  case False
  then have "ht_nodeId (resolveHomePath ctx first) = None"
    by (auto simp: resolveHomePath_def plain_target_def)
  moreover have "canAccessPath (ht_to (resolveHomePath ctx first)) ctx = Some (known_platform ctx)"
    using False
    by (simp add: resolveHomePath_def plain_target_def isEdgeAccountOnCenter_def platform_names)
       (auto simp: rule_defs platform_names known_platform_def ALL_PLATFORMS_def isEdgeAccountOnCenter_def)
  ultimately show ?thesis by (simp add: target_path_def)
qed

section \<open>Entering, writing, the node shown\<close>

lemma enter_implies_write: "canEnterNode ctx n \<Longrightarrow> canWriteNode ctx n scope"
  by (auto simp: canEnterNode_def canWriteNode_def split: if_splits)

lemma my_node_enterable:
  "known_platform ctx \<Longrightarrow> resolveMyNodeId ctx r = Some n \<Longrightarrow> n \<noteq> '''' \<Longrightarrow> canEnterNode ctx (Some n)"
  by (auto simp: resolveMyNodeId_def canEnterNode_def canAccessEmbeddedNode_def known_platform_def
      ALL_PLATFORMS_def platform_names split: if_splits)

text \<open>Who may write on a node: the rule of the server, for an account that is not an administrator.\<close>

definition owns_node :: "platform_context \<Rightarrow> string \<Rightarrow> node_write_scope option \<Rightarrow> bool" where
  "owns_node ctx n scope \<longleftrightarrow> n = ownerId ctx \<or>
     (ownerId ctx \<noteq> '''' \<and>
      (Option.bind scope nws_instId = Some (ownerId ctx) \<or>
       (platformType ctx = AUTONOMY \<and> (\<exists>ids. Option.bind scope nws_instNodeIds = Some ids \<and> n \<in> set ids))))"

lemma canWriteNode_exact:
  "n \<noteq> '''' \<Longrightarrow> canWriteNode ctx (Some n) scope \<longleftrightarrow>
     platformType ctx = TEST \<or> (platformType ctx = CENTER \<and> ownerType ctx = ''CENTER'') \<or> owns_node ctx n scope"
  by (auto simp: canWriteNode_def owns_node_def split: option.splits)

section \<open>The menu shows every entry once, and only pages that can be opened\<close>

definition entries_of :: "menu_item list \<Rightarrow> menu_item list" where
  "entries_of menu = filter (\<lambda>i. truthy (mi_path i)) menu"

lemma filter_key: "distinct (map fst kvs) \<Longrightarrow> map_of kvs k = Some v \<Longrightarrow>
  mset (map snd kvs) = add_mset v (mset (map snd (filter (\<lambda>(q, _). q \<noteq> k) kvs)))"
proof (induction kvs)
  case (Cons kv kvs)
  obtain k' v' where kv: "kv = (k', v')" by (cases kv)
  show ?case
  proof (cases "k' = k")
    case True
    then have "filter (\<lambda>(q, _). q \<noteq> k) kvs = kvs" using Cons.prems(1) kv by (intro filter_eq_self) force
    with True Cons.prems kv show ?thesis by simp
  next
    case False
    with Cons kv show ?thesis by simp
  qed
qed simp

lemma take_paths_mset:
  "distinct (map fst m) \<Longrightarrow> take_paths ps m = (items, rest) \<Longrightarrow>
   mset (map snd m) = mset items + mset (map snd rest) \<and> distinct (map fst rest)"
proof (induction ps arbitrary: m items rest)
  case (Cons p ps)
  show ?case
  proof (cases "map_of m p")
    case None
    with Cons show ?thesis by simp
  next
    case (Some item)
    obtain items' where rec: "take_paths ps (filter (\<lambda>(q, _). q \<noteq> p) m) = (items', rest)" "items = item # items'"
      using Cons.prems(2) Some by (auto split: prod.splits)
    have "distinct (map fst (filter (\<lambda>(q, _). q \<noteq> p) m))" using Cons.prems(1) by (rule distinct_map_filter)
    from Cons.IH [OF this rec(1)] filter_key [OF Cons.prems(1) Some] rec(2) show ?thesis by simp
  qed
qed simp

lemma menu_groups_mset:
  "distinct (map fst m) \<Longrightarrow> (\<And>i. i \<in> set (map snd m) \<Longrightarrow> truthy (mi_path i)) \<Longrightarrow> menu_groups gs m = (menu, rest) \<Longrightarrow>
   mset (map snd m) = mset (entries_of menu) + mset (map snd rest) \<and> set (map snd rest) \<subseteq> set (map snd m)"
proof (induction gs arbitrary: m menu rest)
  case (Cons g gs)
  obtain s ps where g: "g = (s, ps)" by (cases g)
  obtain items m' where t: "take_paths ps m = (items, m')" by (cases "take_paths ps m")
  obtain menu' left where r: "menu_groups gs m' = (menu', left)" by (cases "menu_groups gs m'")
  have split: "mset (map snd m) = mset items + mset (map snd m')" "distinct (map fst m')"
    using take_paths_mset [OF Cons.prems(1) t] by simp_all
  then have sub: "set items \<subseteq> set (map snd m)" "set (map snd m') \<subseteq> set (map snd m)"
    by (metis mset_subset_eq_add_left set_mset_mono set_mset_mset, metis mset_subset_eq_add_right set_mset_mono set_mset_mset)
  have items: "entries_of items = items"
    unfolding entries_of_def using Cons.prems(2) sub(1) by (intro filter_eq_self) blast
  have "mset (map snd m') = mset (entries_of menu') + mset (map snd left) \<and> set (map snd left) \<subseteq> set (map snd m')"
    using Cons.prems(2) sub(2) by (intro Cons.IH [OF split(2) _ r]) blast
  moreover have "menu = (if items \<noteq> [] then heading s # items else []) @ menu'" "rest = left"
    using Cons.prems(3) by (simp_all add: g t r)
  moreover have "entries_of menu = items @ entries_of menu'"
    using calculation(2) items by (simp add: entries_of_def heading_def)
  moreover have "set (map snd left) \<subseteq> set (map snd m)" using calculation(1) sub(2) by blast
  ultimately show ?case using split(1) by (simp only: mset_append add.assoc simp_thms)
qed (simp add: entries_of_def)

lemma set_item_distinct:
  "p \<notin> set (map fst m) \<Longrightarrow> set_item p i m = m @ [(p, i)]"
  by (induction m) auto

lemma collect_entries:
  "distinct (map fst m @ map (\<lambda>i. the (mi_path i)) es) \<Longrightarrow>
   foldl (\<lambda>m i. set_item (the (mi_path i)) i m) m es = m @ map (\<lambda>i. (the (mi_path i), i)) es"
proof (induction es arbitrary: m)
  case (Cons i es)
  then have "set_item (the (mi_path i)) i m = m @ [(the (mi_path i), i)]" by (intro set_item_distinct) auto
  with Cons.IH [of "m @ [(the (mi_path i), i)]"] Cons.prems show ?case by simp
qed simp

lemma getMenu_entries:
  assumes "distinct (map mi_path (entries_of (getPlatformMenu ctx)))"
  shows "mset (entries_of (getMenu ctx)) = mset (entries_of (getPlatformMenu ctx))"
proof -
  let ?es = "entries_of (getPlatformMenu ctx)"
  let ?m = "map (\<lambda>i. (the (mi_path i), i)) ?es"
  have paths: "truthy (mi_path i)" if "i \<in> set ?es" for i using that by (simp add: entries_of_def)
  have "mi_path i = mi_path j" if "i \<in> set ?es" "j \<in> set ?es" "the (mi_path i) = the (mi_path j)" for i j
    using paths [OF that(1)] paths [OF that(2)] that(3) by (auto simp: truthy_iff)
  then have d: "distinct (map (\<lambda>i. the (mi_path i)) ?es)"
    using assms unfolding distinct_map inj_on_def by blast
  then have coll: "foldl (\<lambda>m i. set_item (the (mi_path i)) i m) [] ?es = ?m" by (simp add: collect_entries)
  obtain menu rest where r: "menu_groups MENU_SECTIONS ?m = (menu, rest)" by (cases "menu_groups MENU_SECTIONS ?m")
  have "mset (map snd ?m) = mset (entries_of menu) + mset (map snd rest) \<and> set (map snd rest) \<subseteq> set (map snd ?m)"
    using d paths by (intro menu_groups_mset [OF _ _ r]) (auto simp: comp_def)
  moreover have "map snd ?m = ?es" by (simp add: comp_def)
  ultimately have ms: "mset ?es = mset (entries_of menu) + mset (map snd rest)" "set (map snd rest) \<subseteq> set ?es"
    by (simp_all only:)
  have "entries_of (map snd rest) = map snd rest"
    unfolding entries_of_def using ms(2) paths by (intro filter_eq_self) blast
  moreover have gm: "getMenu ctx = (if rest \<noteq> [] then menu @ heading ''sidebar.otherSection'' # map snd rest else menu)"
    unfolding getMenu_def Let_def entries_of_def [symmetric] coll r by simp
  moreover have "entries_of (menu @ heading h # xs) = entries_of menu @ entries_of xs" for h xs
    by (simp add: entries_of_def heading_def)
  ultimately have "entries_of (getMenu ctx) = entries_of menu @ map snd rest" by (cases rest) simp_all
  then show ?thesis unfolding ms(1) by (simp only: mset_append)
qed

lemma menu_paths [simp]:
  "mi_path (entry p l i) = Some p" "mi_path (node_entry p n l i) = Some p" "mi_path (heading h) = None"
  by (simp_all add: entry_def node_entry_def heading_def)

definition shown_paths :: "menu_item list \<Rightarrow> string list" where
  "shown_paths menu = map (\<lambda>i. the (mi_path i)) (entries_of menu)"

lemma shown_paths_simps [simp]:
  "shown_paths [] = []"
  "shown_paths (entry p l i # es) = (if p = '''' then [] else [p]) @ shown_paths es"
  "shown_paths (node_entry p n l i # es) = (if p = '''' then [] else [p]) @ shown_paths es"
  "shown_paths (heading h # es) = shown_paths es"
  "shown_paths (es @ es') = shown_paths es @ shown_paths es'"
  "shown_paths (j\<lparr>mi_search := x\<rparr> # es) = shown_paths (j # es)"
  by (simp_all add: shown_paths_def entries_of_def)

lemma edge_paths: "shown_paths (edge_menu own) = (if own \<noteq> '''' then
     [''/node/$nodeId/data-sources'', ''/node/$nodeId/data-tables'', ''/node/$nodeId/cooperative-nodes'', ''/node/$nodeId/results'', ''/p2p/my-node'', ''/messages'', ''/audit'', ''/account'']
   else [''/p2p/my-node'', ''/messages'', ''/audit'', ''/account''])"
  by (simp add: edge_menu_def)

lemma p2p_paths: "shown_paths (p2p_menu own) =
     [''/workbench'', ''/guide'', ''/p2p/projects'', ''/dag'', ''/dag-templates'', ''/periodic-tasks'', ''/p2p/my-node'', ''/institutions'', ''/node-routes'', ''/data-sources'', ''/data-tables'', ''/feature-datasource'', ''/results'', ''/models'', ''/job-records'', ''/messages'', ''/cloud-logs'', ''/privacy-scenes'', ''/audit'', ''/account'']"
  by (simp add: p2p_menu_def)

lemma center_paths: "shown_paths (center_menu ctx) =
   (if centerAdmin ctx then [''/dashboard'', ''/workbench'', ''/guide'', ''/projects'', ''/dag'', ''/dag-templates'', ''/graphs'', ''/nodes'', ''/all-data-sources'', ''/all-data-tables'', ''/data-sources'', ''/data-tables'', ''/feature-datasource'', ''/node-routes'', ''/models'', ''/results'', ''/periodic-tasks'', ''/job-records'', ''/messages'', ''/cloud-logs'', ''/component-versions'', ''/privacy-scenes'', ''/audit'', ''/account'']
    else if ownerId ctx \<noteq> '''' then [''/dashboard'', ''/workbench'', ''/projects'', ''/dag'', ''/dag-templates'', ''/graphs'', ''/node/$nodeId'', ''/data-sources'', ''/data-tables'', ''/feature-datasource'', ''/node-routes'', ''/models'', ''/results'', ''/periodic-tasks'', ''/job-records'', ''/messages'', ''/cloud-logs'', ''/component-versions'', ''/privacy-scenes'', ''/account'']
    else [''/dashboard'', ''/workbench'', ''/projects'', ''/dag'', ''/dag-templates'', ''/graphs'', ''/data-sources'', ''/data-tables'', ''/feature-datasource'', ''/node-routes'', ''/models'', ''/results'', ''/periodic-tasks'', ''/job-records'', ''/messages'', ''/cloud-logs'', ''/component-versions'', ''/privacy-scenes'', ''/account''])"
  by (cases "centerAdmin ctx"; cases "ownerId ctx = ''''") (simp_all add: center_menu_def Let_def)

lemma paths_distinct:
  "distinct [''/node/$nodeId/data-sources'', ''/node/$nodeId/data-tables'', ''/node/$nodeId/cooperative-nodes'', ''/node/$nodeId/results'', ''/p2p/my-node'', ''/messages'', ''/audit'', ''/account'']"
  "distinct [''/p2p/my-node'', ''/messages'', ''/audit'', ''/account'']"
  "distinct [''/workbench'', ''/guide'', ''/p2p/projects'', ''/dag'', ''/dag-templates'', ''/periodic-tasks'', ''/p2p/my-node'', ''/institutions'', ''/node-routes'', ''/data-sources'', ''/data-tables'', ''/feature-datasource'', ''/results'', ''/models'', ''/job-records'', ''/messages'', ''/cloud-logs'', ''/privacy-scenes'', ''/audit'', ''/account'']"
  "distinct [''/dashboard'', ''/workbench'', ''/guide'', ''/projects'', ''/dag'', ''/dag-templates'', ''/graphs'', ''/nodes'', ''/all-data-sources'', ''/all-data-tables'', ''/data-sources'', ''/data-tables'', ''/feature-datasource'', ''/node-routes'', ''/models'', ''/results'', ''/periodic-tasks'', ''/job-records'', ''/messages'', ''/cloud-logs'', ''/component-versions'', ''/privacy-scenes'', ''/audit'', ''/account'']"
  "distinct [''/dashboard'', ''/workbench'', ''/projects'', ''/dag'', ''/dag-templates'', ''/graphs'', ''/node/$nodeId'', ''/data-sources'', ''/data-tables'', ''/feature-datasource'', ''/node-routes'', ''/models'', ''/results'', ''/periodic-tasks'', ''/job-records'', ''/messages'', ''/cloud-logs'', ''/component-versions'', ''/privacy-scenes'', ''/account'']"
  "distinct [''/dashboard'', ''/workbench'', ''/projects'', ''/dag'', ''/dag-templates'', ''/graphs'', ''/data-sources'', ''/data-tables'', ''/feature-datasource'', ''/node-routes'', ''/models'', ''/results'', ''/periodic-tasks'', ''/job-records'', ''/messages'', ''/cloud-logs'', ''/component-versions'', ''/privacy-scenes'', ''/account'']"
  by code_simp+

lemma platform_menu_distinct: "distinct (map mi_path (entries_of (getPlatformMenu ctx)))"
proof -
  have "distinct (shown_paths (getPlatformMenu ctx))"
    unfolding getPlatformMenu_def edge_paths p2p_paths center_paths
    by (simp only: if_distrib [where f = shown_paths] edge_paths p2p_paths center_paths paths_distinct
        if_distrib [where f = distinct] if_cancel)
  moreover have "shown_paths m = map the (map mi_path (entries_of m))" for m
    by (simp add: shown_paths_def)
  ultimately have "distinct (map the (map mi_path (entries_of (getPlatformMenu ctx))))" by (simp only:)
  then show ?thesis by (rule distinct_map [THEN iffD1, THEN conjunct1])
qed

lemma getMenu_all: "mset (entries_of (getMenu ctx)) = mset (entries_of (getPlatformMenu ctx))"
  by (rule getMenu_entries [OF platform_menu_distinct])

definition opens :: "platform_context \<Rightarrow> menu_item \<Rightarrow> bool" where
  "opens ctx i \<longleftrightarrow> canAccessPath (target_path (the (mi_path i)) (mi_nodeId i)) ctx = Some True"

lemma opens_node_entry:
  assumes "own \<noteq> ''''" "canEnterNode ctx (Some own)" "rest = '''' \<or> hd rest = CHR ''/''" "p = ''/node/$nodeId'' @ rest"
  shows "opens ctx (node_entry p own l i)"
proof -
  have "target_path p (Some own) = ''/node/'' @ encodeURIComponent own @ rest"
    using replace_node [of "encodeURIComponent own" rest] by (simp only: target_path_def option.case assms(4))
  then show ?thesis
    using node_page_access [OF assms(1,3), of ctx] assms(2)
    by (simp only: opens_def node_entry_def entry_def menu_item.simps option.sel)
qed

lemma opens_entry: "opens ctx (entry p l i) \<longleftrightarrow> canAccessPath p ctx = Some True"
  by (simp add: opens_def entry_def target_path_def)

lemma opens_search [simp]: "opens ctx (i\<lparr>mi_search := x\<rparr>) = opens ctx i"
  by (simp add: opens_def)

lemma edge_menu_opens:
  assumes "platformType ctx = EDGE"
  shows "list_all (opens ctx) (entries_of (edge_menu (ownerId ctx)))"
proof -
  have "canEnterNode ctx (Some (ownerId ctx))" if "ownerId ctx \<noteq> ''''"
    using that assms by (simp add: canEnterNode_def)
  then have "opens ctx (node_entry (''/node/$nodeId'' @ rest) (ownerId ctx) l i)"
    if "ownerId ctx \<noteq> ''''" "hd rest = CHR ''/''" for rest l i
    using that by (intro opens_node_entry [of _ _ rest]) simp_all
  from this [where rest = "''/data-sources''"] this [where rest = "''/data-tables''"]
    this [where rest = "''/cooperative-nodes''"] this [where rest = "''/results''"]
  have "ownerId ctx \<noteq> '''' \<longrightarrow> opens ctx (node_entry ''/node/$nodeId/data-sources'' (ownerId ctx) l i)"
    "ownerId ctx \<noteq> '''' \<longrightarrow> opens ctx (node_entry ''/node/$nodeId/data-tables'' (ownerId ctx) l i)"
    "ownerId ctx \<noteq> '''' \<longrightarrow> opens ctx (node_entry ''/node/$nodeId/cooperative-nodes'' (ownerId ctx) l i)"
    "ownerId ctx \<noteq> '''' \<longrightarrow> opens ctx (node_entry ''/node/$nodeId/results'' (ownerId ctx) l i)" for l i
    by simp_all
  then have node: "ownerId ctx \<noteq> '''' \<Longrightarrow> list_all (opens ctx)
      [node_entry ''/node/$nodeId/data-sources'' (ownerId ctx) l1 i1, node_entry ''/node/$nodeId/data-tables'' (ownerId ctx) l2 i2,
       node_entry ''/node/$nodeId/cooperative-nodes'' (ownerId ctx) l3 i3, node_entry ''/node/$nodeId/results'' (ownerId ctx) l4 i4]"
    for l1 i1 l2 i2 l3 i3 l4 i4 by simp
  have plain: "list_all (opens ctx) [entry ''/p2p/my-node'' l1 i1, entry ''/messages'' l2 i2, entry ''/audit'' l3 i3, entry ''/account'' l4 i4]"
    for l1 i1 l2 i2 l3 i3 l4 i4
    by (simp add: opens_entry rule_defs)
  show ?thesis
    using node plain by (cases "ownerId ctx = ''''") (simp_all add: edge_menu_def entries_of_def)
qed

lemma p2p_menu_opens:
  assumes "platformType ctx = AUTONOMY \<or> platformType ctx = P2P"
  shows "list_all (opens ctx) (entries_of (p2p_menu (ownerId ctx)))"
  using assms by (auto simp: p2p_menu_def entries_of_def opens_entry rule_defs platform_names)

lemma center_menu_opens:
  assumes "platformType ctx = CENTER \<or> platformType ctx = TEST"
  shows "list_all (opens ctx) (entries_of (center_menu ctx))"
proof -
  have "opens ctx (node_entry ''/node/$nodeId'' (ownerId ctx) l i)" if "ownerId ctx \<noteq> ''''" for l i
    using that assms by (intro opens_node_entry [of _ _ "''''"]) (auto simp: canEnterNode_def platform_names)
  then show ?thesis
    using assms by (auto simp: center_menu_def entries_of_def opens_entry rule_defs platform_names Let_def)
qed

lemma platform_menu_opens: "known_platform ctx \<Longrightarrow> list_all (opens ctx) (entries_of (getPlatformMenu ctx))"
  using edge_menu_opens [of ctx] p2p_menu_opens [of ctx] center_menu_opens [of ctx]
  by (auto simp: known_platform_def ALL_PLATFORMS_def getPlatformMenu_def platform_names)

lemma menu_opens: "known_platform ctx \<Longrightarrow> i \<in> set (entries_of (getMenu ctx)) \<Longrightarrow> opens ctx i"
  using platform_menu_opens [of ctx] getMenu_all [of ctx]
  by (metis list_all_iff mset_eq_setD)

section \<open>Canvas permissions\<close>

lemma if_mem: "x \<in> S \<Longrightarrow> y \<in> S \<Longrightarrow> (if b then x else y) \<in> S"
  by simp

lemma permissions_cases:
  "dagEditPermissions i \<in> range denied \<union>
     {\<lparr>ep_project = True, ep_graph = False, ep_reason = Some ForeignGraph\<rparr>,
      \<lparr>ep_project = True, ep_graph = True, ep_reason = None\<rparr>}"
  unfolding dagEditPermissions_def Let_def by (intro if_mem) blast+

lemma permissions_graded: "ep_graph (dagEditPermissions i) \<Longrightarrow> ep_project (dagEditPermissions i)"
  using permissions_cases [of i] by (auto simp: denied_def)

lemma permissions_reason:
  "ep_reason (dagEditPermissions i) = None \<longleftrightarrow> ep_graph (dagEditPermissions i)"
  using permissions_cases [of i] by (auto simp: denied_def)

text \<open>An account of the peer-to-peer platforms never edits a canvas another node created.\<close>

lemma foreign_graph_read_only:
  assumes "di_platformType i \<in> {AUTONOMY, P2P}" "di_graphOwnerId i = Some g" "g \<noteq> ''''"
    "di_ownerId i \<noteq> ''''" "g \<noteq> di_ownerId i"
  shows "\<not> ep_graph (dagEditPermissions i)"
  using assms by (auto simp: dagEditPermissions_def denied_def Let_def)

end
