(* ===== verification/JsConvert.thy ===== *)
theory JsConvert
  imports JsValue
begin

text \<open>
  The conversions of the language between numbers, strings and other values: \<open>Number(v)\<close>,
  \<open>String(v)\<close> and comparison.  Numbers are exact here: a literal denotes its decimal value.
  \<open>String\<close> of a number writes its decimal expansion, up to twenty fractional digits, and does not
  switch to the exponent notation of numbers beyond \<open>10^21\<close> or below \<open>10^-6\<close>.
\<close>

section \<open>Comparison\<close>

fun num_lt :: "number \<Rightarrow> number \<Rightarrow> bool" where
  "num_lt NaN _ = False"
| "num_lt _ NaN = False"
| "num_lt (Fin a) (Fin b) = (a < b)"
| "num_lt (Fin a) PosInf = True"
| "num_lt (Fin a) NegInf = False"
| "num_lt PosInf _ = False"
| "num_lt NegInf NegInf = False"
| "num_lt NegInf _ = True"

definition num_le :: "number \<Rightarrow> number \<Rightarrow> bool" where
  "num_le a b \<longleftrightarrow> num_lt a b \<or> (a = b \<and> a \<noteq> NaN)"

lemma num_le_Fin [simp]: "num_le (Fin a) (Fin b) \<longleftrightarrow> a \<le> b"
  by (auto simp: num_le_def)

text \<open>\<open>Number.isInteger\<close>\<close>

fun is_integer :: "number \<Rightarrow> bool" where
  "is_integer (Fin a) = (a = of_int (floor a))"
| "is_integer _ = False"

lemma is_integer_iff: "is_integer n \<longleftrightarrow> (\<exists>i :: int. n = Fin (of_int i))"
  by (cases n) (auto simp del: of_int_floor_cancel)

section \<open>From strings to numbers\<close>

text \<open>Digits of a numeral in another base, as values below the base.\<close>

definition radix_value :: "char \<Rightarrow> nat option" where
  "radix_value c =
     (let n = (of_char c :: nat) in
      if 48 \<le> n \<and> n \<le> 57 then Some (n - 48)
      else if 65 \<le> n \<and> n \<le> 70 then Some (n - 55)
      else if 97 \<le> n \<and> n \<le> 102 then Some (n - 87)
      else None)"

fun parse_radix :: "nat \<Rightarrow> nat \<Rightarrow> string \<Rightarrow> number" where
  "parse_radix b acc [] = Fin (of_nat acc)"
| "parse_radix b acc (c # s) =
     (case radix_value c of None \<Rightarrow> NaN | Some d \<Rightarrow> if d < b then parse_radix b (acc * b + d) s else NaN)"

definition all_digits :: "string \<Rightarrow> bool" where
  "all_digits s = list_all is_digit s"

text \<open>The exponent part, \<open>e+- digits\<close>; \<open>None\<close> when it is malformed.\<close>

definition parse_exponent :: "string \<Rightarrow> int option" where
  "parse_exponent s =
     (case s of
        [] \<Rightarrow> Some 0
      | c # r \<Rightarrow>
          if c \<noteq> CHR ''e'' \<and> c \<noteq> CHR ''E'' then None
          else (case r of
              [] \<Rightarrow> None
            | d # ds \<Rightarrow>
                if d = CHR ''-'' then (if ds \<noteq> [] \<and> all_digits ds then Some (- int (parse_nat ds)) else None)
                else if d = CHR ''+'' then (if ds \<noteq> [] \<and> all_digits ds then Some (int (parse_nat ds)) else None)
                else (if all_digits r then Some (int (parse_nat r)) else None)))"

definition power10 :: "int \<Rightarrow> rat" where
  "power10 e = (if 0 \<le> e then 10 ^ nat e else 1 / 10 ^ nat (- e))"

definition parse_unsigned :: "string \<Rightarrow> number" where
  "parse_unsigned t =
     (if t = ''Infinity'' then PosInf
      else
        let ip = takeWhile is_digit t;
            r1 = dropWhile is_digit t;
            (fp, r2) = (case r1 of
                c # r \<Rightarrow> if c = CHR ''.'' then (takeWhile is_digit r, dropWhile is_digit r) else ([], r1)
              | [] \<Rightarrow> ([], []))
        in if ip = [] \<and> fp = [] then NaN
           else (case parse_exponent r2 of
               None \<Rightarrow> NaN
             | Some e \<Rightarrow> Fin (of_nat (parse_nat (ip @ fp)) / 10 ^ length fp * power10 e)))"

fun negate :: "number \<Rightarrow> number" where
  "negate (Fin a) = Fin (- a)"
| "negate PosInf = NegInf"
| "negate NegInf = PosInf"
| "negate NaN = NaN"

text \<open>\<open>Number(s)\<close> for a string.\<close>

definition number_of_string :: "string \<Rightarrow> number" where
  "number_of_string s =
     (case trim s of
        [] \<Rightarrow> Fin 0
      | c # r \<Rightarrow>
          (if c = CHR ''0'' \<and> r \<noteq> [] \<and> hd r \<in> {CHR ''x'', CHR ''X''} then (if tl r = [] then NaN else parse_radix 16 0 (tl r))
           else if c = CHR ''0'' \<and> r \<noteq> [] \<and> hd r \<in> {CHR ''o'', CHR ''O''} then (if tl r = [] then NaN else parse_radix 8 0 (tl r))
           else if c = CHR ''0'' \<and> r \<noteq> [] \<and> hd r \<in> {CHR ''b'', CHR ''B''} then (if tl r = [] then NaN else parse_radix 2 0 (tl r))
           else if c = CHR ''-'' then negate (parse_unsigned r)
           else if c = CHR ''+'' then parse_unsigned r
           else parse_unsigned (c # r)))"

section \<open>From values to strings\<close>

definition show_integer :: "int \<Rightarrow> string" where
  "show_integer i = (if i < 0 then CHR ''-'' # show_nat (nat (- i)) else show_nat (nat i))"

text \<open>The digits after the point; the first argument bounds their number.\<close>

fun fraction_digits :: "nat \<Rightarrow> rat \<Rightarrow> string" where
  "fraction_digits 0 q = []"
| "fraction_digits (Suc k) q =
     (if q = 0 then [] else digit_char (nat (floor (10 * q))) # fraction_digits k (10 * q - of_int (floor (10 * q))))"

fun number_text :: "number \<Rightarrow> string" where
  "number_text NaN = ''NaN''"
| "number_text PosInf = ''Infinity''"
| "number_text NegInf = ''-Infinity''"
| "number_text (Fin q) =
     (if q = of_int (floor q) then show_integer (floor q)
      else (if q < 0 then ''-'' else '''') @ show_nat (nat (floor \<bar>q\<bar>)) @ ''.'' @
        fraction_digits 20 (\<bar>q\<bar> - of_int (floor \<bar>q\<bar>)))"

text \<open>\<open>String(v)\<close>; an array joins its elements, \<open>null\<close> and \<open>undefined\<close> in it being empty.\<close>

fun string_of :: "jsval \<Rightarrow> string" where
  "string_of Undefined = ''undefined''"
| "string_of Null = ''null''"
| "string_of (JBool b) = (if b then ''true'' else ''false'')"
| "string_of (JNum n) = number_text n"
| "string_of (JStr s) = s"
| "string_of (JArr xs) = join_with '','' (map (\<lambda>x. if x = Undefined \<or> x = Null then '''' else string_of x) xs)"
| "string_of (JObj _) = ''[object Object]''"

text \<open>\<open>Number(v)\<close>\<close>

fun number_of :: "jsval \<Rightarrow> number" where
  "number_of Undefined = NaN"
| "number_of Null = Fin 0"
| "number_of (JBool b) = Fin (if b then 1 else 0)"
| "number_of (JNum n) = n"
| "number_of (JStr s) = number_of_string s"
| "number_of v = number_of_string (string_of v)"

section \<open>Integers survive the round trip\<close>

lemma digits_not_ws: "is_digit c \<Longrightarrow> \<not> is_ws c"
  by (auto simp: is_digit_def is_ws_def)

lemma trim_show_nat [simp]: "trim (show_nat n) = show_nat n"
proof -
  have "dropWhile is_ws ds = ds" if "ds \<noteq> [] \<longrightarrow> \<not> is_ws (hd ds)" for ds
    using that by (cases ds) auto
  moreover have "\<not> is_ws (hd (show_nat n))" "\<not> is_ws (hd (rev (show_nat n)))"
    using show_nat_digits [of _ n] digits_not_ws by (metis hd_in_set show_nat_not_Nil, metis hd_in_set set_rev rev_is_Nil_conv show_nat_not_Nil)
  ultimately show ?thesis by (simp add: trim_def)
qed

lemma parse_unsigned_digits:
  assumes "ds \<noteq> []" "list_all is_digit ds"
  shows "parse_unsigned ds = Fin (of_nat (parse_nat ds))"
proof -
  have "takeWhile is_digit ds = ds" "dropWhile is_digit ds = []"
    using assms(2) by (simp_all add: list_all_iff takeWhile_eq_all_conv dropWhile_eq_Nil_conv)
  moreover have "ds \<noteq> ''Infinity''" using assms(2) by (auto simp: is_digit_def)
  ultimately show ?thesis
    using assms(1) by (simp only: parse_unsigned_def Let_def) (simp add: parse_exponent_def power10_def)
qed

lemma show_nat_all_digits: "list_all is_digit (show_nat n)"
  by (auto simp: list_all_iff dest: show_nat_digits)

lemma number_of_string_show_nat: "number_of_string (show_nat n) = Fin (of_nat n)"
proof -
  obtain c r where cr: "show_nat n = c # r" by (cases "show_nat n") auto
  have d: "is_digit c" "list_all is_digit r" using show_nat_all_digits [of n] by (simp_all add: cr)
  then have "r \<noteq> [] \<Longrightarrow> is_digit (hd r)" by (cases r) auto
  then have "\<not> (r \<noteq> [] \<and> hd r \<in> {CHR ''x'', CHR ''X''})" "\<not> (r \<noteq> [] \<and> hd r \<in> {CHR ''o'', CHR ''O''})"
    "\<not> (r \<noteq> [] \<and> hd r \<in> {CHR ''b'', CHR ''B''})"
    by (auto simp: is_digit_def)
  moreover have "c \<noteq> CHR ''-''" "c \<noteq> CHR ''+''" using d(1) by (auto simp: is_digit_def)
  ultimately have "number_of_string (show_nat n) = parse_unsigned (show_nat n)"
    using trim_show_nat [of n] unfolding number_of_string_def cr by (cases "r = []") auto
  then show ?thesis by (simp add: parse_unsigned_digits show_nat_all_digits)
qed

lemma trim_minus [simp]: "trim (CHR ''-'' # show_nat n) = CHR ''-'' # show_nat n"
proof -
  have "dropWhile is_ws (ds @ [CHR ''-'']) = ds @ [CHR ''-'']" if "ds \<noteq> []" "list_all is_digit ds" for ds
    using that digits_not_ws by (cases ds) simp_all
  from this [of "rev (show_nat n)"]
  have "dropWhile is_ws (rev (show_nat n) @ [CHR ''-'']) = rev (show_nat n) @ [CHR ''-'']"
    using show_nat_all_digits [of n] by (simp add: list_all_iff)
  then show ?thesis by (simp add: trim_def is_ws_def)
qed

lemma number_of_string_show_integer: "number_of_string (show_integer i) = Fin (of_int i)"
proof (cases "i < 0")
  case True
  have "parse_unsigned (show_nat (nat (- i))) = Fin (of_nat (nat (- i)))"
    by (simp add: parse_unsigned_digits show_nat_all_digits)
  with True show ?thesis by (simp add: show_integer_def number_of_string_def)
next
  case False
  then show ?thesis by (simp add: show_integer_def number_of_string_show_nat)
qed

lemma number_text_int [simp]: "number_text (Fin (of_int i)) = show_integer i"
  by simp

section \<open>Conversions of the component configuration\<close>

text \<open>\<open>toNum\<close> and \<open>toBool\<close> of \<open>component-config.ts\<close>, \<open>None\<close> for \<open>undefined\<close>.\<close>

definition toNum :: "jsval \<Rightarrow> number option" where
  "toNum v =
     (if v = Undefined \<or> v = Null \<or> v = JStr '''' then None
      else let n = number_of v in if n = NaN then None else Some n)"

definition toBool :: "jsval \<Rightarrow> bool option" where
  "toBool v =
     (if v = Undefined \<or> v = Null then None
      else (case v of
          JBool b \<Rightarrow> Some b
        | JStr s \<Rightarrow> if s = ''true'' then Some True else if s = ''false'' then Some False else Some (s \<noteq> '''')
        | _ \<Rightarrow> Some (js_truthy v)))"

text \<open>\<open>pick(obj, k1, k2)\<close>: the first field that is neither missing nor null.\<close>

fun pick :: "jsobj \<Rightarrow> string list \<Rightarrow> jsval" where
  "pick ob [] = Undefined"
| "pick ob (k # ks) = (let v = get_prop ob k in if v \<noteq> Undefined \<and> v \<noteq> Null then v else pick ob ks)"

lemma toNum_num: "n \<noteq> NaN \<Longrightarrow> toNum (JNum n) = Some n"
  by (simp add: toNum_def)

lemma toNum_int_text: "toNum (JStr (show_integer i)) = Some (Fin (of_int i))"
proof -
  have "show_integer i \<noteq> ''''" by (simp add: show_integer_def)
  then show ?thesis by (simp add: toNum_def number_of_string_show_integer)
qed

end
