(* ===== verification/ComponentConfig.thy ===== *)
theory ComponentConfig
  imports JsConvert "HOL-Library.Multiset"
begin

text \<open>
  The configuration of a component, \<open>web/packages/dag-next/src/component-config.ts\<close>: attribute
  definitions and values as the server sends them, their normalisation, the choice of a form
  control, the panel order, validation, and whether a node counts as configured.

  A type name is a string, as in the code, which casts whatever the server sends.  The two
  registries the host can extend, renderers and panel styles, are explicit arguments.
\<close>

section \<open>Values and definitions\<close>

record attribute_value =
  av_f :: "number option"
  av_i64 :: "number option"
  av_s :: "string option"
  av_b :: "bool option"
  av_fs :: "number list option"
  av_i64s :: "number list option"
  av_ss :: "string option list option"
  av_bs :: "bool list option"
  av_is_na :: "bool option"
  av_custom_cls :: "string option"
  av_custom_value :: jsval

record atomic_desc =
  aa_list_min :: "number option"
  aa_list_max :: "number option"
  aa_is_optional :: "bool option"
  aa_default :: "attribute_value option"
  aa_allowed :: "attribute_value option"
  aa_lower_enabled :: "bool option"
  aa_lower :: "attribute_value option"
  aa_lower_inclusive :: "bool option"
  aa_upper_enabled :: "bool option"
  aa_upper :: "attribute_value option"
  aa_upper_inclusive :: "bool option"

record attribute_def =
  ad_prefixes :: "string list option"
  ad_name :: "string option"
  ad_desc :: "string option"
  ad_type :: jsval
  ad_atomic :: "atomic_desc option"
  ad_union :: "jsval option"
  ad_custom_cls :: jsval
  ad_fromInputIndex :: "number option"
  ad_col_min :: "number option"
  ad_col_max :: "number option"

definition ATTR_TYPES :: "string list" where
  "ATTR_TYPES = [''ATTR_TYPE_UNSPECIFIED'', ''AT_FLOAT'', ''AT_INT'', ''AT_STRING'', ''AT_BOOL'', ''AT_FLOATS'',
     ''AT_INTS'', ''AT_STRINGS'', ''AT_BOOLS'', ''AT_STRUCT_GROUP'', ''AT_UNION_GROUP'', ''AT_CUSTOM_PROTOBUF'',
     ''AT_PARTY'', ''AT_COL_PARAMS'']"

text \<open>\<open>ATTR_TYPE_BY_NUMBER[n] ?? 'ATTR_TYPE_UNSPECIFIED'\<close>\<close>

definition type_by_number :: "number \<Rightarrow> string" where
  "type_by_number n =
     (case n of
        Fin q \<Rightarrow> if q = of_int (floor q) \<and> 0 \<le> q
                 then nullish (at_opt ATTR_TYPES (nat (floor q))) ''ATTR_TYPE_UNSPECIFIED''
                 else ''ATTR_TYPE_UNSPECIFIED''
      | _ \<Rightarrow> ''ATTR_TYPE_UNSPECIFIED'')"

section \<open>Normalisation\<close>

definition array_of :: "jsval \<Rightarrow> jsval list option" where
  "array_of v = (case v of JArr xs \<Rightarrow> Some xs | _ \<Rightarrow> None)"

definition given_text :: "jsval \<Rightarrow> string option" where
  "given_text v = (if v = Undefined then None else Some (string_of v))"

definition normalizeAttrValue :: "jsval \<Rightarrow> attribute_value option" where
  "normalizeAttrValue raw =
     (case as_fields raw of
        None \<Rightarrow> None
      | Some r \<Rightarrow> Some
         \<lparr>av_f = toNum (get_prop r ''f''),
          av_i64 = toNum (get_prop r ''i64''),
          av_s = given_text (get_prop r ''s''),
          av_b = toBool (get_prop r ''b''),
          av_fs = map_option (map (\<lambda>v. nullish (toNum v) (Fin 0))) (array_of (get_prop r ''fs'')),
          av_i64s = map_option (map (\<lambda>v. nullish (toNum v) (Fin 0))) (array_of (get_prop r ''i64s'')),
          av_ss = map_option (map (\<lambda>v. if v = Null \<or> v = Undefined then None else Some (string_of v)))
                    (array_of (get_prop r ''ss'')),
          av_bs = map_option (map (\<lambda>v. toBool v = Some True)) (array_of (get_prop r ''bs'')),
          av_is_na = (let na = pick r [''is_na'', ''isNa''] in
                        if na = Undefined then None else Some (toBool na = Some True)),
          av_custom_cls = given_text (get_prop r ''custom_protobuf_cls''),
          av_custom_value = get_prop r ''custom_value''\<rparr>)"

definition normalizeType :: "jsval \<Rightarrow> string" where
  "normalizeType t =
     (case t of
        JNum n \<Rightarrow> type_by_number n
      | JStr s \<Rightarrow>
          if s = '''' then ''ATTR_TYPE_UNSPECIFIED''
          else if all_digits s then type_by_number (Fin (of_nat (parse_nat s)))
          else s
      | _ \<Rightarrow> ''ATTR_TYPE_UNSPECIFIED'')"

definition normalize_atomic :: "jsobj \<Rightarrow> atomic_desc" where
  "normalize_atomic r =
     \<lparr>aa_list_min = toNum (pick r [''list_min_length_inclusive'', ''listMinLengthInclusive'']),
      aa_list_max = toNum (pick r [''list_max_length_inclusive'', ''listMaxLengthInclusive'']),
      aa_is_optional = toBool (pick r [''is_optional'', ''isOptional'']),
      aa_default = normalizeAttrValue (pick r [''default_value'', ''defaultValue'']),
      aa_allowed = normalizeAttrValue (pick r [''allowed_values'', ''allowedValues'']),
      aa_lower_enabled = toBool (pick r [''lower_bound_enabled'', ''lowerBoundEnabled'']),
      aa_lower = normalizeAttrValue (pick r [''lower_bound'', ''lowerBound'']),
      aa_lower_inclusive = toBool (pick r [''lower_bound_inclusive'', ''lowerBoundInclusive'']),
      aa_upper_enabled = toBool (pick r [''upper_bound_enabled'', ''upperBoundEnabled'']),
      aa_upper = normalizeAttrValue (pick r [''upper_bound'', ''upperBound'']),
      aa_upper_inclusive = toBool (pick r [''upper_bound_inclusive'', ''upperBoundInclusive''])\<rparr>"

text \<open>\<open>atomic\<close> and \<open>union\<close> are taken for objects when they are truthy.\<close>

definition object_field :: "jsobj \<Rightarrow> string \<Rightarrow> jsobj option" where
  "object_field r k = (let v = get_prop r k in if js_truthy v then Some (nullish (as_fields v) []) else None)"

definition normalizeAttrDef :: "jsobj \<Rightarrow> attribute_def" where
  "normalizeAttrDef raw =
     \<lparr>ad_prefixes = map_option (map string_of) (array_of (get_prop raw ''prefixes'')),
      ad_name = given_text (get_prop raw ''name''),
      ad_desc = given_text (get_prop raw ''desc''),
      ad_type = JStr (normalizeType (get_prop raw ''type'')),
      ad_atomic = map_option normalize_atomic (object_field raw ''atomic''),
      ad_union = map_option (\<lambda>u. pick u [''default_selection'', ''defaultSelection'']) (object_field raw ''union''),
      ad_custom_cls = pick raw [''custom_protobuf_cls'', ''customProtobufCls''],
      ad_fromInputIndex = toNum (get_prop raw ''fromInputIndex''),
      ad_col_min = toNum (pick raw [''col_min_cnt_inclusive'', ''colMinCntInclusive'']),
      ad_col_max = toNum (pick raw [''col_max_cnt_inclusive'', ''colMaxCntInclusive''])\<rparr>"

definition attrPathOf :: "attribute_def \<Rightarrow> string" where
  "attrPathOf d = join_with ''/'' (filter (\<lambda>p. p \<noteq> '''') (nullish (ad_prefixes d) [] @ [nullish (ad_name d) '''']))"

definition group_def :: "string list option \<Rightarrow> string \<Rightarrow> string option \<Rightarrow> attribute_def" where
  "group_def prefixes name desc =
     \<lparr>ad_prefixes = prefixes, ad_name = Some name, ad_desc = desc, ad_type = JStr ''AT_STRUCT_GROUP'',
      ad_atomic = None, ad_union = None, ad_custom_cls = Undefined, ad_fromInputIndex = None,
      ad_col_min = None, ad_col_max = None\<rparr>"

definition text_or_none :: "jsval \<Rightarrow> string option" where
  "text_or_none v = (case v of JStr s \<Rightarrow> Some s | _ \<Rightarrow> None)"

definition no_bounds :: "bool option \<Rightarrow> atomic_desc" where
  "no_bounds optional =
     \<lparr>aa_list_min = None, aa_list_max = None, aa_is_optional = optional, aa_default = None, aa_allowed = None,
      aa_lower_enabled = None, aa_lower = None, aa_lower_inclusive = None,
      aa_upper_enabled = None, aa_upper = None, aa_upper_inclusive = None\<rparr>"

definition column_def :: "nat \<Rightarrow> string \<Rightarrow> jsobj \<Rightarrow> attribute_def" where
  "column_def inputIndex inputName attr =
     (let colMin = nullish (toNum (pick attr [''col_min_cnt_inclusive'', ''colMinCntInclusive''])) (Fin 0);
          colMax = toNum (pick attr [''col_max_cnt_inclusive'', ''colMaxCntInclusive''])
      in \<lparr>ad_prefixes = Some [''input'', inputName],
          ad_name = Some (let n = get_prop attr ''name'' in if is_nullish n then '''' else string_of n),
          ad_desc = text_or_none (get_prop attr ''desc''), ad_type = JStr ''AT_SF_TABLE_COL'',
          ad_atomic = Some (no_bounds (Some (colMin = Fin 0))),
          ad_union = None, ad_custom_cls = Undefined,
          ad_fromInputIndex = Some (Fin (of_nat inputIndex)),
          ad_col_min = Some colMin, ad_col_max = colMax\<rparr>)"

definition obj_of :: "jsval \<Rightarrow> jsobj" where
  "obj_of v = nullish (as_fields v) []"

fun input_defs :: "bool \<Rightarrow> nat \<Rightarrow> jsval list \<Rightarrow> attribute_def list" where
  "input_defs hasAny i [] = []"
| "input_defs hasAny i (input # inputs) =
     (case array_of (get_prop (obj_of input) ''attrs'') of
        None \<Rightarrow> input_defs hasAny (Suc i) inputs
      | Some attrs \<Rightarrow>
          if attrs = [] then input_defs hasAny (Suc i) inputs
          else let n = get_prop (obj_of input) ''name'';
                   inputName = (if is_nullish n then ''input_'' @ show_nat i else string_of n)
               in (if hasAny then [] else [group_def None ''input'' None]) @
                  group_def (Some [''input'']) inputName (text_or_none (get_prop (obj_of input) ''desc'')) #
                  map (\<lambda>a. column_def i inputName (obj_of a)) attrs @
                  input_defs True (Suc i) inputs)"

definition buildInputColumnDefs :: "jsval list option \<Rightarrow> attribute_def list" where
  "buildInputColumnDefs inputs = input_defs False 0 (nullish inputs [])"

definition buildAttributeDefs :: "(jsval list option \<times> jsval list option) option \<Rightarrow> attribute_def list" where
  "buildAttributeDefs component =
     (case component of
        None \<Rightarrow> []
      | Some (attrs, inputs) \<Rightarrow>
          buildInputColumnDefs inputs @ map (\<lambda>a. normalizeAttrDef (obj_of a)) (nullish attrs []))"

section \<open>Choosing the form control\<close>

datatype renderer_kind =
    RUnion | RStruct | RCustom | RSql | RTaskInitiator | RUnionKeySelect | RUnbalanceColSelect
  | RUnbalanceReceiver | RJoinNodeSelect | RNodeSelectSingle | RTableSelect | RModelSelect | RSelect
  | RFeatureSelect | RSwitch | RNumber | RInput | RList | RNodeSelect | RQuantiles | RHidden | RUnspecified

record render_context =
  rc_codeName :: "string option"
  rc_path :: string
  rc_name :: string
  rc_typeName :: string
  rc_hasAllowedValues :: bool
  rc_customProtobufCls :: "string option"

definition CODE_NAME_RENDER_KEY :: "(string \<times> string) list" where
  "CODE_NAME_RENDER_KEY =
     [(''read_data/datatable'', ''DATA_TABLE_SELECT''), (''data_prep/psi'', ''UNION_KEY_SELECT''),
      (''preprocessing/psi'', ''UNION_KEY_SELECT''), (''data_prep/psi_tp'', ''UNION_KEY_SELECT''),
      (''preprocessing/sqlite'', ''SQL''), (''data_filter/sample'', ''SAMPLE''),
      (''ml.predict/read_model'', ''MODEL_SELECT''), (''stats/scql_analysis'', ''SQL_ANALYSIS''),
      (''data_prep/unbalance_psi'', ''UNBALANCE_PSI''), (''data_prep/unbalance_psi_cache'', ''UNBALANCE_PSI_CACHE''),
      (''preprocessing/sql_processor'', ''SQL_PROCESSOR'')]"

definition isColumnType :: "string \<Rightarrow> bool" where
  "isColumnType t \<longleftrightarrow> t = ''AT_SF_TABLE_COL'' \<or> t = ''AT_COL_PARAMS''"

definition score_if :: "nat \<Rightarrow> bool \<Rightarrow> nat option" where
  "score_if n b = (if b then Some n else None)"

text \<open>The rules in the order of their registration, with the score of each, \<open>None\<close> for \<open>false\<close>.\<close>

definition RENDER_RULES :: "render_context \<Rightarrow> string option \<Rightarrow> (renderer_kind \<times> nat option) list" where
  "RENDER_RULES c k =
     (let t = rc_typeName c; n = rc_name c in
      [(RUnion, score_if 1 (t = ''AT_UNION_GROUP'')),
       (RStruct, score_if 1 (t = ''AT_STRUCT_GROUP'')),
       (RCustom, score_if 1 (t = ''AT_CUSTOM_PROTOBUF'' \<and> truthy (rc_customProtobufCls c))),
       (RSql, score_if 1 (t = ''AT_STRING'' \<and> n = ''script_input'' \<and> k = Some ''SQL_ANALYSIS'')),
       (RTaskInitiator, score_if 1 (t = ''AT_PARTY'' \<and> n = ''task_initiator'' \<and> k = Some ''SQL_ANALYSIS'')),
       (RUnionKeySelect, score_if 3 (k = Some ''UNION_KEY_SELECT'' \<and> isColumnType t)),
       (RUnbalanceColSelect, score_if 1 (k = Some ''UNBALANCE_PSI'' \<and> isColumnType t)),
       (RUnbalanceReceiver, score_if 1 (k = Some ''UNBALANCE_PSI'' \<and> t = ''AT_PARTY'')),
       (RJoinNodeSelect, score_if 1 (t = ''AT_PARTY'' \<and> k = Some ''UNBALANCE_PSI_CACHE'')),
       (RNodeSelectSingle, score_if 3 (n = ''receiver'')),
       (RTableSelect, if k = Some ''DATA_TABLE_SELECT'' then Some 3 else score_if 1 (t = ''AT_SF_TABLE'')),
       (RModelSelect, if k = Some ''MODEL_SELECT'' then Some 3 else score_if 1 (t = ''AT_MODEL'')),
       (RSelect, score_if 2 (rc_hasAllowedValues c)),
       (RFeatureSelect, score_if 1 (isColumnType t)),
       (RSql, score_if 1 (t = ''AT_STRING'' \<and> n = ''sql'' \<and> (k = Some ''SQL_PROCESSOR'' \<or> k = Some ''SQL''))),
       (RSwitch, score_if 1 (t = ''AT_BOOL'')),
       (RNumber, score_if 1 (t = ''AT_INT'' \<or> t = ''AT_FLOAT'')),
       (RInput, score_if 1 (t = ''AT_STRING'')),
       (RNodeSelect, score_if 1 (t = ''AT_PARTY'')),
       (RQuantiles, score_if 1 (t = ''AT_FLOATS'' \<and> n = ''quantiles'' \<and> k = Some ''SAMPLE'')),
       (RHidden, score_if 1 (t = ''AT_BOOLS'' \<and> n = ''replacements'' \<and> k = Some ''SAMPLE'')),
       (RHidden, score_if 1 (t = ''AT_FLOATS'' \<and> n = ''weights'' \<and> k = Some ''SAMPLE'')),
       (RList, score_if 1 (t = ''AT_STRINGS'' \<or> t = ''AT_INTS'' \<or> t = ''AT_FLOATS'' \<or> t = ''AT_BOOLS'')),
       (RUnspecified, score_if 1 (t = ''ATTR_TYPE_UNSPECIFIED''))])"

type_synonym renderer_overrides = "string \<rightharpoonup> renderer_kind"

definition registerRenderer :: "string \<Rightarrow> string \<Rightarrow> renderer_kind \<Rightarrow> renderer_overrides \<Rightarrow> renderer_overrides" where
  "registerRenderer codeName attrPath kind overrides = overrides(codeName @ '':'' @ attrPath \<mapsto> kind)"

definition best_rule :: "renderer_kind \<Rightarrow> (renderer_kind \<times> nat option) list \<Rightarrow> renderer_kind \<times> nat" where
  "best_rule start rules =
     foldl (\<lambda>(best, bestScore) (kind, score).
       case score of None \<Rightarrow> (best, bestScore)
       | Some s \<Rightarrow> if s > bestScore then (kind, s) else (best, bestScore)) (start, 0) rules"

definition resolveRenderer :: "renderer_overrides \<Rightarrow> render_context \<Rightarrow> renderer_kind" where
  "resolveRenderer overrides ctx =
     (let override = (if truthy (rc_codeName ctx) then overrides (the (rc_codeName ctx) @ '':'' @ rc_path ctx) else None);
          renderKey = (if truthy (rc_codeName ctx) then map_of CODE_NAME_RENDER_KEY (the (rc_codeName ctx)) else None);
          start = (if rc_typeName ctx = ''AT_CUSTOM_PROTOBUF'' then RCustom else RInput)
      in case override of
           Some kind \<Rightarrow> kind
         | None \<Rightarrow> fst (best_rule start (RENDER_RULES ctx renderKey)))"

section \<open>Panel styles\<close>

record panel_style =
  ps_isShow :: "bool option"
  ps_order :: "nat option"
  ps_noWrap :: "bool option"
  ps_isAdvanced :: "bool option"

definition style_of :: "bool option \<Rightarrow> nat option \<Rightarrow> bool option \<Rightarrow> bool option \<Rightarrow> panel_style" where
  "style_of sh order wrap adv = \<lparr>ps_isShow = sh, ps_order = order, ps_noWrap = wrap, ps_isAdvanced = adv\<rparr>"

type_synonym panel_styles = "compute_mode \<Rightarrow> string \<rightharpoonup> (string \<rightharpoonup> panel_style)"

definition PANEL_STYLES :: panel_styles where
  "PANEL_STYLES mode =
     (case mode of
        TEE \<Rightarrow> Map.empty
      | MPC \<Rightarrow> map_of
         [(''data_filter/sample'', map_of
            [(''sample_algorithm'', style_of None (Some 0) None None),
             (''frac'', style_of None (Some 1) (Some True) None),
             (''sample_algorithm/random/replacement'', style_of None (Some 2) None None),
             (''sample_algorithm/random/random_state'', style_of None (Some 3) None (Some True)),
             (''sample_algorithm/stratify/observe_feature'', style_of None (Some 2) None None),
             (''sample_algorithm/stratify/quantiles'', style_of None (Some 3) None None),
             (''sample_algorithm/stratify/random_state'', style_of None (Some 4) None (Some True))]),
          (''data_prep/psi'', map_of
            [(''allow_duplicate_keys/no/check_hash_digest'', style_of (Some False) None None None),
             (''allow_duplicate_keys'', style_of None (Some 3) None None),
             (''sort_result'', style_of None None None (Some True)),
             (''fill_value_int'', style_of None None None (Some True)),
             (''ecdh_curve'', style_of None None None (Some True))]),
          (''postprocessing/score_card_transformer'', map_of
            [(''scaled_value'', style_of None None (Some True) None),
             (''odd_base'', style_of None None (Some True) None),
             (''pdo'', style_of None None (Some True) None),
             (''min_score'', style_of None None (Some True) (Some True)),
             (''max_score'', style_of None None (Some True) (Some True))]),
          (''read_data/datatable'', map_of [(''datatable_partition'', style_of (Some False) None None None)]),
          (''preprocessing/binary_op'', map_of [(''input/in_ds/f2'', style_of None (Some 2) None None)])])"

definition registerPanelStyle ::
  "compute_mode \<Rightarrow> string \<Rightarrow> (string \<rightharpoonup> panel_style) \<Rightarrow> panel_styles \<Rightarrow> panel_styles" where
  "registerPanelStyle mode codeName attrs styles =
     styles(mode := (styles mode)(codeName \<mapsto> nullish (styles mode codeName) Map.empty ++ attrs))"

definition getPanelStyle :: "panel_styles \<Rightarrow> string option \<Rightarrow> string \<Rightarrow> compute_mode \<Rightarrow> panel_style option" where
  "getPanelStyle styles codeName path mode =
     (if \<not> truthy codeName then None
      else Option.bind (styles mode (the codeName)) (\<lambda>attrs. attrs path))"

definition insert_at :: "nat \<Rightarrow> 'a \<Rightarrow> 'a list \<Rightarrow> 'a list" where
  "insert_at i x xs = take i xs @ x # drop i xs"

text \<open>An item that carries an order is taken out and put back at that position.\<close>

definition move_item :: "('a \<Rightarrow> nat option) \<Rightarrow> 'a list \<Rightarrow> 'a \<Rightarrow> 'a list" where
  "move_item order_of ordered it =
     (case order_of it of
        None \<Rightarrow> ordered
      | Some ord \<Rightarrow> let rest = remove1 it ordered in insert_at (min ord (length rest)) it rest)"

definition arrangeByPanelStyle ::
  "panel_styles \<Rightarrow> ('a \<Rightarrow> string) \<Rightarrow> 'a list \<Rightarrow> string option \<Rightarrow> compute_mode \<Rightarrow> 'a list \<times> 'a list" where
  "arrangeByPanelStyle styles path items codeName mode =
     (let sty = (\<lambda>it. getPanelStyle styles codeName (path it) mode);
          visible = filter (\<lambda>it. Option.bind (sty it) ps_isShow \<noteq> Some False) items;
          ordered = foldl (move_item (\<lambda>it. Option.bind (sty it) ps_order)) visible visible;
          advanced = (\<lambda>it. Option.bind (sty it) ps_isAdvanced = Some True)
      in (filter (\<lambda>it. \<not> advanced it) ordered, filter advanced ordered))"

section \<open>Validation\<close>

datatype error_code =
    REQUIRED | MIN_BOUND | MAX_BOUND | NOT_INTEGER | NOT_NUMBER | NOT_ALLOWED | LIST_MIN | LIST_MAX | COL_MIN | COL_MAX

datatype limit = LimNum number | LimText string

record validation_error =
  ve_path :: string
  ve_code :: error_code
  ve_limit :: "limit option"

definition non_blank :: "jsval \<Rightarrow> bool" where
  "non_blank x \<longleftrightarrow> x \<noteq> Null \<and> x \<noteq> Undefined \<and> x \<noteq> JStr ''''"

definition text_elem :: "string option \<Rightarrow> jsval" where
  "text_elem v = (case v of None \<Rightarrow> Null | Some s \<Rightarrow> JStr s)"

text \<open>\<open>v.ss ?? v.i64s ?? v.fs ?? v.bs\<close>\<close>

definition list_field :: "attribute_value \<Rightarrow> jsval list option" where
  "list_field v = nullish_opt (map_option (map text_elem) (av_ss v))
     (nullish_opt (map_option (map JNum) (av_i64s v))
       (nullish_opt (map_option (map JNum) (av_fs v)) (map_option (map JBool) (av_bs v))))"

definition isNaValue :: "attribute_value option \<Rightarrow> bool" where
  "isNaValue value =
     (case value of
        None \<Rightarrow> True
      | Some v \<Rightarrow>
          if av_is_na v = Some True then True
          else if av_custom_cls v \<noteq> None \<or> av_custom_value v \<noteq> Undefined then False
          else av_f v = None \<and> av_i64 v = None \<and> (av_s v = None \<or> av_s v = Some '''') \<and> av_b v = None \<and>
               nullish (av_fs v) [] = [] \<and> nullish (av_i64s v) [] = [] \<and>
               filter (\<lambda>x. x \<noteq> None \<and> x \<noteq> Some '''') (nullish (av_ss v) []) = [] \<and> nullish (av_bs v) [] = [])"

definition scalarNumber :: "attribute_value option \<Rightarrow> number option" where
  "scalarNumber value = (case value of None \<Rightarrow> None | Some v \<Rightarrow> nullish_opt (av_i64 v) (av_f v))"

definition listOf :: "attribute_value option \<Rightarrow> jsval list" where
  "listOf value = (case value of None \<Rightarrow> [] | Some v \<Rightarrow> filter non_blank (nullish (list_field v) []))"

definition allowedList :: "attribute_def \<Rightarrow> jsval list" where
  "allowedList d =
     (case Option.bind (ad_atomic d) aa_allowed of None \<Rightarrow> [] | Some a \<Rightarrow> nullish (list_field a) [])"

definition bound_number :: "attribute_value option \<Rightarrow> number option" where
  "bound_number b = nullish_opt (scalarNumber b)
     (nullish_opt (Option.bind (Option.bind b av_fs) (\<lambda>l. at_opt l 0))
       (Option.bind (Option.bind b av_i64s) (\<lambda>l. at_opt l 0)))"

definition fail :: "string \<Rightarrow> error_code \<Rightarrow> limit option \<Rightarrow> validation_error option" where
  "fail path code l = Some \<lparr>ve_path = path, ve_code = code, ve_limit = l\<rparr>"

definition below :: "bool option \<Rightarrow> number \<Rightarrow> number \<Rightarrow> bool" where
  "below inclusive n bound = (if inclusive = Some True then num_lt n bound else num_le n bound)"

text \<open>The signs of the message: greater or equal, and less or equal.\<close>

definition ge_sign :: string where "ge_sign = map char_of [0xE2, 0x89, 0xA5 :: nat]"
definition le_sign :: string where "le_sign = map char_of [0xE2, 0x89, 0xA4 :: nat]"

definition checkBounds :: "string \<Rightarrow> atomic_desc option \<Rightarrow> number \<Rightarrow> validation_error option" where
  "checkBounds path atomic n =
     (case atomic of
        None \<Rightarrow> None
      | Some a \<Rightarrow>
          (let lower = bound_number (aa_lower a); upper = bound_number (aa_upper a) in
           if aa_lower_enabled a = Some True \<and> lower \<noteq> None \<and> below (aa_lower_inclusive a) n (the lower)
             then fail path MIN_BOUND (Some (LimText
               ((if aa_lower_inclusive a = Some True then ge_sign else ''>'') @ '' '' @ number_text (the lower))))
           else if aa_upper_enabled a = Some True \<and> upper \<noteq> None \<and> below (aa_upper_inclusive a) (the upper) n
             then fail path MAX_BOUND (Some (LimText
               ((if aa_upper_inclusive a = Some True then le_sign else ''<'') @ '' '' @ number_text (the upper))))
           else None))"

fun checkElements ::
  "string \<Rightarrow> string \<Rightarrow> atomic_desc option \<Rightarrow> jsval list \<Rightarrow> jsval list \<Rightarrow> validation_error option" where
  "checkElements path t atomic allowed [] = None"
| "checkElements path t atomic allowed (el # els) =
     (let n = number_of el;
          numeric = (if t = ''AT_INTS'' \<or> t = ''AT_FLOATS''
            then (if n = NaN then fail path NOT_NUMBER None
                  else if t = ''AT_INTS'' \<and> \<not> is_integer n then fail path NOT_INTEGER None
                  else checkBounds path atomic n)
            else None)
      in case numeric of
           Some e \<Rightarrow> Some e
         | None \<Rightarrow>
             if allowed \<noteq> [] \<and> string_of el \<notin> set (map string_of allowed) then fail path NOT_ALLOWED None
             else checkElements path t atomic allowed els)"

definition count_number :: "'a list \<Rightarrow> number" where
  "count_number xs = Fin (of_nat (length xs))"

definition validateColumns :: "attribute_def \<Rightarrow> attribute_value option \<Rightarrow> validation_error option" where
  "validateColumns d value =
     (let path = attrPathOf d;
          optional = (Option.bind (ad_atomic d) aa_is_optional = Some True);
          cols = listOf value;
          mn = nullish (ad_col_min d) (Fin 0)
      in if cols = [] \<and> (num_lt (Fin 0) mn \<or> (\<not> optional \<and> ad_col_min d = None)) then fail path REQUIRED None
         else if cols \<noteq> [] \<and> num_lt (count_number cols) mn then fail path COL_MIN (Some (LimNum mn))
         else (case ad_col_max d of
             None \<Rightarrow> None
           | Some mx \<Rightarrow> if num_lt (Fin 0) mx \<and> num_lt mx (count_number cols)
                        then fail path COL_MAX (Some (LimNum mx)) else None))"

definition validateList :: "attribute_def \<Rightarrow> string \<Rightarrow> attribute_value option \<Rightarrow> validation_error option" where
  "validateList d t value =
     (let path = attrPathOf d; atomic = ad_atomic d; xs = listOf value;
          minLen = Option.bind atomic aa_list_min; maxLen = Option.bind atomic aa_list_max
      in if minLen \<noteq> None \<and> num_lt (count_number xs) (the minLen) then fail path LIST_MIN (Some (LimNum (the minLen)))
         else if maxLen \<noteq> None \<and> num_le (Fin 0) (the maxLen) \<and> num_lt (the maxLen) (count_number xs)
           then fail path LIST_MAX (Some (LimNum (the maxLen)))
         else checkElements path t atomic (allowedList d) xs)"

definition validateScalar :: "attribute_def \<Rightarrow> string \<Rightarrow> attribute_value option \<Rightarrow> validation_error option" where
  "validateScalar d t value =
     (let path = attrPathOf d; allowed = allowedList d in
      case scalarNumber value of
        None \<Rightarrow> fail path NOT_NUMBER None
      | Some n \<Rightarrow>
          if n = NaN then fail path NOT_NUMBER None
          else if t = ''AT_INT'' \<and> \<not> is_integer n then fail path NOT_INTEGER None
          else if allowed \<noteq> [] \<and> n \<notin> set (map number_of allowed) then fail path NOT_ALLOWED None
          else checkBounds path (ad_atomic d) n)"

definition validateAttr :: "attribute_def \<Rightarrow> attribute_value option \<Rightarrow> validation_error option" where
  "validateAttr d value =
     (let path = attrPathOf d; t = normalizeType (ad_type d);
          optional = (Option.bind (ad_atomic d) aa_is_optional = Some True) in
      if t = ''AT_STRUCT_GROUP'' \<or> t = ''ATTR_TYPE_UNSPECIFIED'' then None
      else if t = ''AT_SF_TABLE_COL'' \<or> t = ''AT_COL_PARAMS'' then validateColumns d value
      else if isNaValue value then
        (if optional \<or> (t = ''AT_UNION_GROUP'' \<and> (case ad_union d of None \<Rightarrow> False | Some u \<Rightarrow> js_truthy u))
         then None else fail path REQUIRED None)
      else if t = ''AT_INT'' \<or> t = ''AT_FLOAT'' then validateScalar d t value
      else if t = ''AT_STRING'' then
        (if allowedList d \<noteq> [] \<and>
            nullish (Option.bind value av_s) '''' \<notin> set (map string_of (allowedList d))
         then fail path NOT_ALLOWED None else None)
      else if t = ''AT_INTS'' \<or> t = ''AT_FLOATS'' \<or> t = ''AT_STRINGS'' \<or> t = ''AT_BOOLS'' \<or> t = ''AT_PARTY''
        then validateList d t value
      else None)"

section \<open>Is the node configured?\<close>

fun value_map :: "jsval list \<Rightarrow> jsval list \<Rightarrow> (string \<rightharpoonup> attribute_value) \<Rightarrow> (string \<rightharpoonup> attribute_value)" where
  "value_map [] attrs m = m"
| "value_map (p # ps) attrs m =
     (let v = normalizeAttrValue (case attrs of [] \<Rightarrow> Undefined | a # _ \<Rightarrow> a) in
      value_map ps (tl attrs) (if js_truthy p \<and> v \<noteq> None then m(string_of p \<mapsto> the v) else m))"

definition nodeDefToValueMap :: "jsobj option \<Rightarrow> (string \<rightharpoonup> attribute_value)" where
  "nodeDefToValueMap nodeDef =
     (case nodeDef of
        None \<Rightarrow> Map.empty
      | Some d \<Rightarrow> value_map (nullish (array_of (get_prop d ''attrPaths'')) []) (nullish (array_of (get_prop d ''attrs'')) []) Map.empty)"

definition is_required :: "attribute_def \<Rightarrow> bool" where
  "is_required d =
     (let t = normalizeType (ad_type d) in
      if t = ''AT_STRUCT_GROUP'' \<or> t = ''AT_UNION_GROUP'' \<or> t = ''ATTR_TYPE_UNSPECIFIED'' then False
      else if t = ''AT_SF_TABLE_COL'' \<or> t = ''AT_COL_PARAMS'' then num_lt (Fin 0) (nullish (ad_col_min d) (Fin 0))
      else Option.bind (ad_atomic d) aa_is_optional \<noteq> Some True \<and> t \<noteq> ''AT_CUSTOM_PROTOBUF'')"

definition isConfigFinished :: "jsobj option \<Rightarrow> attribute_def list \<Rightarrow> bool" where
  "isConfigFinished nodeDef defs =
     (let required = filter is_required defs in
      if required = [] then True
      else (case nodeDef of
          None \<Rightarrow> False
        | Some d \<Rightarrow>
            (case (array_of (get_prop d ''attrPaths''), array_of (get_prop d ''attrs'')) of
               (Some paths, Some attrs) \<Rightarrow>
                 (let values = nodeDefToValueMap nodeDef in
                  list_all (\<lambda>r. JStr (attrPathOf r) \<in> set paths \<longrightarrow> \<not> isNaValue (values (attrPathOf r))) required)
             | _ \<Rightarrow> False)))"

section \<open>Translation of component texts\<close>

record translator =
  tr_flat :: jsobj
  tr_nested :: "(string \<times> (string \<times> jsval) list) list"

text \<open>\<open>Object.entries\<close>; the keys of an array are its indices.\<close>

fun object_entries :: "jsval \<Rightarrow> (string \<times> jsval) list" where
  "object_entries (JObj ob) = ob"
| "object_entries (JArr xs) = zip (map show_nat [0..<length xs]) xs"
| "object_entries _ = []"

definition is_object :: "jsval \<Rightarrow> bool" where
  "is_object v \<longleftrightarrow> as_fields v \<noteq> None"

definition translator_step :: "translator \<Rightarrow> string \<times> jsval \<Rightarrow> translator" where
  "translator_step tr = (\<lambda>(k, v).
     case v of
       JStr s \<Rightarrow> tr\<lparr>tr_flat := set_prop k (JStr s) (tr_flat tr)\<rparr>
     | _ \<Rightarrow>
         (if \<not> is_object v then tr
          else let inner = object_entries v in
            if inner \<noteq> [] \<and> list_all (\<lambda>(_, x). is_object x) inner
            then tr\<lparr>tr_nested := set_prop k inner (tr_nested tr)\<rparr>
            else tr\<lparr>tr_nested := set_prop ''__root''
                      (set_prop k v (nullish (map_of (tr_nested tr) ''__root'') [])) (tr_nested tr)\<rparr>))"

definition createComponentTranslator :: "jsval \<Rightarrow> translator" where
  "createComponentTranslator raw = foldl translator_step \<lparr>tr_flat = [], tr_nested = []\<rparr> (object_entries raw)"

definition bucket_entry :: "string \<Rightarrow> string option \<Rightarrow> (string \<times> jsval) list \<Rightarrow> jsobj option" where
  "bucket_entry codeName version bucket =
     (case (if truthy version then map_of bucket (codeName @ '':'' @ the version) else None) of
        Some v \<Rightarrow> if js_truthy v then Some (object_entries v)
                  else map_option (\<lambda>(_, w). object_entries w)
                    (List.find (\<lambda>(k, _). k = codeName \<or> starts_with k (codeName @ '':'')) bucket)
      | None \<Rightarrow> map_option (\<lambda>(_, w). object_entries w)
                 (List.find (\<lambda>(k, _). k = codeName \<or> starts_with k (codeName @ '':'')) bucket))"

fun first_entry :: "string \<Rightarrow> string option \<Rightarrow> (string \<times> jsval) list list \<Rightarrow> jsobj option" where
  "first_entry codeName version [] = None"
| "first_entry codeName version (b # bs) =
     (case bucket_entry codeName version b of Some e \<Rightarrow> Some e | None \<Rightarrow> first_entry codeName version bs)"

definition forComponent :: "translator \<Rightarrow> string option \<Rightarrow> string option \<Rightarrow> compute_mode \<Rightarrow> jsobj" where
  "forComponent tr codeName version mode =
     (if \<not> truthy codeName then tr_flat tr
      else let app = (if mode = TEE then ''trustedflow'' else ''secretflow'');
               buckets = List.map_filter id [map_of (tr_nested tr) app, map_of (tr_nested tr) ''__root''] @
                         map snd (tr_nested tr)
           in case first_entry (the codeName) version buckets of
                None \<Rightarrow> tr_flat tr
              | Some e \<Rightarrow> spread (tr_flat tr) e)"

definition translate :: "translator \<Rightarrow> string option \<Rightarrow> string option \<Rightarrow> string option \<Rightarrow> compute_mode \<Rightarrow> jsval" where
  "translate tr text codeName version mode =
     (if \<not> truthy text then JStr (nullish text '''')
      else let v = get_prop (forComponent tr codeName version mode) (the text) in
           if is_nullish v then JStr (the text) else v)"

section \<open>The chosen control is the first one of the highest score\<close>

definition first_best :: "renderer_kind \<Rightarrow> (renderer_kind \<times> nat option) list \<Rightarrow> renderer_kind \<Rightarrow> bool" where
  "first_best start rules kind \<longleftrightarrow>
     (kind = start \<and> (\<forall>(_, score) \<in> set rules. score = None \<or> score = Some 0)) \<or>
     (\<exists>before s after. rules = before @ (kind, Some s) # after \<and> 0 < s \<and>
        (\<forall>(_, score) \<in> set before. \<forall>t. score = Some t \<longrightarrow> t < s) \<and>
        (\<forall>(_, score) \<in> set after. \<forall>t. score = Some t \<longrightarrow> t \<le> s))"

lemma best_rule_snoc:
  "best_rule start (rules @ [(kind, score)]) =
     (let (best, bestScore) = best_rule start rules in
      case score of None \<Rightarrow> (best, bestScore)
      | Some s \<Rightarrow> if s > bestScore then (kind, s) else (best, bestScore))"
  by (simp add: best_rule_def split_beta Let_def split: option.splits)

lemma best_rule_invariant:
  "(case best_rule start rules of (best, bestScore) \<Rightarrow>
     (\<forall>(_, score) \<in> set rules. \<forall>t. score = Some t \<longrightarrow> t \<le> bestScore) \<and>
     (if bestScore = 0 then best = start
      else \<exists>before after. rules = before @ (best, Some bestScore) # after \<and>
             (\<forall>(_, score) \<in> set before. \<forall>t. score = Some t \<longrightarrow> t < bestScore)))"
proof (induction rules rule: rev_induct)
  case Nil
  show ?case by (simp add: best_rule_def)
next
  case (snoc x rules)
  obtain kind score where x: "x = (kind, score)" by (cases x)
  obtain b bs where b: "best_rule start rules = (b, bs)" by (cases "best_rule start rules")
  have le: "\<forall>(_, score) \<in> set rules. \<forall>t. score = Some t \<longrightarrow> t \<le> bs"
    and chosen: "if bs = 0 then b = start else \<exists>before after. rules = before @ (b, Some bs) # after \<and>
       (\<forall>(_, score) \<in> set before. \<forall>t. score = Some t \<longrightarrow> t < bs)"
    using snoc unfolding b prod.case by blast+
  show ?case
  proof (cases "\<exists>s. score = Some s \<and> bs < s")
    case True
    then obtain s where s: "score = Some s" "bs < s" by blast
    have "\<forall>(_, score) \<in> set rules. \<forall>t. score = Some t \<longrightarrow> t < s" using le s(2) by fastforce
    then show ?thesis using le s by (fastforce simp: best_rule_snoc b x)
  next
    case False
    then have "best_rule start (rules @ [x]) = (b, bs)" by (auto simp: best_rule_snoc b x split: option.splits)
    moreover have "\<forall>(_, score) \<in> set (rules @ [x]). \<forall>t. score = Some t \<longrightarrow> t \<le> bs"
      using le False by (auto simp: x)
    moreover have "if bs = 0 then b = start else \<exists>before after. rules @ [x] = before @ (b, Some bs) # after \<and>
       (\<forall>(_, score) \<in> set before. \<forall>t. score = Some t \<longrightarrow> t < bs)"
    proof (cases "bs = 0")
      case False
      then obtain before after where "rules = before @ (b, Some bs) # after"
        and lt: "\<forall>(_, score) \<in> set before. \<forall>t. score = Some t \<longrightarrow> t < bs"
        using chosen by auto
      then have "rules @ [x] = before @ (b, Some bs) # (after @ [x])" by simp
      with lt False show ?thesis by auto
    qed (use chosen in simp)
    ultimately show ?thesis by simp
  qed
qed

lemma best_rule_first_best: "first_best start rules (fst (best_rule start rules))"
proof -
  obtain b bs where b: "best_rule start rules = (b, bs)" by (cases "best_rule start rules")
  note inv = best_rule_invariant [where start = start and rules = rules, unfolded b prod.case]
  show ?thesis
  proof (cases "bs = 0")
    case True
    have "\<forall>(_, score) \<in> set rules. score = None \<or> score = Some 0"
    proof
      fix x assume "x \<in> set rules"
      from bspec [OF conjunct1 [OF inv] this] show "case x of (_, score) \<Rightarrow> score = None \<or> score = Some 0"
        by (cases x, cases "snd x") (simp_all add: True)
    qed
    moreover have "b = start" using inv True by simp
    ultimately show ?thesis unfolding first_best_def b by simp
  next
    case False
    then obtain before after where split: "rules = before @ (b, Some bs) # after"
      "\<forall>(_, score) \<in> set before. \<forall>t. score = Some t \<longrightarrow> t < bs"
      using inv by auto
    moreover have "\<forall>(_, score) \<in> set after. \<forall>t. score = Some t \<longrightarrow> t \<le> bs"
      using inv split(1) by simp
    moreover have "0 < bs" using False by simp
    ultimately show ?thesis unfolding first_best_def b fst_conv by blast
  qed
qed

section \<open>Rearranging keeps the visible items\<close>

definition panel_visible :: "panel_styles \<Rightarrow> string option \<Rightarrow> compute_mode \<Rightarrow> string \<Rightarrow> bool" where
  "panel_visible styles codeName mode p \<longleftrightarrow> Option.bind (getPanelStyle styles codeName p mode) ps_isShow \<noteq> Some False"

definition panel_advanced :: "panel_styles \<Rightarrow> string option \<Rightarrow> compute_mode \<Rightarrow> string \<Rightarrow> bool" where
  "panel_advanced styles codeName mode p \<longleftrightarrow> Option.bind (getPanelStyle styles codeName p mode) ps_isAdvanced = Some True"

lemma mset_insert_at [simp]: "mset (insert_at i x xs) = add_mset x (mset xs)"
  by (metis append_take_drop_id insert_at_def mset.simps(2) mset_append union_mset_add_mset_right)

lemma mset_move_item: "it \<in> set xs \<Longrightarrow> mset (move_item f xs it) = mset xs"
  by (simp add: move_item_def Let_def split: option.splits)

lemma mset_move_items: "set its \<subseteq> set xs \<Longrightarrow> mset (foldl (move_item f) xs its) = mset xs"
proof (induction its arbitrary: xs)
  case (Cons it its)
  have m: "mset (move_item f xs it) = mset xs" using Cons.prems by (intro mset_move_item) simp
  moreover have "set its \<subseteq> set (move_item f xs it)"
    using Cons.prems by (simp add: mset_eq_setD [OF m])
  ultimately show ?case using Cons.IH [of "move_item f xs it"] by simp
qed simp

lemma arrangeByPanelStyle_parts:
  assumes "arrangeByPanelStyle styles path items codeName mode = (common, advanced)"
  shows "mset common + mset advanced = filter_mset (\<lambda>it. panel_visible styles codeName mode (path it)) (mset items)"
    and "list_all (\<lambda>it. \<not> panel_advanced styles codeName mode (path it)) common"
    and "list_all (\<lambda>it. panel_advanced styles codeName mode (path it)) advanced"
proof -
  define sty where "sty = (\<lambda>it. getPanelStyle styles codeName (path it) mode)"
  define visible where "visible = filter (\<lambda>it. Option.bind (sty it) ps_isShow \<noteq> Some False) items"
  define ordered where "ordered = foldl (move_item (\<lambda>it. Option.bind (sty it) ps_order)) visible visible"
  have parts: "common = filter (\<lambda>it. \<not> panel_advanced styles codeName mode (path it)) ordered"
    "advanced = filter (\<lambda>it. panel_advanced styles codeName mode (path it)) ordered"
    using assms by (auto simp: arrangeByPanelStyle_def ordered_def visible_def sty_def panel_advanced_def Let_def)
  have m: "mset ordered = mset visible" unfolding ordered_def by (rule mset_move_items) simp
  have "mset common + mset advanced = mset ordered"
    unfolding parts mset_filter by (metis add.commute multiset_partition)
  then show "mset common + mset advanced = filter_mset (\<lambda>it. panel_visible styles codeName mode (path it)) (mset items)"
    by (simp add: m visible_def sty_def panel_visible_def)
  show "list_all (\<lambda>it. \<not> panel_advanced styles codeName mode (path it)) common"
    and "list_all (\<lambda>it. panel_advanced styles codeName mode (path it)) advanced"
    unfolding parts by (simp_all add: list_all_iff)
qed

section \<open>What validation accepts\<close>

definition within_lower :: "atomic_desc \<Rightarrow> number \<Rightarrow> bool" where
  "within_lower a n \<longleftrightarrow>
     (\<forall>l. aa_lower_enabled a = Some True \<longrightarrow> bound_number (aa_lower a) = Some l \<longrightarrow>
        \<not> (if aa_lower_inclusive a = Some True then num_lt n l else num_le n l))"

definition within_upper :: "atomic_desc \<Rightarrow> number \<Rightarrow> bool" where
  "within_upper a n \<longleftrightarrow>
     (\<forall>u. aa_upper_enabled a = Some True \<longrightarrow> bound_number (aa_upper a) = Some u \<longrightarrow>
        \<not> (if aa_upper_inclusive a = Some True then num_lt u n else num_le u n))"

definition within_bounds :: "attribute_def \<Rightarrow> number \<Rightarrow> bool" where
  "within_bounds d n \<longleftrightarrow> (\<forall>a. ad_atomic d = Some a \<longrightarrow> within_lower a n \<and> within_upper a n)"

definition good_number :: "attribute_def \<Rightarrow> bool \<Rightarrow> number \<Rightarrow> bool" where
  "good_number d whole n \<longleftrightarrow> n \<noteq> NaN \<and> (whole \<longrightarrow> is_integer n) \<and> within_bounds d n"

lemma checkBounds_None: "checkBounds path (ad_atomic d) n = None \<longleftrightarrow> within_bounds d n"
  by (auto simp: checkBounds_def within_bounds_def within_lower_def within_upper_def below_def fail_def Let_def
      split: option.splits if_splits)

definition good_scalar :: "attribute_def \<Rightarrow> bool \<Rightarrow> attribute_value option \<Rightarrow> bool" where
  "good_scalar d whole value \<longleftrightarrow>
     (\<exists>n. scalarNumber value = Some n \<and> good_number d whole n \<and>
        (allowedList d = [] \<or> n \<in> set (map number_of (allowedList d))))"

lemma validateScalar_None: "validateScalar d t value = None \<longleftrightarrow> good_scalar d (t = ''AT_INT'') value"
  by (auto simp: validateScalar_def good_scalar_def good_number_def fail_def Let_def checkBounds_None
      split: option.splits if_splits)

definition good_element :: "attribute_def \<Rightarrow> string \<Rightarrow> jsval \<Rightarrow> bool" where
  "good_element d t el \<longleftrightarrow>
     (t \<in> {''AT_INTS'', ''AT_FLOATS''} \<longrightarrow> good_number d (t = ''AT_INTS'') (number_of el)) \<and>
     (allowedList d = [] \<or> string_of el \<in> set (map string_of (allowedList d)))"

lemma checkElements_Cons:
  "checkElements path t (ad_atomic d) (allowedList d) (el # els) = None \<longleftrightarrow>
     good_element d t el \<and> checkElements path t (ad_atomic d) (allowedList d) els = None"
  by (auto simp: good_element_def good_number_def checkBounds_None [symmetric, where path = path] fail_def Let_def
      split: option.splits if_splits)

lemma checkElements_None:
  "checkElements path t (ad_atomic d) (allowedList d) els = None \<longleftrightarrow> list_all (good_element d t) els"
proof (induction els)
  case (Cons el els)
  then show ?case using checkElements_Cons by simp
qed simp

definition good_list :: "attribute_def \<Rightarrow> string \<Rightarrow> attribute_value option \<Rightarrow> bool" where
  "good_list d t value \<longleftrightarrow>
     (\<forall>m. Option.bind (ad_atomic d) aa_list_min = Some m \<longrightarrow> \<not> num_lt (count_number (listOf value)) m) \<and>
     (\<forall>m. Option.bind (ad_atomic d) aa_list_max = Some m \<longrightarrow> num_le (Fin 0) m \<longrightarrow>
        \<not> num_lt m (count_number (listOf value))) \<and>
     list_all (good_element d t) (listOf value)"

lemma validateList_None: "validateList d t value = None \<longleftrightarrow> good_list d t value"
  by (auto simp: validateList_def good_list_def fail_def Let_def checkElements_None split: if_splits)

text \<open>
  Columns: enough and not too many.  Without a declared minimum an attribute needs at least one
  column unless it is optional.
\<close>

definition good_columns :: "attribute_def \<Rightarrow> attribute_value option \<Rightarrow> bool" where
  "good_columns d value \<longleftrightarrow>
     (let n = count_number (listOf value) in
      (case ad_col_min d of
         None \<Rightarrow> listOf value \<noteq> [] \<or> Option.bind (ad_atomic d) aa_is_optional = Some True
       | Some mn \<Rightarrow> \<not> num_lt n mn) \<and>
      (\<forall>mx. ad_col_max d = Some mx \<longrightarrow> num_lt (Fin 0) mx \<longrightarrow> \<not> num_lt mx n))"

lemma validateColumns_None: "validateColumns d value = None \<longleftrightarrow> good_columns d value"
  by (auto simp: validateColumns_def good_columns_def fail_def Let_def count_number_def split: option.splits if_splits)

definition may_be_empty :: "attribute_def \<Rightarrow> bool" where
  "may_be_empty d \<longleftrightarrow>
     Option.bind (ad_atomic d) aa_is_optional = Some True \<or>
     (normalizeType (ad_type d) = ''AT_UNION_GROUP'' \<and> (\<exists>u. ad_union d = Some u \<and> js_truthy u))"

definition good_value :: "attribute_def \<Rightarrow> attribute_value option \<Rightarrow> bool" where
  "good_value d value \<longleftrightarrow>
     (let t = normalizeType (ad_type d) in
      if t \<in> {''AT_STRUCT_GROUP'', ''ATTR_TYPE_UNSPECIFIED''} then True
      else if isColumnType t then good_columns d value
      else if isNaValue value then may_be_empty d
      else (t \<in> {''AT_INT'', ''AT_FLOAT''} \<longrightarrow> good_scalar d (t = ''AT_INT'') value) \<and>
           (t = ''AT_STRING'' \<longrightarrow> allowedList d = [] \<or>
              nullish (Option.bind value av_s) '''' \<in> set (map string_of (allowedList d))) \<and>
           (t \<in> {''AT_INTS'', ''AT_FLOATS'', ''AT_STRINGS'', ''AT_BOOLS'', ''AT_PARTY''} \<longrightarrow> good_list d t value))"

lemma validateAttr_None: "validateAttr d value = None \<longleftrightarrow> good_value d value"
proof -
  define t where "t = normalizeType (ad_type d)"
  have fail: "fail p c l \<noteq> None" for p c l by (simp add: fail_def)
  show ?thesis
    unfolding validateAttr_def good_value_def Let_def t_def [symmetric] may_be_empty_def isColumnType_def
    by (auto simp: fail validateColumns_None validateScalar_None validateList_None split: option.splits)
qed

section \<open>Normalising twice changes nothing\<close>

lemma type_by_number_name: "type_by_number n \<in> set ATTR_TYPES"
proof -
  have unspecified: "''ATTR_TYPE_UNSPECIFIED'' \<in> set ATTR_TYPES" by (simp add: ATTR_TYPES_def)
  have "nullish (at_opt ATTR_TYPES k) ''ATTR_TYPE_UNSPECIFIED'' \<in> set ATTR_TYPES" for k
    by (cases "k < length ATTR_TYPES") (simp_all add: at_opt_def unspecified)
  with unspecified show ?thesis by (simp add: type_by_number_def split: number.splits)
qed

lemma ATTR_TYPES_not_digits: "t \<in> set ATTR_TYPES \<Longrightarrow> t \<noteq> '''' \<and> \<not> all_digits t"
  by (auto simp: ATTR_TYPES_def all_digits_def is_digit_def)

lemma normalizeType_idem: "normalizeType (JStr (normalizeType t)) = normalizeType t"
proof -
  have known: "normalizeType (JStr u) = u" if "u \<in> set ATTR_TYPES" for u
    using ATTR_TYPES_not_digits [OF that] by (simp add: normalizeType_def)
  have unspecified: "''ATTR_TYPE_UNSPECIFIED'' \<in> set ATTR_TYPES" by (simp add: ATTR_TYPES_def)
  show ?thesis
  proof (cases "\<exists>s. t = JStr s \<and> normalizeType t = s")
    case False
    then have "normalizeType t \<in> set ATTR_TYPES"
      using type_by_number_name unspecified by (auto simp: normalizeType_def split: jsval.splits if_splits)
    then show ?thesis by (rule known)
  qed auto
qed

text \<open>A normalised value, seen again as a value of unknown type: its absent fields are left out.\<close>

definition opt_field :: "string \<Rightarrow> ('a \<Rightarrow> jsval) \<Rightarrow> 'a option \<Rightarrow> jsobj" where
  "opt_field k f v = (case v of None \<Rightarrow> [] | Some x \<Rightarrow> [(k, f x)])"

definition value_object :: "attribute_value \<Rightarrow> jsobj" where
  "value_object v =
     opt_field ''f'' JNum (av_f v) @ opt_field ''i64'' JNum (av_i64 v) @ opt_field ''s'' JStr (av_s v) @
     opt_field ''b'' JBool (av_b v) @ opt_field ''fs'' (\<lambda>l. JArr (map JNum l)) (av_fs v) @
     opt_field ''i64s'' (\<lambda>l. JArr (map JNum l)) (av_i64s v) @
     opt_field ''ss'' (\<lambda>l. JArr (map text_elem l)) (av_ss v) @
     opt_field ''bs'' (\<lambda>l. JArr (map JBool l)) (av_bs v) @ opt_field ''is_na'' JBool (av_is_na v) @
     opt_field ''custom_protobuf_cls'' JStr (av_custom_cls v) @
     (if av_custom_value v = Undefined then [] else [(''custom_value'', av_custom_value v)])"

lemma map_of_opt_field [simp]: "map_of (opt_field k f v) k' = (if k' = k then map_option f v else None)"
  by (simp add: opt_field_def split: option.splits)

lemma value_object_props:
  "get_prop (value_object v) ''f'' = nullish (map_option JNum (av_f v)) Undefined"
  "get_prop (value_object v) ''i64'' = nullish (map_option JNum (av_i64 v)) Undefined"
  "get_prop (value_object v) ''s'' = nullish (map_option JStr (av_s v)) Undefined"
  "get_prop (value_object v) ''b'' = nullish (map_option JBool (av_b v)) Undefined"
  "get_prop (value_object v) ''fs'' = nullish (map_option (\<lambda>l. JArr (map JNum l)) (av_fs v)) Undefined"
  "get_prop (value_object v) ''i64s'' = nullish (map_option (\<lambda>l. JArr (map JNum l)) (av_i64s v)) Undefined"
  "get_prop (value_object v) ''ss'' = nullish (map_option (\<lambda>l. JArr (map text_elem l)) (av_ss v)) Undefined"
  "get_prop (value_object v) ''bs'' = nullish (map_option (\<lambda>l. JArr (map JBool l)) (av_bs v)) Undefined"
  "get_prop (value_object v) ''is_na'' = nullish (map_option JBool (av_is_na v)) Undefined"
  "get_prop (value_object v) ''isNa'' = Undefined"
  "get_prop (value_object v) ''custom_protobuf_cls'' = nullish (map_option JStr (av_custom_cls v)) Undefined"
  "get_prop (value_object v) ''custom_value'' = av_custom_value v"
  by (simp_all add: get_prop_def value_object_def map_add_def split: option.splits)

definition proper :: "number option \<Rightarrow> bool" where
  "proper n \<longleftrightarrow> n \<noteq> Some NaN"

text \<open>What normalisation produces: no number in it is NaN.\<close>

definition value_proper :: "attribute_value \<Rightarrow> bool" where
  "value_proper v \<longleftrightarrow> proper (av_f v) \<and> proper (av_i64 v) \<and>
     NaN \<notin> set (nullish (av_fs v) []) \<and> NaN \<notin> set (nullish (av_i64s v) [])"

lemma toNum_proper [simp]: "proper (toNum v)"
  by (simp add: proper_def toNum_def Let_def)

lemma toNum_nullish_not_NaN [simp]: "nullish (toNum v) (Fin 0) \<noteq> NaN"
  using toNum_proper [of v] by (cases "toNum v") (auto simp: proper_def)

lemma NaN_notin_mapped [simp]:
  "NaN \<notin> set (nullish (map_option (map (\<lambda>v. nullish (toNum v) (Fin 0))) l) [])"
  using toNum_nullish_not_NaN by (cases l) (auto simp: image_iff dest: sym)

lemma normalizeAttrValue_proper: "normalizeAttrValue raw = Some v \<Longrightarrow> value_proper v"
  unfolding normalizeAttrValue_def value_proper_def by (cases "as_fields raw") auto

lemma toNum_JNum [simp]: "proper n \<Longrightarrow> toNum (nullish (map_option JNum n) Undefined) = n"
  by (cases n) (simp_all add: toNum_def proper_def)

lemma toNum_elems [simp]: "NaN \<notin> set l \<Longrightarrow> map ((\<lambda>v. nullish (toNum v) (Fin 0)) \<circ> JNum) l = l"
  by (induction l) (auto simp: toNum_def)

lemma text_elems [simp]:
  "map ((\<lambda>v. if v = Null \<or> v = Undefined then None else Some (string_of v)) \<circ> text_elem) l = l"
  by (induction l) (auto simp: text_elem_def split: option.splits)

lemma bool_elems [simp]: "map ((\<lambda>v. toBool v = Some True) \<circ> JBool) l = l"
  by (induction l) (auto simp: toBool_def)

lemma normalizeAttrValue_object:
  assumes "value_proper v"
  shows "normalizeAttrValue (JObj (value_object v)) = Some v"
proof -
  have fields: "given_text (nullish (map_option JStr x) Undefined) = x"
    "toBool (nullish (map_option JBool y) Undefined) = y" for x y
    by (cases x; simp add: given_text_def) (cases y; simp add: toBool_def)
  have lists: "array_of (nullish (map_option (\<lambda>l. JArr (g l)) z) Undefined) = map_option g z"
    for g :: "'a \<Rightarrow> jsval list" and z
    by (cases z) (simp_all add: array_of_def)
  have na: "(let n = pick (value_object v) [''is_na'', ''isNa''] in
      if n = Undefined then None else Some (toBool n = Some True)) = av_is_na v"
    by (cases "av_is_na v") (simp_all add: value_object_props toBool_def)
  have nums: "map_option (map (\<lambda>v. nullish (toNum v) (Fin 0))) (map_option (map JNum) l) = l"
    if "NaN \<notin> set (nullish l [])" for l
    using that by (cases l) simp_all
  have texts: "map_option (map (\<lambda>v. if v = Null \<or> v = Undefined then None else Some (string_of v)))
      (map_option (map text_elem) l) = l" for l
    by (cases l) simp_all
  have bools: "map_option (map (\<lambda>v. toBool v = Some True)) (map_option (map JBool) l) = l" for l
    by (cases l) simp_all
  note [simp del] = map_option.compositionality option.map_comp list.map_comp map_map
  show ?thesis
    using assms
    by (simp only: normalizeAttrValue_def as_fields.simps option.case value_object_props lists fields na nums texts bools
        toNum_JNum value_proper_def) (simp add: nums)
qed

lemma normalizeAttrValue_twice:
  "normalizeAttrValue raw = Some v \<Longrightarrow> normalizeAttrValue (JObj (value_object v)) = Some v"
  by (rule normalizeAttrValue_object) (rule normalizeAttrValue_proper)

section \<open>Both spellings of a definition read the same\<close>

definition SPELLINGS :: "(string \<times> string) list" where
  "SPELLINGS =
     [(''list_min_length_inclusive'', ''listMinLengthInclusive''), (''list_max_length_inclusive'', ''listMaxLengthInclusive''),
      (''is_optional'', ''isOptional''), (''default_value'', ''defaultValue''), (''allowed_values'', ''allowedValues''),
      (''lower_bound_enabled'', ''lowerBoundEnabled''), (''lower_bound'', ''lowerBound''),
      (''lower_bound_inclusive'', ''lowerBoundInclusive''), (''upper_bound_enabled'', ''upperBoundEnabled''),
      (''upper_bound'', ''upperBound''), (''upper_bound_inclusive'', ''upperBoundInclusive'')]"

definition camel :: "string \<Rightarrow> string" where
  "camel k = nullish (map_of SPELLINGS k) k"

definition camel_object :: "jsobj \<Rightarrow> jsobj" where
  "camel_object r = map (\<lambda>(k, v). (camel k, v)) r"

definition snake_keys :: "jsobj \<Rightarrow> bool" where
  "snake_keys r \<longleftrightarrow> list_all (\<lambda>(k, _). k \<in> fst ` set SPELLINGS) r"

lemma SPELLINGS_distinct: "distinct (map fst SPELLINGS @ map snd SPELLINGS)"
  by (simp add: SPELLINGS_def)

lemma pick_camel:
  assumes "snake_keys r" and sc: "(s, c) \<in> set SPELLINGS"
  shows "pick (camel_object r) [s, c] = pick r [s, c]"
proof -
  have dist: "distinct (map fst SPELLINGS)" "distinct (map snd SPELLINGS)"
    and apart: "fst ` set SPELLINGS \<inter> snd ` set SPELLINGS = {}"
    using SPELLINGS_distinct by simp_all
  have camel: "camel k = c'" if "(k, c') \<in> set SPELLINGS" for k c'
    using that dist(1) by (simp add: camel_def)
  have "get_prop (camel_object r) s = Undefined \<and> get_prop r c = Undefined \<and> get_prop (camel_object r) c = get_prop r s"
    using assms(1)
  proof (induction r)
    case (Cons kv r)
    obtain k v where kv: "kv = (k, v)" by (cases kv)
    then obtain c' where k: "(k, c') \<in> set SPELLINGS" using Cons.prems by (auto simp: snake_keys_def)
    have "c' \<noteq> s" "k \<noteq> c" using apart k sc by (metis IntI empty_iff fst_conv image_eqI snd_conv)+
    moreover have "c' = c \<longleftrightarrow> k = s"
      using k sc dist by (metis eq_key_imp_eq_value distinct_map inj_onD prod.inject snd_conv)
    ultimately show ?case using Cons kv camel [OF k] by (auto simp: camel_object_def get_prop_def snake_keys_def)
  qed (simp add: camel_object_def get_prop_def)
  then show ?thesis by (simp add: Let_def)
qed

lemma normalize_atomic_camel:
  assumes "snake_keys r"
  shows "normalize_atomic (camel_object r) = normalize_atomic r"
proof -
  note spelled = pick_camel [OF assms]
  show ?thesis
    unfolding normalize_atomic_def by (simp add: spelled SPELLINGS_def del: pick.simps)
qed

section \<open>A node whose values are accepted counts as configured\<close>

definition configured_list :: "jsobj \<Rightarrow> string \<Rightarrow> jsval list option" where
  "configured_list d k = array_of (get_prop d k)"

text \<open>An attribute flagged as not available holds no value even when a list is present.\<close>

definition flagged :: "attribute_value option \<Rightarrow> bool" where
  "flagged value \<longleftrightarrow> Option.bind value av_is_na = Some True"

lemma listOf_not_na: "listOf value \<noteq> [] \<Longrightarrow> \<not> flagged value \<Longrightarrow> \<not> isNaValue value"
proof (cases "value")
  case (Some v)
  assume nonempty: "listOf value \<noteq> []" and "\<not> flagged value"
  then have na: "av_is_na v \<noteq> Some True" by (simp add: flagged_def Some)
  show ?thesis
  proof (cases "av_custom_cls v \<noteq> None \<or> av_custom_value v \<noteq> Undefined")
    case True
    then show ?thesis using na by (simp add: isNaValue_def Some)
  next
    case False
    have elems: "(non_blank \<circ> text_elem) = (\<lambda>x. x \<noteq> None \<and> x \<noteq> Some '''')"
      by (auto simp: fun_eq_iff non_blank_def text_elem_def split: option.splits)
    have "filter (\<lambda>x. x \<noteq> None \<and> x \<noteq> Some '''') (nullish (av_ss v) []) \<noteq> [] \<or> nullish (av_i64s v) [] \<noteq> [] \<or>
       nullish (av_fs v) [] \<noteq> [] \<or> nullish (av_bs v) [] \<noteq> []"
    proof (cases "av_ss v")
      case (Some ss)
      with nonempty have "filter (non_blank \<circ> text_elem) ss \<noteq> []"
        by (simp add: listOf_def list_field_def \<open>value = Some v\<close> filter_map)
      then show ?thesis by (simp add: Some elems)
    next
      case None
      then show ?thesis using nonempty
        by (cases "av_i64s v"; cases "av_fs v"; cases "av_bs v") (auto simp: listOf_def list_field_def Some)
    qed
    then show ?thesis using na False by (auto simp: isNaValue_def Some)
  qed
qed (simp add: listOf_def)

lemma required_value_present:
  assumes "is_required d" "validateAttr d value = None" "\<not> flagged value"
  shows "\<not> isNaValue value"
proof (cases "isColumnType (normalizeType (ad_type d))")
  case True
  then have "num_lt (Fin 0) (nullish (ad_col_min d) (Fin 0))" and "good_columns d value"
    using assms by (auto simp: is_required_def isColumnType_def validateAttr_None good_value_def Let_def)
  then have "listOf value \<noteq> []"
    by (cases "ad_col_min d") (auto simp: good_columns_def count_number_def Let_def)
  then show ?thesis using assms(3) by (rule listOf_not_na)
next
  case False
  then have "Option.bind (ad_atomic d) aa_is_optional \<noteq> Some True" "normalizeType (ad_type d) \<noteq> ''AT_UNION_GROUP''"
    "normalizeType (ad_type d) \<notin> {''AT_STRUCT_GROUP'', ''ATTR_TYPE_UNSPECIFIED''}"
    using assms(1) by (auto simp: is_required_def isColumnType_def Let_def split: if_splits)
  then show ?thesis using assms(2) False
    by (auto simp: validateAttr_None good_value_def may_be_empty_def Let_def split: if_splits)
qed

lemma isConfigFinished_iff:
  "isConfigFinished nodeDef defs \<longleftrightarrow>
     (\<forall>d \<in> set defs. \<not> is_required d) \<or>
     (\<exists>nd paths attrs. nodeDef = Some nd \<and> configured_list nd ''attrPaths'' = Some paths \<and>
        configured_list nd ''attrs'' = Some attrs \<and>
        (\<forall>d \<in> set defs. is_required d \<longrightarrow> JStr (attrPathOf d) \<in> set paths \<longrightarrow>
           \<not> isNaValue (nodeDefToValueMap nodeDef (attrPathOf d))))"
  by (auto simp: isConfigFinished_def configured_list_def filter_empty_conv list_all_iff Let_def split: option.splits)

lemma valid_config_finished:
  assumes "nodeDef = Some nd" "configured_list nd ''attrPaths'' = Some paths" "configured_list nd ''attrs'' = Some attrs"
    and "\<forall>d \<in> set defs. validateAttr d (nodeDefToValueMap nodeDef (attrPathOf d)) = None"
    and "\<forall>d \<in> set defs. \<not> flagged (nodeDefToValueMap nodeDef (attrPathOf d))"
  shows "isConfigFinished nodeDef defs"
  using assms(1-3) assms(4,5) required_value_present unfolding isConfigFinished_iff by blast

section \<open>The columns of the inputs\<close>

text \<open>Which column attribute belongs to which input, and the names the inputs go by.\<close>

definition input_attrs :: "jsval \<Rightarrow> jsval list" where
  "input_attrs input = nullish (array_of (get_prop (obj_of input) ''attrs'')) []"

definition input_label :: "nat \<Rightarrow> jsval \<Rightarrow> string" where
  "input_label i input =
     (let n = get_prop (obj_of input) ''name'' in if is_nullish n then ''input_'' @ show_nat i else string_of n)"

definition is_column_def :: "attribute_def \<Rightarrow> bool" where
  "is_column_def d \<longleftrightarrow> ad_type d = JStr ''AT_SF_TABLE_COL''"

fun columns_of :: "nat \<Rightarrow> jsval list \<Rightarrow> attribute_def list" where
  "columns_of i [] = []"
| "columns_of i (input # inputs) =
     map (\<lambda>a. column_def i (input_label i input) (obj_of a)) (input_attrs input) @ columns_of (Suc i) inputs"

lemma column_def_is_column [simp]: "is_column_def (column_def i n a)"
  by (simp add: column_def_def is_column_def_def Let_def)

lemma group_def_no_column [simp]: "\<not> is_column_def (group_def p n d)"
  by (simp add: group_def_def is_column_def_def)

lemma input_defs_columns: "filter is_column_def (input_defs hasAny i inputs) = columns_of i inputs"
proof (induction hasAny i inputs rule: input_defs.induct)
  case (2 hasAny i input inputs)
  show ?case
  proof (cases "array_of (get_prop (obj_of input) ''attrs'')")
    case (Some attrs)
    then show ?thesis using 2 by (cases attrs) (auto simp: input_attrs_def input_label_def Let_def)
  qed (use 2 in \<open>simp add: input_attrs_def\<close>)
qed simp

lemma column_def_fields:
  "ad_fromInputIndex (column_def i n a) = Some (Fin (of_nat i))"
  "ad_prefixes (column_def i n a) = Some [''input'', n]"
  by (simp_all add: column_def_def Let_def)

lemma column_required_iff:
  "is_required (column_def i n a) \<longleftrightarrow>
     num_lt (Fin 0) (nullish (toNum (pick a [''col_min_cnt_inclusive'', ''colMinCntInclusive''])) (Fin 0))"
  by (simp add: is_required_def column_def_def normalizeType_def all_digits_def is_digit_def Let_def del: pick.simps)

end
