(* ===== verification/TidyLayout.thy ===== *)
theory TidyLayout
  imports Canvas "HOL-Library.Multiset"
begin

text \<open>
  The layout button of the canvas, \<open>tidyLayout\<close> of \<open>web/packages/dag-next/src/index.tsx\<close>: nodes are
  put in layers from left to right by repeatedly removing the nodes without pending inputs; what
  is left over (nodes on a cycle or behind one) forms a last layer.
\<close>

section \<open>The loop\<close>

text \<open>Edges between known nodes, in order; \<open>adjacency.get(id)\<close> lists the ends of those that start at \<open>id\<close>.\<close>

definition arcs_of :: "dag_node list \<Rightarrow> graph_edge list \<Rightarrow> (string \<times> string) list" where
  "arcs_of ns es =
     map (\<lambda>e. (edge_source e, edge_target e))
       (filter (\<lambda>e. edge_target e \<in> node_id ` set ns \<and> edge_source e \<in> node_id ` set ns) es)"

definition adjacency :: "(string \<times> string) list \<Rightarrow> string \<Rightarrow> string list" where
  "adjacency arcs s = map snd (filter (\<lambda>a. fst a = s) arcs)"

definition in_degree :: "(string \<times> string) list \<Rightarrow> string \<Rightarrow> nat" where
  "in_degree arcs t = length (filter (\<lambda>a. snd a = t) arcs)"

text \<open>
  The body of the inner loops over the targets of a layer: \<open>(inDegree.get(target) || 1) - 1\<close>, and
  the target is pushed when that is zero and it has not been visited.
\<close>

fun relax :: "string set \<Rightarrow> string list \<Rightarrow> (string \<Rightarrow> nat) \<Rightarrow> (string \<Rightarrow> nat) \<times> string list" where
  "relax vis [] deg = (deg, [])"
| "relax vis (t # ts) deg =
     (let d = (if deg t = 0 then 1 else deg t) - 1;
          (deg', pushed) = relax vis ts (deg(t := d))
      in (deg', (if d = 0 \<and> t \<notin> vis then [t] else []) @ pushed))"

lemma relax_Cons:
  "relax vis (t # ts) deg =
     (fst (relax vis ts (deg(t := deg t - 1))),
      (if deg t - 1 = 0 \<and> t \<notin> vis then [t] else []) @ snd (relax vis ts (deg(t := deg t - 1))))"
  by (simp add: Let_def split_beta)

lemma relax_pushed: "set (snd (relax vis ts deg)) \<subseteq> set ts - vis"
proof (induction ts arbitrary: deg)
  case (Cons t ts)
  then show ?case unfolding relax_Cons snd_conv set_append by auto
qed simp

definition layer_targets :: "(string \<times> string) list \<Rightarrow> string list \<Rightarrow> string list" where
  "layer_targets arcs queue = concat (map (adjacency arcs) queue)"

lemma set_layer_targets: "set (layer_targets arcs queue) = {t. \<exists>s \<in> set queue. (s, t) \<in> set arcs}"
  by (force simp: layer_targets_def adjacency_def)

lemma relax_in_arcs: "set (snd (relax vis (layer_targets arcs queue) deg)) \<subseteq> snd ` set arcs - vis"
proof -
  have "set (layer_targets arcs queue) \<subseteq> snd ` set arcs" by (force simp: set_layer_targets)
  with relax_pushed [of vis "layer_targets arcs queue" deg] show ?thesis by blast
qed

text \<open>How many rounds may follow: every second one at the latest visits a new node.\<close>

definition rounds_left :: "(string \<times> string) list \<Rightarrow> string list \<Rightarrow> string set \<Rightarrow> nat" where
  "rounds_left arcs queue vis =
     2 * card ((set queue \<union> snd ` set arcs) - vis) + (if queue \<noteq> [] \<and> set queue \<subseteq> vis then 1 else 0)"

lemma rounds_left_decrease:
  assumes "queue \<noteq> []" and pushed: "set pushed \<subseteq> snd ` set arcs - (vis \<union> set queue)"
  shows "rounds_left arcs pushed (vis \<union> set queue) < rounds_left arcs queue vis"
proof -
  let ?old = "(set queue \<union> snd ` set arcs) - vis"
  let ?new = "(set pushed \<union> snd ` set arcs) - (vis \<union> set queue)"
  have flag: "(if pushed \<noteq> [] \<and> set pushed \<subseteq> vis \<union> set queue then 1 else 0 :: nat) = 0"
    using pushed by (cases pushed) auto
  have "?new \<subseteq> ?old" using pushed by auto
  then have le: "card ?new \<le> card ?old" by (intro card_mono) auto
  show ?thesis
  proof (cases "set queue \<subseteq> vis")
    case True
    then show ?thesis using le flag assms(1) by (simp add: rounds_left_def)
  next
    case False
    then have "?new \<subset> ?old" using \<open>?new \<subseteq> ?old\<close> by blast
    then have "card ?new < card ?old" by (intro psubset_card_mono) auto
    then show ?thesis using flag by (simp add: rounds_left_def)
  qed
qed

text \<open>
  \<open>while (queue.length > 0)\<close>.  The loop ends for any in-degrees: what is pushed was not visited, so
  every second round at the latest visits a new node.
\<close>

function tidy_layers ::
  "(string \<times> string) list \<Rightarrow> string list \<Rightarrow> (string \<Rightarrow> nat) \<Rightarrow> string set \<Rightarrow> string list list \<times> string set" where
  "tidy_layers arcs queue deg vis =
     (if queue = [] then ([], vis)
      else let vis' = vis \<union> set queue;
               (deg', pushed) = relax vis' (layer_targets arcs queue) deg;
               (ls, seen) = tidy_layers arcs pushed deg' vis'
           in (queue # ls, seen))"
  by pat_completeness auto

termination
proof (relation "measure (\<lambda>(arcs, queue, deg, vis). rounds_left arcs queue vis)")
  fix arcs queue and deg :: "string \<Rightarrow> nat" and vis vis' x deg' pushed
  assume "queue \<noteq> []" "vis' = vis \<union> set queue" "x = relax vis' (layer_targets arcs queue) deg" "(deg', pushed) = x"
  moreover from this have "set pushed \<subseteq> snd ` set arcs - vis'"
    using relax_in_arcs [of vis' arcs queue deg] by (metis snd_conv)
  ultimately show "((arcs, pushed, deg', vis'), arcs, queue, deg, vis)
      \<in> measure (\<lambda>(arcs, queue, deg, vis). rounds_left arcs queue vis)"
    using rounds_left_decrease by simp
qed simp

declare tidy_layers.simps [simp del]

section \<open>Positions\<close>

definition all_layers :: "dag_node list \<Rightarrow> graph_edge list \<Rightarrow> string list list" where
  "all_layers ns es =
     (let arcs = arcs_of ns es; deg = in_degree arcs;
          (ls, vis) = tidy_layers arcs (map node_id (filter (\<lambda>n. deg (node_id n) = 0) ns)) deg {};
          unvisited = filter (\<lambda>n. node_id n \<notin> vis) ns
      in if unvisited \<noteq> [] then ls @ [map node_id unvisited] else ls)"

definition layer_nodes :: "(string \<rightharpoonup> dag_node) \<Rightarrow> nat \<Rightarrow> string list \<Rightarrow> dag_node list" where
  "layer_nodes m l layer =
     List.map_filter (\<lambda>(j, i). map_option (\<lambda>n. n\<lparr>node_x := 80 + of_nat l * 220,
         node_y := 60 + (300 - (of_nat (length layer) - 1) * 100 / 2) + of_nat j * 100\<rparr>) (m i))
       (enumerate 0 layer)"

definition tidyLayout :: "dag_node list \<Rightarrow> graph_edge list \<Rightarrow> dag_node list" where
  "tidyLayout ns es =
     (if ns = [] then ns
      else let m = map_set_all (map (\<lambda>n. (node_id n, n)) ns) in
        concat (map (\<lambda>(l, layer). layer_nodes m l layer) (enumerate 0 (all_layers ns es))))"

section \<open>The layers are a topological order\<close>

text \<open>Edges into \<open>t\<close> that have not been removed yet.\<close>

definition pending :: "(string \<times> string) list \<Rightarrow> string set \<Rightarrow> string \<Rightarrow> nat" where
  "pending arcs vis t = length (filter (\<lambda>a. snd a = t \<and> fst a \<notin> vis) arcs)"

lemma pending_empty: "pending arcs {} = in_degree arcs"
  by (simp add: fun_eq_iff pending_def in_degree_def)

lemma pending_0: "pending arcs vis t = 0 \<longleftrightarrow> (\<forall>s. (s, t) \<in> set arcs \<longrightarrow> s \<in> vis)"
  by (auto simp: pending_def filter_empty_conv)

lemma count_adjacency: "count_list (adjacency arcs s) t = length (filter (\<lambda>a. fst a = s \<and> snd a = t) arcs)"
  by (induction arcs) (auto simp: adjacency_def)

lemma pending_insert:
  "s \<notin> vis \<Longrightarrow> pending arcs vis t = pending arcs (insert s vis) t + count_list (adjacency arcs s) t"
  by (induction arcs) (auto simp: pending_def adjacency_def)

lemma pending_layer:
  "distinct queue \<Longrightarrow> set queue \<inter> vis = {} \<Longrightarrow>
   pending arcs vis t = pending arcs (vis \<union> set queue) t + count_list (layer_targets arcs queue) t"
proof (induction queue arbitrary: vis)
  case (Cons s queue)
  then have "pending arcs (insert s vis) t =
      pending arcs (insert s vis \<union> set queue) t + count_list (layer_targets arcs queue) t"
    by (intro Cons.IH) auto
  moreover have "pending arcs vis t = pending arcs (insert s vis) t + count_list (adjacency arcs s) t"
    using Cons.prems by (intro pending_insert) simp
  ultimately show ?case by (simp add: layer_targets_def)
qed (simp add: layer_targets_def)

text \<open>A round takes every target down by its multiplicity and pushes those that reach zero, once.\<close>

lemma relax_counts:
  assumes "\<And>t. count_list ts t \<le> deg t" "set ts \<inter> vis = {}"
  shows "fst (relax vis ts deg) = (\<lambda>t. deg t - count_list ts t) \<and>
    distinct (snd (relax vis ts deg)) \<and>
    set (snd (relax vis ts deg)) = {t \<in> set ts. deg t = count_list ts t}"
  using assms
proof (induction ts arbitrary: deg)
  case (Cons t ts)
  have pos: "0 < deg t" using Cons.prems(1) [of t] by simp
  define dg where "dg = deg(t := deg t - 1)"
  have dg: "dg u = (if u = t then deg t - 1 else deg u)" for u by (simp add: dg_def)
  note cons = relax_Cons [of vis t ts deg, folded dg_def]
  have le: "count_list ts u \<le> dg u" for u using Cons.prems(1) [of u] by (auto simp: dg split: if_splits)
  have fresh: "t \<notin> vis" "set ts \<inter> vis = {}" using Cons.prems(2) by auto
  note IH = Cons.IH [of dg, OF le fresh(2)]
  have "dg u - count_list ts u = deg u - count_list (t # ts) u" for u using pos by (auto simp: dg)
  then have "fst (relax vis (t # ts) deg) = (\<lambda>u. deg u - count_list (t # ts) u)"
    unfolding cons fst_conv using IH by (simp only:)
  moreover have zero: "t \<notin> set ts" if "deg t - 1 = 0"
    using Cons.prems(1) [of t] that pos by (auto simp: count_list_0_iff [symmetric])
  then have "distinct (snd (relax vis (t # ts) deg))"
    unfolding cons snd_conv
    using conjunct1 [OF conjunct2 [OF IH]] relax_pushed [of vis ts dg] by auto
  moreover have "u \<in> set (snd (relax vis (t # ts) deg)) \<longleftrightarrow> u \<in> set (t # ts) \<and> deg u = count_list (t # ts) u" for u
  proof -
    have "u \<in> set (snd (relax vis (t # ts) deg)) \<longleftrightarrow>
        (deg t - 1 = 0 \<and> u = t) \<or> (u \<in> set ts \<and> dg u = count_list ts u)"
      unfolding cons snd_conv set_append using IH fresh(1) by auto
    also have "\<dots> \<longleftrightarrow> u \<in> set (t # ts) \<and> deg u = count_list (t # ts) u"
    proof (cases "u = t")
      case True
      have "deg t - 1 = 0 \<Longrightarrow> count_list ts t = 0" using zero by (simp add: count_list_0_iff)
      moreover have "t \<in> set ts \<longleftrightarrow> 0 < count_list ts t" using count_list_0_iff [of ts t] by linarith
      ultimately show ?thesis using True pos by (auto simp: dg)
    qed (auto simp: dg)
    finally show ?thesis .
  qed
  ultimately show ?case by blast
qed simp

text \<open>The state of the loop at its head.\<close>

definition tidy_inv :: "string set \<Rightarrow> (string \<times> string) list \<Rightarrow> string list \<Rightarrow> (string \<Rightarrow> nat) \<Rightarrow> string set \<Rightarrow> bool" where
  "tidy_inv ids arcs queue deg vis \<longleftrightarrow>
     distinct queue \<and> deg = pending arcs vis \<and> vis \<subseteq> ids \<and>
     set queue = {t \<in> ids. t \<notin> vis \<and> pending arcs vis t = 0} \<and>
     (\<forall>t \<in> vis. pending arcs vis t = 0) \<and> set arcs \<subseteq> ids \<times> ids"

lemma tidy_inv_step:
  assumes inv: "tidy_inv ids arcs queue deg vis"
    and r: "relax (vis \<union> set queue) (layer_targets arcs queue) deg = (deg', pushed)"
  shows "tidy_inv ids arcs pushed deg' (vis \<union> set queue)"
proof -
  let ?vis = "vis \<union> set queue" and ?ts = "layer_targets arcs queue"
  have q: "distinct queue" "set queue \<inter> vis = {}" "deg = pending arcs vis" "set arcs \<subseteq> ids \<times> ids"
    and queue: "set queue = {t \<in> ids. t \<notin> vis \<and> pending arcs vis t = 0}"
    and old: "\<And>t. t \<in> vis \<Longrightarrow> pending arcs vis t = 0"
    using inv by (auto simp: tidy_inv_def)
  note split = pending_layer [OF q(1,2), of arcs]
  have le: "count_list ?ts t \<le> deg t" for t using split [of t] q(3) by simp
  have pos: "0 < pending arcs vis t" if "t \<in> set ?ts" for t
  proof -
    have "count_list ?ts t \<noteq> 0" using that by (simp add: count_list_0_iff)
    then show ?thesis using split [of t] by simp
  qed
  have fresh: "set ?ts \<inter> ?vis = {}" using pos old queue by fastforce
  note counts = relax_counts [OF le fresh, unfolded r fst_conv snd_conv]
  have deg': "deg' = pending arcs ?vis" using counts split q(3) by (auto simp: fun_eq_iff)
  have "t \<in> set pushed \<longleftrightarrow> t \<in> ids \<and> t \<notin> ?vis \<and> pending arcs ?vis t = 0" for t
  proof
    assume t: "t \<in> set pushed"
    then have "t \<in> set ?ts" "deg t = count_list ?ts t" using counts by auto
    moreover have "t \<in> ids" using \<open>t \<in> set ?ts\<close> q(4) by (auto simp: set_layer_targets)
    ultimately show "t \<in> ids \<and> t \<notin> ?vis \<and> pending arcs ?vis t = 0"
      using fresh split [of t] q(3) by auto
  next
    assume t: "t \<in> ids \<and> t \<notin> ?vis \<and> pending arcs ?vis t = 0"
    then have "pending arcs vis t \<noteq> 0" using queue by auto
    then have "count_list ?ts t \<noteq> 0" using split [of t] t by simp
    then have "t \<in> set ?ts" by (simp add: count_list_0_iff)
    then show "t \<in> set pushed" using counts split [of t] q(3) t by auto
  qed
  moreover have "pending arcs ?vis t = 0" if "t \<in> ?vis" for t
    using that old queue split [of t] by auto
  ultimately show ?thesis
    using counts deg' inv queue by (auto simp: tidy_inv_def)
qed

lemma tidy_layers_induct [consumes 1, case_names empty round]:
  assumes inv: "tidy_inv ids arcs queue deg vis"
    and "\<And>deg vis. tidy_inv ids arcs [] deg vis \<Longrightarrow> P [] deg vis [] vis"
    and "\<And>queue deg vis deg' pushed ls seen.
      queue \<noteq> [] \<Longrightarrow> tidy_inv ids arcs queue deg vis \<Longrightarrow> tidy_inv ids arcs pushed deg' (vis \<union> set queue) \<Longrightarrow>
      P pushed deg' (vis \<union> set queue) ls seen \<Longrightarrow> P queue deg vis (queue # ls) seen"
  shows "P queue deg vis (fst (tidy_layers arcs queue deg vis)) (snd (tidy_layers arcs queue deg vis))"
  using inv
proof (induction "rounds_left arcs queue vis" arbitrary: queue deg vis rule: less_induct)
  case less
  show ?case
  proof (cases "queue = []")
    case True
    then show ?thesis using assms(2) less.prems by (simp add: tidy_layers.simps)
  next
    case False
    obtain deg' pushed where r: "relax (vis \<union> set queue) (layer_targets arcs queue) deg = (deg', pushed)"
      by (cases "relax (vis \<union> set queue) (layer_targets arcs queue) deg")
    obtain ls seen where rec: "tidy_layers arcs pushed deg' (vis \<union> set queue) = (ls, seen)"
      by (cases "tidy_layers arcs pushed deg' (vis \<union> set queue)")
    have step: "tidy_layers arcs queue deg vis = (queue # ls, seen)"
      using False by (subst tidy_layers.simps) (simp add: Let_def r rec)
    have inv': "tidy_inv ids arcs pushed deg' (vis \<union> set queue)" by (rule tidy_inv_step [OF less.prems r])
    have "set pushed \<subseteq> snd ` set arcs - (vis \<union> set queue)"
      using relax_in_arcs [of "vis \<union> set queue" arcs queue deg] r by simp
    then have "rounds_left arcs pushed (vis \<union> set queue) < rounds_left arcs queue vis"
      by (rule rounds_left_decrease [OF False])
    from less.hyps [OF this inv'] have "P pushed deg' (vis \<union> set queue) ls seen" by (simp add: rec)
    then show ?thesis unfolding step fst_conv snd_conv by (rule assms(3) [OF False less.prems inv'])
  qed
qed

lemma tidy_layers_seen:
  "tidy_inv ids arcs queue deg vis \<Longrightarrow>
   snd (tidy_layers arcs queue deg vis) = vis \<union> set (concat (fst (tidy_layers arcs queue deg vis))) \<and>
   distinct (concat (fst (tidy_layers arcs queue deg vis))) \<and>
   set (concat (fst (tidy_layers arcs queue deg vis))) \<inter> vis = {} \<and>
   snd (tidy_layers arcs queue deg vis) \<subseteq> ids"
proof (induction rule: tidy_layers_induct)
  case (round queue deg vis deg' pushed ls seen)
  have "distinct queue" "set queue \<inter> vis = {}" using round.hyps(2) by (auto simp: tidy_inv_def)
  then show ?case using round.IH by auto
qed (simp add: tidy_inv_def)

text \<open>Everything is reached unless it waits for a node that was not.\<close>

lemma tidy_layers_rest:
  "tidy_inv ids arcs queue deg vis \<Longrightarrow>
   \<forall>t \<in> ids - snd (tidy_layers arcs queue deg vis). \<exists>s. s \<notin> snd (tidy_layers arcs queue deg vis) \<and> (s, t) \<in> set arcs"
proof (induction rule: tidy_layers_induct)
  case (empty deg vis)
  then show ?case using pending_0 [of arcs vis] by (auto simp: tidy_inv_def)
qed simp

text \<open>An edge into a layer comes from the visited nodes or from an earlier layer.\<close>

lemma tidy_layers_order:
  "tidy_inv ids arcs queue deg vis \<Longrightarrow>
   \<forall>j < length (fst (tidy_layers arcs queue deg vis)). \<forall>t \<in> set (fst (tidy_layers arcs queue deg vis) ! j).
     \<forall>s. (s, t) \<in> set arcs \<longrightarrow>
       s \<in> vis \<or> (\<exists>i < j. s \<in> set (fst (tidy_layers arcs queue deg vis) ! i))"
proof (induction rule: tidy_layers_induct)
  case (round queue deg vis deg' pushed ls seen)
  show ?case
  proof (intro allI impI ballI)
    fix j t s assume j: "j < length (queue # ls)" and t: "t \<in> set ((queue # ls) ! j)" and st: "(s, t) \<in> set arcs"
    show "s \<in> vis \<or> (\<exists>i < j. s \<in> set ((queue # ls) ! i))"
    proof (cases j)
      case 0
      then have "pending arcs vis t = 0" using t round.hyps(2) by (auto simp: tidy_inv_def)
      then show ?thesis using st pending_0 by metis
    next
      case (Suc k)
      then have "s \<in> vis \<union> set queue \<or> (\<exists>i < k. s \<in> set (ls ! i))"
        using round.IH j t st by simp
      then consider "s \<in> vis" | "s \<in> set queue" | i where "i < k" "s \<in> set (ls ! i)" by blast
      then show ?thesis
      proof cases
        case 2
        then show ?thesis using Suc by (intro disjI2 exI [of _ 0]) simp
      next
        case (3 i)
        then show ?thesis using Suc by (intro disjI2 exI [of _ "Suc i"]) simp
      qed simp
    qed
  qed
qed simp

section \<open>The layers of a canvas\<close>

definition node_ids :: "dag_node list \<Rightarrow> string set" where
  "node_ids ns = node_id ` set ns"

lemma arcs_of_mem: "(s, t) \<in> set (arcs_of ns es) \<longleftrightarrow> (s, t) \<in> edge_rel es \<and> s \<in> node_ids ns \<and> t \<in> node_ids ns"
proof
  assume "(s, t) \<in> set (arcs_of ns es)"
  then show "(s, t) \<in> edge_rel es \<and> s \<in> node_ids ns \<and> t \<in> node_ids ns"
    unfolding arcs_of_def edge_rel_def node_ids_def set_map set_filter by blast
next
  assume a: "(s, t) \<in> edge_rel es \<and> s \<in> node_ids ns \<and> t \<in> node_ids ns"
  then obtain e where "e \<in> set es" "edge_source e = s" "edge_target e = t" by (auto simp: edge_rel_def)
  then show "(s, t) \<in> set (arcs_of ns es)"
    using a unfolding arcs_of_def node_ids_def set_map set_filter by (intro image_eqI [of _ _ e]) simp_all
qed

abbreviation start_queue :: "dag_node list \<Rightarrow> graph_edge list \<Rightarrow> string list" where
  "start_queue ns es \<equiv> map node_id (filter (\<lambda>n. in_degree (arcs_of ns es) (node_id n) = 0) ns)"

abbreviation kahn :: "dag_node list \<Rightarrow> graph_edge list \<Rightarrow> string list list \<times> string set" where
  "kahn ns es \<equiv> tidy_layers (arcs_of ns es) (start_queue ns es) (in_degree (arcs_of ns es)) {}"

lemma start_inv:
  "distinct (map node_id ns) \<Longrightarrow>
   tidy_inv (node_ids ns) (arcs_of ns es) (start_queue ns es) (in_degree (arcs_of ns es)) {}"
  by (auto simp: tidy_inv_def pending_empty distinct_map_filter arcs_of_mem node_ids_def)

definition leftover :: "dag_node list \<Rightarrow> graph_edge list \<Rightarrow> dag_node list" where
  "leftover ns es = filter (\<lambda>n. node_id n \<notin> snd (kahn ns es)) ns"

lemma all_layers_eq:
  "all_layers ns es = fst (kahn ns es) @ (if leftover ns es \<noteq> [] then [map node_id (leftover ns es)] else [])"
  by (simp add: all_layers_def leftover_def Let_def split_beta)

lemma all_layers_cover:
  assumes "distinct (map node_id ns)"
  shows "set (concat (all_layers ns es)) = node_ids ns" and "distinct (concat (all_layers ns es))"
proof -
  note seen = tidy_layers_seen [OF start_inv [OF assms], of es]
  have rest: "set (map node_id (leftover ns es)) = node_ids ns - snd (kahn ns es)"
    by (auto simp: leftover_def node_ids_def)
  have eq: "concat (all_layers ns es) = concat (fst (kahn ns es)) @ map node_id (leftover ns es)"
    by (simp add: all_layers_eq)
  show "set (concat (all_layers ns es)) = node_ids ns"
    unfolding eq set_append rest using seen by auto
  have "distinct (map node_id (leftover ns es))"
    using assms by (simp add: leftover_def distinct_map_filter)
  moreover have "set (concat (fst (kahn ns es))) \<inter> set (map node_id (leftover ns es)) = {}"
    unfolding rest using seen by blast
  ultimately show "distinct (concat (all_layers ns es))"
    unfolding eq distinct_append using seen by blast
qed

lemma leftover_acyclic:
  assumes "distinct (map node_id ns)" and ac: "acyclic (edge_rel es)"
  shows "leftover ns es = []"
proof (rule ccontr)
  assume "leftover ns es \<noteq> []"
  define S where "S = node_ids ns - snd (kahn ns es)"
  have "S \<noteq> {}" using \<open>leftover ns es \<noteq> []\<close>
    by (auto simp: S_def leftover_def node_ids_def filter_empty_conv)
  have "wf (set (arcs_of ns es))"
  proof (rule finite_acyclic_wf)
    show "acyclic (set (arcs_of ns es))"
      by (rule acyclic_subset [OF ac]) (auto simp: arcs_of_mem)
  qed simp
  then obtain t where t: "t \<in> S" "\<And>s. (s, t) \<in> set (arcs_of ns es) \<Longrightarrow> s \<notin> S"
    using \<open>S \<noteq> {}\<close> by (meson all_not_in_conv wfE_min)
  then obtain s where s: "s \<notin> snd (kahn ns es)" "(s, t) \<in> set (arcs_of ns es)"
    using tidy_layers_rest [OF start_inv [OF assms(1)], of es] unfolding S_def by blast
  then have "s \<in> S" by (simp add: S_def arcs_of_mem)
  then show False using t(2) s(2) by blast
qed

lemma layer_order:
  assumes "distinct (map node_id ns)" "j < length (fst (kahn ns es))" "t \<in> set (all_layers ns es ! j)"
    and "(s, t) \<in> edge_rel es" "s \<in> node_ids ns"
  shows "\<exists>i < j. s \<in> set (all_layers ns es ! i)"
proof -
  have nth: "all_layers ns es ! i = fst (kahn ns es) ! i" if "i \<le> j" for i
    using that assms(2) by (simp add: all_layers_eq nth_append)
  have "t \<in> node_ids ns"
    using all_layers_cover(1) [OF assms(1), of es] assms(2,3) by (force simp: all_layers_eq nth_append)
  then have "(s, t) \<in> set (arcs_of ns es)" using assms(4,5) by (simp add: arcs_of_mem)
  then obtain i where "i < j" "s \<in> set (fst (kahn ns es) ! i)"
    using tidy_layers_order [OF start_inv [OF assms(1)], of es] assms(2,3) nth [of j] by fastforce
  then show ?thesis using nth [of i] by auto
qed

section \<open>The nodes drawn\<close>

definition layer_x :: "nat \<Rightarrow> rat" where
  "layer_x l = 80 + of_nat l * 220"

definition layer_y :: "nat \<Rightarrow> nat \<Rightarrow> rat" where
  "layer_y len j = 60 + (300 - (of_nat len - 1) * 100 / 2) + of_nat j * 100"

abbreviation moved_to :: "dag_node \<Rightarrow> rat \<Rightarrow> rat \<Rightarrow> dag_node" where
  "moved_to n x y \<equiv> n\<lparr>node_x := x, node_y := y\<rparr>"

definition node_map :: "dag_node list \<Rightarrow> (string \<rightharpoonup> dag_node)" where
  "node_map ns = map_set_all (map (\<lambda>n. (node_id n, n)) ns)"

lemma node_map_mem: "distinct (map node_id ns) \<Longrightarrow> n \<in> set ns \<Longrightarrow> node_map ns (node_id n) = Some n"
  unfolding node_map_def by (rule map_set_all_distinct) (simp_all add: comp_def)

lemma map_filter_all:
  "(\<And>x. x \<in> set xs \<Longrightarrow> f x = Some (g x)) \<Longrightarrow> List.map_filter f xs = map g xs"
  by (induction xs) (simp_all add: List.map_filter_simps)

lemma layer_nodes_eq:
  assumes "\<And>i. i \<in> set layer \<Longrightarrow> m i = Some (f i)"
  shows "layer_nodes m l layer =
    map (\<lambda>(j, i). moved_to (f i) (layer_x l) (layer_y (length layer) j)) (enumerate 0 layer)"
  unfolding layer_nodes_def
  using assms by (intro map_filter_all) (auto simp: in_set_enumerate_eq layer_x_def layer_y_def)

lemma set_enumerate_0: "set (enumerate 0 xs) = {(i, xs ! i) | i. i < length xs}"
  by (auto simp: in_set_enumerate_eq)

lemma map_enumerate_mem:
  "p \<in> set (map (\<lambda>(i, x). f i x) (enumerate 0 xs)) \<longleftrightarrow> (\<exists>i < length xs. p = f i (xs ! i))"
  unfolding set_map set_enumerate_0 by auto

lemma concat_enumerate_mem:
  "p \<in> set (concat (map (\<lambda>(l, x). f l x) (enumerate 0 xs))) \<longleftrightarrow> (\<exists>l < length xs. p \<in> set (f l (xs ! l)))"
  unfolding set_concat set_map set_enumerate_0 by auto

lemma tidyLayout_mem:
  assumes d: "distinct (map node_id ns)"
  shows "p \<in> set (tidyLayout ns es) \<longleftrightarrow>
    (\<exists>l j n. l < length (all_layers ns es) \<and> j < length (all_layers ns es ! l) \<and> n \<in> set ns \<and>
       node_id n = all_layers ns es ! l ! j \<and>
       p = moved_to n (layer_x l) (layer_y (length (all_layers ns es ! l)) j))"
proof (cases "ns = []")
  case True
  have "all_layers [] es = []" by (simp add: all_layers_def tidy_layers.simps)
  then show ?thesis by (simp add: True tidyLayout_def)
next
  case False
  let ?ls = "all_layers ns es" and ?m = "node_map ns"
  have known: "\<exists>n \<in> set ns. node_id n = i" if "l < length ?ls" "i \<in> set (?ls ! l)" for l i
    using that all_layers_cover(1) [OF d, of es] by (force simp: node_ids_def)
  have m: "?m i = Some (the (?m i))" if "l < length ?ls" "i \<in> set (?ls ! l)" for l i
    using known [OF that] node_map_mem [OF d] by fastforce
  have "p \<in> set (tidyLayout ns es) \<longleftrightarrow> (\<exists>l < length ?ls. p \<in> set (layer_nodes ?m l (?ls ! l)))"
    unfolding tidyLayout_def node_map_def [symmetric] Let_def if_not_P [OF False]
    by (rule concat_enumerate_mem)
  also have "\<dots> \<longleftrightarrow> (\<exists>l < length ?ls. \<exists>j < length (?ls ! l).
      p = moved_to (the (?m (?ls ! l ! j))) (layer_x l) (layer_y (length (?ls ! l)) j))"
  proof -
    have "p \<in> set (layer_nodes ?m l (?ls ! l)) \<longleftrightarrow>
        (\<exists>j < length (?ls ! l). p = moved_to (the (?m (?ls ! l ! j))) (layer_x l) (layer_y (length (?ls ! l)) j))"
      if "l < length ?ls" for l
    proof -
      have "layer_nodes ?m l (?ls ! l) = map (\<lambda>(j, i). moved_to (the (?m i)) (layer_x l) (layer_y (length (?ls ! l)) j))
          (enumerate 0 (?ls ! l))"
        by (rule layer_nodes_eq) (rule m [OF that])
      then show ?thesis by (simp only: map_enumerate_mem)
    qed
    then show ?thesis by blast
  qed
  also have "\<dots> \<longleftrightarrow> (\<exists>l j n. l < length ?ls \<and> j < length (?ls ! l) \<and> n \<in> set ns \<and> node_id n = ?ls ! l ! j \<and>
      p = moved_to n (layer_x l) (layer_y (length (?ls ! l)) j))" (is "?L = ?R")
  proof
    assume ?L
    then obtain l j where lj: "l < length ?ls" "j < length (?ls ! l)"
      "p = moved_to (the (?m (?ls ! l ! j))) (layer_x l) (layer_y (length (?ls ! l)) j)" by blast
    obtain n where "n \<in> set ns" "node_id n = ?ls ! l ! j" using known lj(1,2) by (meson nth_mem)
    then show ?R using lj node_map_mem [OF d] by (metis option.sel)
  next
    assume ?R
    then show ?L using node_map_mem [OF d] by (metis option.sel)
  qed
  finally show ?thesis .
qed

text \<open>No two nodes overlap: boxes are 144 wide and 64 high.\<close>

definition boxes_apart :: "dag_node \<Rightarrow> dag_node \<Rightarrow> bool" where
  "boxes_apart p q \<longleftrightarrow> 144 < \<bar>node_x p - node_x q\<bar> \<or> 64 < \<bar>node_y p - node_y q\<bar>"

lemma grid_apart: "i \<noteq> j \<Longrightarrow> 1 \<le> \<bar>(of_nat i :: rat) - of_nat j\<bar>"
proof -
  assume "i \<noteq> j"
  then have "1 \<le> \<bar>int i - int j\<bar>" by linarith
  then have "(1 :: rat) \<le> of_int \<bar>int i - int j\<bar>" by (simp only: of_int_1_le_iff)
  then show ?thesis by simp
qed

lemma layer_x_apart: "l \<noteq> l' \<Longrightarrow> 220 \<le> \<bar>layer_x l - layer_x l'\<bar>"
  using grid_apart [of l l'] by (auto simp: layer_x_def abs_if split: if_splits)

lemma layer_y_apart: "j \<noteq> j' \<Longrightarrow> 100 \<le> \<bar>layer_y n j - layer_y n j'\<bar>"
  using grid_apart [of j j'] by (auto simp: layer_y_def abs_if split: if_splits)

lemma tidyLayout_apart:
  assumes "distinct (map node_id ns)" "p \<in> set (tidyLayout ns es)" "q \<in> set (tidyLayout ns es)" "node_id p \<noteq> node_id q"
  shows "boxes_apart p q"
proof -
  obtain l j n l' j' n' where
    p: "l < length (all_layers ns es)" "j < length (all_layers ns es ! l)" "node_id n = all_layers ns es ! l ! j"
      "p = moved_to n (layer_x l) (layer_y (length (all_layers ns es ! l)) j)" and
    q: "l' < length (all_layers ns es)" "j' < length (all_layers ns es ! l')" "node_id n' = all_layers ns es ! l' ! j'"
      "q = moved_to n' (layer_x l') (layer_y (length (all_layers ns es ! l')) j')"
    using assms(2,3) unfolding tidyLayout_mem [OF assms(1)] by metis
  show ?thesis
  proof (cases "l = l'")
    case True
    then have "j \<noteq> j'" using p q assms(4) by auto
    from layer_y_apart [OF this, of "length (all_layers ns es ! l)"] True show ?thesis
      by (simp add: boxes_apart_def p(4) q(4))
  next
    case False
    from layer_x_apart [OF this] show ?thesis by (simp add: boxes_apart_def p(4) q(4))
  qed
qed

text \<open>The edges of an acyclic canvas run from left to right.\<close>

lemma nth_layer_unique:
  assumes "distinct (concat ls)" "i < length ls" "j < length ls" "x \<in> set (ls ! i)" "x \<in> set (ls ! j)"
  shows "i = j"
  using assms
proof (induction ls arbitrary: i j)
  case (Cons l ls)
  have out: "x \<notin> set l" if "k < length ls" "x \<in> set (ls ! k)" for k
  proof
    assume "x \<in> set l"
    moreover have "x \<in> set (concat ls)" using that nth_mem [OF that(1)] by auto
    moreover have "set l \<inter> set (concat ls) = {}" using Cons.prems(1) by simp
    ultimately show False by blast
  qed
  show ?case
  proof (cases i)
    case 0
    with Cons.prems out show ?thesis by (cases j) auto
  next
    case (Suc i')
    with Cons.prems out have "j \<noteq> 0" by (cases j) auto
    with Cons.prems Cons.IH [of i' "j - 1"] Suc show ?thesis by (cases j) auto
  qed
qed simp

lemma tidyLayout_left_to_right:
  assumes d: "distinct (map node_id ns)" and ac: "acyclic (edge_rel es)"
    and p: "p \<in> set (tidyLayout ns es)" and q: "q \<in> set (tidyLayout ns es)"
    and e: "(node_id p, node_id q) \<in> edge_rel es"
  shows "node_x p + 220 \<le> node_x q"
proof -
  let ?ls = "all_layers ns es"
  obtain l j n where
    lp: "l < length ?ls" "j < length (?ls ! l)" "n \<in> set ns" "node_id n = ?ls ! l ! j"
      "p = moved_to n (layer_x l) (layer_y (length (?ls ! l)) j)"
    using p unfolding tidyLayout_mem [OF d] by metis
  obtain l' j' n' where
    lq: "l' < length ?ls" "j' < length (?ls ! l')" "n' \<in> set ns" "node_id n' = ?ls ! l' ! j'"
      "q = moved_to n' (layer_x l') (layer_y (length (?ls ! l')) j')"
    using q unfolding tidyLayout_mem [OF d] by metis
  have ls: "?ls = fst (kahn ns es)" using leftover_acyclic [OF d ac] by (simp add: all_layers_eq)
  have mem: "node_id p \<in> set (?ls ! l)" "node_id q \<in> set (?ls ! l')"
    using lp(2,4,5) lq(2,4,5) by (simp_all add: nth_mem)
  have "node_id p \<in> node_ids ns" using lp(3,5) by (auto simp: node_ids_def)
  then obtain i where i: "i < l'" "node_id p \<in> set (?ls ! i)"
    using layer_order [OF d _ mem(2) e] lq(1) ls by auto
  then have "i = l"
    using nth_layer_unique [OF all_layers_cover(2) [OF d]] mem(1) lp(1) lq(1) by (meson less_trans)
  then have "of_nat l + 1 \<le> (of_nat l' :: rat)"
    using i(1) by (metis Suc_eq_plus1 Suc_leI of_nat_1 of_nat_add of_nat_le_iff)
  then show ?thesis by (simp add: lp(5) lq(5) layer_x_def)
qed

text \<open>Only the position of a node changes, and every node is drawn.\<close>

definition same_node :: "dag_node \<Rightarrow> dag_node \<Rightarrow> bool" where
  "same_node p n \<longleftrightarrow> moved_to p 0 0 = moved_to n 0 0"

lemma tidyLayout_keeps:
  assumes d: "distinct (map node_id ns)"
  shows "\<forall>p \<in> set (tidyLayout ns es). \<exists>n \<in> set ns. same_node p n"
    and "\<forall>n \<in> set ns. \<exists>p \<in> set (tidyLayout ns es). same_node p n"
proof -
  show "\<forall>p \<in> set (tidyLayout ns es). \<exists>n \<in> set ns. same_node p n"
  proof
    fix p assume "p \<in> set (tidyLayout ns es)"
    then obtain n x y where "n \<in> set ns" "p = moved_to n x y" unfolding tidyLayout_mem [OF d] by blast
    then show "\<exists>n \<in> set ns. same_node p n" by (intro bexI [of _ n]) (simp_all add: same_node_def)
  qed
  show "\<forall>n \<in> set ns. \<exists>p \<in> set (tidyLayout ns es). same_node p n"
  proof
    fix n assume n: "n \<in> set ns"
    then have "node_id n \<in> set (concat (all_layers ns es))"
      using all_layers_cover(1) [OF d] by (simp add: node_ids_def)
    then obtain l j where "l < length (all_layers ns es)" "j < length (all_layers ns es ! l)"
      "node_id n = all_layers ns es ! l ! j"
      by (auto simp: in_set_conv_nth)
    then have "moved_to n (layer_x l) (layer_y (length (all_layers ns es ! l)) j) \<in> set (tidyLayout ns es)"
      unfolding tidyLayout_mem [OF d] using n by blast
    then show "\<exists>p \<in> set (tidyLayout ns es). same_node p n"
      by (rule bexI [rotated]) (simp add: same_node_def)
  qed
qed

text \<open>Every node is drawn once.\<close>

lemma map_id_layer_nodes:
  assumes "\<And>i. i \<in> set layer \<Longrightarrow> \<exists>n. m i = Some n \<and> node_id n = i"
  shows "map node_id (layer_nodes m l layer) = layer"
proof -
  have m: "m i = Some (the (m i))" "node_id (the (m i)) = i" if "i \<in> set layer" for i
    using assms [OF that] by auto
  have "map node_id (layer_nodes m l layer) = map (\<lambda>(j, i). node_id (the (m i))) (enumerate 0 layer)"
  proof -
    have "layer_nodes m l layer =
        map (\<lambda>(j, i). moved_to (the (m i)) (layer_x l) (layer_y (length layer) j)) (enumerate 0 layer)"
      by (rule layer_nodes_eq) (rule m(1))
    then show ?thesis by (simp add: comp_def split_beta)
  qed
  also have "\<dots> = map (\<lambda>(j, i). i) (enumerate 0 layer)"
    using m(2) by (auto simp: in_set_enumerate_eq)
  also have "\<dots> = layer" by (simp add: case_prod_beta')
  finally show ?thesis .
qed

lemma tidyLayout_ids:
  assumes d: "distinct (map node_id ns)" and ne: "ns \<noteq> []"
  shows "map node_id (tidyLayout ns es) = concat (all_layers ns es)"
proof -
  have known: "\<exists>n. node_map ns i = Some n \<and> node_id n = i" if "l < length (all_layers ns es)" "i \<in> set (all_layers ns es ! l)" for l i
  proof -
    have "i \<in> node_ids ns" using that all_layers_cover(1) [OF d, of es] by force
    then show ?thesis using node_map_mem [OF d] by (auto simp: node_ids_def)
  qed
  have layer: "map node_id (layer_nodes (node_map ns) l x) = x" if "(l, x) \<in> set (enumerate 0 (all_layers ns es))" for l x
  proof -
    have "l < length (all_layers ns es)" "x = all_layers ns es ! l" using that by (auto simp: set_enumerate_0)
    then show ?thesis using known by (intro map_id_layer_nodes) auto
  qed
  have "map node_id (tidyLayout ns es) =
      concat (map (\<lambda>(l, x). map node_id (layer_nodes (node_map ns) l x)) (enumerate 0 (all_layers ns es)))"
    unfolding tidyLayout_def node_map_def [symmetric] Let_def if_not_P [OF ne] map_concat map_map
    by (simp add: comp_def case_prod_beta')
  also have "map (\<lambda>(l, x). map node_id (layer_nodes (node_map ns) l x)) (enumerate 0 (all_layers ns es)) =
      map (\<lambda>(l, x). x) (enumerate 0 (all_layers ns es))"
    using layer by (intro map_cong) auto
  also have "\<dots> = all_layers ns es" by (simp add: case_prod_beta')
  finally show ?thesis .
qed

lemma tidyLayout_distinct: "distinct (map node_id ns) \<Longrightarrow> distinct (map node_id (tidyLayout ns es))"
  using tidyLayout_ids [of ns es] all_layers_cover(2) [of ns es] by (cases "ns = []") (simp_all add: tidyLayout_def)

text \<open>Every round of the loop places a node, so there are no more rounds than nodes.\<close>

lemma tidy_layers_nonempty: "l \<in> set (fst (tidy_layers arcs queue deg vis)) \<Longrightarrow> l \<noteq> []"
proof (induction arcs queue deg vis rule: tidy_layers.induct)
  case (1 arcs queue deg vis)
  obtain deg' pushed where r: "relax (vis \<union> set queue) (layer_targets arcs queue) deg = (deg', pushed)" by fastforce
  obtain ls seen where t: "tidy_layers arcs pushed deg' (vis \<union> set queue) = (ls, seen)" by fastforce
  show ?case
  proof (cases "queue = []")
    case True
    then show ?thesis using "1.prems" by (simp add: tidy_layers.simps [of arcs "[]"])
  next
    case False
    then have "fst (tidy_layers arcs queue deg vis) = queue # ls"
      by (simp add: tidy_layers.simps [of arcs queue] r t Let_def)
    then have "l = queue \<or> l \<in> set ls" using "1.prems" by simp
    then show ?thesis using False "1.IH" [OF False refl r [symmetric] refl] t by auto
  qed
qed

lemma length_le_concat: "(\<And>l. l \<in> set ls \<Longrightarrow> l \<noteq> []) \<Longrightarrow> length ls \<le> length (concat ls)"
proof (induction ls)
  case (Cons l ls)
  from Cons.prems [of l] have "1 \<le> length l" by (cases l) auto
  with Cons show ?case by simp
qed simp

lemma all_layers_nonempty: "l \<in> set (all_layers ns es) \<Longrightarrow> l \<noteq> []"
  using tidy_layers_nonempty by (fastforce simp: all_layers_def Let_def split_beta split: if_splits)

lemma all_layers_bounded:
  assumes "distinct (map node_id ns)"
  shows "length (all_layers ns es) \<le> length ns"
proof -
  have "length (all_layers ns es) \<le> length (concat (all_layers ns es))"
    by (rule length_le_concat) (rule all_layers_nonempty)
  also have "\<dots> = card (node_ids ns)"
    using all_layers_cover [OF assms] by (metis distinct_card)
  also have "\<dots> \<le> length ns" by (simp add: node_ids_def card_image_le card_length le_trans [OF card_image_le])
  finally show ?thesis .
qed

lemma all_layers_mset:
  assumes "distinct (map node_id ns)"
  shows "mset (concat (all_layers ns es)) = mset (map node_id ns)"
proof -
  have "set (concat (all_layers ns es)) = set (map node_id ns)"
    unfolding all_layers_cover(1) [OF assms] by (simp add: node_ids_def)
  then show ?thesis using set_eq_iff_mset_eq_distinct [OF all_layers_cover(2) [OF assms] assms] by blast
qed

lemma tidyLayout_same_ids:
  assumes "distinct (map node_id ns)"
  shows "node_id ` set (tidyLayout ns es) = node_id ` set ns"
proof (cases "ns = []")
  case False
  have "node_id ` set (tidyLayout ns es) = set (map node_id (tidyLayout ns es))" by simp
  also have "\<dots> = node_ids ns" unfolding tidyLayout_ids [OF assms False] by (rule all_layers_cover [OF assms])
  finally show ?thesis by (simp add: node_ids_def)
qed (simp add: tidyLayout_def)

end
