(* ===== verification/CanvasEditor.thy ===== *)
theory CanvasEditor
  imports GraphImport TidyLayout
begin

text \<open>
  The editing session of the canvas, \<open>web/packages/dag-next/src/index.tsx\<close>: the undo and redo
  stacks around the operations that change nodes and edges, copy and paste, adding, dragging,
  tidying and configuring nodes, and \<open>allocateNodeIds\<close> of \<open>web/apps/secretpad/src/pages/dag/index.tsx\<close>.
  React applies the state changes of one event before the next event is handled, so an event is
  one step on the canvas and its stacks.
\<close>

section \<open>State\<close>

record editor =
  ed_canvas :: canvas
  ed_undo :: "canvas list"
  ed_redo :: "canvas list"
  ed_canUndo :: bool
  ed_canRedo :: bool
  ed_clipboard :: "dag_node list option"
  ed_drag :: "(string \<times> bool) option"

text \<open>A workspace is mounted afresh for every graph.\<close>

definition mount :: "canvas \<Rightarrow> editor" where
  "mount c = \<lparr>ed_canvas = c, ed_undo = [], ed_redo = [], ed_canUndo = False, ed_canRedo = False,
     ed_clipboard = None, ed_drag = None\<rparr>"

section \<open>Undo and redo\<close>

definition HISTORY_LIMIT :: nat where "HISTORY_LIMIT = 50"

definition pushHistory :: "editor \<Rightarrow> editor" where
  "pushHistory st =
     (let u = ed_undo st @ [ed_canvas st] in
      st\<lparr>ed_undo := (if length u > HISTORY_LIMIT then tl u else u), ed_redo := [],
         ed_canUndo := True, ed_canRedo := False\<rparr>)"

definition handleUndo :: "editor \<Rightarrow> editor" where
  "handleUndo st =
     (if ed_undo st = [] then st
      else let u = butlast (ed_undo st) in
        st\<lparr>ed_undo := u, ed_redo := ed_redo st @ [ed_canvas st], ed_canvas := last (ed_undo st),
           ed_canUndo := u \<noteq> [], ed_canRedo := True\<rparr>)"

definition handleRedo :: "editor \<Rightarrow> editor" where
  "handleRedo st =
     (if ed_redo st = [] then st
      else let r = butlast (ed_redo st) in
        st\<lparr>ed_redo := r, ed_undo := ed_undo st @ [ed_canvas st], ed_canvas := last (ed_redo st),
           ed_canRedo := r \<noteq> [], ed_canUndo := True\<rparr>)"

section \<open>Copies\<close>

text \<open>\<open>rewrite(a)\<close>: an anchor of the source becomes the same anchor of the copy.\<close>

definition rewrite_anchor :: "string \<Rightarrow> string \<Rightarrow> string \<Rightarrow> string" where
  "rewrite_anchor old new a =
     (if starts_with a (old @ ''-'') then new @ ''-'' @ drop (length old + 1) a else a)"

definition clone_node :: "rat \<Rightarrow> dag_node \<Rightarrow> string \<Rightarrow> dag_node" where
  "clone_node offset src i = src\<lparr>
     node_id := i, node_x := node_x src + offset, node_y := node_y src + offset,
     node_status := Ready, node_progress := None, node_inputs := Some [],
     node_outputs := Some (map (rewrite_anchor (node_id src) i) (nullish (node_outputs src) [])),
     node_ports := Some (map (\<lambda>p. p\<lparr>port_id := rewrite_anchor (node_id src) i (port_id p)\<rparr>) (nullish (node_ports src) [])),
     node_results := Some (map (\<lambda>r. r\<lparr>ro_id := rewrite_anchor (node_id src) i (ro_id r)\<rparr>) (nullish (node_results src) [])),
     node_def := (if isModificationNode (node_codeName src) then clearNodeDefAttrs (node_def src) else node_def src)\<rparr>"

text \<open>\<open>cloneNodes(sources)\<close> with the identifiers the host allocated, one for each source.\<close>

definition cloneNodes :: "dag_node list \<Rightarrow> string list \<Rightarrow> dag_node list" where
  "cloneNodes sources ids = map2 (clone_node 40) sources ids"

text \<open>
  \<open>allocateNodeIds(count)\<close>: the indices after the largest one in use, locally or on the server;
  \<open>None\<close> when the request fails.
\<close>

definition allocateNodeIds :: "string \<Rightarrow> string list \<Rightarrow> nat option \<Rightarrow> nat \<Rightarrow> string list" where
  "allocateNodeIds graphId current server cnt =
     (let local = maxNodeIndex current;
          mx = (case server of Some s \<Rightarrow> max local s | None \<Rightarrow> max local 32)
      in map (\<lambda>i. nodeIdOf graphId (mx + i + 1)) [0..<cnt])"

section \<open>Edits\<close>

datatype edit =
    Edges canvas_op
  | Paste "string list"
  | Duplicate string string
  | AddNode dag_node "(rat \<times> rat) option"
  | Tidy
  | Import "dag_node list" "graph_edge list" "string list"

definition add_nodes :: "dag_node list \<Rightarrow> canvas \<Rightarrow> canvas" where
  "add_nodes ns c = c\<lparr>canvas_nodes := canvas_nodes c @ ns\<rparr>"

text \<open>\<open>None\<close>: the handler returns before it records history.\<close>

fun edge_edit :: "canvas_op \<Rightarrow> canvas \<Rightarrow> canvas option" where
  "edge_edit (Connect s t x) c = (case handleConnect s t x c of Inl _ \<Rightarrow> None | Inr c' \<Rightarrow> Some c')"
| "edge_edit (DeleteEdge i) c =
     (if List.find (\<lambda>e. edge_id e = i) (canvas_edges c) = None then None else Some (handleDeleteEdge i c))"
| "edge_edit (DeleteNodes ids) c = (if ids = [] then None else Some (handleDeleteNodes ids c))"

text \<open>\<open>handlePasteNode\<close>, \<open>handleDuplicateNode\<close>, \<open>addNode\<close>, \<open>handleTidyLayout\<close>: what they set after recording history.\<close>

definition paste_result :: "string list \<Rightarrow> editor \<Rightarrow> canvas option" where
  "paste_result ids st =
     (if nullish (ed_clipboard st) [] = [] then None
      else Some (add_nodes (cloneNodes (nullish (ed_clipboard st) []) ids) (ed_canvas st)))"

definition duplicate_result :: "string \<Rightarrow> string \<Rightarrow> editor \<Rightarrow> canvas option" where
  "duplicate_result i new st =
     (case node_of (ed_canvas st) i of
        None \<Rightarrow> None
      | Some n \<Rightarrow> Some (add_nodes (cloneNodes [n] [new]) (ed_canvas st)))"

definition add_result :: "dag_node \<Rightarrow> (rat \<times> rat) option \<Rightarrow> editor \<Rightarrow> canvas option" where
  "add_result n pos st =
     Some (add_nodes [case pos of None \<Rightarrow> n | Some (x, y) \<Rightarrow> n\<lparr>node_x := x, node_y := y\<rparr>] (ed_canvas st))"

definition tidy_result :: "editor \<Rightarrow> canvas option" where
  "tidy_result st =
     Some (ed_canvas st\<lparr>canvas_nodes := tidyLayout (canvas_nodes (ed_canvas st)) (canvas_edges (ed_canvas st))\<rparr>)"

declare paste_result_def [simp] duplicate_result_def [simp] add_result_def [simp] tidy_result_def [simp]

fun edit_result :: "edit \<Rightarrow> editor \<Rightarrow> canvas option" where
  "edit_result (Edges op) st = edge_edit op (ed_canvas st)"
| "edit_result (Paste ids) st = paste_result ids st"
| "edit_result (Duplicate i new) st = duplicate_result i new st"
| "edit_result (AddNode n pos) st = add_result n pos st"
| "edit_result Tidy st = tidy_result st"
| "edit_result (Import ns es ids) st = Some (applyImportedGraph ns es ids)"

definition run_edit :: "edit \<Rightarrow> editor \<Rightarrow> editor" where
  "run_edit ed st =
     (case edit_result ed st of None \<Rightarrow> st | Some c \<Rightarrow> (pushHistory st)\<lparr>ed_canvas := c\<rparr>)"

section \<open>Dragging and configuring\<close>

text \<open>\<open>Math.round\<close>: half up.\<close>

definition js_round :: "rat \<Rightarrow> int" where
  "js_round r = floor (r + 1 / 2)"

definition snapValue :: "bool \<Rightarrow> rat \<Rightarrow> rat" where
  "snapValue snapping v = (if snapping then of_int (js_round (v / 16)) * 16 else v)"

definition map_node :: "string \<Rightarrow> (dag_node \<Rightarrow> dag_node) \<Rightarrow> canvas \<Rightarrow> canvas" where
  "map_node i f c = c\<lparr>canvas_nodes := map (\<lambda>n. if node_id n = i then f n else n) (canvas_nodes c)\<rparr>"

definition place_node :: "rat \<Rightarrow> rat \<Rightarrow> dag_node \<Rightarrow> dag_node" where
  "place_node x y n = n\<lparr>node_x := x, node_y := y\<rparr>"

text \<open>
  \<open>handleMouseMove\<close>: nothing happens before the pointer has moved past the threshold; the first
  move beyond it records history.  The place is the pointer in canvas coordinates less the grip.
\<close>

definition handleMouseMove :: "bool \<Rightarrow> rat \<Rightarrow> rat \<Rightarrow> editor \<Rightarrow> editor" where
  "handleMouseMove far x y st =
     (case ed_drag st of
        None \<Rightarrow> st
      | Some (i, moved) \<Rightarrow>
          if \<not> moved \<and> \<not> far then st
          else let st1 = (if moved then st else (pushHistory st)\<lparr>ed_drag := Some (i, True)\<rparr>)
               in st1\<lparr>ed_canvas := map_node i (place_node (max 0 x) (max 0 y)) (ed_canvas st1)\<rparr>)"

definition handleMouseUp :: "bool \<Rightarrow> editor \<Rightarrow> editor" where
  "handleMouseUp snapping st =
     (case ed_drag st of
        None \<Rightarrow> st
      | Some (i, moved) \<Rightarrow>
          let st1 = st\<lparr>ed_drag := None\<rparr> in
          if \<not> moved then st1
          else (case node_of (ed_canvas st1) i of
              None \<Rightarrow> st1
            | Some n \<Rightarrow> st1\<lparr>ed_canvas := map_node i
                (\<lambda>_. place_node (of_int (js_round (snapValue snapping (node_x n))))
                       (of_int (js_round (snapValue snapping (node_y n)))) n) (ed_canvas st1)\<rparr>))"

definition handleNodeMouseDown :: "bool \<Rightarrow> string \<Rightarrow> editor \<Rightarrow> editor" where
  "handleNodeMouseDown ro i st = (if ro then st else st\<lparr>ed_drag := Some (i, False)\<rparr>)"

text \<open>\<open>handleCopyNode\<close>: the selected nodes, or the one node; the clipboard keeps their values.\<close>

definition handleCopyNode :: "string list \<Rightarrow> editor \<Rightarrow> editor" where
  "handleCopyNode ids st =
     st\<lparr>ed_clipboard := Some (filter (\<lambda>n. node_id n \<in> set ids) (canvas_nodes (ed_canvas st)))\<rparr>"

text \<open>The configuration form replaces the definition of the selected node and records no history.\<close>

definition configured_as :: "jsobj \<Rightarrow> bool option \<Rightarrow> dag_node \<Rightarrow> dag_node" where
  "configured_as d finished n =
     n\<lparr>node_def := Some d,
       node_configFinished := (case finished of Some f \<Rightarrow> Some f | None \<Rightarrow> node_configFinished n)\<rparr>"

definition handleNodeDefObjectChange :: "string \<Rightarrow> jsobj \<Rightarrow> bool option \<Rightarrow> editor \<Rightarrow> editor" where
  "handleNodeDefObjectChange i d meta st = st\<lparr>ed_canvas := map_node i (configured_as d meta) (ed_canvas st)\<rparr>"

declare handleNodeMouseDown_def [simp] handleCopyNode_def [simp] handleNodeDefObjectChange_def [simp]

section \<open>Events\<close>

datatype event =
    Edit edit
  | UndoKey
  | RedoKey
  | CopyNodes "string list"
  | MouseDown string
  | MouseMove bool rat rat
  | MouseUp bool
  | Configure string jsobj "bool option"
  | Server canvas

text \<open>
  The handlers of a read-only canvas return at once, except the undo and redo buttons, which are
  not guarded, copying, and the server's own updates.
\<close>

fun editor_step :: "bool \<Rightarrow> editor \<Rightarrow> event \<Rightarrow> editor" where
  "editor_step ro st (Edit ed) = (if ro then st else run_edit ed st)"
| "editor_step ro st UndoKey = handleUndo st"
| "editor_step ro st RedoKey = handleRedo st"
| "editor_step ro st (CopyNodes ids) = handleCopyNode ids st"
| "editor_step ro st (MouseDown i) = handleNodeMouseDown ro i st"
| "editor_step ro st (MouseMove far x y) = handleMouseMove far x y st"
| "editor_step ro st (MouseUp snapping) = handleMouseUp snapping st"
| "editor_step ro st (Configure i d meta) = handleNodeDefObjectChange i d meta st"
| "editor_step ro st (Server c) = st\<lparr>ed_canvas := c\<rparr>"

definition editor_run :: "bool \<Rightarrow> editor \<Rightarrow> event list \<Rightarrow> editor" where
  "editor_run ro = foldl (editor_step ro)"

section \<open>The stacks are bounded and the buttons tell the truth\<close>

definition history_ok :: "editor \<Rightarrow> bool" where
  "history_ok st \<longleftrightarrow>
     length (ed_undo st) + length (ed_redo st) \<le> HISTORY_LIMIT \<and>
     (ed_canUndo st \<longleftrightarrow> ed_undo st \<noteq> []) \<and> (ed_canRedo st \<longleftrightarrow> ed_redo st \<noteq> [])"

lemma history_ok_mount [simp]: "history_ok (mount c)"
  by (simp add: history_ok_def mount_def)

lemma history_ok_update [simp]:
  "history_ok (st\<lparr>ed_canvas := c\<rparr>) = history_ok st"
  "history_ok (st\<lparr>ed_drag := d\<rparr>) = history_ok st"
  "history_ok (st\<lparr>ed_clipboard := cb\<rparr>) = history_ok st"
  by (simp_all add: history_ok_def)

lemma history_ok_push [simp]: "history_ok st \<Longrightarrow> history_ok (pushHistory st)"
  by (cases "ed_undo st") (auto simp: history_ok_def pushHistory_def HISTORY_LIMIT_def Let_def)

lemma history_ok_undo [simp]: "history_ok st \<Longrightarrow> history_ok (handleUndo st)"
  by (cases "ed_undo st" rule: rev_cases) (auto simp: history_ok_def handleUndo_def Let_def)

lemma history_ok_redo [simp]: "history_ok st \<Longrightarrow> history_ok (handleRedo st)"
  by (cases "ed_redo st" rule: rev_cases) (auto simp: history_ok_def handleRedo_def Let_def)

lemma history_ok_step: "history_ok st \<Longrightarrow> history_ok (editor_step ro st ev)"
  by (cases ev)
     (auto simp: run_edit_def handleMouseMove_def handleMouseUp_def Let_def split: option.splits)

lemma editor_run_inv:
  "P st \<Longrightarrow> (\<And>st ev. ev \<in> set evs \<Longrightarrow> P st \<Longrightarrow> P (editor_step ro st ev)) \<Longrightarrow> P (editor_run ro st evs)"
  unfolding editor_run_def by (induction evs arbitrary: st) auto

lemma history_ok_run: "history_ok (editor_run ro (mount c) evs)"
  by (rule editor_run_inv) (simp_all add: history_ok_step)

section \<open>A list of versions with a cursor\<close>

text \<open>
  What the user sees of the stacks: the versions of the canvas in the order they came about, and
  the place of the present one.
\<close>

record versions =
  vs_list :: "canvas list"
  vs_at :: nat

definition versions_of :: "editor \<Rightarrow> versions" where
  "versions_of st = \<lparr>vs_list = ed_undo st @ ed_canvas st # rev (ed_redo st), vs_at = length (ed_undo st)\<rparr>"

definition vs_now :: "versions \<Rightarrow> canvas" where
  "vs_now v = vs_list v ! vs_at v"

definition vs_back :: "versions \<Rightarrow> versions" where
  "vs_back v = v\<lparr>vs_at := vs_at v - 1\<rparr>"

definition vs_forward :: "versions \<Rightarrow> versions" where
  "vs_forward v = (if Suc (vs_at v) < length (vs_list v) then v\<lparr>vs_at := Suc (vs_at v)\<rparr> else v)"

text \<open>A new version drops those after the present one, and the oldest beyond the limit.\<close>

definition vs_record :: "canvas \<Rightarrow> versions \<Rightarrow> versions" where
  "vs_record c v =
     (let l = take (Suc (vs_at v)) (vs_list v) @ [c];
          l' = (if length l > Suc HISTORY_LIMIT then tl l else l)
      in \<lparr>vs_list = l', vs_at = length l' - 1\<rparr>)"

definition vs_replace :: "canvas \<Rightarrow> versions \<Rightarrow> versions" where
  "vs_replace c v = v\<lparr>vs_list := (vs_list v)[vs_at v := c]\<rparr>"

lemma versions_now [simp]: "vs_now (versions_of st) = ed_canvas st"
  by (simp add: vs_now_def versions_of_def)

lemma versions_undo: "versions_of (handleUndo st) = vs_back (versions_of st)"
  by (cases "ed_undo st" rule: rev_cases) (simp_all add: versions_of_def handleUndo_def vs_back_def Let_def)

lemma versions_redo: "versions_of (handleRedo st) = vs_forward (versions_of st)"
  by (cases "ed_redo st" rule: rev_cases) (simp_all add: versions_of_def handleRedo_def vs_forward_def Let_def)

lemma versions_record: "versions_of ((pushHistory st)\<lparr>ed_canvas := c\<rparr>) = vs_record c (versions_of st)"
  by (cases "ed_undo st") (auto simp: versions_of_def pushHistory_def vs_record_def Let_def)

lemma versions_replace: "versions_of (st\<lparr>ed_canvas := c\<rparr>) = vs_replace c (versions_of st)"
  by (simp add: versions_of_def vs_replace_def list_update_append)

lemma versions_frame [simp]:
  "versions_of (st\<lparr>ed_drag := d\<rparr>) = versions_of st" "versions_of (st\<lparr>ed_clipboard := cb\<rparr>) = versions_of st"
  by (simp_all add: versions_of_def)

text \<open>What an event does to the versions: a simulation of every step.\<close>

datatype vs_event = Stay | Back | Forward | Record canvas | Replace canvas

fun vs_apply :: "vs_event \<Rightarrow> versions \<Rightarrow> versions" where
  "vs_apply Stay v = v"
| "vs_apply Back v = vs_back v"
| "vs_apply Forward v = vs_forward v"
| "vs_apply (Record c) v = vs_record c v"
| "vs_apply (Replace c) v = vs_replace c v"

fun vs_event_of :: "bool \<Rightarrow> editor \<Rightarrow> event \<Rightarrow> vs_event" where
  "vs_event_of ro st (Edit ed) =
     (if ro then Stay else case edit_result ed st of None \<Rightarrow> Stay | Some c \<Rightarrow> Record c)"
| "vs_event_of ro st UndoKey = Back"
| "vs_event_of ro st RedoKey = Forward"
| "vs_event_of ro st (MouseMove far x y) =
     (case ed_drag st of
        None \<Rightarrow> Stay
      | Some (i, moved) \<Rightarrow>
          if \<not> moved \<and> \<not> far then Stay
          else (if moved then Replace else Record) (map_node i (place_node (max 0 x) (max 0 y)) (ed_canvas st)))"
| "vs_event_of ro st (MouseUp snapping) = Replace (ed_canvas (handleMouseUp snapping st))"
| "vs_event_of ro st (Configure i d meta) = Replace (map_node i (configured_as d meta) (ed_canvas st))"
| "vs_event_of ro st (Server c) = Replace c"
| "vs_event_of ro st _ = Stay"

lemma pushHistory_canvas [simp]: "ed_canvas (pushHistory st) = ed_canvas st"
  by (simp add: pushHistory_def Let_def)

lemma versions_move: "versions_of (handleMouseMove far x y st) = vs_apply (vs_event_of ro st (MouseMove far x y)) (versions_of st)"
proof (cases "ed_drag st")
  case (Some p)
  obtain i moved where p: "p = (i, moved)" by (cases p)
  let ?c = "map_node i (place_node (max 0 x) (max 0 y)) (ed_canvas st)"
  have "versions_of ((pushHistory st)\<lparr>ed_drag := d, ed_canvas := ?c\<rparr>) = vs_record ?c (versions_of st)" for d
    using versions_record [where st = st and c = ?c] by (simp add: versions_of_def)
  then show ?thesis
    by (simp add: handleMouseMove_def Some p Let_def versions_replace)
qed (simp add: handleMouseMove_def)

lemma versions_up: "versions_of (handleMouseUp snapping st) = vs_replace (ed_canvas (handleMouseUp snapping st)) (versions_of st)"
proof -
  have keep: "ed_undo (handleMouseUp snapping st) = ed_undo st" "ed_redo (handleMouseUp snapping st) = ed_redo st"
    by (auto simp: handleMouseUp_def Let_def split: option.splits)
  show ?thesis by (simp add: versions_of_def vs_replace_def list_update_append keep)
qed

lemma versions_simulate: "versions_of (editor_step ro st ev) = vs_apply (vs_event_of ro st ev) (versions_of st)"
proof (cases ev)
  case (Edit ed)
  then show ?thesis by (simp add: run_edit_def versions_record split: option.split)
next
  case (MouseMove far x y)
  then show ?thesis using versions_move [where ro = ro] by simp
qed (simp_all add: versions_undo versions_redo versions_replace versions_up)

section \<open>Undoing a series of edits\<close>

text \<open>Every edit of the series is carried out.\<close>

fun all_recorded :: "editor \<Rightarrow> edit list \<Rightarrow> bool" where
  "all_recorded st [] = True"
| "all_recorded st (ed # eds) = (edit_result ed st \<noteq> None \<and> all_recorded (run_edit ed st) eds)"

definition ends_with :: "versions \<Rightarrow> canvas \<Rightarrow> nat \<Rightarrow> bool" where
  "ends_with v c k \<longleftrightarrow> (\<exists>pre cs. vs_list v = pre @ c # cs \<and> length cs = k \<and> vs_at v = length pre + k)"

lemma ends_with_record:
  assumes "ends_with v c k" "k < HISTORY_LIMIT"
  shows "ends_with (vs_record d v) c (Suc k)"
proof -
  obtain pre cs where v: "vs_list v = pre @ c # cs" "length cs = k" "vs_at v = length pre + k"
    using assms(1) by (auto simp: ends_with_def)
  then have l: "take (Suc (vs_at v)) (vs_list v) @ [d] = pre @ c # (cs @ [d])" by simp
  show ?thesis
  proof (cases "length (pre @ c # (cs @ [d])) > Suc HISTORY_LIMIT")
    case True
    then have "pre \<noteq> []" using v(2) assms(2) by auto
    then have "tl (pre @ c # (cs @ [d])) = tl pre @ c # (cs @ [d])" by simp
    then show ?thesis
      unfolding ends_with_def vs_record_def Let_def l using True v(2)
      by (intro exI [of _ "tl pre"] exI [of _ "cs @ [d]"]) simp
  next
    case False
    then show ?thesis
      unfolding ends_with_def vs_record_def Let_def l using v(2)
      by (intro exI [of _ pre] exI [of _ "cs @ [d]"]) simp
  qed
qed

lemma ends_with_start: "ends_with (versions_of st\<lparr>vs_list := take (Suc (vs_at (versions_of st))) (vs_list (versions_of st))\<rparr>) (ed_canvas st) 0"
  by (auto simp: ends_with_def versions_of_def)

lemma vs_record_trims:
  "vs_record d (v\<lparr>vs_list := take (Suc (vs_at v)) (vs_list v)\<rparr>) = vs_record d v"
  by (simp add: vs_record_def)

lemma run_edit_recorded:
  "edit_result ed st \<noteq> None \<Longrightarrow> \<exists>d. versions_of (run_edit ed st) = vs_record d (versions_of st)"
  by (auto simp: run_edit_def versions_record)

lemma run_edits_end:
  "all_recorded st eds \<Longrightarrow> ends_with (versions_of st) c k \<Longrightarrow> k + length eds \<le> HISTORY_LIMIT \<Longrightarrow>
   ends_with (versions_of (foldl (\<lambda>st ed. run_edit ed st) st eds)) c (k + length eds)"
proof (induction eds arbitrary: st k)
  case (Cons ed eds)
  obtain d where "versions_of (run_edit ed st) = vs_record d (versions_of st)"
    using run_edit_recorded Cons.prems(1) by auto
  then have "ends_with (versions_of (run_edit ed st)) c (Suc k)"
    using ends_with_record [OF Cons.prems(2)] Cons.prems(3) by simp
  from Cons.IH [OF _ this] Cons.prems show ?case by simp
qed simp

lemma first_edit_end:
  assumes "edit_result ed st \<noteq> None"
  shows "ends_with (versions_of (run_edit ed st)) (ed_canvas st) 1"
proof -
  obtain d where "versions_of (run_edit ed st) = vs_record d (versions_of st)"
    using run_edit_recorded [OF assms] by blast
  then show ?thesis
    using ends_with_record [OF ends_with_start [of st], of d] by (simp add: vs_record_trims HISTORY_LIMIT_def)
qed

lemma edits_end:
  assumes "all_recorded st eds" "length eds \<le> HISTORY_LIMIT" "eds \<noteq> []"
  shows "ends_with (versions_of (foldl (\<lambda>st ed. run_edit ed st) st eds)) (ed_canvas st) (length eds)"
proof (cases eds)
  case (Cons ed eds')
  then have "ends_with (versions_of (run_edit ed st)) (ed_canvas st) 1"
    using assms(1) by (intro first_edit_end) simp
  from run_edits_end [OF _ this, of eds'] assms Cons show ?thesis by simp
qed (use assms in simp)

lemma undo_times: "versions_of ((handleUndo ^^ k) st) = (versions_of st)\<lparr>vs_at := vs_at (versions_of st) - k\<rparr>"
  by (induction k) (simp_all add: versions_undo vs_back_def)

lemma redo_times:
  "vs_at (versions_of st) + k < length (vs_list (versions_of st)) \<Longrightarrow>
   versions_of ((handleRedo ^^ k) st) = (versions_of st)\<lparr>vs_at := vs_at (versions_of st) + k\<rparr>"
  by (induction k) (simp_all add: versions_redo vs_forward_def)

lemma undo_redo_edits:
  assumes "all_recorded st eds" "length eds \<le> HISTORY_LIMIT"
  defines "st' \<equiv> foldl (\<lambda>st ed. run_edit ed st) st eds"
  shows "ed_canvas ((handleUndo ^^ length eds) st') = ed_canvas st \<and>
    ed_canvas ((handleRedo ^^ length eds) ((handleUndo ^^ length eds) st')) = ed_canvas st'"
proof (cases "eds = []")
  case False
  from edits_end [OF assms(1,2) this] obtain pre cs where
    v: "vs_list (versions_of st') = pre @ ed_canvas st # cs" "length cs = length eds"
       "vs_at (versions_of st') = length pre + length eds"
    unfolding st'_def ends_with_def by blast
  let ?undone = "(handleUndo ^^ length eds) st'"
  have eq: "versions_of ?undone = (versions_of st')\<lparr>vs_at := length pre\<rparr>" by (simp add: undo_times v(3))
  have "ed_canvas ?undone = vs_now (versions_of ?undone)" by simp
  also have "\<dots> = ed_canvas st" by (simp add: eq vs_now_def v(1))
  finally have undone_now: "ed_canvas ?undone = ed_canvas st" .
  have "versions_of ((handleRedo ^^ length eds) ?undone) = versions_of st'"
    using v by (subst redo_times) (simp_all add: eq)
  then have "vs_now (versions_of ((handleRedo ^^ length eds) ?undone)) = vs_now (versions_of st')" by simp
  with undone_now show ?thesis by simp
qed (simp add: st'_def)

end
