(* ===== verification/CanvasSession.thy ===== *)
theory CanvasSession
  imports CanvasEditor
begin

text \<open>
  Every state a session can reach is consistent: the present canvas and every version on the undo
  and redo stacks satisfy the invariant of \<open>Canvas\<close>, have distinct node identifiers, and only
  have edges between their own nodes.  The host's part is stated as a condition on events: new
  nodes get fresh identifiers, which is what \<open>allocateNodeIds\<close> provides.
\<close>

section \<open>Good canvases\<close>

definition canvas_ids :: "canvas \<Rightarrow> string set" where
  "canvas_ids c = node_id ` set (canvas_nodes c)"

definition edges_known :: "canvas \<Rightarrow> bool" where
  "edges_known c \<longleftrightarrow> (\<forall>e \<in> set (canvas_edges c). edge_source e \<in> canvas_ids c \<and> edge_target e \<in> canvas_ids c)"

definition canvas_good :: "canvas \<Rightarrow> bool" where
  "canvas_good c \<longleftrightarrow> canvas_inv c \<and> distinct (map node_id (canvas_nodes c)) \<and> edges_known c"

lemma canvas_good_empty [simp]: "canvas_good \<lparr>canvas_nodes = [], canvas_edges = []\<rparr>"
  by (simp add: canvas_good_def canvas_inv_def canvas_ok_def edges_known_def edge_rel_def acyclic_def)

lemma deriveInputs_none: "(\<And>e. e \<in> set es \<Longrightarrow> edge_target e \<noteq> n) \<Longrightarrow> deriveInputs n es = []"
proof -
  assume *: "\<And>e. e \<in> set es \<Longrightarrow> edge_target e \<noteq> n"
  have "fills n es = fills n []" using * by (induction es) (auto simp: fill_of_other)
  then have "deriveInputs n es = deriveInputs n []" by (rule deriveInputs_cong)
  then show ?thesis by (simp add: deriveInputs_def)
qed

text \<open>Changing nodes without touching identifiers and inputs keeps a canvas good.\<close>

lemma canvas_good_map:
  assumes "canvas_good c" and f: "\<And>n. node_id (f n) = node_id n \<and> node_inputs (f n) = node_inputs n"
  shows "canvas_good (c\<lparr>canvas_nodes := map f (canvas_nodes c)\<rparr>)"
proof -
  have ids: "map node_id (map f (canvas_nodes c)) = map node_id (canvas_nodes c)" using f by simp
  then have "node_id ` set (map f (canvas_nodes c)) = node_id ` set (canvas_nodes c)" by (metis list.set_map)
  moreover have "distinct (map (node_id \<circ> f) (canvas_nodes c))"
    using assms(1) ids unfolding canvas_good_def map_map by metis
  ultimately show ?thesis
    using assms by (auto simp: canvas_good_def canvas_inv_def canvas_ok_def edges_known_def canvas_ids_def)
qed

lemma map_node_good:
  "canvas_good c \<Longrightarrow> (\<And>n. node_id n = i \<Longrightarrow> node_id (f n) = i \<and> node_inputs (f n) = node_inputs n) \<Longrightarrow>
   canvas_good (map_node i f c)"
  unfolding map_node_def by (rule canvas_good_map) auto

lemma add_nodes_good:
  assumes "canvas_good c" and d: "distinct (map node_id ns)" "node_id ` set ns \<inter> canvas_ids c = {}"
    and inputs: "\<And>n. n \<in> set ns \<Longrightarrow> nullish (node_inputs n) [] = []"
  shows "canvas_good (add_nodes ns c)"
proof -
  have "deriveInputs (node_id n) (canvas_edges c) = []" if "n \<in> set ns" for n
    using assms(1) d(2) that by (intro deriveInputs_none) (auto simp: canvas_good_def edges_known_def)
  then show ?thesis
    using assms by (auto simp: canvas_good_def canvas_inv_def canvas_ok_def add_nodes_def edges_known_def canvas_ids_def)
qed

section \<open>Edge operations\<close>

lemma edge_edit_apply: "edge_edit op c = Some c' \<Longrightarrow> apply_op c op = c'"
  by (cases op) (auto split: sum.splits if_splits)

definition op_known :: "canvas \<Rightarrow> canvas_op \<Rightarrow> bool" where
  "op_known c op \<longleftrightarrow>
     (case op of Connect s t x \<Rightarrow> s \<in> canvas_ids c \<and> t \<in> canvas_ids c \<and> CHR ''_'' \<notin> set t | _ \<Rightarrow> True)"

lemma op_known_names: "op_known c op \<Longrightarrow> op_names_ok op"
  by (cases op) (simp_all add: op_known_def)

lemma commitEdge_ids: "map node_id (canvas_nodes (commitEdge e c)) = map node_id (canvas_nodes c)"
  by (simp add: commitEdge_def Let_def)

lemma ids_of_map: "map node_id ns = map node_id ns' \<Longrightarrow> node_id ` set ns = node_id ` set ns'"
  by (metis list.set_map)

lemma edge_edit_good:
  assumes c: "canvas_good c" and op: "op_known c op" and r: "edge_edit op c = Some c'"
  shows "canvas_good c'"
proof -
  have inv: "canvas_inv c'"
    using apply_op_inv [of c op] c op_known_names [OF op] edge_edit_apply [OF r] by (simp add: canvas_good_def)
  show ?thesis
  proof (cases op)
    case (Connect s t x)
    then have "handleConnect s t x c = Inr c'" using r by (simp split: sum.splits)
    then obtain sa ta where c': "c' = commitEdge (new_edge s t sa ta) c" using handleConnect_commits by blast
    have "canvas_ids c' = canvas_ids c"
      unfolding canvas_ids_def c' by (rule ids_of_map [OF commitEdge_ids])
    moreover have "canvas_edges c' = canvas_edges c @ [new_edge s t sa ta]" by (simp add: c' commitEdge_def Let_def)
    moreover have "map node_id (canvas_nodes c') = map node_id (canvas_nodes c)" unfolding c' by (rule commitEdge_ids)
    ultimately show ?thesis
      using inv c op Connect by (auto simp: canvas_good_def edges_known_def op_known_def new_edge_def)
  next
    case (DeleteEdge i)
    then have c': "c' = handleDeleteEdge i c" using r by (simp split: if_splits)
    have ids: "map node_id (canvas_nodes c') = map node_id (canvas_nodes c)"
      by (auto simp: c' handleDeleteEdge_def Let_def split: option.splits)
    have "set (canvas_edges c') \<subseteq> set (canvas_edges c)"
      by (auto simp: c' handleDeleteEdge_def Let_def split: option.splits)
    then show ?thesis using inv c ids ids_of_map [OF ids] by (auto simp: canvas_good_def edges_known_def canvas_ids_def)
  next
    case (DeleteNodes ds)
    then have c': "c' = handleDeleteNodes ds c" "ds \<noteq> []" using r by (simp_all split: if_splits)
    have ids: "map node_id (canvas_nodes c') = filter (\<lambda>i. i \<notin> set ds) (map node_id (canvas_nodes c))"
      using c'(2) by (simp add: c'(1) handleDeleteNodes_def Let_def filter_map comp_def)
    have "canvas_ids c' = set (map node_id (canvas_nodes c'))" by (simp add: canvas_ids_def)
    then have "canvas_ids c' = canvas_ids c - set ds" unfolding ids by (auto simp: canvas_ids_def)
    moreover have "\<forall>e \<in> set (canvas_edges c'). e \<in> set (canvas_edges c) \<and> edge_source e \<notin> set ds \<and> edge_target e \<notin> set ds"
      using c'(2) by (simp add: c'(1) handleDeleteNodes_def Let_def)
    moreover have "distinct (map node_id (canvas_nodes c'))" using c by (simp add: ids canvas_good_def)
    ultimately show ?thesis using inv c by (auto simp: canvas_good_def edges_known_def)
  qed
qed

section \<open>Copies\<close>

lemma clone_node_fields [simp]:
  "node_id (clone_node off n i) = i" "node_inputs (clone_node off n i) = Some []"
  "node_status (clone_node off n i) = Ready"
  by (simp_all add: clone_node_def)

lemma cloneNodes_ids: "length ids = length ns \<Longrightarrow> map node_id (cloneNodes ns ids) = ids"
  by (induction ns ids rule: list_induct2') (simp_all add: cloneNodes_def)

lemma cloneNodes_inputs: "n \<in> set (cloneNodes ns ids) \<Longrightarrow> node_inputs n = Some []"
  by (auto simp: cloneNodes_def in_set_zip)

lemma rewrite_own_anchor [simp]:
  "rewrite_anchor n m (inputAnchor n i) = inputAnchor m i"
  "rewrite_anchor n m (outputAnchor n i) = outputAnchor m i"
  by (simp_all add: rewrite_anchor_def inputAnchor_def outputAnchor_def starts_with_def)

text \<open>A copy of a node with the ports of a component has the ports that component gives the new identifier.\<close>

lemma rewrite_buildPorts:
  "map (\<lambda>p. p\<lparr>port_id := rewrite_anchor n m (port_id p)\<rparr>) (buildPorts n def) = buildPorts m def"
  by (cases def) (simp_all add: buildPorts_def comp_def split_beta)

lemma rewrite_buildResultOutputs:
  "map (\<lambda>r. r\<lparr>ro_id := rewrite_anchor n m (ro_id r)\<rparr>) (buildResultOutputs n def) = buildResultOutputs m def"
  by (cases def) (simp_all add: buildResultOutputs_def comp_def split_beta)

lemma rewrite_buildOutputIds: "map (rewrite_anchor n m) (buildOutputIds n def) = buildOutputIds m def"
  by (simp add: buildOutputIds_def comp_def split_beta)

lemma clone_like_fresh:
  assumes "node_ports n = Some (buildPorts (node_id n) def)" "node_outputs n = Some (buildOutputIds (node_id n) def)"
    "node_results n = Some (buildResultOutputs (node_id n) def)"
  shows "node_ports (clone_node off n m) = Some (buildPorts m def) \<and>
    node_outputs (clone_node off n m) = Some (buildOutputIds m def) \<and>
    node_results (clone_node off n m) = Some (buildResultOutputs m def)"
  using assms
  by (simp add: clone_node_def rewrite_buildPorts rewrite_buildOutputIds rewrite_buildResultOutputs)

section \<open>Fresh identifiers\<close>

lemma allocateNodeIds_fresh:
  "distinct (allocateNodeIds g ids server k) \<and> length (allocateNodeIds g ids server k) = k \<and>
   set (allocateNodeIds g ids server k) \<inter> set ids = {}"
proof -
  define mx where "mx = (case server of Some s \<Rightarrow> max (maxNodeIndex ids) s | None \<Rightarrow> max (maxNodeIndex ids) 32)"
  have alloc: "allocateNodeIds g ids server k = map (\<lambda>i. nodeIdOf g (mx + i + 1)) [0..<k]"
    by (simp add: allocateNodeIds_def mx_def Let_def)
  have "nodeIdOf g (mx + i + 1) \<notin> set ids" for i
  proof
    assume "nodeIdOf g (mx + i + 1) \<in> set ids"
    from maxNodeIndex_ge [OF this] have "mx + i + 1 \<le> maxNodeIndex ids" by simp
    moreover have "maxNodeIndex ids \<le> mx" by (simp add: mx_def split: option.split)
    ultimately show False by simp
  qed
  then show ?thesis unfolding alloc by (auto simp: distinct_map inj_on_def)
qed

section \<open>Importing\<close>

definition importable :: "dag_node list \<Rightarrow> graph_edge list \<Rightarrow> string list \<Rightarrow> bool" where
  "importable ns es ids \<longleftrightarrow>
     proper_ids ns ids \<and> (\<forall>i \<in> set ids. CHR ''_'' \<notin> set i) \<and> acyclic (edge_rel es) \<and>
     distinct (map target_anchor es) \<and> (\<forall>e \<in> set es. edge_ok e) \<and>
     (\<forall>e \<in> set es. \<forall>e' \<in> set es. parseAnchor (target_anchor e) = parseAnchor (target_anchor e') \<longrightarrow>
        target_anchor e = target_anchor e')"

lemma remap_edge_fields:
  "edge_source (remap_edge m e) = the (m (edge_source e))" "edge_target (remap_edge m e) = the (m (edge_target e))"
  "source_anchor (remap_edge m e) = remap_anchor m (source_anchor e)"
  "target_anchor (remap_edge m e) = remap_anchor m (target_anchor e)"
  by (simp_all add: remap_edge_def Let_def)

lemma parse_truthy: "parseAnchor a = Some p \<Longrightarrow> truthy a"
  by (auto simp: parseAnchor_def truthy_iff split: option.splits if_splits)

lemma remap_edge_named:
  assumes "edge_ok e"
  shows "named_by_anchors (remap_edge m e)"
proof -
  have "truthy (source_anchor e)" "truthy (target_anchor e)"
    using assms parse_truthy by (auto simp: edge_ok_def)
  then have "truthy (remap_anchor m (source_anchor e))" "truthy (remap_anchor m (target_anchor e))" by simp_all
  then show ?thesis by (auto simp: named_by_anchors_def remap_edge_def Let_def truthy_iff)
qed

lemma import_good:
  assumes imp: "importable ns es ids"
  shows "canvas_good (applyImportedGraph ns es ids)"
proof -
  let ?m = "id_map ns ids" and ?c = "applyImportedGraph ns es ids"
  have p: "proper_ids ns ids" using imp by (simp add: importable_def)
  have ok: "canvas_ok ?c" using imp by (intro applyImportedGraph_ok) (auto simp: importable_def)
  have edges: "canvas_edges ?c = map (remap_edge ?m) (kept ns es)"
    using remap_edges_kept [OF p, of es] by (simp add: applyImportedGraph_def split_beta)
  have len: "length ids = length ns" using p by (simp add: proper_ids_def)
  have "map node_id (canvas_nodes ?c) = map (\<lambda>n. the (?m (node_id n))) ns"
    by (simp add: applyImportedGraph_def remapImportedGraph_def Let_def remap_node_def comp_def)
  also have "\<dots> = ids"
    using id_map_nth [OF p] len by (intro nth_equalityI) simp_all
  finally have ids: "map node_id (canvas_nodes ?c) = ids" .
  then have ids_set: "canvas_ids ?c = set ids" unfolding canvas_ids_def by (metis list.set_map)
  have "named_by_anchors e \<and> edge_source e \<in> set ids \<and> edge_target e \<in> set ids" if mem: "e \<in> set (canvas_edges ?c)" for e
  proof -
    obtain e0 where e0: "e = remap_edge ?m e0" "e0 \<in> set es" "edge_source e0 \<in> node_id ` set ns" "edge_target e0 \<in> node_id ` set ns"
      using mem unfolding edges kept_def set_map set_filter by blast
    obtain x y where xy: "?m (edge_source e0) = Some x" "?m (edge_target e0) = Some y"
      using id_map_defined [OF p] e0(3,4) by metis
    have "named_by_anchors e" unfolding e0(1) using imp e0(2) by (intro remap_edge_named) (simp add: importable_def)
    with xy id_map_props(1) [OF p xy(1)] id_map_props(1) [OF p xy(2)] show ?thesis
      by (simp add: e0(1) remap_edge_fields)
  qed
  moreover have "CHR ''_'' \<notin> set i" if "i \<in> set ids" for i using that imp by (simp add: importable_def)
  moreover have "distinct ids" using p by (simp add: proper_ids_def)
  ultimately show ?thesis
    using ok ids by (auto simp: canvas_good_def canvas_inv_def edges_known_def ids_set)
qed

section \<open>Tidying\<close>

lemma tidy_good:
  assumes c: "canvas_good c"
  shows "canvas_good (c\<lparr>canvas_nodes := tidyLayout (canvas_nodes c) (canvas_edges c)\<rparr>)"
proof -
  let ?ns = "canvas_nodes c" and ?ps = "tidyLayout (canvas_nodes c) (canvas_edges c)"
  have d: "distinct (map node_id ?ns)" using c by (simp add: canvas_good_def)
  have same: "node_id p = node_id n \<and> node_inputs p = node_inputs n" if "same_node p n" for p n
    using that by (cases p, cases n) (simp add: same_node_def)
  have ids: "node_id ` set ?ps = node_id ` set ?ns"
  proof (intro equalityI subsetI)
    fix i assume "i \<in> node_id ` set ?ps"
    then obtain p where "p \<in> set ?ps" "i = node_id p" by blast
    then show "i \<in> node_id ` set ?ns" using tidyLayout_keeps(1) [OF d] same by (metis imageI)
  next
    fix i assume "i \<in> node_id ` set ?ns"
    then obtain n where "n \<in> set ?ns" "i = node_id n" by blast
    then show "i \<in> node_id ` set ?ps" using tidyLayout_keeps(2) [OF d] same by (metis imageI)
  qed
  have "nullish (node_inputs p) [] = deriveInputs (node_id p) (canvas_edges c)" if "p \<in> set ?ps" for p
  proof -
    obtain n where "n \<in> set ?ns" "same_node p n" using tidyLayout_keeps(1) [OF d] \<open>p \<in> set ?ps\<close> by blast
    then show ?thesis using c same [of p n] by (simp add: canvas_good_def canvas_inv_def canvas_ok_def)
  qed
  moreover have "distinct (map node_id ?ps)" by (rule tidyLayout_distinct [OF d])
  ultimately show ?thesis
    using c ids by (simp add: canvas_good_def canvas_inv_def canvas_ok_def edges_known_def canvas_ids_def)
qed

section \<open>Sessions\<close>

fun edit_ok :: "editor \<Rightarrow> edit \<Rightarrow> bool" where
  "edit_ok st (Edges op) = op_known (ed_canvas st) op"
| "edit_ok st (Paste ids) =
     (length ids = length (nullish (ed_clipboard st) []) \<and> distinct ids \<and> set ids \<inter> canvas_ids (ed_canvas st) = {})"
| "edit_ok st (Duplicate i new) = (new \<notin> canvas_ids (ed_canvas st))"
| "edit_ok st (AddNode n pos) = (node_id n \<notin> canvas_ids (ed_canvas st) \<and> nullish (node_inputs n) [] = [])"
| "edit_ok st Tidy = True"
| "edit_ok st (Import ns es ids) = importable ns es ids"

fun event_ok :: "editor \<Rightarrow> event \<Rightarrow> bool" where
  "event_ok st (Edit ed) = edit_ok st ed"
| "event_ok st (Server c) = canvas_good c"
| "event_ok st _ = True"

inductive session :: "bool \<Rightarrow> editor \<Rightarrow> bool" for ro where
  opened: "canvas_good c \<Longrightarrow> session ro (mount c)"
| event: "session ro st \<Longrightarrow> event_ok st ev \<Longrightarrow> session ro (editor_step ro st ev)"

definition versions_good :: "editor \<Rightarrow> bool" where
  "versions_good st \<longleftrightarrow> canvas_good (ed_canvas st) \<and> (\<forall>c \<in> set (ed_undo st) \<union> set (ed_redo st). canvas_good c)"

lemma edit_result_good:
  assumes "canvas_good (ed_canvas st)" "edit_ok st ed" "edit_result ed st = Some c"
  shows "canvas_good c"
proof (cases ed)
  case (Edges op)
  then show ?thesis using assms edge_edit_good by simp
next
  case (Paste ids)
  let ?ns = "nullish (ed_clipboard st) []"
  have ids: "map node_id (cloneNodes ?ns ids) = ids" using assms(2) Paste by (intro cloneNodes_ids) simp
  then have "node_id ` set (cloneNodes ?ns ids) = set ids" by (metis list.set_map)
  moreover have "c = add_nodes (cloneNodes ?ns ids) (ed_canvas st)" using assms(3) Paste by (simp split: if_splits)
  ultimately show ?thesis
    using assms(1,2) Paste ids cloneNodes_inputs by (auto intro!: add_nodes_good)
next
  case (Duplicate i new)
  then show ?thesis using assms by (auto simp: cloneNodes_def intro!: add_nodes_good split: option.splits)
next
  case (AddNode n pos)
  have "canvas_good (add_nodes [n'] (ed_canvas st))" if "node_id n' = node_id n" "node_inputs n' = node_inputs n" for n'
    using assms(1,2) AddNode that by (intro add_nodes_good) auto
  then show ?thesis using assms(3) AddNode by (cases pos) (auto split: prod.splits)
next
  case Tidy
  then show ?thesis using assms tidy_good by auto
next
  case (Import ns es ids)
  then show ?thesis using assms import_good by auto
qed

lemma push_good: "versions_good st \<Longrightarrow> canvas_good c \<Longrightarrow> versions_good ((pushHistory st)\<lparr>ed_canvas := c\<rparr>)"
  by (cases "ed_undo st") (auto simp: versions_good_def pushHistory_def Let_def)

lemma undo_good: "versions_good st \<Longrightarrow> versions_good (handleUndo st)"
  by (cases "ed_undo st" rule: rev_cases) (auto simp: versions_good_def handleUndo_def Let_def)

lemma redo_good: "versions_good st \<Longrightarrow> versions_good (handleRedo st)"
  by (cases "ed_redo st" rule: rev_cases) (auto simp: versions_good_def handleRedo_def Let_def)

lemma move_good: "versions_good st \<Longrightarrow> versions_good (handleMouseMove far x y st)"
proof (cases "ed_drag st")
  case (Some p)
  assume v: "versions_good st"
  obtain i moved where p: "p = (i, moved)" by (cases p)
  have c: "canvas_good (map_node i (place_node (max 0 x) (max 0 y)) (ed_canvas st))"
    using v by (intro map_node_good) (auto simp: versions_good_def place_node_def)
  then show ?thesis
    using v push_good [OF v c] by (auto simp: handleMouseMove_def Some p Let_def versions_good_def)
qed (simp add: handleMouseMove_def)

lemma up_good: "versions_good st \<Longrightarrow> versions_good (handleMouseUp snapping st)"
proof (cases "ed_drag st")
  case (Some p)
  assume v: "versions_good st"
  obtain i moved where p: "p = (i, moved)" by (cases p)
  show ?thesis
  proof (cases "node_of (ed_canvas st) i")
    case None
    then show ?thesis using v by (simp add: handleMouseUp_def Some p Let_def versions_good_def)
  next
    case (Some n)
    then have n: "n \<in> set (canvas_nodes (ed_canvas st))" "node_id n = i"
      by (auto simp: node_of_def dest: find_Some_iff_mem)
    have "canvas_good (map_node i (\<lambda>_. place_node a b n) (ed_canvas st))" for a b
    proof -
      have d: "distinct (map node_id (canvas_nodes (ed_canvas st)))" "canvas_good (ed_canvas st)"
        using v by (simp_all add: versions_good_def canvas_good_def)
      have "map_node i (\<lambda>_. place_node a b n) (ed_canvas st) = map_node i (place_node a b) (ed_canvas st)"
        unfolding map_node_def by (rule arg_cong [where f = "\<lambda>ns. _\<lparr>canvas_nodes := ns\<rparr>"], rule map_cong [OF refl])
          (use d(1) n in \<open>auto simp: distinct_map inj_on_def\<close>)
      moreover have "canvas_good (map_node i (place_node a b) (ed_canvas st))"
        using d(2) by (intro map_node_good) (auto simp: place_node_def)
      ultimately show ?thesis by simp
    qed
    then show ?thesis using v Some \<open>ed_drag st = Some p\<close> p
      by (auto simp: handleMouseUp_def Let_def versions_good_def)
  qed
qed (simp add: handleMouseUp_def)

lemma session_good: "session ro st \<Longrightarrow> versions_good st"
proof (induction rule: session.induct)
  case (opened c)
  then show ?case by (simp add: versions_good_def mount_def)
next
  case (event st ev)
  then have v: "versions_good st" by simp
  show ?case
  proof (cases ev)
    case (Edit ed)
    then show ?thesis
      using v event.hyps(2) edit_result_good [of st ed] push_good [OF v]
      by (auto simp: run_edit_def versions_good_def split: option.split)
  next
    case (Configure i d meta)
    have "canvas_good (map_node i (configured_as d meta) (ed_canvas st))"
      using v by (intro map_node_good) (auto simp: versions_good_def configured_as_def)
    then show ?thesis using v Configure by (simp add: versions_good_def)
  next
    case (Server c)
    then show ?thesis using v event.hyps(2) by (simp add: versions_good_def)
  next
    case (MouseMove far x y)
    then show ?thesis using move_good [OF v] by simp
  next
    case (MouseUp snapping)
    then show ?thesis using up_good [OF v] by simp
  qed (use v undo_good [OF v] redo_good [OF v] in \<open>simp_all add: versions_good_def\<close>)
qed

lemma session_history: "session ro st \<Longrightarrow> history_ok st"
  by (induction rule: session.induct) (simp_all add: history_ok_step)

text \<open>Pasting with identifiers from \<open>allocateNodeIds\<close> is always in order.\<close>

lemma paste_allocated_ok:
  "edit_ok st (Paste (allocateNodeIds g (map node_id (canvas_nodes (ed_canvas st))) server
     (length (nullish (ed_clipboard st) []))))"
  using allocateNodeIds_fresh [of g "map node_id (canvas_nodes (ed_canvas st))" server "length (nullish (ed_clipboard st) [])"]
  by (simp add: canvas_ids_def)

end
