(* ===== verification/GraphApi.thy ===== *)
theory GraphApi
  imports Status ComponentConfig
begin

text \<open>
  Reading the answers of the graph and project services, \<open>web/packages/api-client/src/ext/graph.ts\<close>:
  every function takes the payload as \<open>unknown\<close> JSON, accepts the camel-case and the snake-case
  spelling of each field, and returns a typed record.  \<open>JSON.parse\<close> of text inside a payload is the
  argument \<open>parse\<close> (\<open>None\<close> when it throws).  Where the code casts an element to a record, a value
  that is not an object is read as an object without fields.
\<close>

section \<open>Fields\<close>

text \<open>\<open>s(v)\<close> and \<open>n(v)\<close>\<close>

definition opt_text :: "jsval \<Rightarrow> string option" where
  "opt_text v = (if v = Undefined \<or> v = Null \<or> v = JStr '''' then None else Some (string_of v))"

definition opt_number :: "jsval \<Rightarrow> number option" where
  "opt_number v =
     (if v = Undefined \<or> v = Null \<or> v = JStr '''' then None
      else let x = number_of v in if x = NaN then None else Some x)"

text \<open>\<open>String(a ?? b ?? '')\<close> over the obj_fields listed.\<close>

definition text_of :: "jsobj \<Rightarrow> string list \<Rightarrow> string" where
  "text_of ob ks = (let v = pick ob ks in if v = Undefined then '''' else string_of v)"

definition obj_fields :: "jsval \<Rightarrow> jsobj" where
  "obj_fields v = nullish (as_fields v) []"

text \<open>\<open>Array.isArray(v) ? (v as Rec[]) : []\<close>\<close>

definition records :: "jsval \<Rightarrow> jsobj list" where
  "records v = (case v of JArr xs \<Rightarrow> map obj_fields xs | _ \<Rightarrow> [])"

lemma opt_text_JStr [simp]: "opt_text (JStr t) = (if t = '''' then None else Some t)"
  by (simp add: opt_text_def)

lemma opt_text_Undefined [simp]: "opt_text Undefined = None"
  by (simp add: opt_text_def)

lemma opt_number_JNum [simp]: "opt_number (JNum x) = (if x = NaN then None else Some x)"
  by (simp add: opt_number_def)

lemma opt_number_Undefined [simp]: "opt_number Undefined = None"
  by (simp add: opt_number_def)

section \<open>Graph detail\<close>

record graph_node_detail =
  gd_id :: string
  gd_codeName :: "string option"
  gd_label :: "string option"
  gd_x :: "number option"
  gd_y :: "number option"
  gd_inputs :: "string list option"
  gd_outputs :: "string list option"
  gd_def :: "jsobj option"
  gd_status :: "string option"
  gd_jobId :: "string option"
  gd_taskId :: "string option"
  gd_progress :: "number option"
  gd_results :: jsval
  gd_parties :: jsval

record graph_edge_detail =
  ge_id :: "string option"
  ge_source :: "string option"
  ge_sourceAnchor :: "string option"
  ge_target :: "string option"
  ge_targetAnchor :: "string option"

record graph_detail =
  gt_projectId :: "string option"
  gt_graphId :: "string option"
  gt_name :: "string option"
  gt_nodes :: "graph_node_detail list"
  gt_edges :: "graph_edge_detail list"
  gt_maxParallelism :: "number option"
  gt_dataSourceConfig :: jsval

text \<open>\<open>list(v)\<close>: an array of texts, or the text of a JSON array.\<close>

definition text_list :: "(string \<Rightarrow> jsval option) \<Rightarrow> jsval \<Rightarrow> string list option" where
  "text_list parse v =
     (case v of
        JArr xs \<Rightarrow> Some (map (\<lambda>x. if is_nullish x then '''' else string_of x) xs)
      | JStr t \<Rightarrow>
          (if starts_with t ''['' then (case parse t of Some (JArr xs) \<Rightarrow> Some (map string_of xs) | _ \<Rightarrow> None) else None)
      | _ \<Rightarrow> None)"

text \<open>The definition of a node: an object, or the text of one.\<close>

definition def_of :: "(string \<Rightarrow> jsval option) \<Rightarrow> jsval \<Rightarrow> jsobj option" where
  "def_of parse v = (case v of JStr t \<Rightarrow> Option.bind (parse t) as_fields | _ \<Rightarrow> as_fields v)"

definition normalizeGraphNode :: "(string \<Rightarrow> jsval option) \<Rightarrow> jsobj \<Rightarrow> graph_node_detail" where
  "normalizeGraphNode parse raw = \<lparr>
     gd_id = text_of raw [''graphNodeId'', ''graph_node_id'', ''id''],
     gd_codeName = opt_text (pick raw [''codeName'', ''code_name'']),
     gd_label = opt_text (get_prop raw ''label''),
     gd_x = opt_number (get_prop raw ''x''),
     gd_y = opt_number (get_prop raw ''y''),
     gd_inputs = text_list parse (get_prop raw ''inputs''),
     gd_outputs = text_list parse (get_prop raw ''outputs''),
     gd_def = def_of parse (pick raw [''nodeDef'', ''node_def'']),
     gd_status = opt_text (get_prop raw ''status''),
     gd_jobId = opt_text (pick raw [''jobId'', ''job_id'']),
     gd_taskId = opt_text (pick raw [''taskId'', ''task_id'']),
     gd_progress = opt_number (pick raw [''progress'', ''statusProcess'']),
     gd_results = get_prop raw ''results'',
     gd_parties = get_prop raw ''parties''\<rparr>"

definition normalize_edge :: "jsobj \<Rightarrow> graph_edge_detail" where
  "normalize_edge e = \<lparr>
     ge_id = opt_text (pick e [''edgeId'', ''edge_id'', ''id'']),
     ge_source = opt_text (get_prop e ''source''),
     ge_sourceAnchor = opt_text (pick e [''sourceAnchor'', ''source_anchor'']),
     ge_target = opt_text (get_prop e ''target''),
     ge_targetAnchor = opt_text (pick e [''targetAnchor'', ''target_anchor''])\<rparr>"

definition normalizeGraphDetail :: "(string \<Rightarrow> jsval option) \<Rightarrow> jsval \<Rightarrow> graph_detail" where
  "normalizeGraphDetail parse raw =
     (let r = (if js_truthy raw then obj_fields raw else []) in \<lparr>
       gt_projectId = opt_text (pick r [''projectId'', ''project_id'']),
       gt_graphId = opt_text (pick r [''graphId'', ''graph_id'']),
       gt_name = opt_text (get_prop r ''name''),
       gt_nodes = map (normalizeGraphNode parse) (records (get_prop r ''nodes'')),
       gt_edges = map normalize_edge (records (get_prop r ''edges'')),
       gt_maxParallelism = opt_number (pick r [''maxParallelism'', ''max_parallelism'']),
       gt_dataSourceConfig = pick r [''dataSourceConfig'', ''data_source_config'']\<rparr>)"

section \<open>Status of the nodes\<close>

definition normalize_status_node :: "jsobj \<Rightarrow> status_node" where
  "normalize_status_node x = \<lparr>
     sn_id = text_of x [''graphNodeId'', ''graph_node_id''],
     sn_status = opt_text (get_prop x ''status''),
     sn_taskId = opt_text (pick x [''taskId'', ''task_id'']),
     sn_jobId = opt_text (pick x [''jobId'', ''job_id'']),
     sn_progress = opt_number (pick x [''progress'', ''statusProcess'']),
     sn_errMsg = opt_text (pick x [''errMsg'', ''err_msg'']),
     sn_parties = get_prop x ''parties''\<rparr>"

text \<open>Without a flag the job counts as finished unless its status names a state that is still going.\<close>

definition normalizeGraphStatus :: "jsval \<Rightarrow> graph_status" where
  "normalizeGraphStatus raw =
     (let r = (if js_truthy raw then obj_fields raw else []) in \<lparr>
       gs_finished =
         (case get_prop r ''finished'' of
            JBool b \<Rightarrow> b
          | _ \<Rightarrow> to_upper (text_of r [''status'']) \<notin> {''RUNNING'', ''INITIALIZED'', ''PENDING''}),
       gs_jobId = opt_text (pick r [''jobId'', ''job_id'']),
       gs_nodes = map normalize_status_node (records (get_prop r ''nodes''))\<rparr>)"

section \<open>Logs, jobs and project data\<close>

record node_logs =
  nl_status :: "string option"
  nl_logs :: "string list"
  nl_config :: "bool option"
  nl_nodeParties :: jsval

definition bool_field :: "jsval \<Rightarrow> bool option" where
  "bool_field v = (case v of JBool b \<Rightarrow> Some b | _ \<Rightarrow> None)"

definition toLogs :: "jsval \<Rightarrow> node_logs" where
  "toLogs raw =
     (let r = (if js_truthy raw then obj_fields raw else []) in \<lparr>
       nl_status = opt_text (get_prop r ''status''),
       nl_logs = (case get_prop r ''logs'' of
           JArr xs \<Rightarrow> map string_of xs
         | JStr t \<Rightarrow> split_on (CHR 0x0A) t
         | _ \<Rightarrow> []),
       nl_config = bool_field (get_prop r ''config''),
       nl_nodeParties = get_prop r ''nodeParties''\<rparr>)"

record project_job =
  pj_jobId :: "string option"
  pj_status :: "string option"
  pj_errMsg :: "string option"
  pj_gmtCreate :: "string option"
  pj_gmtModified :: "string option"
  pj_gmtFinished :: "string option"
  pj_finished :: "bool option"
  pj_graph :: graph_detail

definition normalizeProjectJob :: "(string \<Rightarrow> jsval option) \<Rightarrow> jsval \<Rightarrow> project_job" where
  "normalizeProjectJob parse raw =
     (let r = (if js_truthy raw then obj_fields raw else []) in \<lparr>
       pj_jobId = opt_text (pick r [''jobId'', ''job_id'']),
       pj_status = opt_text (get_prop r ''status''),
       pj_errMsg = opt_text (pick r [''errMsg'', ''err_msg'']),
       pj_gmtCreate = opt_text (pick r [''gmtCreate'', ''gmt_create'']),
       pj_gmtModified = opt_text (get_prop r ''gmtModified''),
       pj_gmtFinished = opt_text (get_prop r ''gmtFinished''),
       pj_finished = bool_field (get_prop r ''finished''),
       pj_graph = normalizeGraphDetail parse (get_prop r ''graph'')\<rparr>)"

definition isOdpsPartition :: "jsval \<Rightarrow> bool" where
  "isOdpsPartition p =
     (get_prop (obj_fields p) ''type'' = JStr ''odps'' \<and> js_truthy (get_prop (obj_fields p) ''fields'') \<and>
      get_prop (obj_fields p) ''fields'' \<noteq> JArr [])"

record project_table =
  pt_id :: string
  pt_name :: "string option"
  pt_isPartitionTable :: bool

record project_party =
  pp_nodeId :: string
  pp_nodeName :: "string option"
  pp_nodeType :: "string option"
  pp_datatables :: "project_table list"

record project_detail =
  pd_projectId :: string
  pd_projectName :: "string option"
  pd_computeMode :: "string option"
  pd_computeFunc :: "string option"
  pd_teeNodeId :: "string option"
  pd_status :: "string option"
  pd_nodes :: "project_party list"

definition party_table :: "jsobj \<Rightarrow> project_table" where
  "party_table d = \<lparr>
     pt_id = text_of d [''datatableId'', ''datatable_id''],
     pt_name = opt_text (pick d [''datatableName'', ''datatable_name'', ''name'']),
     pt_isPartitionTable = isOdpsPartition (get_prop d ''partition'')\<rparr>"

text \<open>What \<open>getProjectDetailJava(projectId)\<close> makes of the answer.\<close>

definition getProjectDetailJava :: "string \<Rightarrow> jsval \<Rightarrow> project_detail" where
  "getProjectDetailJava projectId answer =
     (let r = (if js_truthy answer then obj_fields answer else []) in \<lparr>
       pd_projectId = (let v = pick r [''projectId''] in if v = Undefined then projectId else string_of v),
       pd_projectName = opt_text (pick r [''projectName'', ''name'']),
       pd_computeMode = opt_text (pick r [''computeMode'', ''compute_mode'']),
       pd_computeFunc = opt_text (get_prop r ''computeFunc''),
       pd_teeNodeId = opt_text (get_prop r ''teeNodeId''),
       pd_status = opt_text (get_prop r ''status''),
       pd_nodes = map (\<lambda>x. \<lparr>
           pp_nodeId = text_of x [''nodeId'', ''node_id''],
           pp_nodeName = opt_text (pick x [''nodeName'', ''node_name'', ''name'']),
           pp_nodeType = opt_text (get_prop x ''nodeType''),
           pp_datatables = map party_table (records (get_prop x ''datatables''))\<rparr>)
         (records (get_prop r ''nodes''))\<rparr>)"

record table_column =
  tc_name :: string
  tc_type :: "string option"
  tc_comment :: "string option"
  tc_isAssociateKey :: jsval
  tc_isGroupKey :: jsval
  tc_isLabelKey :: jsval
  tc_isProtection :: jsval

text \<open>\<open>getProjectDatatableColumnsJava\<close>: the first of five places that holds anything.\<close>

definition column_configs :: "jsobj \<Rightarrow> jsval" where
  "column_configs r =
     (let inner = obj_fields (get_prop r ''datatableVO'');
          first = (\<lambda>a b. if is_nullish a then b else a)
      in first (get_prop r ''configs'') (first (get_prop inner ''configs'') (first (get_prop r ''columns'')
           (first (get_prop inner ''schema'') (get_prop inner ''columns'')))))"

definition getProjectDatatableColumnsJava :: "jsval \<Rightarrow> table_column list" where
  "getProjectDatatableColumnsJava answer =
     (let r = (if js_truthy answer then obj_fields answer else []) in
      map (\<lambda>c. \<lparr>
          tc_name = text_of c [''colName'', ''col_name'', ''name'', ''featureName''],
          tc_type = opt_text (pick c [''colType'', ''col_type'', ''type'', ''featureType'']),
          tc_comment = opt_text (pick c [''colComment'', ''featureDescription'']),
          tc_isAssociateKey = get_prop c ''isAssociateKey'',
          tc_isGroupKey = get_prop c ''isGroupKey'',
          tc_isLabelKey = get_prop c ''isLabelKey'',
          tc_isProtection = get_prop c ''isProtection''\<rparr>)
        (records (column_configs r)))"

record data_source =
  ds_id :: string
  ds_name :: "string option"
  ds_type :: "string option"

record party_sources =
  ps_nodeId :: string
  ps_nodeName :: "string option"
  ps_dataSources :: "data_source list"

definition listProjectGraphDatasourcesJava :: "jsval \<Rightarrow> party_sources list" where
  "listProjectGraphDatasourcesJava data =
     (let arr = (case data of JArr xs \<Rightarrow> map obj_fields xs | _ \<Rightarrow> records (get_prop (obj_fields data) ''list'')) in
      map (\<lambda>x. \<lparr>
          ps_nodeId = text_of x [''nodeId''],
          ps_nodeName = opt_text (get_prop x ''nodeName''),
          ps_dataSources = map (\<lambda>d. \<lparr>
              ds_id = text_of d [''dataSourceId'', ''datasourceId''],
              ds_name = opt_text (pick d [''dataSourceName'', ''name'']),
              ds_type = opt_text (get_prop d ''type'')\<rparr>)
            (records (get_prop x ''dataSources''))\<rparr>) arr)"

text \<open>
  \<open>refreshGraphNodeMaxIndexJava\<close>: a number as it is, or the field of an answer object; zero and
  what is not a number become 32.
\<close>

definition refreshGraphNodeMaxIndexJava :: "jsval \<Rightarrow> number" where
  "refreshGraphNodeMaxIndexJava data =
     (let raw = (case data of JNum x \<Rightarrow> Some x | _ \<Rightarrow> opt_number (pick (obj_fields data) [''maxIndex'', ''max_index'']))
      in case raw of
           Some x \<Rightarrow> (if x = Fin 0 \<or> x = NaN then Fin 32 else x)
         | None \<Rightarrow> Fin 32)"

section \<open>The component list\<close>

record component_summary =
  cs_app :: string
  cs_domain :: string
  cs_name :: string
  cs_version :: "string option"
  cs_desc :: "string option"

text \<open>\<open>pushComp\<close>: a missing domain or name is taken from the code name.\<close>

definition pushComp :: "jsobj \<Rightarrow> string \<Rightarrow> component_summary" where
  "pushComp c app =
     (let codeName = opt_text (pick c [''code_name'', ''codeName'']) in \<lparr>
       cs_app = app,
       cs_domain = nullish (opt_text (get_prop c ''domain''))
         (case codeName of Some t \<Rightarrow> hd (split_on CHR ''/'' t) | None \<Rightarrow> ''unknown''),
       cs_name = nullish (opt_text (get_prop c ''name''))
         (case codeName of Some t \<Rightarrow> join_with ''/'' (tl (split_on CHR ''/'' t)) | None \<Rightarrow> ''unknown''),
       cs_version = opt_text (get_prop c ''version''),
       cs_desc = opt_text (pick c [''desc'', ''description''])\<rparr>)"

text \<open>The components of one application: \<open>comps\<close> of a list entry, under the key or its own name.\<close>

definition app_components :: "bool \<Rightarrow> string \<Rightarrow> jsobj \<Rightarrow> component_summary list option" where
  "app_components keyed app ob =
     (case get_prop ob ''comps'' of
        JArr cs \<Rightarrow> Some (map (\<lambda>c. pushComp (obj_fields c)
          (if keyed then app else nullish (nullish_opt (opt_text (get_prop ob ''app'')) (opt_text (get_prop ob ''name''))) app)) cs)
      | _ \<Rightarrow> None)"

definition visit_list :: "bool \<Rightarrow> string \<Rightarrow> jsval list \<Rightarrow> component_summary list" where
  "visit_list keyed app xs =
     concat (map (\<lambda>it. case app_components keyed app (obj_fields it) of
         Some cs \<Rightarrow> cs
       | None \<Rightarrow> (if js_truthy it then [pushComp (obj_fields it) app] else [])) xs)"

fun visit_components :: "bool \<Rightarrow> string \<Rightarrow> jsval \<Rightarrow> component_summary list" where
  "visit_components keyed app (JArr xs) = visit_list keyed app xs"
| "visit_components keyed app (JObj ob) =
     (case app_components keyed app ob of
        Some cs \<Rightarrow> cs
      | None \<Rightarrow>
          (case get_prop ob ''compListVOList'' of
             JArr xs \<Rightarrow> visit_list False app xs
           | _ \<Rightarrow>
               (case get_prop ob ''list'' of
                  JArr xs \<Rightarrow> visit_list False app xs
                | _ \<Rightarrow> concat (map (\<lambda>(k, v). visit_components True k v) ob))))"
| "visit_components keyed app v = []"

definition listComponentsJava :: "jsval \<Rightarrow> component_summary list" where
  "listComponentsJava data = visit_components False ''secretflow'' data"

text \<open>\<open>batchComponentsJava\<close>: the definitions by code name; of an array the last one of a name counts.\<close>

definition batchComponentsJava :: "jsval \<Rightarrow> jsobj" where
  "batchComponentsJava data =
     (case data of
        JArr xs \<Rightarrow> foldl (\<lambda>out d. set_prop
          (string_of (get_prop (obj_fields d) ''domain'') @ ''/'' @ string_of (get_prop (obj_fields d) ''name'')) d out) [] xs
      | v \<Rightarrow> (if js_truthy v then obj_fields v else []))"

section \<open>Writing and reading back\<close>

text \<open>
  A detail as the server sends it, in either spelling: a field that is missing in the record is
  missing in the object.
\<close>

definition opt_entry :: "string \<Rightarrow> ('a \<Rightarrow> jsval) \<Rightarrow> 'a option \<Rightarrow> jsobj" where
  "opt_entry k f v = (case v of None \<Rightarrow> [] | Some x \<Rightarrow> [(k, f x)])"

lemma map_of_opt_entry [simp]:
  "map_of (opt_entry k f v @ r) j = (if j = k then (case v of Some x \<Rightarrow> Some (f x) | None \<Rightarrow> map_of r j) else map_of r j)"
  by (auto simp: opt_entry_def split: option.split)

lemma map_of_last_entry [simp]:
  "map_of (opt_entry k f v) j = (if j = k then map_option f v else None)"
  by (auto simp: opt_entry_def split: option.split)

declare map_of_append [simp del]

definition spelled :: "bool \<Rightarrow> string \<Rightarrow> string \<Rightarrow> string" where
  "spelled sp a b = (if sp then a else b)"

definition texts :: "string list \<Rightarrow> jsval" where
  "texts xs = JArr (map JStr xs)"

definition node_object :: "bool \<Rightarrow> graph_node_detail \<Rightarrow> jsobj" where
  "node_object sp d =
     [(spelled sp ''graphNodeId'' ''graph_node_id'', JStr (gd_id d)), (''results'', gd_results d), (''parties'', gd_parties d)] @
     opt_entry (spelled sp ''codeName'' ''code_name'') JStr (gd_codeName d) @
     opt_entry ''label'' JStr (gd_label d) @ opt_entry ''x'' JNum (gd_x d) @ opt_entry ''y'' JNum (gd_y d) @
     opt_entry ''inputs'' texts (gd_inputs d) @ opt_entry ''outputs'' texts (gd_outputs d) @
     opt_entry (spelled sp ''nodeDef'' ''node_def'') JObj (gd_def d) @
     opt_entry ''status'' JStr (gd_status d) @
     opt_entry (spelled sp ''jobId'' ''job_id'') JStr (gd_jobId d) @
     opt_entry (spelled sp ''taskId'' ''task_id'') JStr (gd_taskId d) @
     opt_entry (spelled sp ''progress'' ''statusProcess'') JNum (gd_progress d) @ []"

definition edge_object :: "bool \<Rightarrow> graph_edge_detail \<Rightarrow> jsobj" where
  "edge_object sp e =
     opt_entry (spelled sp ''edgeId'' ''edge_id'') JStr (ge_id e) @
     opt_entry ''source'' JStr (ge_source e) @
     opt_entry (spelled sp ''sourceAnchor'' ''source_anchor'') JStr (ge_sourceAnchor e) @
     opt_entry ''target'' JStr (ge_target e) @
     opt_entry (spelled sp ''targetAnchor'' ''target_anchor'') JStr (ge_targetAnchor e) @ []"

definition detail_object :: "bool \<Rightarrow> graph_detail \<Rightarrow> jsval" where
  "detail_object sp g = JObj (
     [(''nodes'', JArr (map (\<lambda>n. JObj (node_object sp n)) (gt_nodes g))),
      (''edges'', JArr (map (\<lambda>e. JObj (edge_object sp e)) (gt_edges g))),
      (spelled sp ''dataSourceConfig'' ''data_source_config'', gt_dataSourceConfig g)] @
     opt_entry (spelled sp ''projectId'' ''project_id'') JStr (gt_projectId g) @
     opt_entry (spelled sp ''graphId'' ''graph_id'') JStr (gt_graphId g) @
     opt_entry ''name'' JStr (gt_name g) @
     opt_entry (spelled sp ''maxParallelism'' ''max_parallelism'') JNum (gt_maxParallelism g) @ [])"

text \<open>What a record read from an answer looks like: no empty optional text, no \<open>NaN\<close>.\<close>

definition node_clean :: "graph_node_detail \<Rightarrow> bool" where
  "node_clean d \<longleftrightarrow>
     list_all (\<lambda>v. v \<noteq> Some '''') [gd_codeName d, gd_label d, gd_status d, gd_jobId d, gd_taskId d] \<and>
     list_all (\<lambda>v. v \<noteq> Some NaN) [gd_x d, gd_y d, gd_progress d]"

definition edge_clean :: "graph_edge_detail \<Rightarrow> bool" where
  "edge_clean e \<longleftrightarrow> list_all (\<lambda>v. v \<noteq> Some '''') [ge_id e, ge_source e, ge_sourceAnchor e, ge_target e, ge_targetAnchor e]"

definition detail_clean :: "graph_detail \<Rightarrow> bool" where
  "detail_clean g \<longleftrightarrow>
     list_all (\<lambda>v. v \<noteq> Some '''') [gt_projectId g, gt_graphId g, gt_name g] \<and> gt_maxParallelism g \<noteq> Some NaN \<and>
     gt_dataSourceConfig g \<noteq> Null \<and> list_all node_clean (gt_nodes g) \<and> list_all edge_clean (gt_edges g)"

lemma text_list_texts [simp]: "text_list parse (texts xs) = Some xs"
  by (induction xs) (simp_all add: text_list_def texts_def is_nullish_def)

lemma text_list_Undefined [simp]: "text_list parse Undefined = None"
  by (simp add: text_list_def)

lemmas read_simps = Let_def get_prop_def text_of_def def_of_def spelled_def node_clean_def edge_clean_def

lemma read_node: "node_clean d \<Longrightarrow> normalizeGraphNode parse (node_object sp d) = d"
  unfolding normalizeGraphNode_def node_object_def
  apply (rule graph_node_detail.equality; simp only: graph_node_detail.simps)
  subgoal by (cases sp; simp add: read_simps)
  subgoal by (cases sp; cases "gd_codeName d"; simp add: read_simps)
  subgoal by (cases sp; cases "gd_label d"; simp add: read_simps)
  subgoal by (cases sp; cases "gd_x d"; simp add: read_simps)
  subgoal by (cases sp; cases "gd_y d"; simp add: read_simps)
  subgoal by (cases sp; cases "gd_inputs d"; simp add: read_simps)
  subgoal by (cases sp; cases "gd_outputs d"; simp add: read_simps)
  subgoal by (cases sp; cases "gd_def d"; simp add: read_simps)
  subgoal by (cases sp; cases "gd_status d"; simp add: read_simps)
  subgoal by (cases sp; cases "gd_jobId d"; simp add: read_simps)
  subgoal by (cases sp; cases "gd_taskId d"; simp add: read_simps)
  subgoal by (cases sp; cases "gd_progress d"; simp add: read_simps)
  subgoal by (cases sp; simp add: read_simps)
  subgoal by (cases sp; simp add: read_simps)
  subgoal by simp
  done

lemma read_edge: "edge_clean e \<Longrightarrow> normalize_edge (edge_object sp e) = e"
  unfolding normalize_edge_def edge_object_def
  apply (rule graph_edge_detail.equality; simp only: graph_edge_detail.simps)
  subgoal by (cases sp; cases "ge_id e"; simp add: read_simps)
  subgoal by (cases sp; cases "ge_source e"; simp add: read_simps)
  subgoal by (cases sp; cases "ge_sourceAnchor e"; simp add: read_simps)
  subgoal by (cases sp; cases "ge_target e"; simp add: read_simps)
  subgoal by (cases sp; cases "ge_targetAnchor e"; simp add: read_simps)
  subgoal by simp
  done

lemma records_objects [simp]: "records (JArr (map (\<lambda>x. JObj (f x)) xs)) = map f xs"
  by (simp add: records_def obj_fields_def comp_def)

lemma read_detail:
  assumes "detail_clean g"
  shows "normalizeGraphDetail parse (detail_object sp g) = g"
proof -
  have nodes: "map (normalizeGraphNode parse) (map (node_object sp) (gt_nodes g)) = gt_nodes g"
    using assms by (auto simp: detail_clean_def list_all_iff read_node intro: map_idI)
  have edges: "map normalize_edge (map (edge_object sp) (gt_edges g)) = gt_edges g"
    using assms by (auto simp: detail_clean_def list_all_iff read_edge intro: map_idI)
  show ?thesis
    unfolding normalizeGraphDetail_def detail_object_def
    apply (rule graph_detail.equality; simp only: graph_detail.simps js_truthy.simps if_True Let_def obj_fields_def as_fields.simps nullish.simps)
    subgoal using assms by (cases sp; cases "gt_projectId g"; simp add: read_simps detail_clean_def)
    subgoal using assms by (cases sp; cases "gt_graphId g"; simp add: read_simps detail_clean_def)
    subgoal using assms by (cases sp; cases "gt_name g"; simp add: read_simps detail_clean_def)
    subgoal using nodes by (simp add: read_simps)
    subgoal using edges by (simp add: read_simps)
    subgoal using assms by (cases sp; cases "gt_maxParallelism g"; simp add: read_simps detail_clean_def)
    subgoal using assms by (cases sp; simp add: read_simps detail_clean_def)
    subgoal by simp
    done
qed

declare map_of_append [simp]

end
