(* ===== verification/GraphAdapter.thy ===== *)
theory GraphAdapter
  imports GraphApi CanvasSession
begin

text \<open>
  Between the services and the canvas, \<open>web/apps/secretpad/src/pages/dag/adapters.ts\<close>: what a graph
  of the server looks like on the canvas, what the canvas sends back when it saves, and the smaller
  conversions of the page (status overlay, component groups, run records).
\<close>

section \<open>Code names and icons\<close>

definition splitCodeName :: "string option \<Rightarrow> string \<times> string" where
  "splitCodeName codeName =
     (if \<not> truthy codeName then (''unknown'', ''unknown'')
      else let parts = split_on CHR ''/'' (the codeName) in
        if length parts \<ge> 2 then (join_with ''/'' (butlast parts), last parts)
        else (the codeName, the codeName))"

definition iconFor :: "string \<Rightarrow> string" where
  "iconFor domain =
     (if domain = ''read_data'' \<or> str_includes domain ''data_prep'' then (utf8 [0xF0, 0x9F, 0x93, 0xA5])
      else if starts_with domain ''ml'' then (utf8 [0xF0, 0x9F, 0xA4, 0x96])
      else if starts_with domain ''stats'' then (utf8 [0xF0, 0x9F, 0x93, 0x8A])
      else if starts_with domain ''privacy'' then (utf8 [0xF0, 0x9F, 0x94, 0x92])
      else if starts_with domain ''feature'' then (utf8 [0xF0, 0x9F, 0xA7, 0xA9])
      else (utf8 [0xE2, 0x9A, 0x99, 0xEF, 0xB8, 0x8F]))"

text \<open>A code name with a slash is its parts put together again.\<close>

lemma splitCodeName_join:
  assumes "CHR ''/'' \<in> set c" "splitCodeName (Some c) = (d, n)"
  shows "d @ ''/'' @ n = c \<and> CHR ''/'' \<notin> set n"
proof -
  let ?parts = "split_on CHR ''/'' c"
  have two: "2 \<le> length ?parts"
  proof (rule ccontr)
    assume "\<not> 2 \<le> length ?parts"
    then have "length ?parts = 1" using split_on_not_Nil [of "CHR ''/''" c] by (cases ?parts) (auto simp: not_less_eq_eq)
    then obtain p where p: "?parts = [p]" by (auto simp: length_Suc_conv)
    then have "c = p" using join_split [of "CHR ''/''" c] by simp
    moreover have "CHR ''/'' \<notin> set p" using p by (intro split_on_parts [of p _ c]) simp
    ultimately show False using assms(1) by simp
  qed
  then have ne: "butlast ?parts \<noteq> []" by (cases ?parts rule: rev_cases) (auto simp: Suc_le_eq)
  from join_with_snoc [OF ne, of "''/''" "last ?parts"] have "join_with ''/'' (butlast ?parts) @ ''/'' @ last ?parts = c"
    by (simp add: join_split)
  moreover have "CHR ''/'' \<notin> set (last ?parts)" by (rule split_on_parts [of _ _ c]) simp
  ultimately show ?thesis using assms two by (auto simp: splitCodeName_def Let_def split: if_splits)
qed

section \<open>From the server to the canvas\<close>

text \<open>\<open>ComponentDefLike\<close>: attributes and the inputs and outputs, as the server describes them.\<close>

record component_like =
  cl_attrs :: "jsval list option"
  cl_inputs :: "jsval list option"
  cl_outputs :: "jsval list option"

definition io_of :: "jsval \<Rightarrow> io_def" where
  "io_of v =
     (let ob = obj_fields v; txt = (\<lambda>k. case get_prop ob k of JStr s \<Rightarrow> Some s | _ \<Rightarrow> None) in
      \<lparr>io_name = txt ''name'', io_desc = txt ''desc'',
       io_types = (case get_prop ob ''types'' of JArr xs \<Rightarrow> Some (map string_of xs) | _ \<Rightarrow> None),
       io_type = txt ''type''\<rparr>)"

definition io_view :: "component_like \<Rightarrow> component_io" where
  "io_view def = \<lparr>cio_inputs = map_option (map io_of) (cl_inputs def),
     cio_outputs = map_option (map io_of) (cl_outputs def)\<rparr>"

definition CONTINUE_RUN_CODE_NAMES :: "string list" where
  "CONTINUE_RUN_CODE_NAMES = [''ml.train/sgb_train'', ''ml.train/ss_glm_train'', ''ml.train/ss_xgb_train'']"

definition PROGRESS_CODE_NAMES :: "string list" where
  "PROGRESS_CODE_NAMES = CONTINUE_RUN_CODE_NAMES @ [''ml.train/ss_sgd_train'']"

definition decorateNode :: "dag_node \<Rightarrow> component_like option \<Rightarrow> dag_node" where
  "decorateNode node def =
     (case def of
        None \<Rightarrow> node
      | Some d \<Rightarrow>
          let defs = buildAttributeDefs (Some (cl_attrs d, cl_inputs d)); io = Some (io_view d) in
          node\<lparr>node_ports := Some (buildPorts (node_id node) io),
               node_results := Some (buildResultOutputs (node_id node) io),
               node_outputs := (if nullish (node_outputs node) [] \<noteq> [] then node_outputs node
                                else Some (buildOutputIds (node_id node) io)),
               node_configFinished := Some (isConfigFinished (node_def node) defs)\<rparr>)"

text \<open>A coordinate or progress is finite: no JSON number is infinite.\<close>

fun finite_part :: "number \<Rightarrow> rat" where
  "finite_part (Fin r) = r"
| "finite_part _ = 0"

definition mapGraphNode :: "(string \<Rightarrow> component_like option) \<Rightarrow> (string \<Rightarrow> string) \<Rightarrow> graph_node_detail \<Rightarrow> dag_node" where
  "mapGraphNode defs i18n n =
     (let codeName = str_or (gd_codeName n) '''';
          domain = fst (splitCodeName (Some codeName));
          name = str_or (gd_label n) (str_or (Some (i18n (snd (splitCodeName (Some codeName)))))
                   (str_or (Some codeName) ''Node''));
          base = \<lparr>node_id = gd_id n, node_name = name, node_status = toCanvasStatus (gd_status n),
            node_x = finite_part (nullish (gd_x n) (Fin 100)), node_y = finite_part (nullish (gd_y n) (Fin 100)),
            node_progress = (if codeName \<in> set PROGRESS_CODE_NAMES then map_option finite_part (gd_progress n) else None),
            node_codeName = Some codeName, node_def = gd_def n, node_inputs = gd_inputs n, node_outputs = gd_outputs n,
            node_ports = None, node_results = None,
            node_category = str_or (Some domain) ''Unknown'', node_icon = iconFor domain, node_configFinished = None\<rparr>
      in decorateNode base (defs codeName))"

definition known_edge :: "string set \<Rightarrow> graph_edge_detail \<Rightarrow> bool" where
  "known_edge ids e \<longleftrightarrow>
     truthy (ge_source e) \<and> truthy (ge_target e) \<and> the (ge_source e) \<in> ids \<and> the (ge_target e) \<in> ids"

definition map_edge :: "graph_edge_detail \<Rightarrow> graph_edge" where
  "map_edge e = \<lparr>
     edge_id = str_or (ge_id e)
       (if truthy (ge_sourceAnchor e) \<and> truthy (ge_targetAnchor e)
        then edgeIdOf (the (ge_sourceAnchor e)) (the (ge_targetAnchor e))
        else the (ge_source e) @ ''-'' @ the (ge_target e)),
     edge_source = the (ge_source e), edge_target = the (ge_target e),
     source_anchor = ge_sourceAnchor e, target_anchor = ge_targetAnchor e\<rparr>"

definition mapGraphToDAG ::
  "(string \<Rightarrow> component_like option) \<Rightarrow> (string \<Rightarrow> string) \<Rightarrow> graph_detail option \<Rightarrow> canvas" where
  "mapGraphToDAG defs i18n graph =
     (case graph of
        None \<Rightarrow> \<lparr>canvas_nodes = [], canvas_edges = []\<rparr>
      | Some g \<Rightarrow>
          let nodes = map (mapGraphNode defs i18n) (filter (\<lambda>n. gd_id n \<noteq> '''') (gt_nodes g));
              ids = set (map node_id nodes)
          in \<lparr>canvas_nodes = nodes, canvas_edges = map map_edge (filter (known_edge ids) (gt_edges g))\<rparr>)"

section \<open>From the canvas to the server\<close>

definition js_opt :: "string option \<Rightarrow> jsval" where
  "js_opt v = (case v of None \<Rightarrow> Undefined | Some s \<Rightarrow> JStr s)"

definition saved_def :: "dag_node \<Rightarrow> jsobj" where
  "saved_def node =
     (let (domain, name) = splitCodeName (node_codeName node);
          base = spread [(''domain'', JStr domain), (''name'', JStr name)] (nullish (node_def node) []);
          first = at_opt (nullish (node_outputs node) []) 0
      in if str_or (node_codeName node) '''' \<in> set CONTINUE_RUN_CODE_NAMES \<and> truthy first
         then set_prop ''checkpoint_uri'' (JStr (the first)) base else base)"

definition toGraphNodeInfo :: "dag_node \<Rightarrow> graph_edge list \<Rightarrow> jsobj" where
  "toGraphNodeInfo node es =
     [(''graphNodeId'', JStr (node_id node)), (''codeName'', js_opt (node_codeName node)), (''label'', JStr (node_name node)),
      (''x'', JNum (Fin (of_int (js_round (node_x node))))), (''y'', JNum (Fin (of_int (js_round (node_y node))))),
      (''inputs'', texts (deriveInputs (node_id node) es)), (''outputs'', texts (nullish (node_outputs node) [])),
      (''nodeDef'', JObj (saved_def node))]"

definition toGraphEdge :: "graph_edge \<Rightarrow> jsobj" where
  "toGraphEdge e =
     [(''edgeId'', JStr (edge_id e)), (''source'', JStr (edge_source e)), (''sourceAnchor'', js_opt (source_anchor e)),
      (''target'', JStr (edge_target e)), (''targetAnchor'', js_opt (target_anchor e))]"

text \<open>The nodes and edges that \<open>saveGraph\<close> of the page sends.\<close>

definition save_body :: "canvas \<Rightarrow> jsval" where
  "save_body c = JObj
     [(''nodes'', JArr (map (\<lambda>n. JObj (toGraphNodeInfo n (canvas_edges c))) (canvas_nodes c))),
      (''edges'', JArr (map (\<lambda>e. JObj (toGraphEdge e)) (canvas_edges c)))]"

text \<open>Loading a graph whose stored form is the body.\<close>

definition reload ::
  "(string \<Rightarrow> jsval option) \<Rightarrow> (string \<Rightarrow> component_like option) \<Rightarrow> (string \<Rightarrow> string) \<Rightarrow> jsval \<Rightarrow> canvas" where
  "reload parse defs i18n body = mapGraphToDAG defs i18n (Some (normalizeGraphDetail parse body))"

section \<open>Smaller conversions of the page\<close>

text \<open>\<open>toStatusOverlay\<close>: the last entry of a node counts.\<close>

definition toStatusOverlay ::
  "graph_status option \<Rightarrow> (string \<Rightarrow> string option) \<Rightarrow> (string \<rightharpoonup> dag_status \<times> number option)" where
  "toStatusOverlay status codeNameOf =
     foldl (\<lambda>out n. if sn_id n = '''' then out
        else out(sn_id n \<mapsto> (toCanvasStatus (sn_status n),
          if str_or (codeNameOf (sn_id n)) '''' \<in> set PROGRESS_CODE_NAMES then sn_progress n else None)))
       Map.empty (case status of None \<Rightarrow> [] | Some st \<Rightarrow> gs_nodes st)"

record component_card =
  cc_domain :: string
  cc_name :: string
  cc_version :: "string option"
  cc_desc :: "string option"
  cc_icon :: string

definition card_of :: "component_summary \<Rightarrow> component_card" where
  "card_of c = \<lparr>cc_domain = cs_domain c, cc_name = cs_name c, cc_version = cs_version c, cc_desc = cs_desc c,
     cc_icon = iconFor (cs_domain c)\<rparr>"

definition shown_components :: "component_summary list \<Rightarrow> string option \<Rightarrow> component_summary list" where
  "shown_components cs computeMode =
     (let wanted = (if to_upper (str_or computeMode '''') = ''TEE'' then [''trustedflow'', ''secretpad_tee''] else [''secretflow'']);
          apps = set (map cs_app cs)
      in if list_ex (\<lambda>a. a \<in> apps) wanted then filter (\<lambda>c. cs_app c \<in> set wanted) cs else cs)"

definition groupComponents ::
  "component_summary list \<Rightarrow> string option \<Rightarrow> (component_summary \<Rightarrow> string) \<Rightarrow> (string \<times> component_card list) list" where
  "groupComponents cs computeMode label =
     foldl (\<lambda>groups c. set_prop (label c) (nullish (map_of groups (label c)) [] @ [card_of c]) groups) []
       (shown_components cs computeMode)"

record job_summary =
  jb_jobId :: "string option"
  jb_status :: "string option"
  jb_gmtCreate :: "string option"
  jb_gmtFinished :: "string option"
  jb_taskCount :: "number option"
  jb_finishedTaskCount :: "number option"
  jb_errMsg :: "string option"

datatype job_status = JobSucceed | JobFailed | JobStopped | JobRunning | JobPending

record execution_record =
  er_jobId :: string
  er_status :: job_status
  er_gmtCreate :: string
  er_gmtFinished :: "string option"
  er_taskCount :: number
  er_finishedTaskCount :: number
  er_errMsg :: "string option"

definition toExecutionRecord :: "job_summary \<Rightarrow> execution_record" where
  "toExecutionRecord j = \<lparr>
     er_jobId = str_or (jb_jobId j) '''',
     er_status = (case normalizeStatus (jb_status j) of
         Some SUCCEED \<Rightarrow> JobSucceed | Some FAILED \<Rightarrow> JobFailed | Some STOPPED \<Rightarrow> JobStopped | Some RUNNING \<Rightarrow> JobRunning
       | _ \<Rightarrow> JobPending),
     er_gmtCreate = str_or (jb_gmtCreate j) '''',
     er_gmtFinished = (if truthy (jb_gmtFinished j) then jb_gmtFinished j else None),
     er_taskCount = nullish (jb_taskCount j) (Fin 0),
     er_finishedTaskCount = nullish (jb_finishedTaskCount j) (Fin 0),
     er_errMsg = (if truthy (jb_errMsg j) then jb_errMsg j else None)\<rparr>"

section \<open>Saving and loading again\<close>

lemma js_round_int [simp]: "js_round (of_int i) = i"
  by (simp add: js_round_def floor_eq_iff)

definition nonempty_text :: "string \<Rightarrow> string option" where
  "nonempty_text t = (if t = '''' then None else Some t)"

lemma opt_text_js_opt: "opt_text (js_opt v) = (if truthy v then v else None)"
  by (cases v) (simp_all add: js_opt_def)

lemma read_saved_node:
  "normalizeGraphNode parse (toGraphNodeInfo n es) =
     \<lparr>gd_id = node_id n, gd_codeName = (if truthy (node_codeName n) then node_codeName n else None),
      gd_label = nonempty_text (node_name n),
      gd_x = Some (Fin (of_int (js_round (node_x n)))), gd_y = Some (Fin (of_int (js_round (node_y n)))),
      gd_inputs = Some (deriveInputs (node_id n) es), gd_outputs = Some (nullish (node_outputs n) []),
      gd_def = Some (saved_def n), gd_status = None, gd_jobId = None, gd_taskId = None, gd_progress = None,
      gd_results = Undefined, gd_parties = Undefined\<rparr>"
proof -
  have "opt_text (pick (toGraphNodeInfo n es) [''codeName'', ''code_name'']) = (if truthy (node_codeName n) then node_codeName n else None)"
    by (cases "node_codeName n") (simp_all add: toGraphNodeInfo_def get_prop_def js_opt_def Let_def)
  then show ?thesis
    unfolding normalizeGraphNode_def
    by (intro graph_node_detail.equality; simp only: graph_node_detail.simps)
       (simp_all add: text_of_def toGraphNodeInfo_def get_prop_def def_of_def nonempty_text_def Let_def)
qed

definition plain_edge :: "graph_edge \<Rightarrow> bool" where
  "plain_edge e \<longleftrightarrow> edge_id e \<noteq> '''' \<and> edge_source e \<noteq> '''' \<and> edge_target e \<noteq> '''' \<and>
     source_anchor e \<noteq> Some '''' \<and> target_anchor e \<noteq> Some ''''"

lemma read_saved_edge:
  assumes "plain_edge e"
  shows "normalize_edge (toGraphEdge e) =
     \<lparr>ge_id = Some (edge_id e), ge_source = Some (edge_source e), ge_sourceAnchor = source_anchor e,
      ge_target = Some (edge_target e), ge_targetAnchor = target_anchor e\<rparr>"
  using assms
  by (cases "source_anchor e"; cases "target_anchor e")
     (simp_all add: normalize_edge_def toGraphEdge_def get_prop_def js_opt_def plain_edge_def Let_def)

lemma map_saved_edge: "plain_edge e \<Longrightarrow> map_edge (normalize_edge (toGraphEdge e)) = e"
  by (simp add: read_saved_edge) (simp add: map_edge_def plain_edge_def)

lemma known_saved_edge:
  "plain_edge e \<Longrightarrow> known_edge ids (normalize_edge (toGraphEdge e)) \<longleftrightarrow> edge_source e \<in> ids \<and> edge_target e \<in> ids"
  by (simp add: read_saved_edge) (simp add: known_edge_def plain_edge_def)

definition reload_node ::
  "(string \<Rightarrow> jsval option) \<Rightarrow> (string \<Rightarrow> component_like option) \<Rightarrow> (string \<Rightarrow> string) \<Rightarrow> graph_edge list \<Rightarrow> dag_node \<Rightarrow> dag_node" where
  "reload_node parse defs i18n es n = mapGraphNode defs i18n (normalizeGraphNode parse (toGraphNodeInfo n es))"

lemma decorateNode_fields [simp]:
  "node_id (decorateNode n d) = node_id n" "node_name (decorateNode n d) = node_name n"
  "node_x (decorateNode n d) = node_x n" "node_y (decorateNode n d) = node_y n"
  "node_inputs (decorateNode n d) = node_inputs n" "node_def (decorateNode n d) = node_def n"
  "node_codeName (decorateNode n d) = node_codeName n" "node_status (decorateNode n d) = node_status n"
  by (simp_all add: decorateNode_def Let_def split: option.split)

lemma mapGraphNode_id [simp]: "node_id (mapGraphNode defs i18n g) = gd_id g"
  by (simp add: mapGraphNode_def Let_def)

lemma reload_canvas:
  assumes ids: "\<forall>n \<in> set (canvas_nodes c). node_id n \<noteq> ''''"
    and edges: "\<forall>e \<in> set (canvas_edges c). plain_edge e" and known: "edges_known c"
  shows "reload parse defs i18n (save_body c) =
    \<lparr>canvas_nodes = map (reload_node parse defs i18n (canvas_edges c)) (canvas_nodes c), canvas_edges = canvas_edges c\<rparr>"
proof -
  let ?g = "normalizeGraphDetail parse (save_body c)"
  have nodes: "gt_nodes ?g = map (\<lambda>n. normalizeGraphNode parse (toGraphNodeInfo n (canvas_edges c))) (canvas_nodes c)"
    and es: "gt_edges ?g = map (\<lambda>e. normalize_edge (toGraphEdge e)) (canvas_edges c)"
    by (simp_all add: normalizeGraphDetail_def save_body_def obj_fields_def get_prop_def Let_def comp_def)
  have keep: "filter (\<lambda>n. gd_id n \<noteq> '''') (gt_nodes ?g) = gt_nodes ?g"
    using ids by (auto simp: nodes read_saved_node intro!: filter_True)
  have node_list: "map (mapGraphNode defs i18n) (filter (\<lambda>n. gd_id n \<noteq> '''') (gt_nodes ?g)) =
      map (reload_node parse defs i18n (canvas_edges c)) (canvas_nodes c)"
    unfolding keep by (simp add: nodes reload_node_def comp_def)
  have node_ids: "node_id (reload_node parse defs i18n (canvas_edges c) n) = node_id n" for n
    by (simp add: reload_node_def read_saved_node)
  have idset: "set (map node_id (map (reload_node parse defs i18n (canvas_edges c)) (canvas_nodes c))) = canvas_ids c"
    by (simp add: node_ids image_image canvas_ids_def)
  have "filter (known_edge (canvas_ids c)) (gt_edges ?g) = gt_edges ?g"
    using edges known by (auto simp: es known_saved_edge edges_known_def intro!: filter_True)
  moreover have "map map_edge (gt_edges ?g) = canvas_edges c"
    unfolding es map_map by (rule map_idI) (use edges in \<open>simp add: map_saved_edge\<close>)
  ultimately have "map map_edge (filter (known_edge (canvas_ids c)) (gt_edges ?g)) = canvas_edges c" by simp
  then show ?thesis
    unfolding reload_def mapGraphToDAG_def option.simps Let_def node_list idset by simp
qed

lemma reload_node_fields:
  "node_id (reload_node parse defs i18n es n) = node_id n"
  "node_inputs (reload_node parse defs i18n es n) = Some (deriveInputs (node_id n) es)"
  "node_x (reload_node parse defs i18n es n) = of_int (js_round (node_x n))"
  "node_y (reload_node parse defs i18n es n) = of_int (js_round (node_y n))"
  "node_def (reload_node parse defs i18n es n) = Some (saved_def n)"
  "node_codeName (reload_node parse defs i18n es n) = Some (str_or (node_codeName n) '''')"
  "node_name n \<noteq> '''' \<Longrightarrow> node_name (reload_node parse defs i18n es n) = node_name n"
  by (cases "node_codeName n";
      simp add: reload_node_def read_saved_node mapGraphNode_def Let_def nonempty_text_def)+

text \<open>A consistent canvas stays consistent when it is saved and loaded again.\<close>

lemma good_edges_plain:
  assumes "canvas_good c" "\<forall>n \<in> set (canvas_nodes c). node_id n \<noteq> ''''" "e \<in> set (canvas_edges c)"
  shows "plain_edge e"
proof -
  have e: "edge_ok e" "named_by_anchors e" "edge_source e \<in> canvas_ids c" "edge_target e \<in> canvas_ids c"
    using assms(1,3) by (simp_all add: canvas_good_def canvas_inv_def canvas_ok_def edges_known_def)
  have "truthy (source_anchor e)" "truthy (target_anchor e)"
    using e(1) parse_truthy by (auto simp: edge_ok_def)
  moreover have "edge_id e \<noteq> ''''" using e(2) by (auto simp: named_by_anchors_def edgeIdOf_def)
  moreover have "edge_source e \<noteq> ''''" "edge_target e \<noteq> ''''" using e(3,4) assms(2) by (auto simp: canvas_ids_def)
  ultimately show ?thesis by (auto simp: plain_edge_def truthy_iff)
qed

lemma reload_good:
  assumes good: "canvas_good c" and ids: "\<forall>n \<in> set (canvas_nodes c). node_id n \<noteq> ''''"
  shows "canvas_good (reload parse defs i18n (save_body c)) \<and>
    canvas_edges (reload parse defs i18n (save_body c)) = canvas_edges c \<and>
    map node_id (canvas_nodes (reload parse defs i18n (save_body c))) = map node_id (canvas_nodes c)"
proof -
  have eq: "reload parse defs i18n (save_body c) =
      \<lparr>canvas_nodes = map (reload_node parse defs i18n (canvas_edges c)) (canvas_nodes c), canvas_edges = canvas_edges c\<rparr>"
    using good_edges_plain [OF good ids] good ids by (intro reload_canvas) (auto simp: canvas_good_def)
  have m: "map node_id (map (reload_node parse defs i18n (canvas_edges c)) (canvas_nodes c)) = map node_id (canvas_nodes c)"
    by (simp add: comp_def reload_node_fields)
  have "distinct (map node_id (canvas_nodes (reload parse defs i18n (save_body c))))"
    using good unfolding eq canvas.simps m by (simp add: canvas_good_def)
  then show ?thesis
    using good m unfolding eq
    by (auto simp: canvas_good_def canvas_inv_def canvas_ok_def edges_known_def canvas_ids_def reload_node_fields image_image)
qed

section \<open>Saving what was loaded changes nothing\<close>

text \<open>
  What every loaded node has: an identifier, a name, a code name, and the outputs of its component
  if it has any.
\<close>

definition settled_node :: "(string \<Rightarrow> component_like option) \<Rightarrow> dag_node \<Rightarrow> bool" where
  "settled_node defs n \<longleftrightarrow>
     node_id n \<noteq> '''' \<and> node_name n \<noteq> '''' \<and> node_codeName n \<noteq> None \<and>
     (nullish (node_outputs n) [] = [] \<longrightarrow>
        (case defs (the (node_codeName n)) of
           None \<Rightarrow> True | Some d \<Rightarrow> buildOutputIds (node_id n) (Some (io_view d)) = []))"

definition settled :: "(string \<Rightarrow> component_like option) \<Rightarrow> canvas \<Rightarrow> bool" where
  "settled defs c \<longleftrightarrow>
     (\<forall>n \<in> set (canvas_nodes c). settled_node defs n) \<and> (\<forall>e \<in> set (canvas_edges c). plain_edge e) \<and> edges_known c"

lemma settled_mapGraphNode:
  assumes "gd_id g \<noteq> ''''"
  shows "settled_node defs (mapGraphNode defs i18n g)"
proof -
  have "node_name (mapGraphNode defs i18n g) \<noteq> ''''"
    by (cases "gd_label g") (simp_all add: mapGraphNode_def Let_def)
  moreover have "node_codeName (mapGraphNode defs i18n g) = Some (str_or (gd_codeName g) '''')"
    by (simp add: mapGraphNode_def Let_def)
  moreover have "buildOutputIds (gd_id g) (Some (io_view d)) = []"
    if "nullish (node_outputs (mapGraphNode defs i18n g)) [] = []" "defs (str_or (gd_codeName g) '''') = Some d" for d
    using that by (auto simp: mapGraphNode_def Let_def decorateNode_def split: if_splits)
  ultimately show ?thesis using assms by (auto simp: settled_node_def split: option.split)
qed

definition anchors_clean :: "graph_detail \<Rightarrow> bool" where
  "anchors_clean g \<longleftrightarrow> (\<forall>e \<in> set (gt_edges g). ge_sourceAnchor e \<noteq> Some '''' \<and> ge_targetAnchor e \<noteq> Some '''')"

lemma settled_mapGraphToDAG:
  assumes "anchors_clean g"
  shows "settled defs (mapGraphToDAG defs i18n (Some g))"
proof -
  let ?c = "mapGraphToDAG defs i18n (Some g)"
  define ids where "ids = set (map node_id (map (mapGraphNode defs i18n) (filter (\<lambda>n. gd_id n \<noteq> '''') (gt_nodes g))))"
  have ids: "canvas_ids ?c = ids" and edges: "canvas_edges ?c = map map_edge (filter (known_edge ids) (gt_edges g))"
    by (simp_all add: mapGraphToDAG_def Let_def ids_def canvas_ids_def image_image)
  have "plain_edge (map_edge e) \<and> edge_source (map_edge e) \<in> ids \<and> edge_target (map_edge e) \<in> ids"
    if "e \<in> set (gt_edges g)" "known_edge ids e" for e
  proof -
    have "edge_id (map_edge e) \<noteq> ''''"
      by (cases "ge_id e") (auto simp: map_edge_def edgeIdOf_def)
    then show ?thesis
      using assms that by (auto simp: anchors_clean_def plain_edge_def map_edge_def known_edge_def truthy_iff)
  qed
  then have "(\<forall>e \<in> set (canvas_edges ?c). plain_edge e) \<and> edges_known ?c"
    unfolding edges_known_def ids by (auto simp: edges)
  moreover have "settled_node defs n" if "n \<in> set (canvas_nodes ?c)" for n
    using that by (auto simp: mapGraphToDAG_def Let_def settled_mapGraphNode)
  ultimately show ?thesis by (simp add: settled_def)
qed

lemma splitCodeName_or: "splitCodeName (Some (str_or c '''')) = splitCodeName c"
  by (cases c) (simp_all add: splitCodeName_def)

lemma saved_def_stable:
  assumes "node_def m = Some (saved_def n)" "node_codeName m = Some (str_or (node_codeName n) '''')"
    and "nullish (node_outputs m) [] = nullish (node_outputs n) []"
  shows "saved_def m = saved_def n"
proof -
  obtain dom nm where dn: "splitCodeName (node_codeName n) = (dom, nm)" by fastforce
  let ?base = "[(''domain'', JStr dom), (''name'', JStr nm)]"
  define S where "S = spread ?base (nullish (node_def n) [])"
  define R where "R = saved_def n"
  define first where "first = at_opt (nullish (node_outputs n) []) 0"
  define cond where "cond \<longleftrightarrow> str_or (node_codeName n) '''' \<in> set CONTINUE_RUN_CODE_NAMES \<and> truthy first"
  let ?ck = "set_prop ''checkpoint_uri'' (JStr (the first))"
  have Rn: "R = (if cond then ?ck S else S)"
    unfolding R_def saved_def_def dn Let_def prod.case S_def first_def cond_def by (rule refl)
  obtain ks where ks: "map fst S = map fst ?base @ ks" unfolding S_def using keys_spread by blast
  have dS: "distinct (map fst S)" unfolding S_def by (rule distinct_spread) simp
  have "distinct (map fst R)" unfolding Rn using dS by (cases cond) (simp_all add: distinct_set_prop)
  moreover have "\<exists>ks. map fst R = map fst ?base @ ks"
    unfolding Rn using keys_set_prop [of "''checkpoint_uri''" "JStr (the first)" S] ks by (cases cond) auto
  ultimately have same: "spread ?base R = R" using spread_over [of "[]" R ?base] by simp
  have or: "str_or (Some (str_or t '''')) '''' = str_or t ''''" for t by (cases t) simp_all
  have "saved_def m = (if cond then ?ck R else R)"
    unfolding saved_def_def [of m] assms(2,3) assms(1) [folded R_def] splitCodeName_or dn nullish.simps Let_def prod.case
      or same first_def cond_def by (rule refl)
  also have "\<dots> = R" unfolding Rn by (cases cond) simp_all
  finally show ?thesis by (simp only: R_def)
qed

lemma reload_node_outputs:
  assumes "settled_node defs n"
  shows "nullish (node_outputs (reload_node parse defs i18n es n)) [] = nullish (node_outputs n) []"
proof -
  obtain c where c: "node_codeName n = Some c" using assms by (auto simp: settled_node_def)
  have "str_or (if c = '''' then None else Some c) '''' = c" by simp
  then show ?thesis
    using assms c
    by (cases "defs c")
       (auto simp: reload_node_def read_saved_node mapGraphNode_def Let_def decorateNode_def settled_node_def)
qed

lemma saved_node_stable:
  assumes "settled_node defs n"
  shows "toGraphNodeInfo (reload_node parse defs i18n es n) es = toGraphNodeInfo n es"
proof -
  let ?m = "reload_node parse defs i18n es n"
  obtain c where c: "node_codeName n = Some c" using assms by (auto simp: settled_node_def)
  have "saved_def ?m = saved_def n"
    using reload_node_outputs [OF assms] by (intro saved_def_stable) (simp_all add: reload_node_fields)
  then show ?thesis
    using reload_node_outputs [OF assms] assms c
    by (simp add: toGraphNodeInfo_def reload_node_fields settled_node_def)
qed

lemma save_stable:
  assumes "settled defs c"
  shows "save_body (reload parse defs i18n (save_body c)) = save_body c"
proof -
  have "reload parse defs i18n (save_body c) =
      \<lparr>canvas_nodes = map (reload_node parse defs i18n (canvas_edges c)) (canvas_nodes c), canvas_edges = canvas_edges c\<rparr>"
    using assms by (intro reload_canvas) (auto simp: settled_def settled_node_def)
  then show ?thesis
    using assms by (simp add: save_body_def settled_def saved_node_stable comp_def cong: map_cong)
qed

section \<open>The overlay and the groups\<close>

lemma overlay_fold:
  "foldl (\<lambda>out n. if sn_id n = '''' then out else out(sn_id n \<mapsto> f n)) m ns i =
     (case List.find (\<lambda>n. sn_id n = i) (rev ns) of
        Some n \<Rightarrow> if i = '''' then m i else Some (f n)
      | None \<Rightarrow> m i)"
proof (induction ns arbitrary: m)
  case (Cons n ns)
  then show ?case by (simp add: find_append split: option.split)
qed simp

text \<open>The status of a node is the one of its last entry; other nodes keep theirs.\<close>

lemma toStatusOverlay_last:
  "toStatusOverlay status codeNameOf i =
     (case List.find (\<lambda>n. sn_id n = i) (rev (case status of None \<Rightarrow> [] | Some st \<Rightarrow> gs_nodes st)) of
        Some n \<Rightarrow> if i = '''' then None
          else Some (toCanvasStatus (sn_status n),
            if str_or (codeNameOf i) '''' \<in> set PROGRESS_CODE_NAMES then sn_progress n else None)
      | None \<Rightarrow> None)"
  unfolding toStatusOverlay_def overlay_fold
  by (auto split: option.split dest: find_Some_iff_mem)

lemma group_step:
  "map_of (foldl (\<lambda>groups c. set_prop (label c) (nullish (map_of groups (label c)) [] @ [f c]) groups) gs cs) k =
     (if map_of gs k = None \<and> (\<forall>c \<in> set cs. label c \<noteq> k) then None
      else Some (nullish (map_of gs k) [] @ map f (filter (\<lambda>c. label c = k) cs)))"
proof (induction cs arbitrary: gs)
  case Nil
  then show ?case by (cases "map_of gs k") auto
next
  case (Cons c cs)
  then show ?case by (cases "map_of gs k") auto
qed

text \<open>A group lists, in their order, exactly the shown components with its label.\<close>

lemma groupComponents_lookup:
  "map_of (groupComponents cs mode label) k =
     (if \<forall>c \<in> set (shown_components cs mode). label c \<noteq> k then None
      else Some (map card_of (filter (\<lambda>c. label c = k) (shown_components cs mode))))"
  unfolding groupComponents_def group_step by simp

end
