(* ===== verification/GraphEditor.thy ===== *)
theory GraphEditor
  imports GraphAdapter
begin

text \<open>
  Automatic saving, \<open>web/apps/secretpad/src/pages/dag/use-graph-editor.ts\<close>.  The refs of the hook
  are the fields of a record; every callback, effect, timer and response is an event.  A save is a
  request on its way: the server applies it at some moment, and its answer arrives later.  What
  the server stores is part of the state, so that \<open>saved\<close> can be compared with it.
\<close>

section \<open>State\<close>

datatype save_state = Idle | Dirty | Saving | Saved

text \<open>A save on its way: what \<open>doSave\<close> remembers across the \<open>await\<close>, and whether the server has applied it.\<close>

record save_request =
  sr_version :: nat
  sr_key :: string
  sr_generation :: nat
  sr_snapshot :: canvas
  sr_applied :: bool

record autosave =
  as_graphKey :: string
  as_generation :: nat
  as_server :: nat
  as_local :: canvas
  as_dirty :: bool
  as_version :: nat
  as_timer :: bool
  as_state :: save_state
  as_canvas :: "string \<times> canvas"
  as_requests :: "save_request list"
  as_stored :: "string \<rightharpoonup> nat \<times> canvas"
  as_failed :: bool
  as_touched :: bool

text \<open>
  \<open>as_server\<close> stands for the identity of the server object of the last effect.  \<open>as_failed\<close> and
  \<open>as_touched\<close> are not in the code: whether a save of the present version failed, and whether the local copy
  was replaced other than by an edit (a patch, a refresh, an edit of a read-only canvas) since the
  version was counted.
\<close>

definition start :: "string \<Rightarrow> nat \<Rightarrow> canvas \<Rightarrow> autosave" where
  "start key srv c = \<lparr>as_graphKey = key, as_generation = 0, as_server = srv, as_local = c, as_dirty = False, as_version = 0,
     as_timer = False, as_state = Idle, as_canvas = (key, c), as_requests = [], as_stored = Map.empty,
     as_failed = False, as_touched = False\<rparr>"

section \<open>Saving\<close>

text \<open>\<open>doSave\<close> up to the \<open>await\<close>.\<close>

definition doSave :: "autosave \<Rightarrow> autosave" where
  "doSave st =
     (let st = st\<lparr>as_timer := False\<rparr> in
      if \<not> as_dirty st then st
      else st\<lparr>as_state := Saving,
              as_requests := as_requests st @ [\<lparr>sr_version = as_version st, sr_key = as_graphKey st,
                sr_generation = as_generation st, sr_snapshot = as_local st, sr_applied = False\<rparr>]\<rparr>)"

definition drop_request :: "nat \<Rightarrow> autosave \<Rightarrow> autosave" where
  "drop_request i st = st\<lparr>as_requests := take i (as_requests st) @ drop (Suc i) (as_requests st)\<rparr>"

definition outdated :: "save_request \<Rightarrow> autosave \<Rightarrow> bool" where
  "outdated r st \<longleftrightarrow> as_graphKey st \<noteq> sr_key r \<or> as_generation st \<noteq> sr_generation r"

text \<open>\<open>doSave\<close> after the \<open>await\<close>: the save succeeded, or it threw.\<close>

definition save_succeeded :: "save_request \<Rightarrow> autosave \<Rightarrow> autosave" where
  "save_succeeded r st =
     (if outdated r st then st
      else if as_version st = sr_version r then st\<lparr>as_dirty := False, as_state := Saved\<rparr>
      else st\<lparr>as_state := Dirty\<rparr>)"

definition save_failed :: "save_request \<Rightarrow> autosave \<Rightarrow> autosave" where
  "save_failed r st =
     (if outdated r st then st
      else st\<lparr>as_state := Dirty, as_failed := (as_failed st \<or> sr_version r = as_version st)\<rparr>)"

section \<open>Edits and refreshes\<close>

definition onGraphChange :: "bool \<Rightarrow> canvas \<Rightarrow> autosave \<Rightarrow> autosave" where
  "onGraphChange readOnly c st =
     (let st = st\<lparr>as_local := c\<rparr> in
      if readOnly then st\<lparr>as_touched := True\<rparr>
      else st\<lparr>as_dirty := True, as_version := Suc (as_version st), as_state := Dirty, as_timer := True,
              as_touched := False, as_failed := False\<rparr>)"

definition reset :: "autosave \<Rightarrow> autosave" where
  "reset st = st\<lparr>as_timer := False, as_dirty := False, as_state := Idle\<rparr>"

definition patchNodes :: "(dag_node list \<Rightarrow> dag_node list) \<Rightarrow> autosave \<Rightarrow> autosave" where
  "patchNodes f st =
     (let c = (as_local st)\<lparr>canvas_nodes := f (canvas_nodes (as_local st))\<rparr>
      in st\<lparr>as_local := c, as_canvas := (as_graphKey st, c), as_touched := True\<rparr>)"

text \<open>The ports that late component definitions add to nodes without ports.\<close>

definition lacks_ports :: "(string \<Rightarrow> component_like option) \<Rightarrow> dag_node \<Rightarrow> bool" where
  "lacks_ports defs n \<longleftrightarrow>
     nullish (node_ports n) [] = [] \<and> truthy (node_codeName n) \<and> defs (the (node_codeName n)) \<noteq> None"

definition merge_node :: "(string \<Rightarrow> component_like option) \<Rightarrow> dag_node \<Rightarrow> dag_node" where
  "merge_node defs n = (if lacks_ports defs n then decorateNode n (defs (the (node_codeName n))) else n)"

text \<open>The effect that runs when the graph, its server data or the component definitions change.\<close>

definition sync :: "string \<Rightarrow> nat \<Rightarrow> canvas \<Rightarrow> (string \<Rightarrow> component_like option) \<Rightarrow> autosave \<Rightarrow> autosave" where
  "sync key srv mapped defs st =
     (let switched = (as_graphKey st \<noteq> key);
          serverChanged = (as_server st \<noteq> srv);
          st = st\<lparr>as_graphKey := key, as_server := srv\<rparr>
      in if switched \<or> (serverChanged \<and> \<not> as_dirty st) then
           (let st = (if switched then st\<lparr>as_generation := Suc (as_generation st), as_timer := False,
                        as_version := Suc (as_version st), as_dirty := False, as_state := Idle, as_failed := False\<rparr> else st)
            in st\<lparr>as_local := mapped, as_canvas := (key, mapped), as_touched := True\<rparr>)
         else
           (let merged = map (merge_node defs) (canvas_nodes (as_local st)) in
            if list_ex (lacks_ports defs) (canvas_nodes (as_local st))
            then (let c = (as_local st)\<lparr>canvas_nodes := merged\<rparr>
                  in st\<lparr>as_local := c, as_canvas := (key, c), as_touched := True\<rparr>)
            else st))"

text \<open>What the page mounts: never the previous graph, not even for one render.\<close>

definition initial_canvas :: "string \<Rightarrow> canvas \<Rightarrow> autosave \<Rightarrow> canvas" where
  "initial_canvas key mapped st = (if fst (as_canvas st) = key then snd (as_canvas st) else mapped)"

section \<open>Events\<close>

datatype save_event =
    Change bool canvas
  | TimerFires
  | Flush
  | Reset
  | Patch "dag_node list \<Rightarrow> dag_node list"
  | Sync string nat canvas "string \<Rightarrow> component_like option"
  | Applied nat
  | Succeeds nat
  | Fails nat

fun save_step :: "autosave \<Rightarrow> save_event \<Rightarrow> autosave" where
  "save_step st (Change readOnly c) = onGraphChange readOnly c st"
| "save_step st TimerFires = doSave st"
| "save_step st Flush = doSave st"
| "save_step st Reset = reset st"
| "save_step st (Patch f) = patchNodes f st"
| "save_step st (Sync key srv mapped defs) = sync key srv mapped defs st"
| "save_step st (Applied i) =
     (let r = as_requests st ! i in
      st\<lparr>as_stored := (as_stored st)(sr_key r \<mapsto> (sr_version r, sr_snapshot r)),
         as_requests := (as_requests st)[i := r\<lparr>sr_applied := True\<rparr>]\<rparr>)"
| "save_step st (Succeeds i) = save_succeeded (as_requests st ! i) (drop_request i st)"
| "save_step st (Fails i) = save_failed (as_requests st ! i) (drop_request i st)"

text \<open>A timer fires when one is set; a request is applied once, and succeeds only after that.\<close>

fun can_happen :: "autosave \<Rightarrow> save_event \<Rightarrow> bool" where
  "can_happen st TimerFires = as_timer st"
| "can_happen st (Applied i) = (i < length (as_requests st) \<and> \<not> sr_applied (as_requests st ! i))"
| "can_happen st (Succeeds i) = (i < length (as_requests st) \<and> sr_applied (as_requests st ! i))"
| "can_happen st (Fails i) = (i < length (as_requests st))"
| "can_happen st _ = True"

text \<open>A server that applies the saves in the order they were sent.\<close>

fun in_order :: "autosave \<Rightarrow> save_event \<Rightarrow> bool" where
  "in_order st (Applied i) = (\<forall>j < i. sr_applied (as_requests st ! j))"
| "in_order st _ = True"

inductive saving_session :: "bool \<Rightarrow> autosave \<Rightarrow> bool" for fifo where
  opened: "saving_session fifo (start key srv c)"
| event: "saving_session fifo st \<Longrightarrow> can_happen st ev \<Longrightarrow> (fifo \<Longrightarrow> in_order st ev) \<Longrightarrow> saving_session fifo (save_step st ev)"

section \<open>No edit is forgotten\<close>

text \<open>A request of the present version belongs to the present graph.\<close>

definition requests_ok :: "autosave \<Rightarrow> bool" where
  "requests_ok st \<longleftrightarrow>
     (\<forall>r \<in> set (as_requests st). sr_version r \<le> as_version st \<and> (sr_version r = as_version st \<longrightarrow> \<not> outdated r st))"

text \<open>An unsaved edit has a timer, or its save is on its way, or that save has failed.\<close>

definition edits_pending :: "autosave \<Rightarrow> bool" where
  "edits_pending st \<longleftrightarrow>
     (as_dirty st \<longrightarrow> as_state st \<in> {Dirty, Saving} \<and>
        (as_timer st \<or> (\<exists>r \<in> set (as_requests st). sr_version r = as_version st) \<or> as_failed st))"

lemma request_at:
  assumes "i < length (as_requests st)"
  obtains A r B where "as_requests st = A @ r # B" "length A = i"
proof -
  have "as_requests st = take i (as_requests st) @ as_requests st ! i # drop (Suc i) (as_requests st)"
    using assms by (rule id_take_nth_drop)
  moreover have "length (take i (as_requests st)) = i" using assms by simp
  ultimately show ?thesis using that by blast
qed

lemma step_at:
  assumes "as_requests st = A @ r # B" "length A = i"
  shows "save_step st (Applied i) =
      st\<lparr>as_stored := (as_stored st)(sr_key r \<mapsto> (sr_version r, sr_snapshot r)), as_requests := A @ r\<lparr>sr_applied := True\<rparr> # B\<rparr>"
    and "save_step st (Succeeds i) = save_succeeded r (st\<lparr>as_requests := A @ B\<rparr>)"
    and "save_step st (Fails i) = save_failed r (st\<lparr>as_requests := A @ B\<rparr>)"
  using assms by (auto simp: Let_def list_update_append drop_request_def)

lemma outdated_update [simp]:
  "outdated r (st\<lparr>as_requests := rs\<rparr>) = outdated r st" "outdated r (st\<lparr>as_stored := m\<rparr>) = outdated r st"
  "outdated (r\<lparr>sr_applied := True\<rparr>) st = outdated r st" "outdated r (st\<lparr>as_state := s\<rparr>) = outdated r st"
  "outdated r (st\<lparr>as_dirty := d\<rparr>) = outdated r st" "outdated r (st\<lparr>as_failed := f\<rparr>) = outdated r st"
  "outdated r (st\<lparr>as_timer := b\<rparr>) = outdated r st" "outdated r (st\<lparr>as_local := c\<rparr>) = outdated r st"
  "outdated r (st\<lparr>as_touched := b\<rparr>) = outdated r st" "outdated r (st\<lparr>as_canvas := p\<rparr>) = outdated r st"
  "outdated r (st\<lparr>as_server := n\<rparr>) = outdated r st" "outdated r (st\<lparr>as_version := n\<rparr>) = outdated r st"
  by (simp_all add: outdated_def)

text \<open>The cases of a step: a request is applied or answered, or one of the other events happens.\<close>

lemma save_event_cases:
  assumes "can_happen st ev"
  obtains (applied) A r B where "as_requests st = A @ r # B" "ev = Applied (length A)" "\<not> sr_applied r"
  | (succeeds) A r B where "as_requests st = A @ r # B" "ev = Succeeds (length A)" "sr_applied r"
  | (fails) A r B where "as_requests st = A @ r # B" "ev = Fails (length A)"
  | (other) "\<forall>i. ev \<noteq> Applied i \<and> ev \<noteq> Succeeds i \<and> ev \<noteq> Fails i"
proof (cases ev)
  case (Applied i)
  then obtain A r B where "as_requests st = A @ r # B" "length A = i" using assms request_at [of i st] by auto
  then show ?thesis using assms Applied applied [of A r B] by (auto simp: nth_append)
next
  case (Succeeds i)
  then obtain A r B where "as_requests st = A @ r # B" "length A = i" using assms request_at [of i st] by auto
  then show ?thesis using assms Succeeds succeeds [of A r B] by (auto simp: nth_append)
next
  case (Fails i)
  then obtain A r B where "as_requests st = A @ r # B" "length A = i" using assms request_at [of i st] by auto
  then show ?thesis using Fails fails by blast
qed (use other in auto)

lemma requests_ok_other:
  assumes "requests_ok st" "\<forall>i. ev \<noteq> Applied i \<and> ev \<noteq> Succeeds i \<and> ev \<noteq> Fails i"
  shows "requests_ok (save_step st ev)"
proof (cases ev)
  case (Change readOnly c)
  then show ?thesis using assms(1)
    by (auto simp: requests_ok_def onGraphChange_def outdated_def Let_def dest: le_imp_less_Suc)
next
  case (Sync key srv mapped defs)
  then show ?thesis using assms(1)
    by (auto simp: requests_ok_def sync_def outdated_def Let_def dest: le_imp_less_Suc)
qed (use assms in \<open>auto simp: requests_ok_def doSave_def reset_def patchNodes_def outdated_def Let_def\<close>)

lemma requests_ok_step:
  assumes ok: "requests_ok st" and ev: "can_happen st ev"
  shows "requests_ok (save_step st ev)"
  using ev
proof (cases rule: save_event_cases)
  case (applied A r B)
  then show ?thesis using ok by (simp add: step_at requests_ok_def ball_Un del: save_step.simps)
next
  case (succeeds A r B)
  then show ?thesis using ok by (auto simp: step_at save_succeeded_def requests_ok_def simp del: save_step.simps)
next
  case (fails A r B)
  then show ?thesis using ok by (simp add: step_at save_failed_def requests_ok_def ball_Un del: save_step.simps)
next
  case other
  then show ?thesis using ok by (intro requests_ok_other)
qed

lemma edits_pending_step:
  assumes ok: "requests_ok st" and p: "edits_pending st" and ev: "can_happen st ev"
  shows "edits_pending (save_step st ev)"
  using ev
proof (cases rule: save_event_cases)
  case (applied A r B)
  then show ?thesis using p by (simp add: step_at edits_pending_def del: save_step.simps)
next
  case (succeeds A r B)
  then have "sr_version r = as_version st \<longrightarrow> \<not> outdated r st" using ok by (simp add: requests_ok_def)
  then show ?thesis using p succeeds by (auto simp: step_at save_succeeded_def edits_pending_def simp del: save_step.simps)
next
  case (fails A r B)
  then have "sr_version r = as_version st \<longrightarrow> \<not> outdated r st" using ok by (simp add: requests_ok_def)
  then show ?thesis using p fails by (auto simp: step_at save_failed_def edits_pending_def simp del: save_step.simps)
next
  case other
  then show ?thesis using p
    by (cases ev) (auto simp: edits_pending_def doSave_def reset_def patchNodes_def onGraphChange_def sync_def Let_def)
qed

lemma session_pending: "saving_session fifo st \<Longrightarrow> requests_ok st \<and> edits_pending st"
proof (induction rule: saving_session.induct)
  case (opened key srv c)
  then show ?case by (simp add: requests_ok_def edits_pending_def start_def)
next
  case (event st ev)
  then show ?case using requests_ok_step edits_pending_step by blast
qed

section \<open>Saved means stored\<close>

text \<open>
  With a server that applies saves in the order they were sent: the requests on their way are in
  the order of their versions, the applied ones first; what is stored for a graph is not newer
  than any request not yet applied, and not older than any applied one.
\<close>

definition queue_ok :: "autosave \<Rightarrow> bool" where
  "queue_ok st \<longleftrightarrow>
     sorted (map sr_version (as_requests st)) \<and>
     sorted_wrt (\<lambda>r r'. sr_applied r' \<longrightarrow> sr_applied r) (as_requests st)"

definition stored_ok :: "autosave \<Rightarrow> bool" where
  "stored_ok st \<longleftrightarrow>
     (\<forall>k v c. as_stored st k = Some (v, c) \<longrightarrow> v \<le> as_version st \<and>
        (\<forall>r \<in> set (as_requests st). \<not> sr_applied r \<longrightarrow> v \<le> sr_version r)) \<and>
     (\<forall>r \<in> set (as_requests st). sr_applied r \<longrightarrow> (\<exists>v c. as_stored st (sr_key r) = Some (v, c) \<and> sr_version r \<le> v))"

definition saved_ok :: "autosave \<Rightarrow> bool" where
  "saved_ok st \<longleftrightarrow> (as_state st = Saved \<longrightarrow> \<not> as_dirty st \<and> (\<exists>c. as_stored st (as_graphKey st) = Some (as_version st, c)))"

text \<open>What is stored or on its way under the present version is the local copy, unless that was replaced since.\<close>

definition content_ok :: "autosave \<Rightarrow> bool" where
  "content_ok st \<longleftrightarrow>
     (\<not> as_touched st \<longrightarrow>
        (\<forall>r \<in> set (as_requests st). sr_version r = as_version st \<longrightarrow> sr_snapshot r = as_local st) \<and>
        (\<forall>k c. as_stored st k = Some (as_version st, c) \<longrightarrow> c = as_local st))"

definition fifo_ok :: "autosave \<Rightarrow> bool" where
  "fifo_ok st \<longleftrightarrow> requests_ok st \<and> queue_ok st \<and> stored_ok st \<and> saved_ok st \<and> content_ok st"

lemmas fifo_defs = fifo_ok_def requests_ok_def queue_ok_def stored_ok_def saved_ok_def content_ok_def

lemma fifo_start: "fifo_ok (start key srv c)"
  by (simp add: fifo_defs start_def)

lemma fifo_change:
  assumes "fifo_ok st"
  shows "fifo_ok (onGraphChange readOnly c st)"
proof (cases readOnly)
  case True
  then show ?thesis using assms by (simp add: fifo_defs onGraphChange_def outdated_def Let_def)
next
  case False
  have v: "sr_version r \<le> as_version st" if "r \<in> set (as_requests st)" for r
    using assms that by (simp add: fifo_defs)
  have s: "v \<le> as_version st" if "as_stored st k = Some (v, c')" for k v c'
    using assms that by (auto simp: fifo_defs)
  have "requests_ok (onGraphChange readOnly c st)"
    using requests_ok_other [of st "Change readOnly c"] assms by (simp add: fifo_ok_def)
  moreover have "content_ok (onGraphChange readOnly c st)"
    using False v s by (fastforce simp: content_ok_def onGraphChange_def Let_def)
  moreover have "stored_ok (onGraphChange readOnly c st)"
    using assms False s by (fastforce simp: fifo_ok_def stored_ok_def onGraphChange_def Let_def)
  ultimately show ?thesis
    using assms False by (simp add: fifo_ok_def queue_ok_def saved_ok_def onGraphChange_def Let_def)
qed

lemma fifo_touch:
  assumes "fifo_ok st"
  shows "fifo_ok (st\<lparr>as_local := c, as_canvas := p, as_touched := True\<rparr>)"
  using assms by (simp add: fifo_defs)

lemma fifo_save:
  assumes "fifo_ok st"
  shows "fifo_ok (doSave st)"
proof (cases "as_dirty st")
  case False
  then show ?thesis using assms by (simp add: doSave_def fifo_defs)
next
  case True
  define r where "r = \<lparr>sr_version = as_version st, sr_key = as_graphKey st, sr_generation = as_generation st,
    sr_snapshot = as_local st, sr_applied = False\<rparr>"
  have d: "doSave st = st\<lparr>as_timer := False, as_state := Saving, as_requests := as_requests st @ [r]\<rparr>"
    using True by (simp add: doSave_def r_def Let_def)
  have r: "sr_version r = as_version st" "\<not> sr_applied r" "\<not> outdated r st" "sr_snapshot r = as_local st"
    by (simp_all add: r_def outdated_def)
  have "requests_ok (doSave st)" using assms r by (simp add: d fifo_ok_def requests_ok_def)
  moreover have "queue_ok (doSave st)" using assms r by (auto simp: d fifo_defs sorted_append sorted_wrt_append)
  moreover have "stored_ok (doSave st)" using assms r by (fastforce simp: d fifo_ok_def stored_ok_def)
  moreover have "content_ok (doSave st)" using assms r by (auto simp: d fifo_ok_def content_ok_def)
  ultimately show ?thesis by (simp add: fifo_ok_def saved_ok_def d)
qed

lemma fifo_sync:
  assumes "fifo_ok st"
  shows "fifo_ok (sync key srv mapped defs st)"
proof (cases "as_graphKey st = key")
  case True
  have "fifo_ok (st\<lparr>as_graphKey := key, as_server := srv\<rparr>)"
    using assms True by (simp add: fifo_defs outdated_def)
  then show ?thesis using True fifo_touch by (simp add: sync_def Let_def)
next
  case False
  have "requests_ok (sync key srv mapped defs st)"
    using requests_ok_other [of st "Sync key srv mapped defs"] assms by (simp add: fifo_ok_def)
  moreover have "stored_ok (sync key srv mapped defs st)"
    using assms False by (fastforce simp: fifo_ok_def stored_ok_def sync_def Let_def)
  ultimately show ?thesis
    using assms False by (simp add: fifo_ok_def queue_ok_def saved_ok_def content_ok_def sync_def Let_def)
qed

lemma fifo_drop:
  assumes "fifo_ok st" "as_requests st = A @ r # B"
  shows "fifo_ok (st\<lparr>as_requests := A @ B\<rparr>)"
  using assms by (simp add: fifo_defs sorted_append sorted_wrt_append ball_Un)

lemma fifo_dirty: "fifo_ok st \<Longrightarrow> fifo_ok (st\<lparr>as_state := Dirty\<rparr>)"
  by (simp add: fifo_defs)

lemma fifo_applied:
  assumes ok: "fifo_ok st" and rs: "as_requests st = A @ r # B" and new: "\<not> sr_applied r" and first: "\<forall>a \<in> set A. sr_applied a"
  shows "fifo_ok (save_step st (Applied (length A)))"
proof -
  let ?r = "r\<lparr>sr_applied := True\<rparr>"
  let ?st = "st\<lparr>as_stored := (as_stored st)(sr_key r \<mapsto> (sr_version r, sr_snapshot r)), as_requests := A @ ?r # B\<rparr>"
  have le: "sr_version a \<le> sr_version r" if "a \<in> set A" for a
    using ok rs that by (auto simp: fifo_defs sorted_append)
  have ge: "sr_version r \<le> sr_version b" if "b \<in> set B" for b
    using ok rs that by (auto simp: fifo_defs sorted_append)
  have unapplied: "\<not> sr_applied b" if "b \<in> set B" for b
    using ok rs that new by (auto simp: fifo_defs sorted_wrt_append)
  have req: "requests_ok ?st" using ok rs by (simp add: fifo_ok_def requests_ok_def)
  have queue: "queue_ok ?st" using ok rs first by (simp add: fifo_defs sorted_append sorted_wrt_append)
  have old: "v \<le> sr_version r" if "as_stored st k = Some (v, c)" for k v c
    using ok rs new that by (auto simp: fifo_ok_def stored_ok_def)
  have "stored_ok ?st"
    unfolding stored_ok_def
  proof (intro conjI allI impI ballI)
    fix k v c assume "as_stored ?st k = Some (v, c)"
    then have "v \<le> sr_version r" using old by (auto split: if_splits)
    then show "v \<le> as_version ?st" using ok rs by (auto simp: fifo_defs)
    fix q assume "q \<in> set (as_requests ?st)" "\<not> sr_applied q"
    then have "q \<in> set B" using first by auto
    then show "v \<le> sr_version q" using ge \<open>v \<le> sr_version r\<close> by fastforce
  next
    fix q assume q: "q \<in> set (as_requests ?st)" "sr_applied q"
    show "\<exists>v c. as_stored ?st (sr_key q) = Some (v, c) \<and> sr_version q \<le> v"
    proof (cases "sr_key q = sr_key r")
      case True
      have "q \<in> insert ?r (set A)" using q unapplied by auto
      then show ?thesis using True le by auto
    next
      case False
      then have "q \<in> set A \<union> set B" using q by auto
      then show ?thesis using ok rs q(2) False by (auto simp: fifo_ok_def stored_ok_def)
    qed
  qed
  moreover have "saved_ok ?st"
    unfolding saved_ok_def
  proof (intro impI conjI)
    assume "as_state ?st = Saved"
    then have "\<not> as_dirty st" and "\<exists>c. as_stored st (as_graphKey st) = Some (as_version st, c)"
      using ok by (simp_all add: fifo_ok_def saved_ok_def)
    then show "\<not> as_dirty ?st" and "\<exists>c. as_stored ?st (as_graphKey ?st) = Some (as_version ?st, c)"
      using old ok rs by (auto simp: fifo_defs intro: le_antisym)
  qed
  moreover have "content_ok ?st" using ok rs by (auto simp: fifo_ok_def content_ok_def)
  ultimately show ?thesis unfolding step_at(1) [OF rs refl] using req queue by (simp add: fifo_ok_def)
qed

lemma fifo_succeeds:
  assumes ok: "fifo_ok st" and rs: "as_requests st = A @ r # B" and done': "sr_applied r"
  shows "fifo_ok (save_step st (Succeeds (length A)))"
proof -
  let ?st = "st\<lparr>as_requests := A @ B\<rparr>"
  have ok': "fifo_ok ?st" by (rule fifo_drop [OF ok rs])
  show ?thesis
  proof (cases "\<not> outdated r st \<and> as_version st = sr_version r")
    case True
    have "\<exists>v c. as_stored st (sr_key r) = Some (v, c) \<and> sr_version r \<le> v"
      using ok rs done' by (auto simp: fifo_ok_def stored_ok_def)
    moreover have "v \<le> as_version st" if "as_stored st k = Some (v, c)" for k v c
      using ok that by (auto simp: fifo_ok_def stored_ok_def)
    ultimately have "\<exists>c. as_stored st (as_graphKey st) = Some (as_version st, c)"
      using True by (auto simp: outdated_def) (metis le_antisym)
    then show ?thesis using ok' True unfolding step_at(2) [OF rs refl] save_succeeded_def
      by (simp add: fifo_defs)
  next
    case False
    then show ?thesis using ok' fifo_dirty [OF ok'] unfolding step_at(2) [OF rs refl] save_succeeded_def
      by (cases "outdated r st") simp_all
  qed
qed

lemma fifo_fails:
  assumes ok: "fifo_ok st" and rs: "as_requests st = A @ r # B"
  shows "fifo_ok (save_step st (Fails (length A)))"
  using fifo_drop [OF ok rs] unfolding step_at(3) [OF rs refl] save_failed_def by (simp add: fifo_defs)

lemma fifo_step:
  assumes ok: "fifo_ok st" and ev: "can_happen st ev" "in_order st ev"
  shows "fifo_ok (save_step st ev)"
  using ev(1)
proof (cases rule: save_event_cases)
  case (applied A r B)
  then have "sr_applied a" if "a \<in> set A" for a
    using ev(2) that by (auto simp: in_set_conv_nth nth_append)
  then show ?thesis using fifo_applied [OF ok applied(1,3)] applied(2) by blast
next
  case (succeeds A r B)
  then show ?thesis using fifo_succeeds [OF ok succeeds(1,3)] by blast
next
  case (fails A r B)
  then show ?thesis using fifo_fails [OF ok fails(1)] by blast
next
  case other
  show ?thesis
  proof (cases ev)
    case Reset
    then show ?thesis using ok by (simp add: reset_def fifo_defs)
  next
    case (Patch f)
    then show ?thesis using fifo_touch [OF ok] by (simp add: patchNodes_def Let_def)
  qed (use other ok fifo_change fifo_save fifo_sync in \<open>simp_all\<close>)
qed

lemma session_fifo: "saving_session True st \<Longrightarrow> fifo_ok st"
proof (induction rule: saving_session.induct)
  case (opened key srv c)
  then show ?case by (rule fifo_start)
next
  case (event st ev)
  then show ?case using fifo_step by blast
qed

lemma saved_is_stored:
  assumes "saving_session True st" "as_state st = Saved" "\<not> as_touched st"
  shows "as_stored st (as_graphKey st) = Some (as_version st, as_local st)"
  using session_fifo [OF assms(1)] assms(2,3) by (auto simp: fifo_ok_def saved_ok_def content_ok_def)

section \<open>Overlapping saves\<close>

text \<open>
  Without that order the hook can call an edit saved that the server has lost: two saves are on
  their way, the later one is applied first, and the answers come in the order of sending.
\<close>

definition overlapping :: "canvas \<Rightarrow> canvas \<Rightarrow> save_event list" where
  "overlapping a b =
     [Change False a, TimerFires, Change False b, TimerFires, Applied 1, Applied 0, Succeeds 0, Succeeds 0]"

definition save_run :: "autosave \<Rightarrow> save_event list \<Rightarrow> autosave" where
  "save_run = foldl save_step"

lemma overlapping_saves:
  fixes key srv c a b
  defines "st \<equiv> save_run (start key srv c) (overlapping a b)"
  shows "saving_session False st \<and> as_state st = Saved \<and> \<not> as_dirty st \<and> as_local st = b \<and> as_stored st key = Some (1, a)"
proof -
  have "saving_session False st"
    unfolding st_def overlapping_def save_run_def foldl_Cons foldl_Nil
    by (intro saving_session.event saving_session.opened)
       (simp_all add: start_def onGraphChange_def doSave_def drop_request_def save_succeeded_def outdated_def Let_def)
  then show ?thesis
    by (simp add: st_def overlapping_def save_run_def start_def onGraphChange_def doSave_def drop_request_def
        save_succeeded_def outdated_def Let_def)
qed

text \<open>A failed save leaves the edit without a timer: nothing is sent until the next edit or flush.\<close>

lemma failed_save_waits:
  fixes key srv c a
  defines "st \<equiv> save_run (start key srv c) [Change False a, TimerFires, Fails 0]"
  shows "saving_session False st \<and> as_dirty st \<and> \<not> as_timer st \<and> as_requests st = []"
proof -
  have "saving_session False st"
    unfolding st_def save_run_def foldl_Cons foldl_Nil
    by (intro saving_session.event saving_session.opened)
       (simp_all add: start_def onGraphChange_def doSave_def drop_request_def save_failed_def outdated_def Let_def)
  then show ?thesis
    by (simp add: st_def save_run_def start_def onGraphChange_def doSave_def drop_request_def
        save_failed_def outdated_def Let_def)
qed

end
