(* ===== verification/ModelChain.thy ===== *)
theory ModelChain
  imports GraphAdapter
begin

text \<open>
  Which nodes belong to a model that is submitted from the canvas,
  \<open>web/apps/secretpad/src/pages/dag/adapters.ts\<close>: \<open>computeModelChain\<close> and \<open>canSubmitModelFrom\<close>.
  \<open>Array.sort\<close> is the argument \<open>sorted_by\<close>: its result is determined by the language only when the
  comparator is a consistent order, which the comparator used here is not in general.
\<close>

section \<open>Ancestors and descendants\<close>

definition ancestors :: "string \<Rightarrow> graph_edge list \<Rightarrow> string list" where
  "ancestors i es = traverse Lifo (reversed_arrows es) [i] []"

definition descendants :: "string \<Rightarrow> graph_edge list \<Rightarrow> string list" where
  "descendants i es = traverse Lifo (arrows es) [i] []"

interpretation chain_walks: walk_pair descendants edge_rel ancestors "\<lambda>es. (edge_rel es)\<inverse>"
  by unfold_locales
     (simp_all only: descendants_def ancestors_def traverse_trancl traverse_distinct
        set_reversed_arrows distinct.simps(1) simp_thms, simp_all add: edge_rel_def)

definition domainOf :: "dag_node \<Rightarrow> string" where
  "domainOf n =
     (let v = get_prop (nullish (node_def n) []) ''domain'' in
      if js_truthy v then (case v of JStr s \<Rightarrow> s | _ \<Rightarrow> '''') else fst (splitCodeName (node_codeName n)))"

section \<open>Paths along tables\<close>

definition lookup :: "dag_node list \<Rightarrow> string \<Rightarrow> dag_node option" where
  "lookup ns i = List.find (\<lambda>n. node_id n = i) ns"

text \<open>The edges of a node that the loop does not skip: those at a table output, or all when the node lists none.\<close>

definition table_edges :: "graph_edge list \<Rightarrow> dag_node \<Rightarrow> graph_edge list" where
  "table_edges es from =
     (let tables = set (map ro_id (filter (\<lambda>r. ro_type r = ''table'') (nullish (node_results from) []))) in
      filter (\<lambda>e. tables = {} \<or> (if truthy (source_anchor e) then the (source_anchor e) \<in> tables else True))
        (filter (\<lambda>e. edge_source e = node_id from) es))"

text \<open>
  \<open>tablePathExists\<close>: the calls share \<open>seen\<close>, and the first positive answer ends all of them, so the
  nested loops are one loop over the edges still to be looked at.
\<close>

function table_walk :: "dag_node list \<Rightarrow> graph_edge list \<Rightarrow> string \<Rightarrow> graph_edge list \<Rightarrow> string set \<Rightarrow> bool" where
  "table_walk ns es to [] seen = False"
| "table_walk ns es to (e # todo) seen =
     (if edge_target e = to then True
      else (case lookup ns (edge_target e) of
          None \<Rightarrow> table_walk ns es to todo seen
        | Some next \<Rightarrow>
            if node_id next \<in> seen then table_walk ns es to todo seen
            else table_walk ns es to (table_edges es next @ todo) (insert (node_id next) seen)))"
  by pat_completeness auto
termination
proof (relation "measures [\<lambda>(ns, es, to, todo, seen). card (node_id ` set ns - seen),
                           \<lambda>(ns, es, to, todo, seen). length todo]")
  fix ns es to and e :: graph_edge and todo seen "next"
  assume "lookup ns (edge_target e) = Some next" "node_id next \<notin> seen"
  then have "node_id next \<in> node_id ` set ns - seen" by (auto simp: lookup_def dest: find_Some_iff_mem)
  then have "card (node_id ` set ns - insert (node_id next) seen) < card (node_id ` set ns - seen)"
    by (intro psubset_card_mono) auto
  then show "((ns, es, to, table_edges es next @ todo, insert (node_id next) seen), ns, es, to, e # todo, seen)
      \<in> measures [\<lambda>(ns, es, to, todo, seen). card (node_id ` set ns - seen),
                  \<lambda>(ns, es, to, todo, seen). length todo]"
    by simp
qed simp_all

definition tablePathExists :: "dag_node \<Rightarrow> dag_node \<Rightarrow> dag_node list \<Rightarrow> graph_edge list \<Rightarrow> bool" where
  "tablePathExists from to ns es = table_walk ns es (node_id to) (table_edges es from) {node_id from}"

text \<open>What it decides: a path whose edges all leave their node at a table output.\<close>

definition table_rel :: "dag_node list \<Rightarrow> graph_edge list \<Rightarrow> (string \<times> string) set" where
  "table_rel ns es = {(edge_source e, edge_target e) |e. \<exists>n. lookup ns (edge_source e) = Some n \<and> e \<in> set (table_edges es n)}"

lemma lookup_id: "lookup ns i = Some n \<Longrightarrow> node_id n = i \<and> n \<in> set ns"
  by (auto simp: lookup_def dest: find_Some_iff_mem)

lemma table_edges_source: "e \<in> set (table_edges es n) \<Longrightarrow> edge_source e = node_id n \<and> e \<in> set es"
  by (auto simp: table_edges_def Let_def)

lemma table_rel_step: "lookup ns i = Some n \<Longrightarrow> e \<in> set (table_edges es n) \<Longrightarrow> (i, edge_target e) \<in> table_rel ns es"
  using lookup_id [of ns i n] table_edges_source [of e es n] unfolding table_rel_def
  by (intro CollectI exI [of _ e]) auto

lemma table_walk_sound:
  "table_walk ns es to todo seen \<Longrightarrow>
   (\<And>e. e \<in> set todo \<Longrightarrow> (x, edge_target e) \<in> (table_rel ns es)\<^sup>+) \<Longrightarrow> (x, to) \<in> (table_rel ns es)\<^sup>+"
proof (induction ns es to todo seen rule: table_walk.induct)
  case (2 ns es to e todo seen)
  show ?case
  proof (cases "edge_target e = to")
    case True
    then show ?thesis using "2.prems"(2) [of e] by simp
  next
    case False
    show ?thesis
    proof (cases "lookup ns (edge_target e)")
      case None
      then show ?thesis using "2.IH"(1) [OF False None] "2.prems" False by simp
    next
      case (Some nx)
      show ?thesis
      proof (cases "node_id nx \<in> seen")
        case True
        then show ?thesis using "2.IH"(2) [OF False Some True] "2.prems" False Some by simp
      next
        case new: False
        have "(x, edge_target e') \<in> (table_rel ns es)\<^sup>+" if "e' \<in> set (table_edges es nx)" for e'
          using table_rel_step [OF Some that] "2.prems"(2) [of e] by (auto intro: trancl_into_trancl)
        then show ?thesis using "2.IH"(3) [OF False Some new] "2.prems" False Some new by auto
      qed
    qed
  qed
qed simp

definition walked :: "dag_node list \<Rightarrow> graph_edge list \<Rightarrow> string \<Rightarrow> graph_edge list \<Rightarrow> string set \<Rightarrow> bool" where
  "walked ns es to todo seen \<longleftrightarrow>
     (\<forall>i n e. i \<in> seen \<longrightarrow> lookup ns i = Some n \<longrightarrow> e \<in> set (table_edges es n) \<longrightarrow>
        e \<in> set todo \<or> (edge_target e \<noteq> to \<and> (lookup ns (edge_target e) \<noteq> None \<longrightarrow> edge_target e \<in> seen)))"

lemma walked_drop:
  assumes w: "walked ns es to (e # todo) seen"
    and e: "edge_target e \<noteq> to" "lookup ns (edge_target e) \<noteq> None \<Longrightarrow> edge_target e \<in> seen"
  shows "walked ns es to todo seen"
  unfolding walked_def
proof (intro allI impI)
  fix i n d assume d: "i \<in> seen" "lookup ns i = Some n" "d \<in> set (table_edges es n)"
  then have "d \<in> set (e # todo) \<or> (edge_target d \<noteq> to \<and> (lookup ns (edge_target d) \<noteq> None \<longrightarrow> edge_target d \<in> seen))"
    using w unfolding walked_def by blast
  then show "d \<in> set todo \<or> (edge_target d \<noteq> to \<and> (lookup ns (edge_target d) \<noteq> None \<longrightarrow> edge_target d \<in> seen))"
    using e by auto
qed

lemma walked_visit:
  assumes w: "walked ns es to (e # todo) seen" and e: "edge_target e \<noteq> to" "lookup ns (edge_target e) = Some m"
  shows "walked ns es to (table_edges es m @ todo) (insert (edge_target e) seen)"
  unfolding walked_def
proof (intro allI impI)
  fix i n d assume d: "i \<in> insert (edge_target e) seen" "lookup ns i = Some n" "d \<in> set (table_edges es n)"
  let ?goal = "d \<in> set (table_edges es m @ todo) \<or>
    (edge_target d \<noteq> to \<and> (lookup ns (edge_target d) \<noteq> None \<longrightarrow> edge_target d \<in> insert (edge_target e) seen))"
  show ?goal
  proof (cases "i = edge_target e")
    case True
    then show ?thesis using d e(2) by simp
  next
    case False
    then have "d \<in> set (e # todo) \<or> (edge_target d \<noteq> to \<and> (lookup ns (edge_target d) \<noteq> None \<longrightarrow> edge_target d \<in> seen))"
      using w d unfolding walked_def by blast
    then show ?thesis using e(1) by auto
  qed
qed

lemma table_walk_complete:
  "\<not> table_walk ns es to todo seen \<Longrightarrow> walked ns es to todo seen \<Longrightarrow>
   \<exists>S. seen \<subseteq> S \<and> walked ns es to [] S"
proof (induction ns es to todo seen rule: table_walk.induct)
  case (1 ns es to seen)
  then show ?case by blast
next
  case (2 ns es to e todo seen)
  from "2.prems"(1) have False1: "edge_target e \<noteq> to" by auto
  show ?case
  proof (cases "lookup ns (edge_target e)")
    case None
    then have "walked ns es to todo seen" using walked_drop [OF "2.prems"(2) False1] by simp
    then show ?thesis using "2.IH"(1) [OF False1 None] "2.prems"(1) False1 None by simp
  next
    case (Some nx)
    have id: "node_id nx = edge_target e" using lookup_id [OF Some] by simp
    show ?thesis
    proof (cases "node_id nx \<in> seen")
      case True
      then have "walked ns es to todo seen" using walked_drop [OF "2.prems"(2) False1] id by simp
      then show ?thesis using "2.IH"(2) [OF False1 Some True] "2.prems"(1) False1 Some True by simp
    next
      case new: False
      have "walked ns es to (table_edges es nx @ todo) (insert (node_id nx) seen)"
        unfolding id by (rule walked_visit [OF "2.prems"(2) False1 Some])
      then show ?thesis using "2.IH"(3) [OF False1 Some new] "2.prems"(1) False1 Some new by auto
    qed
  qed
qed

lemma tablePathExists_iff:
  assumes start: "lookup ns (node_id from) = Some from" and ends: "lookup ns (node_id to) \<noteq> None"
  shows "tablePathExists from to ns es \<longleftrightarrow> (node_id from, node_id to) \<in> (table_rel ns es)\<^sup>+"
proof
  assume "tablePathExists from to ns es"
  then show "(node_id from, node_id to) \<in> (table_rel ns es)\<^sup>+"
    unfolding tablePathExists_def
    by (rule table_walk_sound) (auto intro: table_rel_step [OF start])
next
  assume path: "(node_id from, node_id to) \<in> (table_rel ns es)\<^sup>+"
  show "tablePathExists from to ns es"
  proof (rule ccontr)
    assume no: "\<not> tablePathExists from to ns es"
    have "walked ns es (node_id to) (table_edges es from) {node_id from}" using start by (auto simp: walked_def)
    from table_walk_complete [OF no [unfolded tablePathExists_def] this] obtain S where
      S: "node_id from \<in> S" "walked ns es (node_id to) [] S" by blast
    have closed: "b \<noteq> node_id to \<and> (lookup ns b \<noteq> None \<longrightarrow> b \<in> S)" if "a \<in> S" "(a, b) \<in> table_rel ns es" for a b
      using S(2) that unfolding walked_def table_rel_def by fastforce
    have source: "lookup ns a \<noteq> None" if "(a, b) \<in> table_rel ns es" for a b
      using that by (auto simp: table_rel_def)
    have "b \<noteq> node_id to \<and> (lookup ns b \<noteq> None \<longrightarrow> b \<in> S)" if "(node_id from, b) \<in> (table_rel ns es)\<^sup>+" for b
      using that
    proof (induction rule: trancl_induct)
      case (base b)
      then show ?case using closed [OF S(1)] by blast
    next
      case (step b d)
      then have "b \<in> S" using source by blast
      from closed [OF this step.hyps(2)] show ?case .
    qed
    with path show False by blast
  qed
qed

section \<open>The chain\<close>

record model_chain =
  mc_modelNode :: "dag_node list"
  mc_preNodes :: "dag_node list"
  mc_predictNode :: "dag_node list"
  mc_postNodes :: "dag_node list"

definition empty_chain :: model_chain where
  "empty_chain = \<lparr>mc_modelNode = [], mc_preNodes = [], mc_predictNode = [], mc_postNodes = []\<rparr>"

text \<open>\<open>order(a, b)\<close>: negative, positive or zero.\<close>

definition chain_order :: "graph_edge list \<Rightarrow> dag_node \<Rightarrow> dag_node \<Rightarrow> int" where
  "chain_order es a b =
     (if node_id a \<in> set (ancestors (node_id b) es) then -1
      else if node_id b \<in> set (ancestors (node_id a) es) then 1 else 0)"

type_synonym sorter = "(dag_node \<Rightarrow> dag_node \<Rightarrow> int) \<Rightarrow> dag_node list \<Rightarrow> dag_node list"

definition succeeded :: "(dag_node \<Rightarrow> dag_status) \<Rightarrow> dag_node \<Rightarrow> bool" where
  "succeeded statusOf n \<longleftrightarrow> statusOf n = Success"

definition pre_nodes :: "dag_node \<Rightarrow> dag_node list \<Rightarrow> graph_edge list \<Rightarrow> (dag_node \<Rightarrow> dag_status) \<Rightarrow> dag_node list" where
  "pre_nodes selected ns es statusOf =
     filter (\<lambda>n. node_id n \<in> set (ancestors (node_id selected) es) \<and> succeeded statusOf n \<and>
       domainOf n = ''preprocessing'' \<and> tablePathExists n selected ns es) ns"

definition post_nodes :: "dag_node \<Rightarrow> dag_node list \<Rightarrow> graph_edge list \<Rightarrow> (dag_node \<Rightarrow> dag_status) \<Rightarrow> dag_node list" where
  "post_nodes selected ns es statusOf =
     filter (\<lambda>n. node_id n \<in> set (descendants (node_id selected) es) \<and> succeeded statusOf n \<and>
       domainOf n = ''postprocessing'') ns"

definition train_ancestors :: "dag_node \<Rightarrow> dag_node list \<Rightarrow> graph_edge list \<Rightarrow> dag_node list" where
  "train_ancestors selected ns es =
     filter (\<lambda>n. node_id n \<in> set (ancestors (node_id selected) es) \<and> domainOf n = ''ml.train'') ns"

definition computeModelChain ::
  "sorter \<Rightarrow> string \<Rightarrow> dag_node list \<Rightarrow> graph_edge list \<Rightarrow> (dag_node \<Rightarrow> dag_status) \<Rightarrow> model_chain" where
  "computeModelChain sorted_by selectedId ns es statusOf =
     (case lookup ns selectedId of
        None \<Rightarrow> empty_chain
      | Some selected \<Rightarrow>
          let d = domainOf selected; train = train_ancestors selected ns es in
          if d \<noteq> ''ml.train'' \<and> d \<noteq> ''ml.predict'' then empty_chain
          else \<lparr>mc_modelNode = (if d = ''ml.train'' then [selected] else if train \<noteq> [] then [last train] else []),
                mc_preNodes = sorted_by (chain_order es) (pre_nodes selected ns es statusOf),
                mc_predictNode = (if d = ''ml.train'' then [] else [selected]),
                mc_postNodes = sorted_by (chain_order es) (post_nodes selected ns es statusOf)\<rparr>)"

definition submitNodesOf :: "model_chain \<Rightarrow> dag_node list" where
  "submitNodesOf chain =
     (if mc_predictNode chain \<noteq> [] then mc_preNodes chain @ mc_predictNode chain @ mc_postNodes chain
      else mc_preNodes chain @ mc_modelNode chain @ mc_postNodes chain)"

definition is_param_modification :: "dag_node \<Rightarrow> bool" where
  "is_param_modification n \<longleftrightarrow>
     get_prop (nullish (node_def n) []) ''name'' = JStr ''model_param_modifications'' \<or>
     node_codeName n = Some ''preprocessing/model_param_modifications''"

definition canSubmitModelFrom ::
  "dag_node option \<Rightarrow> dag_node list \<Rightarrow> graph_edge list \<Rightarrow> (dag_node \<Rightarrow> dag_status) \<Rightarrow> bool" where
  "canSubmitModelFrom node ns es statusOf =
     (case node of
        None \<Rightarrow> False
      | Some m \<Rightarrow>
          if \<not> succeeded statusOf m then False
          else if \<not> list_ex (\<lambda>e. edge_target e = node_id m) es then False
          else let d = domainOf m in
            if d = ''ml.train'' then True
            else if d = ''ml.predict'' then
              list_ex (\<lambda>n. node_id n \<in> set (ancestors (node_id m) es) \<and> is_param_modification n \<and> succeeded statusOf n) ns \<or>
              list_ex (\<lambda>n. node_id n \<in> set (descendants (node_id m) es) \<and> domainOf n = ''postprocessing'' \<and>
                succeeded statusOf n) ns
            else False)"

section \<open>What is submitted\<close>

text \<open>\<open>Array.sort\<close> permutes; and it sorts when the comparator is a consistent order on the elements.\<close>

definition permutes :: "sorter \<Rightarrow> bool" where
  "permutes sorted_by \<longleftrightarrow> (\<forall>cmp xs. mset (sorted_by cmp xs) = mset xs)"

definition consistent_on :: "('a \<Rightarrow> 'a \<Rightarrow> int) \<Rightarrow> 'a set \<Rightarrow> bool" where
  "consistent_on cmp A \<longleftrightarrow>
     (\<forall>a \<in> A. cmp a a = 0) \<and> (\<forall>a \<in> A. \<forall>b \<in> A. sgn (cmp a b) = - sgn (cmp b a)) \<and>
     (\<forall>a \<in> A. \<forall>b \<in> A. \<forall>c \<in> A. cmp a b \<le> 0 \<longrightarrow> cmp b c \<le> 0 \<longrightarrow> cmp a c \<le> 0)"

definition sorts :: "sorter \<Rightarrow> bool" where
  "sorts sorted_by \<longleftrightarrow> (\<forall>cmp xs. consistent_on cmp (set xs) \<longrightarrow> sorted_wrt (\<lambda>a b. cmp a b \<le> 0) (sorted_by cmp xs))"

lemma set_sorted_by: "permutes s \<Longrightarrow> set (s cmp xs) = set xs"
  unfolding permutes_def by (metis mset_eq_setD)

lemma ancestors_iff: "i \<in> set (ancestors j es) \<longleftrightarrow> (i, j) \<in> (edge_rel es)\<^sup>+"
  using chain_walks.up.set_walk [of j es] by (auto simp: trancl_converse)

lemma descendants_iff: "i \<in> set (descendants j es) \<longleftrightarrow> (j, i) \<in> (edge_rel es)\<^sup>+"
  using chain_walks.down.set_walk [of j es] by auto

text \<open>The nodes a submission contains, from a training or a prediction node.\<close>

lemma submit_nodes:
  assumes p: "permutes sorted_by" and sel: "lookup ns i = Some selected"
    and d: "domainOf selected = ''ml.train'' \<or> domainOf selected = ''ml.predict''"
  shows "set (submitNodesOf (computeModelChain sorted_by i ns es statusOf)) =
    set (pre_nodes selected ns es statusOf) \<union> {selected} \<union> set (post_nodes selected ns es statusOf)"
  using d by (auto simp: computeModelChain_def sel submitNodesOf_def Let_def set_sorted_by [OF p])

text \<open>When any two of the nodes are related the comparator is an order and the chain follows the edges.\<close>

lemma chain_order_consistent:
  assumes ac: "acyclic (edge_rel es)"
    and total: "\<forall>a \<in> A. \<forall>b \<in> A. node_id a = node_id b \<or> (node_id a, node_id b) \<in> (edge_rel es)\<^sup>+ \<or> (node_id b, node_id a) \<in> (edge_rel es)\<^sup>+"
  shows "consistent_on (chain_order es) A"
proof -
  have no: "(x, x) \<notin> (edge_rel es)\<^sup>+" for x using ac by (simp add: acyclic_def)
  have asym: "(y, x) \<notin> (edge_rel es)\<^sup>+" if "(x, y) \<in> (edge_rel es)\<^sup>+" for x y
    using no trancl_trans [OF that] by blast
  have le: "chain_order es a b \<le> 0 \<longleftrightarrow> node_id a = node_id b \<or> (node_id a, node_id b) \<in> (edge_rel es)\<^sup>+"
    if "a \<in> A" "b \<in> A" for a b
    using total that no asym by (auto simp: chain_order_def ancestors_iff)
  have "chain_order es a c \<le> 0" if "a \<in> A" "b \<in> A" "c \<in> A" "chain_order es a b \<le> 0" "chain_order es b c \<le> 0" for a b c
  proof -
    have "node_id a = node_id b \<or> (node_id a, node_id b) \<in> (edge_rel es)\<^sup>+"
      "node_id b = node_id c \<or> (node_id b, node_id c) \<in> (edge_rel es)\<^sup>+"
      using that le [of a b] le [of b c] by simp_all
    then have "node_id a = node_id c \<or> (node_id a, node_id c) \<in> (edge_rel es)\<^sup>+"
      using trancl_trans [of "node_id a" "node_id b" "edge_rel es" "node_id c"] by auto
    then show ?thesis using le [of a c] that by simp
  qed
  moreover have "chain_order es a a = 0" for a
    using no by (simp add: chain_order_def ancestors_iff)
  moreover have "sgn (chain_order es a b) = - sgn (chain_order es b a)" for a b
    using asym [of "node_id a" "node_id b"] asym [of "node_id b" "node_id a"]
    by (simp add: chain_order_def ancestors_iff)
  ultimately show ?thesis unfolding consistent_on_def by blast
qed

lemma chain_sorted:
  assumes s: "sorts sorted_by" and p: "permutes sorted_by" and ac: "acyclic (edge_rel es)"
    and total: "\<forall>a \<in> set xs. \<forall>b \<in> set xs. node_id a = node_id b \<or> (node_id a, node_id b) \<in> (edge_rel es)\<^sup>+ \<or> (node_id b, node_id a) \<in> (edge_rel es)\<^sup>+"
  shows "sorted_wrt (\<lambda>a b. (node_id b, node_id a) \<notin> (edge_rel es)\<^sup>+) (sorted_by (chain_order es) xs)"
proof -
  have "sorted_wrt (\<lambda>a b. chain_order es a b \<le> 0) (sorted_by (chain_order es) xs)"
    using s chain_order_consistent [OF ac total] by (simp add: sorts_def)
  moreover have "(node_id b, node_id a) \<notin> (edge_rel es)\<^sup>+" if "chain_order es a b \<le> 0" for a b
  proof
    assume ba: "(node_id b, node_id a) \<in> (edge_rel es)\<^sup>+"
    then have "(node_id a, node_id b) \<notin> (edge_rel es)\<^sup>+"
      using ac by (metis acyclic_def trancl_trans)
    then show False using that ba by (simp add: chain_order_def ancestors_iff)
  qed
  ultimately show ?thesis by (rule sorted_wrt_mono_rel [rotated])
qed

section \<open>Where the choice and the order go wrong\<close>

text \<open>A succeeded node of a component, and a plain edge.\<close>

definition chain_node :: "string \<Rightarrow> string \<Rightarrow> dag_node" where
  "chain_node i code = \<lparr>node_id = i, node_name = i, node_status = Success, node_x = 0, node_y = 0,
     node_progress = None, node_codeName = Some code, node_def = None, node_inputs = None, node_outputs = None,
     node_ports = None, node_results = None, node_category = '''', node_icon = [], node_configFinished = None\<rparr>"

definition chain_edge :: "string \<Rightarrow> string \<Rightarrow> graph_edge" where
  "chain_edge a b = \<lparr>edge_id = a @ b, edge_source = a, edge_target = b, source_anchor = None, target_anchor = None\<rparr>"

text \<open>
  The model node of a prediction is the last training node of the canvas that precedes it: here
  \<open>far\<close>, which feeds \<open>near\<close>, the one that feeds the prediction.
\<close>

lemma nearest_training_missed:
  defines "near \<equiv> chain_node ''near'' ''ml.train/a''" and "far \<equiv> chain_node ''far'' ''ml.train/b''"
    and "pred \<equiv> chain_node ''pred'' ''ml.predict/c''"
    and "es \<equiv> [chain_edge ''far'' ''near'', chain_edge ''near'' ''pred'']"
  shows "mc_modelNode (computeModelChain sorted_by ''pred'' [near, far, pred] es statusOf) = [far] \<and>
    (node_id near, node_id pred) \<in> edge_rel es \<and> (node_id far, node_id pred) \<notin> edge_rel es"
proof (intro conjI)
  have "lookup [near, far, pred] ''pred'' = Some pred" "domainOf pred = ''ml.predict''"
    "train_ancestors pred [near, far, pred] es = [near, far]"
    unfolding near_def far_def pred_def es_def by code_simp+
  then show "mc_modelNode (computeModelChain sorted_by ''pred'' [near, far, pred] es statusOf) = [far]"
    by (simp add: computeModelChain_def)
qed (simp_all add: near_def far_def pred_def es_def chain_node_def chain_edge_def edge_rel_def)

text \<open>The comparator calls unrelated nodes equal, which is not transitive: no order on three nodes.\<close>

lemma chain_order_not_an_order:
  defines "a \<equiv> chain_node ''a'' ''x''" and "b \<equiv> chain_node ''b'' ''x''" and "c \<equiv> chain_node ''c'' ''x''"
  shows "\<not> consistent_on (chain_order [chain_edge ''a'' ''c'']) {a, b, c}"
proof
  let ?o = "chain_order [chain_edge ''a'' ''c'']"
  assume "consistent_on ?o {a, b, c}"
  moreover have "?o c b = 0" "?o b a = 0" "?o c a = 1" unfolding a_def b_def c_def by code_simp+
  ultimately show False unfolding consistent_on_def by (metis insertI1 insertI2 order_refl zero_less_one not_less)
qed

end
