(* ===== verification/Sm3.thy ===== *)
theory Sm3
  imports Prelude "HOL-Library.Word"
begin

unbundle bit_operations_syntax

text \<open>
  The SM3 hash of \<open>web/packages/utils/src/sm3.ts\<close>, with which passwords of accounts of the former
  platform are sent.  The code computes on numbers: sums are exact, the bit operators convert to
  32 bits and give signed results, \<open>>>>\<close> gives unsigned ones.  It is modelled on integers with
  these operators, and shown to compute the hash that the standard (GB/std_T 32905) states on 32-bit
  words.  A message is the list of its UTF-8 bytes.
\<close>

section \<open>The bit operators of the language\<close>

definition w32 :: "int \<Rightarrow> 32 word" where
  "w32 = word_of_int"

definition js_xor :: "int \<Rightarrow> int \<Rightarrow> int" where "js_xor x y = sint (w32 x XOR w32 y)"
definition js_or :: "int \<Rightarrow> int \<Rightarrow> int" where "js_or x y = sint (w32 x OR w32 y)"
definition js_and :: "int \<Rightarrow> int \<Rightarrow> int" where "js_and x y = sint (w32 x AND w32 y)"
definition js_not :: "int \<Rightarrow> int" where "js_not x = sint (NOT (w32 x))"
definition js_shl :: "int \<Rightarrow> nat \<Rightarrow> int" where "js_shl x s = sint (push_bit (s mod 32) (w32 x))"
definition js_ushr :: "int \<Rightarrow> nat \<Rightarrow> int" where "js_ushr x s = uint (drop_bit (s mod 32) (w32 x))"
definition js_sshr :: "int \<Rightarrow> nat \<Rightarrow> int" where "js_sshr x s = sint (signed_drop_bit (s mod 32) (w32 x))"

lemma w32_hom [simp]:
  "w32 (js_xor x y) = w32 x XOR w32 y" "w32 (js_or x y) = w32 x OR w32 y" "w32 (js_and x y) = w32 x AND w32 y"
  "w32 (js_not x) = NOT (w32 x)" "w32 (js_shl x s) = push_bit (s mod 32) (w32 x)"
  "w32 (js_ushr x s) = drop_bit (s mod 32) (w32 x)" "w32 (x + y) = w32 x + w32 y" "w32 (uint v) = v"
  by (simp_all add: w32_def js_xor_def js_or_def js_and_def js_not_def js_shl_def js_ushr_def)

lemma js_ushr_0: "js_ushr x 0 = uint (w32 x)"
  by (simp add: js_ushr_def)

section \<open>The code\<close>

definition IV :: "int list" where
  "IV = [0x7380166f, 0x4914b2b9, 0x172442d7, 0xda8a0600, 0xa96f30bc, 0x163138aa, 0xe38dee4d, 0xb0fb0e4e]"

definition rotl :: "int \<Rightarrow> nat \<Rightarrow> int" where
  "rotl x n = (let s = n mod 32 in js_ushr (js_or (js_shl x s) (js_ushr x (32 - s))) 0)"

definition p0 :: "int \<Rightarrow> int" where
  "p0 x = js_ushr (js_xor (js_xor x (rotl x 9)) (rotl x 17)) 0"

definition p1 :: "int \<Rightarrow> int" where
  "p1 x = js_ushr (js_xor (js_xor x (rotl x 15)) (rotl x 23)) 0"

text \<open>
  The padded message.  The shifts of the length are those of 32-bit integers: beyond \<open>2^31 - 73\<close>
  bytes they give a negative length, and the constructor of the array throws.
\<close>

definition pad_length :: "nat \<Rightarrow> nat" where
  "pad_length n = nat (js_shl (js_sshr (int n + 9 + 63) 6) 6)"

definition fits :: "8 word list \<Rightarrow> bool" where
  "fits m \<longleftrightarrow> length m < 2 ^ 31 - 72"

lemma sint_small: "0 \<le> x \<Longrightarrow> x < 2 ^ 31 \<Longrightarrow> sint (w32 x) = x"
  by (simp add: w32_def sint_sbintrunc' signed_take_bit_int_eq_self)

lemma pad_length_eq: "n < 2 ^ 31 - 72 \<Longrightarrow> pad_length n = (n + 72) div 64 * 64"
proof -
  assume "n < 2 ^ 31 - 72"
  then have x: "0 \<le> int n + 72" "int n + 72 < 2 ^ 31" by simp_all
  have a: "js_sshr (int n + 72) 6 = (int n + 72) div 64"
    using sint_small [OF x] by (simp add: js_sshr_def sint_signed_drop_bit_eq drop_bit_eq_div)
  have y: "0 \<le> (int n + 72) div 64 * 64" "(int n + 72) div 64 * 64 < 2 ^ 31"
    using x by (simp_all add: le_less_trans [of "(int n + 72) div 64 * 64" "int n + 72"])
  have "push_bit 6 (w32 z) = w32 (z * 64)" for z
    by (simp add: w32_def push_bit_eq_mult)
  then have "js_shl ((int n + 72) div 64) 6 = (int n + 72) div 64 * 64"
    using sint_small [OF y] by (simp add: js_shl_def)
  then have "pad_length n = nat ((int n + 72) div 64 * 64)" using a by (simp add: pad_length_def add.assoc)
  also have "\<dots> = (n + 72) div 64 * 64" by (simp add: nat_mult_distrib nat_div_distrib nat_add_distrib)
  finally show ?thesis .
qed

definition be32 :: "int \<Rightarrow> 8 word list" where
  "be32 x = map (\<lambda>k. word_of_int (uint (w32 x) div 2 ^ k)) [24, 16, 8, 0]"

definition set_bytes :: "nat \<Rightarrow> 8 word list \<Rightarrow> 8 word list \<Rightarrow> 8 word list" where
  "set_bytes i bs buf = take i buf @ bs @ drop (i + length bs) buf"

definition padded :: "8 word list \<Rightarrow> 8 word list" where
  "padded input =
     (let bitLen = int (length input) * 8; padLen = pad_length (length input);
          buf = set_bytes (length input) [0x80] (set_bytes 0 input (replicate padLen 0))
      in set_bytes (padLen - 4) (be32 (js_ushr bitLen 0))
           (set_bytes (padLen - 8) (be32 (js_ushr (bitLen div 0x100000000) 0)) buf))"

definition getUint32 :: "8 word list \<Rightarrow> nat \<Rightarrow> int" where
  "getUint32 buf i = foldl (\<lambda>a b. a * 256 + uint b) 0 (take 4 (drop i buf))"

text \<open>The message schedule of one block, \<open>w\<close> and \<open>w1\<close>.\<close>

definition schedule_step :: "int list \<Rightarrow> nat \<Rightarrow> int list" where
  "schedule_step w j = w @ [js_ushr (js_xor (js_xor
     (p1 (js_xor (js_xor (w ! (j - 16)) (w ! (j - 9))) (rotl (w ! (j - 3)) 15)))
     (rotl (w ! (j - 13)) 7)) (w ! (j - 6))) 0]"

definition schedule :: "int list \<Rightarrow> int list" where
  "schedule block = foldl schedule_step block [16..<68]"

definition schedule1 :: "int list \<Rightarrow> int list" where
  "schedule1 w = map (\<lambda>j. js_ushr (js_xor (w ! j) (w ! (j + 4))) 0) [0..<64]"

type_synonym 'a registers = "'a \<times> 'a \<times> 'a \<times> 'a \<times> 'a \<times> 'a \<times> 'a \<times> 'a"

definition sm3_round :: "int list \<Rightarrow> int list \<Rightarrow> int registers \<Rightarrow> nat \<Rightarrow> int registers" where
  "sm3_round w w1 = (\<lambda>(a, b, c, d, e, f, g, h) j.
     let tj = (if j < 16 then 0x79cc4519 else 0x7a879d8a);
         ss1 = rotl (js_ushr (rotl a 12 + e + rotl tj j) 0) 7;
         ss2 = js_ushr (js_xor ss1 (rotl a 12)) 0;
         ff = (if j < 16 then js_xor (js_xor a b) c else js_or (js_or (js_and a b) (js_and a c)) (js_and b c));
         gg = (if j < 16 then js_xor (js_xor e f) g else js_or (js_and e f) (js_and (js_not e) g));
         tt1 = js_ushr (ff + d + ss2 + w1 ! j) 0;
         tt2 = js_ushr (gg + h + ss1 + w ! j) 0
     in (tt1, a, rotl b 9, c, p0 tt2, e, rotl f 19, g))"

definition registers_list :: "'a registers \<Rightarrow> 'a list" where
  "registers_list = (\<lambda>(a, b, c, d, e, f, g, h). [a, b, c, d, e, f, g, h])"

definition list_registers :: "'a list \<Rightarrow> 'a registers" where
  "list_registers v = (v ! 0, v ! 1, v ! 2, v ! 3, v ! 4, v ! 5, v ! 6, v ! 7)"

definition sm3_block :: "int list \<Rightarrow> int list \<Rightarrow> int list" where
  "sm3_block v block =
     (let w = schedule block;
          r = foldl (sm3_round w (schedule1 w)) (list_registers v) [0..<64]
      in map2 (\<lambda>x y. js_ushr (js_xor x y) 0) v (registers_list r))"

definition block_words :: "8 word list \<Rightarrow> nat \<Rightarrow> int list" where
  "block_words buf i = map (\<lambda>j. getUint32 buf (i * 64 + j * 4)) [0..<16]"

definition sm3Bytes :: "8 word list \<Rightarrow> 8 word list" where
  "sm3Bytes input =
     (let buf = padded input
      in concat (map be32 (foldl (\<lambda>v i. sm3_block v (block_words buf i)) IV [0..<length buf div 64])))"

text \<open>\<open>b.toString(16).padStart(2, '0')\<close>\<close>

definition hex_digit :: "nat \<Rightarrow> char" where
  "hex_digit d = (if d < 10 then digit_char d else char_of (87 + d))"

definition hex_byte :: "8 word \<Rightarrow> string" where
  "hex_byte b = [hex_digit (unat b div 16), hex_digit (unat b mod 16)]"

definition utf8Bytes :: "string \<Rightarrow> 8 word list" where
  "utf8Bytes s = map (\<lambda>c. word_of_nat (of_char c)) s"

definition sm3 :: "string \<Rightarrow> string" where
  "sm3 message = concat (map hex_byte (sm3Bytes (utf8Bytes message)))"

section \<open>The standard\<close>

definition std_P0 :: "32 word \<Rightarrow> 32 word" where "std_P0 x = x XOR word_rotl 9 x XOR word_rotl 17 x"
definition std_P1 :: "32 word \<Rightarrow> 32 word" where "std_P1 x = x XOR word_rotl 15 x XOR word_rotl 23 x"

definition std_T :: "nat \<Rightarrow> 32 word" where "std_T j = (if j < 16 then 0x79cc4519 else 0x7a879d8a)"

definition std_FF :: "nat \<Rightarrow> 32 word \<Rightarrow> 32 word \<Rightarrow> 32 word \<Rightarrow> 32 word" where
  "std_FF j x y z = (if j < 16 then x XOR y XOR z else (x AND y) OR (x AND z) OR (y AND z))"

definition std_GG :: "nat \<Rightarrow> 32 word \<Rightarrow> 32 word \<Rightarrow> 32 word \<Rightarrow> 32 word" where
  "std_GG j x y z = (if j < 16 then x XOR y XOR z else (x AND y) OR (NOT x AND z))"

text \<open>The expansion \<open>std_W\<close> of a block and the words \<open>std_W'\<close>.\<close>

fun std_W :: "32 word list \<Rightarrow> nat \<Rightarrow> 32 word" where
  "std_W B j = (if j < 16 then B ! j
     else std_P1 (std_W B (j - 16) XOR std_W B (j - 9) XOR word_rotl 15 (std_W B (j - 3))) XOR word_rotl 7 (std_W B (j - 13)) XOR std_W B (j - 6))"

declare std_W.simps [simp del]

definition std_W' :: "32 word list \<Rightarrow> nat \<Rightarrow> 32 word" where
  "std_W' B j = std_W B j XOR std_W B (j + 4)"

fun std_round :: "32 word list \<Rightarrow> nat \<Rightarrow> 32 word registers \<Rightarrow> 32 word registers" where
  "std_round B j (a, b, c, d, e, f, g, h) =
     (let SS1 = word_rotl 7 (word_rotl 12 a + e + word_rotl (j mod 32) (std_T j));
          SS2 = SS1 XOR word_rotl 12 a;
          TT1 = std_FF j a b c + d + SS2 + std_W' B j;
          TT2 = std_GG j e f g + h + SS1 + std_W B j
      in (TT1, a, word_rotl 9 b, c, std_P0 TT2, e, word_rotl 19 f, g))"

definition std_CF :: "32 word list \<Rightarrow> 32 word list \<Rightarrow> 32 word list" where
  "std_CF V B = map2 (XOR) (registers_list (foldl (\<lambda>r j. std_round B j r) (list_registers V) [0..<64])) V"

text \<open>The padding: a bit 1, the least number of zeros, and the length in 64 bits, in whole bytes here.\<close>

definition std_zeros :: "nat \<Rightarrow> nat" where
  "std_zeros n = nat ((55 - int n) mod 64)"

definition be_bytes :: "nat \<Rightarrow> 'a::len word \<Rightarrow> 8 word list" where
  "be_bytes k x = map (\<lambda>i. ucast (drop_bit (8 * i) x)) (rev [0..<k])"

definition std_pad :: "8 word list \<Rightarrow> 8 word list" where
  "std_pad m = m @ 0x80 # replicate (std_zeros (length m)) 0 @ be_bytes 8 (of_nat (8 * length m) :: 64 word)"

definition std_blocks :: "8 word list \<Rightarrow> 32 word list list" where
  "std_blocks bs =
     map (\<lambda>i. map (\<lambda>j. word_rcat (take 4 (drop (i * 64 + j * 4) bs))) [0..<16]) [0..<length bs div 64]"

definition std_sm3 :: "8 word list \<Rightarrow> 8 word list" where
  "std_sm3 m = concat (map (be_bytes 4) (foldl std_CF (map w32 IV) (std_blocks (std_pad m))))"

section \<open>The code computes the hash of the standard\<close>

lemma w32_rotl [simp]: "w32 (rotl x n) = word_rotl n (w32 x)"
proof -
  have "push_bit (n mod 32) v OR drop_bit ((32 - n mod 32) mod 32) v = word_rotl n v" for v :: "32 word"
  proof (rule bit_word_eqI)
    fix k assume k: "k < LENGTH(32)"
    show "bit (push_bit (n mod 32) v OR drop_bit ((32 - n mod 32) mod 32) v) k \<longleftrightarrow> bit (word_rotl n v) k"
    proof (cases "n mod 32 = 0")
      case True
      then show ?thesis using k by (simp add: bit_simps)
    next
      case False
      define s where "s = n mod 32"
      have s: "0 < s" "s < 32" using False by (simp_all add: s_def)
      have "(k + (32 - s)) mod 32 = (if s \<le> k then k - s else k + (32 - s))"
        using s k by (auto simp: mod_if)
      moreover have "\<not> bit v (k + (32 - s))" if "s \<le> k"
        using that s bit_imp_le_length [of v "k + (32 - s)"] by auto
      ultimately show ?thesis using s k unfolding s_def [symmetric]
        by (auto simp: bit_simps s_def [symmetric] add.commute [of k 32])
    qed
  qed
  then show ?thesis by (simp add: rotl_def Let_def)
qed

lemma w32_p0 [simp]: "w32 (p0 x) = std_P0 (w32 x)"
  by (simp add: p0_def std_P0_def xor.assoc)

lemma w32_p1 [simp]: "w32 (p1 x) = std_P1 (w32 x)"
  by (simp add: p1_def std_P1_def xor.assoc)

lemma schedule_prefix:
  assumes "length block = 16" "16 \<le> m" "m \<le> 68"
  shows "length (foldl schedule_step block [16..<m]) = m \<and>
    (\<forall>j < m. w32 (foldl schedule_step block [16..<m] ! j) = std_W (map w32 block) j)"
  using assms(2,3)
proof (induction m rule: nat_induct_at_least)
  case base
  then show ?case using assms(1) by (simp add: std_W.simps)
next
  case (Suc m)
  let ?w = "foldl schedule_step block [16..<m]"
  have IH: "length ?w = m" "\<And>j. j < m \<Longrightarrow> w32 (?w ! j) = std_W (map w32 block) j" using Suc by simp_all
  have step: "foldl schedule_step block [16..<Suc m] = schedule_step ?w m" using Suc by simp
  have "w32 (schedule_step ?w m ! m) = std_W (map w32 block) m"
    using Suc.hyps IH by (simp add: schedule_step_def nth_append std_W.simps [of _ m] xor.assoc)
  then show ?case
    using IH unfolding step by (auto simp: schedule_step_def nth_append less_Suc_eq)
qed

lemma schedule_word: "length block = 16 \<Longrightarrow> j < 68 \<Longrightarrow> w32 (schedule block ! j) = std_W (map w32 block) j"
  using schedule_prefix [of block 68] by (simp add: schedule_def)

lemma schedule1_word:
  "length block = 16 \<Longrightarrow> j < 64 \<Longrightarrow> w32 (schedule1 (schedule block) ! j) = std_W' (map w32 block) j"
  by (simp add: schedule1_def std_W'_def schedule_word)

fun word_registers :: "int registers \<Rightarrow> 32 word registers" where
  "word_registers (a, b, c, d, e, f, g, h) = (w32 a, w32 b, w32 c, w32 d, w32 e, w32 f, w32 g, w32 h)"

lemma round_word:
  assumes "length block = 16" "j < 64"
  shows "word_registers (sm3_round (schedule block) (schedule1 (schedule block)) r j) =
    std_round (map w32 block) j (word_registers r)"
proof -
  obtain a b c d e f g h where r: "r = (a, b, c, d, e, f, g, h)" by (cases r) auto
  have "w32 0x79cc4519 = 0x79cc4519" "w32 0x7a879d8a = 0x7a879d8a" by (simp_all add: w32_def)
  moreover have "word_rotl (j mod 32) v = word_rotl j v" for v :: "32 word"
    by (rule bit_word_eqI) (simp add: bit_simps)
  moreover have "w32 (schedule block ! j) = std_W (map w32 block) j" using schedule_word assms by simp
  ultimately show ?thesis
    using schedule1_word [OF assms]
    by (cases "j < 16") (simp_all add: r sm3_round_def Let_def std_T_def std_FF_def std_GG_def xor.assoc or.assoc)
qed

lemma rounds_word:
  assumes "length block = 16" "k \<le> 64"
  shows "word_registers (foldl (sm3_round (schedule block) (schedule1 (schedule block))) r [0..<k]) =
    foldl (\<lambda>r j. std_round (map w32 block) j r) (word_registers r) [0..<k]"
  using assms(2) by (induction k) (simp_all add: round_word [OF assms(1)])

lemma length_registers_list [simp]: "length (registers_list r) = 8"
  by (cases r) (auto simp: registers_list_def)

lemma registers_list_word: "registers_list (word_registers r) = map w32 (registers_list r)"
  by (cases r) (auto simp: registers_list_def)

lemma list_registers_word: "length v = 8 \<Longrightarrow> list_registers (map w32 v) = word_registers (list_registers v)"
  by (simp add: list_registers_def)

lemma length_sm3_block: "length v = 8 \<Longrightarrow> length (sm3_block v block) = 8"
  by (simp add: sm3_block_def Let_def)

lemma sm3_block_word:
  assumes "length v = 8" "length block = 16"
  shows "map w32 (sm3_block v block) = std_CF (map w32 v) (map w32 block)"
proof -
  have "map w32 (map2 (\<lambda>x y. js_ushr (js_xor x y) 0) v rs) = map2 (XOR) (map w32 rs) (map w32 v)" if "length rs = 8" for rs
    using that assms(1) by (intro nth_equalityI) (simp_all add: xor.commute)
  then show ?thesis
    using rounds_word [OF assms(2), of 64 "list_registers v"] assms(1)
    by (simp add: sm3_block_def std_CF_def Let_def list_registers_word registers_list_word [symmetric])
qed

lemma blocks_word:
  "length v = 8 \<Longrightarrow>
   length (foldl (\<lambda>v i. sm3_block v (block_words buf i)) v is) = 8 \<and>
   map w32 (foldl (\<lambda>v i. sm3_block v (block_words buf i)) v is) =
     foldl std_CF (map w32 v) (map (\<lambda>i. map w32 (block_words buf i)) is)"
proof (induction "is" arbitrary: v)
  case (Cons i "is")
  then show ?case using sm3_block_word [of v "block_words buf i"] length_sm3_block [of v]
    by (simp add: block_words_def)
qed simp

section \<open>Padding\<close>

lemma pad_length_zeros:
  assumes "n < 2 ^ 31 - 72"
  shows "pad_length n = n + 9 + std_zeros n"
proof -
  define q r where "q = n div 64" and "r = n mod 64"
  have n: "n = 64 * q + r" "r < 64" by (simp_all add: q_def r_def)
  have "(n + 9 + 63) div 64 = (if r \<le> 55 then q + 1 else q + 2)"
    using n by (intro div_nat_eqI) auto
  moreover have "(55 - int n) mod 64 = (if r \<le> 55 then 55 - int r else 119 - int r)"
  proof (cases "r \<le> 55")
    case True
    have "(55 - int n) mod 64 = (55 - int r + 64 * (- int q)) mod 64" using n by (simp add: algebra_simps)
    then show ?thesis using True by (simp only: mod_mult_self2) simp
  next
    case False
    have "(55 - int n) mod 64 = (119 - int r + 64 * (- int q - 1)) mod 64" using n by (simp add: algebra_simps)
    then show ?thesis using False n(2) by (simp only: mod_mult_self2) simp
  qed
  ultimately have "(n + 9 + 63) div 64 * 64 = n + 9 + std_zeros n" using n by (auto simp: std_zeros_def)
  then show ?thesis using pad_length_eq [OF assms] by (simp add: add.commute)
qed

text \<open>The padding is the least one: fewer than 64 zeros, and a whole number of blocks.\<close>

lemma pad_length_facts:
  assumes "n < 2 ^ 31 - 72"
  shows "64 dvd pad_length n" "n + 9 \<le> pad_length n" "pad_length n < n + 73"
proof -
  show "64 dvd pad_length n" by (simp add: pad_length_eq [OF assms])
  show "n + 9 \<le> pad_length n" by (simp add: pad_length_zeros [OF assms])
  have "(55 - int n) mod 64 < 64" by simp
  then have "std_zeros n < 64" unfolding std_zeros_def by linarith
  then show "pad_length n < n + 73" by (simp add: pad_length_zeros [OF assms])
qed

lemma set_bytes_at: "length a = i \<Longrightarrow> length c = length b \<Longrightarrow> set_bytes i b (a @ c @ d) = a @ b @ d"
  by (simp add: set_bytes_def)

lemma length_be32 [simp]: "length (be32 x) = 4"
  by (simp add: be32_def)

lemma byte_of_word: "word_of_int (uint x div 2 ^ k) = (ucast (drop_bit k x) :: 8 word)" for x :: "'a::len word"
  by (rule bit_word_eqI) (simp add: bit_simps drop_bit_eq_div [symmetric])

lemma indices: "rev [0..<4] = [3, 2, 1, 0 :: nat]" "rev [0..<8] = [7, 6, 5, 4, 3, 2, 1, 0 :: nat]"
  by code_simp+

lemma be32_word: "be32 (uint x) = be_bytes 4 x" for x :: "32 word"
  by (simp add: be32_def be_bytes_def byte_of_word indices)

lemma be64: "be32 (js_ushr (int n div 0x100000000) 0) @ be32 (js_ushr (int n) 0) = be_bytes 8 (of_nat n :: 64 word)"
proof -
  have hi: "w32 (int n div 0x100000000) = ucast (drop_bit 32 (of_nat n :: 64 word))"
  proof (rule bit_word_eqI)
    fix k assume "k < LENGTH(32)"
    moreover have "int n div 0x100000000 = drop_bit 32 (int n)" by (simp add: drop_bit_eq_div)
    ultimately show "bit (w32 (int n div 0x100000000)) k = bit (ucast (drop_bit 32 (of_nat n :: 64 word)) :: 32 word) k"
      by (simp add: w32_def bit_simps)
  qed
  have lo: "w32 (int n) = ucast (of_nat n :: 64 word)"
    by (rule bit_word_eqI) (simp add: w32_def bit_simps)
  have upper: "(ucast (drop_bit i (ucast (drop_bit 32 x) :: 32 word)) :: 8 word) = ucast (drop_bit (i + 32) x)"
    if "i \<le> 24" for i and x :: "64 word"
    using that by (intro bit_word_eqI) (auto simp: bit_simps ac_simps)
  have lower: "(ucast (drop_bit i (ucast x :: 32 word)) :: 8 word) = ucast (drop_bit i x)"
    if "i \<le> 24" for i and x :: "64 word"
    using that by (intro bit_word_eqI) (auto simp: bit_simps)
  show ?thesis
    unfolding js_ushr_0 be32_word hi lo
    using upper [of 0] lower [of 0] by (simp add: be_bytes_def indices upper lower)
qed

lemma padded_std:
  assumes "fits m"
  shows "padded m = std_pad m"
proof -
  let ?n = "length m" and ?z = "std_zeros (length m)"
  let ?hi = "be32 (js_ushr (int ?n * 8 div 0x100000000) 0)" and ?lo = "be32 (js_ushr (int ?n * 8) 0)"
  have len: "pad_length ?n = ?n + 1 + ?z + 4 + 4" using assms by (simp add: fits_def pad_length_zeros)
  have "replicate (pad_length ?n) (0 :: 8 word) = replicate ?n 0 @ [0] @ replicate ?z 0 @ replicate 4 0 @ replicate 4 0"
    unfolding len replicate_add by simp
  then have "set_bytes 0 m (replicate (pad_length ?n) 0) = m @ [0] @ replicate ?z 0 @ replicate 4 0 @ replicate 4 0"
    using set_bytes_at [of "[]" 0 "replicate ?n 0" m] by simp
  then have "set_bytes ?n [0x80] (set_bytes 0 m (replicate (pad_length ?n) 0)) =
      (m @ [0x80] @ replicate ?z 0) @ replicate 4 0 @ replicate 4 0"
    using set_bytes_at [of m ?n "[0]" "[0x80]"] by simp
  then have "set_bytes (pad_length ?n - 8) ?hi (set_bytes ?n [0x80] (set_bytes 0 m (replicate (pad_length ?n) 0))) =
      (m @ [0x80] @ replicate ?z 0 @ ?hi) @ replicate 4 0 @ []"
    using set_bytes_at [of "m @ [0x80] @ replicate ?z 0" "pad_length ?n - 8" "replicate 4 0" ?hi "replicate 4 0"]
    by (simp add: len)
  then have "padded m = (m @ [0x80] @ replicate ?z 0 @ ?hi) @ ?lo @ []"
    unfolding padded_def Let_def
    using set_bytes_at [of "m @ [0x80] @ replicate ?z 0 @ ?hi" "pad_length ?n - 4" "replicate 4 0" ?lo "[]"]
    by (simp add: len)
  then show ?thesis
    using be64 [of "8 * ?n"] by (simp add: std_pad_def mult.commute)
qed

lemma length_padded: "fits m \<Longrightarrow> length (padded m) = pad_length (length m)"
  by (simp add: padded_std std_pad_def be_bytes_def fits_def pad_length_zeros)

section \<open>The whole hash\<close>

lemma word_of_bytes: "length bs = 4 \<Longrightarrow> w32 (foldl (\<lambda>a b. a * 256 + uint b) 0 bs) = word_rcat bs" for bs :: "8 word list"
proof -
  assume "length bs = 4"
  then obtain b0 b1 b2 b3 where "bs = [b0, b1, b2, b3]" by (auto simp: numeral_eq_Suc length_Suc_conv)
  then show ?thesis by (simp add: w32_def word_rcat_def algebra_simps)
qed

lemma block_words_std:
  assumes "i < length buf div 64"
  shows "map w32 (block_words buf i) = map (\<lambda>j. word_rcat (take 4 (drop (i * 64 + j * 4) buf))) [0..<16]"
proof -
  have "w32 (getUint32 buf (i * 64 + j * 4)) = word_rcat (take 4 (drop (i * 64 + j * 4) buf))" if "j < 16" for j
    using assms that unfolding getUint32_def by (intro word_of_bytes) simp
  then show ?thesis by (simp add: block_words_def)
qed

theorem sm3Bytes_std:
  assumes "fits m"
  shows "sm3Bytes m = std_sm3 m"
proof -
  let ?buf = "padded m"
  let ?v = "foldl (\<lambda>v i. sm3_block v (block_words ?buf i)) IV [0..<length ?buf div 64]"
  have "map w32 ?v = foldl std_CF (map w32 IV) (map (\<lambda>i. map w32 (block_words ?buf i)) [0..<length ?buf div 64])"
    using blocks_word [of IV ?buf] by (simp add: IV_def)
  also have "map (\<lambda>i. map w32 (block_words ?buf i)) [0..<length ?buf div 64] = std_blocks (std_pad m)"
    unfolding std_blocks_def padded_std [OF assms, symmetric] by (intro map_cong refl block_words_std) simp
  finally have "foldl std_CF (map w32 IV) (std_blocks (std_pad m)) = map w32 ?v" ..
  moreover have "be_bytes 4 (w32 x) = be32 x" for x
    by (simp add: be32_word [symmetric]) (simp add: be32_def)
  ultimately show ?thesis by (simp add: sm3Bytes_def std_sm3_def Let_def comp_def)
qed

lemma length_sm3Bytes: "length (sm3Bytes m) = 32"
proof -
  have "length (foldl (\<lambda>v i. sm3_block v (block_words (padded m) i)) IV is) = 8" for "is"
    using blocks_word [of IV "padded m" "is"] by (simp add: IV_def)
  then show ?thesis by (simp add: sm3Bytes_def Let_def length_concat comp_def sum_list_triv)
qed

lemma hex_digit_range: "d < 16 \<Longrightarrow> hex_digit d \<in> set ''0123456789abcdef''"
proof -
  assume "d < 16"
  moreover have "list_all (\<lambda>d. hex_digit d \<in> set ''0123456789abcdef'') [0..<16]" by code_simp
  ultimately show ?thesis by (simp add: list_all_iff)
qed

text \<open>The digest is a text of 64 lower-case hexadecimal digits.\<close>

lemma sm3_hex: "length (sm3 s) = 64 \<and> set (sm3 s) \<subseteq> set ''0123456789abcdef''"
proof
  show "length (sm3 s) = 64"
    using length_sm3Bytes [of "utf8Bytes s"] by (simp add: sm3_def length_concat comp_def hex_byte_def sum_list_triv)
  have "unat b div 16 < 16" for b :: "8 word"
    using unsigned_less [of b, where 'a = nat] by (simp add: less_mult_imp_div_less)
  then have "set (hex_byte b) \<subseteq> set ''0123456789abcdef''" for b
    using hex_digit_range [of "unat b div 16"] hex_digit_range [of "unat b mod 16"] by (simp add: hex_byte_def)
  then show "set (sm3 s) \<subseteq> set ''0123456789abcdef''"
    unfolding sm3_def set_concat set_map by blast
qed

end
