(* ===== verification/Utils.thy ===== *)
theory Utils
  imports Prelude
begin

text \<open>
  The small helpers of \<open>web/packages/utils/src\<close>: the password policy of \<open>password.ts\<close> with the form
  check of \<open>features/edge-account/password-validation.ts\<close>, and the CSV helpers of \<open>csv.ts\<close>.
  Strings are UTF-8 bytes; what the code measures in UTF-16 units is counted on the bytes.
\<close>

section \<open>Passwords\<close>

text \<open>\<open>s.length\<close>: one unit for every character, two for those of four bytes.\<close>

definition utf16_length :: "string \<Rightarrow> nat" where
  "utf16_length s =
     length (filter (\<lambda>c. (of_char c :: nat) < 0x80 \<or> 0xC0 \<le> (of_char c :: nat)) s) +
     length (filter (\<lambda>c. 0xF0 \<le> (of_char c :: nat)) s)"

lemma utf16_length_ascii: "list_all (\<lambda>c. (of_char c :: nat) < 0x80) s \<Longrightarrow> utf16_length s = length s"
  by (induction s) (auto simp: utf16_length_def)

datatype password_error = PwLength | PwComplexity | PwSameAsOld | PwMismatch | PwRequired

definition PASSWORD_MIN_LENGTH :: nat where "PASSWORD_MIN_LENGTH = 8"
definition PASSWORD_MAX_LENGTH :: nat where "PASSWORD_MAX_LENGTH = 20"

definition is_upper :: "char \<Rightarrow> bool" where
  "is_upper c \<longleftrightarrow> 65 \<le> (of_char c :: nat) \<and> (of_char c :: nat) \<le> 90"

definition is_lower :: "char \<Rightarrow> bool" where
  "is_lower c \<longleftrightarrow> 97 \<le> (of_char c :: nat) \<and> (of_char c :: nat) \<le> 122"

definition checkPasswordStrength :: "string \<Rightarrow> password_error option" where
  "checkPasswordStrength password =
     (if utf16_length password < PASSWORD_MIN_LENGTH \<or> utf16_length password > PASSWORD_MAX_LENGTH then Some PwLength
      else if \<not> list_ex is_upper password \<or> \<not> list_ex is_lower password \<or> \<not> list_ex is_digit password
        then Some PwComplexity
      else None)"

definition validatePasswordChange :: "string option \<Rightarrow> string \<Rightarrow> string option \<Rightarrow> password_error option" where
  "validatePasswordChange oldPassword newPassword confirmPassword =
     (case checkPasswordStrength newPassword of
        Some e \<Rightarrow> Some e
      | None \<Rightarrow>
          if oldPassword = Some newPassword then Some PwSameAsOld
          else if confirmPassword \<noteq> None \<and> confirmPassword \<noteq> Some newPassword then Some PwMismatch
          else None)"

record edge_password_errors =
  pe_old :: "password_error option"
  pe_new :: "password_error option"
  pe_confirm :: "password_error option"

definition validateEdgePassword :: "string \<Rightarrow> string \<Rightarrow> string \<Rightarrow> edge_password_errors" where
  "validateEdgePassword old new confirm = \<lparr>
     pe_old = (if old = '''' then Some PwRequired else checkPasswordStrength old),
     pe_new = (if new = '''' then Some PwRequired
               else validatePasswordChange (if old = '''' then None else Some old) new None),
     pe_confirm = (if confirm \<noteq> '''' \<and> new \<noteq> '''' \<and> confirm \<noteq> new then Some PwMismatch
                   else if confirm = '''' then Some PwRequired else None)\<rparr>"

definition hasEdgePasswordErrors :: "edge_password_errors \<Rightarrow> bool" where
  "hasEdgePasswordErrors e \<longleftrightarrow> pe_old e \<noteq> None \<or> pe_new e \<noteq> None \<or> pe_confirm e \<noteq> None"

definition strong :: "string \<Rightarrow> bool" where
  "strong p \<longleftrightarrow> utf16_length p \<in> {8..20} \<and> (\<exists>c \<in> set p. is_upper c) \<and> (\<exists>c \<in> set p. is_lower c) \<and> (\<exists>c \<in> set p. is_digit c)"

lemma checkPasswordStrength_iff: "checkPasswordStrength p = None \<longleftrightarrow> strong p"
  by (auto simp: checkPasswordStrength_def strong_def PASSWORD_MIN_LENGTH_def PASSWORD_MAX_LENGTH_def list_ex_iff
      split: if_splits)

lemma strong_nonempty: "strong p \<Longrightarrow> p \<noteq> ''''"
  by (auto simp: strong_def)

text \<open>The form may be sent exactly when both passwords are strong, they differ, and the new one was repeated.\<close>

lemma edge_password_accepted:
  "\<not> hasEdgePasswordErrors (validateEdgePassword old new confirm) \<longleftrightarrow>
     strong old \<and> strong new \<and> old \<noteq> new \<and> confirm = new"
proof -
  have "validatePasswordChange o' new None = None \<longleftrightarrow> strong new \<and> o' \<noteq> Some new" for o'
    unfolding checkPasswordStrength_iff [symmetric] by (simp add: validatePasswordChange_def split: option.split)
  then show ?thesis
    using strong_nonempty by (auto simp: hasEdgePasswordErrors_def validateEdgePassword_def checkPasswordStrength_iff)
qed

section \<open>CSV lines\<close>

definition dquote :: char where "dquote = CHR 0x22"

text \<open>The loop over the characters: the field being read, and whether it is inside quotes.\<close>

fun csv_fields :: "char \<Rightarrow> string \<Rightarrow> string \<Rightarrow> bool \<Rightarrow> string list" where
  "csv_fields delim [] cur inQuotes = [cur]"
| "csv_fields delim (ch # r) cur inQuotes =
     (if inQuotes then
        (if ch = dquote then
           (case r of
              c # r' \<Rightarrow> if c = dquote then csv_fields delim r' (cur @ [dquote]) True else csv_fields delim r cur False
            | [] \<Rightarrow> csv_fields delim r cur False)
         else csv_fields delim r (cur @ [ch]) True)
      else if ch = dquote then csv_fields delim r cur True
      else if ch = delim then cur # csv_fields delim r [] False
      else csv_fields delim r (cur @ [ch]) False)"

definition splitCsvLine :: "string \<Rightarrow> string list" where
  "splitCsvLine line = map trim (csv_fields CHR '','' line [] False)"

text \<open>Writing a line: every field in quotes, its quotes doubled.\<close>

definition quote_field :: "string \<Rightarrow> string" where
  "quote_field f = dquote # concat (map (\<lambda>c. if c = dquote then [dquote, dquote] else [c]) f) @ [dquote]"

lemma csv_quoted:
  assumes "delim \<noteq> dquote" "r = [] \<or> hd r \<noteq> dquote"
  shows "csv_fields delim (concat (map (\<lambda>c. if c = dquote then [dquote, dquote] else [c]) f) @ dquote # r) cur True =
    csv_fields delim r (cur @ f) False"
proof (induction f arbitrary: cur)
  case Nil
  then show ?case using assms by (cases r) simp_all
next
  case (Cons c f)
  then show ?case by (cases "c = dquote") simp_all
qed

lemma csv_line:
  assumes "delim \<noteq> dquote"
  shows "fs \<noteq> [] \<Longrightarrow> csv_fields delim (join_with [delim] (map quote_field fs)) [] False = fs"
proof (induction fs rule: induct_list012)
  case (2 f)
  then show ?case
    using csv_quoted [OF assms, of "[]" f "[]"] assms by (simp add: quote_field_def)
next
  case (3 f g fs)
  let ?rest = "join_with [delim] (map quote_field (g # fs))"
  have "csv_fields delim (quote_field f @ delim # ?rest) [] False = csv_fields delim (delim # ?rest) f False"
    using csv_quoted [OF assms, of "delim # ?rest" f "[]"] assms by (simp add: quote_field_def)
  also have "\<dots> = f # csv_fields delim ?rest [] False" using assms by simp
  also have "csv_fields delim ?rest [] False = g # fs" using 3 by simp
  finally show ?case by simp
qed simp

text \<open>Reading a line that was written with quotes gives its fields, trimmed.\<close>

lemma splitCsvLine_quoted: "fs \<noteq> [] \<Longrightarrow> splitCsvLine (join_with '','' (map quote_field fs)) = map trim fs"
  using csv_line [of "CHR '',''" fs] by (simp add: splitCsvLine_def dquote_def)

text \<open>A line without quotes is split at its commas.\<close>

lemma csv_plain:
  "dquote \<notin> set s \<Longrightarrow> csv_fields delim s cur False =
     (cur @ hd (split_on delim s)) # tl (split_on delim s)"
proof (induction s arbitrary: cur)
  case (Cons c s)
  show ?case
  proof (cases "c = delim")
    case True
    then show ?thesis using Cons by (cases "split_on delim s") auto
  next
    case False
    then show ?thesis using Cons by (auto split: list.split)
  qed
qed simp

lemma splitCsvLine_plain: "dquote \<notin> set s \<Longrightarrow> splitCsvLine s = map trim (split_on CHR '','' s)"
  by (cases "split_on CHR '','' s") (simp_all add: splitCsvLine_def csv_plain)

section \<open>CSV previews\<close>

definition strip_cr :: "string \<Rightarrow> string" where
  "strip_cr l = (if l \<noteq> [] \<and> last l = CHR 0x0D then butlast l else l)"

text \<open>\<open>split(/\r?\n/)\<close>\<close>

definition split_lines :: "string \<Rightarrow> string list" where
  "split_lines t = (let ls = split_on (CHR 0x0A) t in map strip_cr (butlast ls) @ [last ls])"

definition BOM :: string where "BOM = utf8 [0xEF, 0xBB, 0xBF]"

definition parseCsvPreview :: "string \<Rightarrow> nat \<Rightarrow> string list \<times> string list list" where
  "parseCsvPreview t sampleRows =
     (let clean = (if starts_with t BOM then drop 3 t else t);
          ls = filter (\<lambda>l. trim l \<noteq> '''') (split_lines clean)
      in case ls of
           [] \<Rightarrow> ([], [])
         | h # rest \<Rightarrow> (splitCsvLine h, map splitCsvLine (take sampleRows rest)))"

section \<open>Guessing column types\<close>

datatype inferred_type = ColInt | ColFloat | ColBool | ColStr

definition strip_sign :: "string \<Rightarrow> string" where
  "strip_sign v = (case v of c # r \<Rightarrow> if c = CHR ''-'' \<or> c = CHR ''+'' then r else v | [] \<Rightarrow> [])"

definition int_text :: "string \<Rightarrow> bool" where
  "int_text v = (let d = strip_sign v in d \<noteq> '''' \<and> list_all is_digit d)"

text \<open>\<open>(\d+\.?\d*|\.\d+)([eE][-+]?\d+)?\<close>, after the sign.\<close>

definition exponent_text :: "string \<Rightarrow> bool" where
  "exponent_text s =
     (case s of [] \<Rightarrow> True
      | c # r \<Rightarrow> (c = CHR ''e'' \<or> c = CHR ''E'') \<and> int_text r)"

definition float_text :: "string \<Rightarrow> bool" where
  "float_text v =
     (let d = strip_sign v; ip = takeWhile is_digit d; r = dropWhile is_digit d in
      case r of
        [] \<Rightarrow> ip \<noteq> ''''
      | c # r' \<Rightarrow>
          if c = CHR ''.''
          then (ip \<noteq> '''' \<or> takeWhile is_digit r' \<noteq> '''') \<and> exponent_text (dropWhile is_digit r')
          else ip \<noteq> '''' \<and> exponent_text r)"

definition inferColumnType :: "string list \<Rightarrow> string list \<Rightarrow> inferred_type" where
  "inferColumnType values nullStrs =
     (let vals = filter (\<lambda>v. v \<notin> set nullStrs) values in
      if vals = [] then ColStr
      else if list_all int_text vals then ColInt
      else if list_all float_text vals then ColFloat
      else if list_all (\<lambda>v. to_lower v \<in> {''true'', ''false''}) vals then ColBool
      else ColStr)"

lemma int_text_is_float: "int_text v \<Longrightarrow> float_text v"
proof -
  assume i: "int_text v"
  then have tw: "takeWhile is_digit (strip_sign v) = strip_sign v" and dw: "dropWhile is_digit (strip_sign v) = ''''"
    by (auto simp: int_text_def Let_def list_all_iff takeWhile_eq_all_conv dropWhile_eq_Nil_conv)
  then show ?thesis using i unfolding float_text_def Let_def tw dw by (simp add: int_text_def Let_def)
qed

lemma float_not_bool: "float_text v \<Longrightarrow> to_lower v \<notin> {''true'', ''false''}"
proof
  assume f: "float_text v" and b: "to_lower v \<in> {''true'', ''false''}"
  obtain c r where v: "v = c # r" using b by (cases v) (auto simp: to_lower_def)
  have c: "to_lower_char c \<in> {CHR ''t'', CHR ''f''}" using b v by (auto simp: to_lower_def)
  have "c \<noteq> CHR ''-''" "c \<noteq> CHR ''+''" "c \<noteq> CHR ''.''" "\<not> is_digit c"
    using c by (auto simp: to_lower_char_def is_digit_def split: if_splits)
  then show False using f v by (simp add: float_text_def strip_sign_def Let_def)
qed

text \<open>The guess is the narrowest type that all values have.\<close>

lemma inferColumnType_spec:
  "case inferColumnType values nulls of
     ColInt \<Rightarrow> \<forall>v \<in> set values. v \<notin> set nulls \<longrightarrow> int_text v
   | ColFloat \<Rightarrow> (\<forall>v \<in> set values. v \<notin> set nulls \<longrightarrow> float_text v) \<and> (\<exists>v \<in> set values. v \<notin> set nulls \<and> \<not> int_text v)
   | ColBool \<Rightarrow> \<forall>v \<in> set values. v \<notin> set nulls \<longrightarrow> to_lower v \<in> {''true'', ''false''} \<and> \<not> float_text v
   | ColStr \<Rightarrow> True"
  using float_not_bool by (auto simp: inferColumnType_def Let_def list_all_iff split: if_splits)

section \<open>Column names\<close>

datatype schema_issue = IssueEmpty nat | IssueDuplicate nat string | IssueInvalidName nat string

text \<open>\<open>the pattern of column names\<close>: ASCII word characters and hyphens, and the three-byte characters U+4E00 to U+9FA5.\<close>

definition word_char :: "char \<Rightarrow> bool" where
  "word_char c \<longleftrightarrow> is_upper c \<or> is_lower c \<or> is_digit c \<or> c = CHR ''_'' \<or> c = CHR ''-''"

definition cjk_bytes :: "char \<Rightarrow> char \<Rightarrow> char \<Rightarrow> bool" where
  "cjk_bytes a b c \<longleftrightarrow>
     (let x = (of_char a :: nat); y = (of_char b :: nat); z = (of_char c :: nat);
          code = (x - 0xE0) * 4096 + (y - 0x80) * 64 + (z - 0x80)
      in 0xE0 \<le> x \<and> x < 0xF0 \<and> 0x80 \<le> y \<and> y < 0xC0 \<and> 0x80 \<le> z \<and> z < 0xC0 \<and> 0x4E00 \<le> code \<and> code \<le> 0x9FA5)"

fun legal_chars :: "string \<Rightarrow> bool" where
  "legal_chars [] = True"
| "legal_chars (a # s) =
     (if word_char a then legal_chars s
      else (case s of b # c # r \<Rightarrow> cjk_bytes a b c \<and> legal_chars r | _ \<Rightarrow> False))"

definition legal_name :: "string \<Rightarrow> bool" where
  "legal_name n \<longleftrightarrow> n \<noteq> '''' \<and> legal_chars n"

fun name_issues :: "nat \<Rightarrow> string list \<Rightarrow> string set \<Rightarrow> schema_issue list" where
  "name_issues i [] seen = []"
| "name_issues i (raw # names) seen =
     (let name = trim raw; key = to_lower name in
      if name = '''' then IssueEmpty i # name_issues (Suc i) names seen
      else (if legal_name name then [] else [IssueInvalidName i name]) @
           (if key \<in> seen then IssueDuplicate i name # name_issues (Suc i) names seen
            else name_issues (Suc i) names (insert key seen)))"

definition validateColumnNames :: "string list \<Rightarrow> schema_issue list" where
  "validateColumnNames names = name_issues 0 names {}"

definition column_key :: "string \<Rightarrow> string" where
  "column_key n = to_lower (trim n)"

lemma name_issues_Cons:
  "name_issues i (raw # names) seen = [] \<longleftrightarrow>
     legal_name (trim raw) \<and> column_key raw \<notin> seen \<and> name_issues (Suc i) names (insert (column_key raw) seen) = []"
  by (auto simp: Let_def legal_name_def column_key_def)

lemma name_issues_none:
  "name_issues i names seen = [] \<longleftrightarrow>
     (\<forall>n \<in> set names. legal_name (trim n)) \<and> distinct (map column_key names) \<and> (\<forall>n \<in> set names. column_key n \<notin> seen)"
proof (induction names arbitrary: i seen)
  case (Cons raw names)
  have fresh: "column_key raw \<notin> set (map column_key names) \<longleftrightarrow> (\<forall>n \<in> set names. column_key n \<noteq> column_key raw)"
    unfolding set_map image_iff by metis
  have split: "(\<forall>n \<in> set names. column_key n \<notin> insert (column_key raw) seen) \<longleftrightarrow>
      (\<forall>n \<in> set names. column_key n \<noteq> column_key raw) \<and> (\<forall>n \<in> set names. column_key n \<notin> seen)" by auto
  show ?case
    unfolding name_issues_Cons Cons split list.map distinct.simps fresh by (simp only: list.set ball_simps) blast
qed simp

text \<open>A header is accepted exactly when its names are legal and no two differ only in case.\<close>

lemma validateColumnNames_none:
  "validateColumnNames names = [] \<longleftrightarrow>
     (\<forall>n \<in> set names. legal_name (trim n)) \<and> distinct (map (\<lambda>n. to_lower (trim n)) names)"
  by (simp add: validateColumnNames_def name_issues_none column_key_def [abs_def])

section \<open>White space\<close>

text \<open>The white space that \<open>\s\<close> matches, in UTF-8: the number of its bytes, 0 for another character.\<close>

definition ws_length :: "string \<Rightarrow> nat" where
  "ws_length s =
     (case s of
        [] \<Rightarrow> 0
      | c # r \<Rightarrow>
          if is_ws c then 1
          else (let ns = map (\<lambda>c. of_char c :: nat) (take 3 s) in
            if take 2 ns = [0xC2, 0xA0] then 2
            else if ns \<in> set ([[0xE1, 0x9A, 0x80], [0xE2, 0x80, 0xA8], [0xE2, 0x80, 0xA9], [0xE2, 0x80, 0xAF],
                [0xE2, 0x81, 0x9F], [0xE3, 0x80, 0x80], [0xEF, 0xBB, 0xBF]] @ map (\<lambda>k. [0xE2, 0x80, k]) [0x80..<0x8B])
              then 3 else 0))"

end
