(* ===== verification/Decimals.thy ===== *)
theory Decimals
  imports JsConvert
begin

text \<open>
  Decimal fractions survive \<open>Number(String(x))\<close>: a number with at most twenty digits after the
  point is read back as it was.
\<close>

section \<open>Digits after the point\<close>

lemma parse_nat_Cons: "parse_nat (c # ds) = digit_val c * 10 ^ length ds + parse_nat ds"
proof -
  have "foldl (\<lambda>a c. 10 * a + digit_val c) a ds = a * 10 ^ length ds + foldl (\<lambda>a c. 10 * a + digit_val c) 0 ds" for a
  proof (induction ds arbitrary: a)
    case (Cons d ds)
    show ?case using Cons [of "10 * a + digit_val d"] Cons [of "digit_val d"] by (simp add: algebra_simps)
  qed simp
  from this [of "digit_val c"] show ?thesis by (simp add: parse_nat_def)
qed

lemma parse_nat_append: "parse_nat (a @ b) = parse_nat a * 10 ^ length b + parse_nat b"
  by (induction a) (simp_all add: parse_nat_Cons algebra_simps power_add, simp add: parse_nat_def)

definition decimal :: "nat \<Rightarrow> rat \<Rightarrow> bool" where
  "decimal k q \<longleftrightarrow> (\<exists>i :: int. q * 10 ^ k = of_int i)"

lemma digit_below: "0 \<le> q \<Longrightarrow> q < 1 \<Longrightarrow> nat (floor (10 * q)) < 10" for q :: rat
  by (simp add: floor_less_iff nat_less_iff)

lemma fraction_digits_value:
  "0 \<le> q \<Longrightarrow> q < 1 \<Longrightarrow> decimal k q \<Longrightarrow>
   list_all is_digit (fraction_digits k q) \<and>
   of_nat (parse_nat (fraction_digits k q)) = q * 10 ^ length (fraction_digits k q)"
proof (induction k arbitrary: q)
  case 0
  then obtain i :: int where i: "q = of_int i" by (auto simp: decimal_def)
  with 0 have "0 \<le> i" "i < 1" by simp_all
  then show ?case using i by (simp add: parse_nat_def)
next
  case (Suc k)
  show ?case
  proof (cases "q = 0")
    case True
    then show ?thesis by (simp add: parse_nat_def)
  next
    case False
    define d where "d = nat (floor (10 * q))"
    define r where "r = 10 * q - of_int (floor (10 * q))"
    have d: "d < 10" "of_int (floor (10 * q)) = (of_nat d :: rat)"
      using digit_below [of q] Suc.prems by (simp_all add: d_def)
    have r: "0 \<le> r" "r < 1" unfolding r_def by linarith+
    obtain i :: int where "q * 10 ^ Suc k = of_int i" using Suc.prems(3) by (auto simp: decimal_def)
    then have "r * 10 ^ k = of_int (i - floor (10 * q) * 10 ^ k)" by (simp add: r_def algebra_simps)
    then have "decimal k r" unfolding decimal_def by blast
    from Suc.IH [OF r this] have IH: "list_all is_digit (fraction_digits k r)"
      "of_nat (parse_nat (fraction_digits k r)) = r * 10 ^ length (fraction_digits k r)" by simp_all
    have eq: "fraction_digits (Suc k) q = digit_char d # fraction_digits k r"
      using False by (simp add: d_def r_def)
    have "10 * q = of_nat d + r" by (simp add: r_def d(2))
    then have "of_nat d * 10 ^ m + r * 10 ^ m = q * 10 ^ Suc m" for m
      by (simp add: distrib_right [symmetric] mult.assoc)
    then show ?thesis using IH d(1) unfolding eq by (simp add: parse_nat_Cons)
  qed
qed

section \<open>Reading a decimal\<close>

lemma parse_unsigned_decimal:
  assumes "ip \<noteq> []" "list_all is_digit ip" "list_all is_digit fp"
  shows "parse_unsigned (ip @ CHR ''.'' # fp) = Fin (of_nat (parse_nat (ip @ fp)) / 10 ^ length fp)"
proof -
  have "takeWhile is_digit (ip @ CHR ''.'' # fp) = ip \<and> dropWhile is_digit (ip @ CHR ''.'' # fp) = CHR ''.'' # fp"
    using assms(2) by (intro takeWhile_digits_append) (auto simp: list_all_iff is_digit_def)
  then have t: "takeWhile is_digit (ip @ CHR ''.'' # fp) = ip" "dropWhile is_digit (ip @ CHR ''.'' # fp) = CHR ''.'' # fp"
    by simp_all
  have f: "takeWhile is_digit fp = fp" "dropWhile is_digit fp = []"
    using assms(3) by (simp_all add: list_all_iff takeWhile_eq_all_conv dropWhile_eq_Nil_conv)
  have "ip @ CHR ''.'' # fp \<noteq> ''Infinity''"
    using assms(1,2) by (cases ip) (auto simp: is_digit_def)
  then show ?thesis
    using assms(1) unfolding parse_unsigned_def Let_def t by (simp only: list.case if_True f) (simp add: parse_exponent_def power10_def)
qed

lemma trim_solid:
  assumes "s \<noteq> []" "\<not> is_ws (hd s)" "\<not> is_ws (last s)"
  shows "trim s = s"
proof -
  have "dropWhile is_ws t = t" if "t = [] \<or> \<not> is_ws (hd t)" for t using that by (cases t) auto
  then show ?thesis using assms by (simp add: trim_def hd_rev)
qed

text \<open>A text that starts with a digit and has a point or digits next is read as an unsigned numeral.\<close>

lemma number_of_string_numeral:
  assumes "trim t = t" "t = c # r" "is_digit c" "r = [] \<or> is_digit (hd r) \<or> hd r = CHR ''.''"
  shows "number_of_string t = parse_unsigned t"
proof -
  have "\<not> (r \<noteq> [] \<and> hd r \<in> {CHR ''x'', CHR ''X''})" "\<not> (r \<noteq> [] \<and> hd r \<in> {CHR ''o'', CHR ''O''})"
    "\<not> (r \<noteq> [] \<and> hd r \<in> {CHR ''b'', CHR ''B''})" "c \<noteq> CHR ''-''" "c \<noteq> CHR ''+''"
    using assms(3,4) by (auto simp: is_digit_def)
  then show ?thesis using assms(1) unfolding number_of_string_def assms(2) by (cases "r = []") auto
qed

lemma fraction_digits_nonempty: "q \<noteq> 0 \<Longrightarrow> fraction_digits (Suc k) q \<noteq> []"
  by simp

lemma number_of_string_decimal:
  assumes "decimal 20 q"
  shows "number_of_string (number_text (Fin q)) = Fin q"
proof (cases "q = of_int (floor q)")
  case True
  then have "number_text (Fin q) = show_integer (floor q)" by simp
  then show ?thesis using number_of_string_show_integer [of "floor q"] True by simp
next
  case False
  define a f where "a = nat (floor \<bar>q\<bar>)" and "f = \<bar>q\<bar> - of_int (floor \<bar>q\<bar>)"
  have f: "0 \<le> f" "f < 1" unfolding f_def by linarith+
  have af: "\<bar>q\<bar> = of_nat a + f" by (simp add: a_def f_def)
  have "f \<noteq> 0"
  proof
    assume "f = 0"
    then have q: "\<bar>q\<bar> = of_int (int a)" using af by simp
    then have "q = of_int (if q < 0 then - int a else int a)" by (auto simp: abs_if split: if_splits)
    then show False using False by (metis floor_of_int)
  qed
  obtain i :: int where i: "q * 10 ^ 20 = of_int i" using assms by (auto simp: decimal_def)
  have "f * 10 ^ 20 = of_int (\<bar>i\<bar> - int a * 10 ^ 20)"
  proof -
    have "\<bar>q\<bar> * 10 ^ 20 = \<bar>q * 10 ^ 20\<bar>" by (simp add: abs_mult)
    then have "\<bar>q\<bar> * 10 ^ 20 = of_int \<bar>i\<bar>" unfolding i by simp
    then show ?thesis using af by (simp add: algebra_simps)
  qed
  then have "decimal 20 f" unfolding decimal_def by blast
  then have fr: "list_all is_digit (fraction_digits 20 f)"
    "of_nat (parse_nat (fraction_digits 20 f)) = f * 10 ^ length (fraction_digits 20 f)"
    using fraction_digits_value [OF f] by simp_all
  let ?t = "show_nat a @ CHR ''.'' # fraction_digits 20 f"
  have "of_nat (parse_nat (show_nat a @ fraction_digits 20 f)) / 10 ^ length (fraction_digits 20 f) = of_nat a + f"
    using fr(2) by (simp add: parse_nat_append field_simps)
  then have pu: "parse_unsigned ?t = Fin \<bar>q\<bar>"
    using parse_unsigned_decimal [of "show_nat a" "fraction_digits 20 f"] show_nat_all_digits [of a] fr(1) af by simp
  have ne: "fraction_digits 20 f \<noteq> []"
    using fraction_digits_nonempty [OF \<open>f \<noteq> 0\<close>, of 19] by (simp add: numeral_eq_Suc)
  have last: "is_digit (last ?t)" using ne fr(1) by (simp add: list_all_iff)
  obtain c r where cr: "show_nat a = c # r" by (cases "show_nat a") auto
  have d: "is_digit c" "list_all is_digit r" using show_nat_all_digits [of a] by (simp_all add: cr)
  show ?thesis
  proof (cases "q < 0")
    case True
    have "number_text (Fin q) = CHR ''-'' # ?t" using False True by (simp add: a_def f_def)
    moreover have "trim (CHR ''-'' # ?t) = CHR ''-'' # ?t"
      using last digits_not_ws by (intro trim_solid) (simp_all add: is_ws_def)
    ultimately show ?thesis using pu True by (simp add: number_of_string_def)
  next
    case pos: False
    have "number_text (Fin q) = ?t" using False pos by (simp add: a_def f_def)
    moreover have "number_of_string ?t = parse_unsigned ?t"
    proof (rule number_of_string_numeral)
      show "trim ?t = ?t" using last d(1) digits_not_ws by (intro trim_solid) (simp_all add: cr)
      show "?t = c # (r @ CHR ''.'' # fraction_digits 20 f)" by (simp add: cr)
      show "is_digit c" by (rule d)
      show "r @ CHR ''.'' # fraction_digits 20 f = [] \<or> is_digit (hd (r @ CHR ''.'' # fraction_digits 20 f)) \<or>
          hd (r @ CHR ''.'' # fraction_digits 20 f) = CHR ''.''"
        using d(2) by (cases r) auto
    qed
    ultimately show ?thesis using pu pos by simp
  qed
qed

end
