(* ===== verification/Serializers.thy ===== *)
theory Serializers
  imports Decimals
begin

text \<open>
  Attribute values with a form of their own, \<open>web/packages/dag-next/src/custom-serializers.ts\<close>: the
  bins of a binning, conditional rules, calculations, and the weights of a linear model.  A call
  that throws is \<open>None\<close>.
\<close>

section \<open>Bin bounds and labels\<close>

datatype bound = BNum number | BText string

definition bound_text :: "bound \<Rightarrow> string" where
  "bound_text b = (case b of BNum x \<Rightarrow> number_text x | BText s \<Rightarrow> s)"

definition getBinLabel :: "bound \<Rightarrow> bound \<Rightarrow> string" where
  "getBinLabel leftBound rightBound =
     (if leftBound = BNum (Fin 0) \<and> rightBound = BNum (Fin 0) then ''ELSE''
      else ''('' @ bound_text leftBound @ '', '' @ bound_text rightBound @
        (case rightBound of BText s \<Rightarrow> (if str_includes s ''Infinity'' then '')'' else '']'') | _ \<Rightarrow> '']''))"

text \<open>\<open>s.replace(c, '')\<close>: the first occurrence goes.\<close>

fun remove_first :: "char \<Rightarrow> string \<Rightarrow> string" where
  "remove_first c [] = []"
| "remove_first c (x # s) = (if x = c then s else x # remove_first c s)"

definition bound_of :: "string \<Rightarrow> bound" where
  "bound_of t = (if str_includes t ''Infinity'' then BText t else BNum (number_of_string t))"

definition getBinBoundValue :: "string \<Rightarrow> (bound \<times> bound) option" where
  "getBinBoundValue label =
     (if label = ''ELSE'' then Some (BNum (Fin 0), BNum (Fin 0))
      else (case split_on CHR '','' label of
          l # r # _ \<Rightarrow>
            Some (bound_of (trim (remove_first CHR ''('' l)),
                  bound_of (trim (remove_first CHR '')'' (remove_first CHR '']'' r))))
        | _ \<Rightarrow> None))"

text \<open>Bounds the server sends: decimals, and the texts of the two infinities.\<close>

definition good_bound :: "bound \<Rightarrow> bool" where
  "good_bound b \<longleftrightarrow>
     (case b of BNum (Fin q) \<Rightarrow> decimal 20 q | BText s \<Rightarrow> s = ''Infinity'' \<or> s = ''-Infinity'' | _ \<Rightarrow> False)"

declare number_text.simps [simp del]

lemma good_bound_cases:
  assumes "good_bound b"
  obtains q where "b = BNum (Fin q)" "decimal 20 q" | "b = BText ''Infinity''" | "b = BText ''-Infinity''"
  using assms by (auto simp: good_bound_def split: bound.splits number.splits)

lemma fraction_digits_chars: "c \<in> set (fraction_digits k q) \<Longrightarrow> 0 \<le> q \<Longrightarrow> q < 1 \<Longrightarrow> is_digit c"
proof (induction k arbitrary: q)
  case (Suc k)
  have "0 \<le> 10 * q - of_int (floor (10 * q))" "10 * q - of_int (floor (10 * q)) < 1" by linarith+
  moreover have "is_digit (digit_char (nat (floor (10 * q))))" using digit_below [of q] Suc.prems by simp
  ultimately show ?case using Suc by (auto split: if_splits)
qed simp

lemma number_text_chars:
  assumes "c \<in> set (number_text (Fin q))"
  shows "is_digit c \<or> c = CHR ''-'' \<or> c = CHR ''.''"
proof (cases "q = of_int (floor q)")
  case True
  then show ?thesis using assms show_nat_digits by (auto simp: number_text.simps show_integer_def split: if_splits)
next
  case False
  have "0 \<le> \<bar>q\<bar> - of_int (floor \<bar>q\<bar>)" "\<bar>q\<bar> - of_int (floor \<bar>q\<bar>) < 1" by linarith+
  note digits = fraction_digits_chars [OF _ this, of c 20]
  show ?thesis using assms False show_nat_digits digits by (auto simp: number_text.simps split: if_splits)
qed

lemma str_includes_char: "str_includes s p \<Longrightarrow> c \<in> set p \<Longrightarrow> c \<in> set s"
proof (induction s p rule: str_includes.induct)
  case (2 x s p)
  show ?case
  proof (cases "starts_with (x # s) p")
    case True
    then obtain t where "x # s = p @ t" by (auto simp: starts_with_iff)
    then have "set p \<subseteq> set (x # s)" by simp
    then show ?thesis using "2.prems"(2) by blast
  next
    case False
    then show ?thesis using 2 by simp
  qed
qed simp

lemma number_text_solid:
  "\<not> str_includes (number_text (Fin q)) ''Infinity'' \<and> trim (number_text (Fin q)) = number_text (Fin q) \<and>
   (\<forall>c \<in> set (number_text (Fin q)). c \<notin> set '',()] '')"
proof (intro conjI ballI)
  have n: "CHR ''I'' \<notin> set (number_text (Fin q))" using number_text_chars [of "CHR ''I''" q] by (auto simp: is_digit_def)
  then show "\<not> str_includes (number_text (Fin q)) ''Infinity''"
    using str_includes_char [of "number_text (Fin q)" "''Infinity''" "CHR ''I''"] by auto
  have ne: "number_text (Fin q) \<noteq> []" by (simp add: number_text.simps show_integer_def)
  have "\<not> is_ws c" if "c \<in> set (number_text (Fin q))" for c
    using number_text_chars [OF that] digits_not_ws [of c] by (auto simp: is_ws_def)
  then show "trim (number_text (Fin q)) = number_text (Fin q)" using ne by (intro trim_solid) auto
  fix c assume "c \<in> set (number_text (Fin q))"
  then show "c \<notin> set '',()] ''" using number_text_chars [of c q] by (auto simp: is_digit_def)
qed

lemma good_bound_text:
  assumes "good_bound b"
  shows "bound_of (bound_text b) = b" "trim (bound_text b) = bound_text b" "\<forall>c \<in> set (bound_text b). c \<notin> set '',()] ''"
    "bound_text b \<noteq> ''''"
proof -
  have "bound_of (bound_text b) = b \<and> trim (bound_text b) = bound_text b \<and> (\<forall>c \<in> set (bound_text b). c \<notin> set '',()] '') \<and>
    bound_text b \<noteq> ''''"
  proof (cases rule: good_bound_cases [OF assms])
    case (1 q)
    have "number_text (Fin q) \<noteq> []" by (simp add: number_text.simps show_integer_def)
    then show ?thesis
      using number_text_solid [of q] number_of_string_decimal [OF 1(2)] by (simp add: 1 bound_of_def bound_text_def)
  next
    case 2
    then show ?thesis by (simp add: bound_text_def) code_simp
  next
    case 3
    then show ?thesis by (simp add: bound_text_def) code_simp
  qed
  then show "bound_of (bound_text b) = b" "trim (bound_text b) = bound_text b" "\<forall>c \<in> set (bound_text b). c \<notin> set '',()] ''"
    "bound_text b \<noteq> ''''" by blast+
qed

lemma remove_first_absent: "c \<notin> set s \<Longrightarrow> remove_first c s = s"
  by (induction s) auto

lemma remove_first_end: "c \<notin> set s \<Longrightarrow> remove_first c (s @ [c]) = s"
  by (induction s) auto

lemma trim_space: "trim (CHR '' '' # s) = trim s"
  by (simp add: trim_def is_ws_def)

lemma bin_label_round_trip:
  assumes "good_bound l" "good_bound r" "\<not> (l = BNum (Fin 0) \<and> r = BNum (Fin 0))"
  shows "getBinBoundValue (getBinLabel l r) = Some (l, r)"
proof -
  note L = good_bound_text [OF assms(1)] and R = good_bound_text [OF assms(2)]
  have absent: "c \<notin> set t" if "\<forall>c \<in> set t. c \<notin> set '',()] ''" "c \<in> set '',()] ''" for c and t :: string
    using that by blast
  have lc: "CHR '','' \<notin> set (bound_text l)" by (rule absent [OF L(3)]) simp
  have rc: "CHR '','' \<notin> set (bound_text r)" "CHR '')'' \<notin> set (bound_text r)" "CHR '']'' \<notin> set (bound_text r)"
    by (rule absent [OF R(3)]; simp)+
  define br where "br = (case r of BText s \<Rightarrow> if str_includes s ''Infinity'' then CHR '')'' else CHR '']'' | _ \<Rightarrow> CHR '']'')"
  have br: "br = CHR '')'' \<or> br = CHR '']''" by (simp add: br_def split: bound.splits)
  have label: "getBinLabel l r = (CHR ''('' # bound_text l) @ CHR '','' # (CHR '' '' # bound_text r @ [br])"
    using assms(3) by (simp add: getBinLabel_def br_def split: bound.splits)
  have "CHR '','' \<notin> set (CHR ''('' # bound_text l)" using lc by simp
  moreover have "CHR '','' \<notin> set (CHR '' '' # bound_text r @ [br])" using rc(1) br by (elim disjE) simp_all
  ultimately have parts: "split_on CHR '','' (getBinLabel l r) = [CHR ''('' # bound_text l, CHR '' '' # bound_text r @ [br]]"
    unfolding label by (subst split_on_append_sep) (simp_all only: split_on_no_sep not_False_eq_True)
  have "remove_first CHR '')'' (remove_first CHR '']'' (bound_text r @ [br])) = bound_text r"
    using br
  proof
    assume "br = CHR '')''"
    moreover have "CHR '']'' \<notin> set (bound_text r @ [CHR '')''])" using rc(3) by simp
    ultimately show ?thesis
      using remove_first_absent [of "CHR '']''" "bound_text r @ [CHR '')'']"] remove_first_end [OF rc(2)] by simp
  next
    assume "br = CHR '']''"
    then show ?thesis using remove_first_end [OF rc(3)] remove_first_absent [OF rc(2)] by simp
  qed
  then have "trim (remove_first CHR '')'' (remove_first CHR '']'' (CHR '' '' # bound_text r @ [br]))) = bound_text r"
    by (simp add: trim_space R(2))
  moreover have "getBinLabel l r \<noteq> ''ELSE''" unfolding label by simp
  ultimately show ?thesis
    unfolding getBinBoundValue_def parts using L(1,2) R(1) by simp
qed

lemma else_label: "getBinLabel l r = ''ELSE'' \<longleftrightarrow> l = BNum (Fin 0) \<and> r = BNum (Fin 0)"
  by (auto simp: getBinLabel_def)

section \<open>Binning modifications\<close>

text \<open>\<open>BinFormItem\<close>, \<open>BinningFormRecord\<close> and \<open>BinningFormData\<close>: what the table edits.\<close>

record bin_item =
  bi_key :: string
  bi_label :: string
  bi_markForMerge :: bool
  bi_totalCount :: number
  bi_woe :: "number option"
  bi_order :: "number option"

record bin_record =
  br_key :: string
  br_partyName :: string
  br_feature :: string
  br_type :: string
  br_isWoe :: bool
  br_binCount :: nat
  br_iv :: "number option"
  br_bins :: "bin_item list"

record bin_data =
  bd_modelHash :: string
  bd_variableBins :: "bin_record list"

text \<open>\<open>RawBin\<close> and the records of the engine.  An absent property is \<open>None\<close>, like one that is
  \<open>undefined\<close>: \<open>JSON.stringify\<close> leaves both out.\<close>

record raw_bin =
  rb_markForMerge :: "bool option"
  rb_leftBound :: bound
  rb_rightBound :: bound
  rb_fillingValue :: "number option"
  rb_totalCount :: "number option"

record raw_record =
  rr_featureName :: string
  rr_validBinCount :: nat
  rr_iv :: "number option"
  rr_featureType :: string
  rr_validBins :: "raw_bin list"
  rr_isWoe :: bool
  rr_elseBin :: "raw_bin option"
  rr_partyName :: string

record raw_data =
  rd_modelHash :: string
  rd_variableBins :: "raw_record list"

definition save_bin :: "bool \<Rightarrow> bin_item \<Rightarrow> raw_bin option" where
  "save_bin isWoe b =
     (case getBinBoundValue (bi_label b) of
        None \<Rightarrow> None
      | Some (l, r) \<Rightarrow> Some
          \<lparr>rb_markForMerge = Some (bi_markForMerge b), rb_leftBound = l, rb_rightBound = r,
           rb_fillingValue = (if isWoe then bi_woe b else bi_order b), rb_totalCount = Some (bi_totalCount b)\<rparr>)"

definition save_record :: "bin_record \<Rightarrow> raw_record option" where
  "save_record r =
     (let elseBin = find (\<lambda>b. bi_label b = ''ELSE'') (br_bins r);
          validBins = filter (\<lambda>b. bi_label b \<noteq> ''ELSE'') (br_bins r) in
      case those (map (save_bin (br_isWoe r)) validBins) of
        None \<Rightarrow> None
      | Some saved \<Rightarrow> Some
          \<lparr>rr_featureName = br_feature r, rr_validBinCount = br_binCount r,
           rr_iv = (if br_isWoe r then br_iv r else None),
           rr_featureType = (if br_type r = ''float'' then ''numeric'' else br_type r),
           rr_validBins = saved, rr_isWoe = br_isWoe r,
           rr_elseBin = Some
             \<lparr>rb_markForMerge = Some False, rb_leftBound = BNum (Fin 0), rb_rightBound = BNum (Fin 0),
              rb_fillingValue = (case elseBin of None \<Rightarrow> None | Some b \<Rightarrow> if br_isWoe r then bi_woe b else bi_order b),
              rb_totalCount = (case elseBin of None \<Rightarrow> None | Some b \<Rightarrow> Some (bi_totalCount b))\<rparr>,
           rr_partyName = br_partyName r\<rparr>)"

definition binModificationsSerializer :: "bin_data \<Rightarrow> raw_data option" where
  "binModificationsSerializer d =
     (case those (map save_record (bd_variableBins d)) of
        None \<Rightarrow> None
      | Some rs \<Rightarrow> Some \<lparr>rd_modelHash = bd_modelHash d, rd_variableBins = rs\<rparr>)"

definition load_bin :: "bool \<Rightarrow> string \<Rightarrow> nat \<Rightarrow> raw_bin \<Rightarrow> bin_item" where
  "load_bin isWoe featureName index b =
     (let label = getBinLabel (rb_leftBound b) (rb_rightBound b) in
      \<lparr>bi_key = show_nat index @ ''/'' @ featureName @ ''/'' @ label, bi_label = label,
       bi_markForMerge = (rb_markForMerge b = Some True),
       bi_totalCount = (case rb_totalCount b of None \<Rightarrow> Fin 0 | Some n \<Rightarrow> n),
       bi_woe = (if isWoe then rb_fillingValue b else None),
       bi_order = (if isWoe then None else rb_fillingValue b)\<rparr>)"

definition load_record :: "raw_record \<Rightarrow> bin_record" where
  "load_record r =
     (let bins = rr_validBins r @ (case rr_elseBin r of None \<Rightarrow> [] | Some b \<Rightarrow> [b]) in
      \<lparr>br_key = rr_featureName r, br_partyName = rr_partyName r, br_feature = rr_featureName r,
       br_type = (if rr_featureType r = ''numeric'' then ''float'' else rr_featureType r),
       br_isWoe = rr_isWoe r, br_binCount = rr_validBinCount r,
       br_iv = (if rr_isWoe r then rr_iv r else None),
       br_bins = map2 (load_bin (rr_isWoe r) (rr_featureName r)) [0..<length bins] bins\<rparr>)"

definition binModificationsUnSerializer :: "raw_data \<Rightarrow> bin_data" where
  "binModificationsUnSerializer d =
     \<lparr>bd_modelHash = rd_modelHash d, bd_variableBins = map load_record (rd_variableBins d)\<rparr>"

text \<open>
  The records the engine writes: finite bounds are decimals, no valid bin has the bounds of the
  remainder, every bin has its mark and its count, and the remainder is there, unmarked.
\<close>

definition good_bin :: "raw_bin \<Rightarrow> bool" where
  "good_bin b \<longleftrightarrow> good_bound (rb_leftBound b) \<and> good_bound (rb_rightBound b) \<and>
     \<not> (rb_leftBound b = BNum (Fin 0) \<and> rb_rightBound b = BNum (Fin 0)) \<and>
     rb_markForMerge b \<noteq> None \<and> rb_totalCount b \<noteq> None"

definition good_record :: "raw_record \<Rightarrow> bool" where
  "good_record r \<longleftrightarrow> list_all good_bin (rr_validBins r) \<and> rr_featureType r \<noteq> ''float'' \<and>
     (\<not> rr_isWoe r \<longrightarrow> rr_iv r = None) \<and>
     (case rr_elseBin r of None \<Rightarrow> False | Some b \<Rightarrow>
        rb_leftBound b = BNum (Fin 0) \<and> rb_rightBound b = BNum (Fin 0) \<and>
        rb_markForMerge b = Some False \<and> rb_totalCount b \<noteq> None)"

lemma save_load_bin: "good_bin b \<Longrightarrow> save_bin w (load_bin w f i b) = Some b"
  by (cases b) (auto simp: save_bin_def load_bin_def good_bin_def bin_label_round_trip Let_def)

lemma load_bin_label: "bi_label (load_bin w f i b) = getBinLabel (rb_leftBound b) (rb_rightBound b)"
  by (simp add: load_bin_def Let_def)

lemma those_map_Some: "(\<And>x. x \<in> set xs \<Longrightarrow> f x = Some (g x)) \<Longrightarrow> those (map f xs) = Some (map g xs)"
  by (induction xs) simp_all

lemma save_load_bins:
  "list_all good_bin bs \<Longrightarrow>
   those (map (save_bin w) (map2 (load_bin w f) [n..<n + length bs] bs)) = Some bs"
proof (induction bs arbitrary: n)
  case (Cons b bs)
  have "[n..<n + length (b # bs)] = n # [Suc n..<Suc n + length bs]" using upt_conv_Cons [of n "n + length (b # bs)"] by (simp del: upt_Suc)
  with Cons.IH [of "Suc n"] Cons.prems show ?case by (simp add: save_load_bin del: upt_Suc)
qed simp

lemma load_bins_not_else:
  assumes "list_all good_bin bs" "x \<in> set (map2 (load_bin w f) is bs)"
  shows "bi_label x \<noteq> ''ELSE''"
proof -
  obtain i b where "x = load_bin w f i b" "b \<in> set bs" using assms(2) by (auto simp: set_zip)
  moreover from this have "good_bin b" using assms(1) by (auto simp: list_all_iff)
  ultimately show ?thesis by (simp add: load_bin_label else_label good_bin_def)
qed

lemma save_load_record:
  assumes "good_record r"
  shows "save_record (load_record r) = Some r"
proof -
  obtain e where e: "rr_elseBin r = Some e" "rb_leftBound e = BNum (Fin 0)" "rb_rightBound e = BNum (Fin 0)"
    "rb_markForMerge e = Some False" "rb_totalCount e \<noteq> None"
    using assms by (auto simp: good_record_def split: option.splits)
  let ?w = "rr_isWoe r" and ?f = "rr_featureName r" and ?n = "length (rr_validBins r)"
  define vs where "vs = map2 (load_bin ?w ?f) [0..<?n] (rr_validBins r)"
  define el where "el = load_bin ?w ?f ?n e"
  have good: "list_all good_bin (rr_validBins r)" using assms by (simp add: good_record_def)
  have bins: "br_bins (load_record r) = vs @ [el]"
    by (simp add: load_record_def e(1) vs_def el_def zip_append)
  have vs: "\<forall>x \<in> set vs. bi_label x \<noteq> ''ELSE''" using load_bins_not_else [OF good] by (auto simp: vs_def)
  have el: "bi_label el = ''ELSE''" by (simp add: el_def load_bin_label else_label e)
  have "filter (\<lambda>b. bi_label b \<noteq> ''ELSE'') (vs @ [el]) = vs" using vs el by simp
  moreover have "find (\<lambda>b. bi_label b = ''ELSE'') (vs @ [el]) = Some el"
    using vs el by (induction vs) auto
  moreover have "those (map (save_bin ?w) vs) = Some (rr_validBins r)"
    using save_load_bins [OF good, of ?w ?f 0] by (simp add: vs_def)
  moreover have "br_isWoe (load_record r) = ?w" by (simp add: load_record_def)
  ultimately have "save_record (load_record r) = Some
      \<lparr>rr_featureName = ?f, rr_validBinCount = rr_validBinCount r, rr_iv = (if ?w then rr_iv r else None),
       rr_featureType = (let t = rr_featureType r; t' = (if t = ''numeric'' then ''float'' else t) in
          if t' = ''float'' then ''numeric'' else t'),
       rr_validBins = rr_validBins r, rr_isWoe = ?w,
       rr_elseBin = Some \<lparr>rb_markForMerge = Some False, rb_leftBound = BNum (Fin 0), rb_rightBound = BNum (Fin 0),
          rb_fillingValue = (if ?w then bi_woe el else bi_order el), rb_totalCount = Some (bi_totalCount el)\<rparr>,
       rr_partyName = rr_partyName r\<rparr>"
    unfolding save_record_def bins Let_def by (simp add: load_record_def)
  also have "\<dots> = Some r"
    using assms e by (cases r; cases e) (auto simp: good_record_def el_def load_bin_def Let_def)
  finally show ?thesis .
qed

lemma bins_round_trip:
  "list_all good_record (rd_variableBins d) \<Longrightarrow>
   binModificationsSerializer (binModificationsUnSerializer d) = Some d"
  using those_map_Some [of "rd_variableBins d" "save_record \<circ> load_record" id]
  by (simp add: binModificationsSerializer_def binModificationsUnSerializer_def list_all_iff save_load_record)

text \<open>A record without a remainder bin gets one when it is saved.\<close>

lemma remainder_appears: "save_record r = Some s \<Longrightarrow> rr_elseBin s \<noteq> None"
  by (auto simp: save_record_def Let_def split: option.splits)

end
