(* ===== verification/Session.thy ===== *)
theory Session
  imports Access Status
begin

text \<open>
  The browser session, \<open>web/packages/api-client/src/session.ts\<close>, the middleware of \<open>api.ts\<close> that
  refreshes it, and \<open>data-resource.ts\<close>.  The session is a cookie the page cannot read; a refresh
  token may be used once.  Cookies, storage and requests are modelled as values; the concurrent
  part is a state machine over the requests on their way.
\<close>

section \<open>Methods and paths\<close>

definition isStateChanging :: "string \<Rightarrow> bool" where
  "isStateChanging method \<longleftrightarrow> to_upper method \<notin> {''GET'', ''HEAD'', ''OPTIONS''}"

definition ends_with :: "string \<Rightarrow> string \<Rightarrow> bool" where
  "ends_with s p = starts_with (rev s) (rev p)"

definition REFRESH_PATH :: string where "REFRESH_PATH = ''/api/user/refresh''"

definition isAuthPath :: "string \<Rightarrow> bool" where
  "isAuthPath pathname \<longleftrightarrow>
     ends_with pathname ''/api/login'' \<or> ends_with pathname ''/user/login'' \<or> ends_with pathname ''/api/logout'' \<or>
     ends_with pathname ''/user/logout'' \<or> ends_with pathname REFRESH_PATH"

section \<open>The cookie against forgery\<close>

definition CSRF_COOKIES :: "string list" where
  "CSRF_COOKIES = [''__Host-privahub_csrf'', ''privahub_csrf'']"

definition CSRF_HEADER :: string where "CSRF_HEADER = ''X-CSRF-Token''"

text \<open>One part of \<open>document.cookie\<close>: its name and decoded value, nothing, or an exception (\<open>None\<close>).\<close>

definition cookie_of :: "string \<Rightarrow> (string \<times> string) list option" where
  "cookie_of part =
     (if CHR ''='' \<notin> set part then Some []
      else map_option (\<lambda>v. [(trim (takeWhile (\<lambda>c. c \<noteq> CHR ''='') part), v)])
        (decodeURIComponent (trim (tl (dropWhile (\<lambda>c. c \<noteq> CHR ''='') part)))))"

fun read_cookies :: "string list \<Rightarrow> (string \<times> string) list \<Rightarrow> (string \<times> string) list option" where
  "read_cookies [] jar = Some jar"
| "read_cookies (part # parts) jar =
     (case cookie_of part of
        None \<Rightarrow> None
      | Some kvs \<Rightarrow> read_cookies parts (foldl (\<lambda>j (k, v). set_prop k v j) jar kvs))"

definition readCsrfToken :: "string option \<Rightarrow> string option" where
  "readCsrfToken cookie =
     (if \<not> truthy cookie then Some ''''
      else map_option
        (\<lambda>jar. case filter truthy (map (map_of jar) CSRF_COOKIES) of [] \<Rightarrow> '''' | v # _ \<Rightarrow> the v)
        (read_cookies (split_on CHR '';'' (the cookie)) []))"

definition sessionHeaders :: "string option \<Rightarrow> string \<Rightarrow> (string \<times> string) list option" where
  "sessionHeaders cookie method =
     (if \<not> isStateChanging method then Some []
      else map_option (\<lambda>csrf. if csrf = '''' then [] else [(CSRF_HEADER, csrf)]) (readCsrfToken cookie))"

text \<open>The cookies of a page as the browser lists them: encoded values, no \<open>=\<close> or \<open>;\<close> in a name.\<close>

definition cookie_text :: "string \<times> string \<Rightarrow> string" where
  "cookie_text kv = fst kv @ CHR ''='' # encodeURIComponent (snd kv)"

definition plain_name :: "string \<Rightarrow> bool" where
  "plain_name k \<longleftrightarrow> k \<noteq> '''' \<and> trim k = k \<and> CHR ''='' \<notin> set k \<and> CHR '';'' \<notin> set k"

lemma encode_chars: "c \<in> set (encodeURIComponent s) \<Longrightarrow> \<not> is_ws c \<and> c \<noteq> CHR '';''"
proof -
  have hex: "\<not> is_ws (hex_upper d) \<and> hex_upper d \<noteq> CHR '';''" if "d < 16" for d
    using hex_value_upper [OF that] by (auto simp: is_ws_def hex_value_def Let_def)
  have "\<not> is_ws c \<and> c \<noteq> CHR '';''" if "c \<in> set (encode_char d)" for d
  proof (cases "uri_safe d")
    case True
    then show ?thesis using that by (auto simp: encode_char_def uri_safe_def is_digit_def is_ws_def)
  next
    case False
    have "of_char d div 16 < (16 :: nat)" "of_char d mod 16 < (16 :: nat)" using of_char_div_16 [of d] by simp_all
    then show ?thesis using that False hex by (auto simp: encode_char_def is_ws_def)
  qed
  then show "c \<in> set (encodeURIComponent s) \<Longrightarrow> \<not> is_ws c \<and> c \<noteq> CHR '';''" by (auto simp: encodeURIComponent_def)
qed

lemma trim_encoded: "trim (encodeURIComponent s) = encodeURIComponent s"
  by (rule trim_no_ws) (use encode_chars in blast)

text \<open>The first cookie text of the list follows the others without a space.\<close>

fun cookie_header :: "(string \<times> string) list \<Rightarrow> string" where
  "cookie_header [] = ''''"
| "cookie_header [kv] = cookie_text kv"
| "cookie_header (kv # kvs) = cookie_text kv @ ''; '' @ cookie_header kvs"

lemma trim_leading: "trim (CHR '' '' # s) = trim s"
  by (simp add: trim_def is_ws_def)

lemma cookie_of_text:
  assumes "plain_name k"
  shows "cookie_of (cookie_text (k, v)) = Some [(k, v)]" "cookie_of (CHR '' '' # cookie_text (k, v)) = Some [(k, v)]"
proof -
  have ne: "c \<noteq> CHR ''=''" if "c \<in> set k" for c using assms that by (auto simp: plain_name_def)
  have k: "takeWhile (\<lambda>c. c \<noteq> CHR ''='') (k @ CHR ''='' # r) = k" "dropWhile (\<lambda>c. c \<noteq> CHR ''='') (k @ CHR ''='' # r) = CHR ''='' # r"
    "trim k = k" for r
    using assms ne by (simp_all add: plain_name_def takeWhile_append2 dropWhile_append2)
  show "cookie_of (cookie_text (k, v)) = Some [(k, v)]"
    by (simp add: cookie_of_def cookie_text_def k trim_encoded decode_encode)
  show "cookie_of (CHR '' '' # cookie_text (k, v)) = Some [(k, v)]"
    by (simp add: cookie_of_def cookie_text_def k trim_encoded decode_encode trim_leading)
qed

lemma no_semicolon: "plain_name (fst kv) \<Longrightarrow> CHR '';'' \<notin> set (cookie_text kv)"
  using encode_chars [of _ "snd kv"] by (auto simp: cookie_text_def plain_name_def)

lemma read_header:
  assumes "\<forall>kv \<in> set kvs. plain_name (fst kv)" "kvs \<noteq> []"
  shows "read_cookies (split_on CHR '';'' (cookie_header kvs)) jar = Some (foldl (\<lambda>j (k, v). set_prop k v j) jar kvs)"
proof -
  define f where "f = (\<lambda>j :: (string \<times> string) list. \<lambda>(k, v). set_prop k v j)"
  have rest: "read_cookies (split_on CHR '';'' (CHR '' '' # cookie_header kvs)) jar = Some (foldl f jar kvs)"
    if "\<forall>kv \<in> set kvs. plain_name (fst kv)" "kvs \<noteq> []" for kvs jar
    using that
  proof (induction kvs arbitrary: jar rule: cookie_header.induct)
    case (2 kv)
    then show ?case using no_semicolon [of kv] cookie_of_text(2) [of "fst kv" "snd kv"]
      by (simp add: split_on_no_sep f_def split: prod.split)
  next
    case (3 kv kv' kvs)
    then show ?case
      using no_semicolon [of kv] cookie_of_text(2) [of "fst kv" "snd kv"] split_on_append_sep [of "CHR '';''" "CHR '' '' # cookie_text kv"]
      by (simp add: f_def split: prod.split)
  qed simp
  show ?thesis
  proof (cases kvs rule: cookie_header.cases)
    case (2 kv)
    then show ?thesis using assms no_semicolon [of kv] cookie_of_text(1) [of "fst kv" "snd kv"]
      by (simp add: split_on_no_sep split: prod.split)
  next
    case (3 kv kv' kvs')
    then show ?thesis
      using assms no_semicolon [of kv] cookie_of_text(1) [of "fst kv" "snd kv"] rest [of "kv' # kvs'"]
        split_on_append_sep [of "CHR '';''" "cookie_text kv"]
      by (simp add: f_def split: prod.split)
  qed (use assms in simp)
qed

lemma map_of_cookies: "map_of (foldl (\<lambda>j (k, v). set_prop k v j) jar kvs) = map_of jar ++ map_of (rev kvs)"
  using map_of_spread [of jar kvs] by (simp add: spread_def)

text \<open>What is read: the cookie of the secure name, else the plain one.\<close>

lemma csrf_read:
  assumes "\<forall>kv \<in> set kvs. plain_name (fst kv)" "kvs \<noteq> []"
  shows "readCsrfToken (Some (cookie_header kvs)) =
    Some (case map_of (rev kvs) ''__Host-privahub_csrf'' of
        Some v \<Rightarrow> if v \<noteq> '''' then v else str_or (map_of (rev kvs) ''privahub_csrf'') ''''
      | None \<Rightarrow> str_or (map_of (rev kvs) ''privahub_csrf'') '''')"
proof -
  have "cookie_header kvs \<noteq> ''''" using assms(2)
    by (cases kvs rule: cookie_header.cases) (simp_all add: cookie_text_def)
  then show ?thesis
    by (cases "map_of (rev kvs) ''__Host-privahub_csrf''"; cases "map_of (rev kvs) ''privahub_csrf''")
       (simp_all add: readCsrfToken_def read_header [OF assms] map_of_cookies CSRF_COOKIES_def)
qed

text \<open>One cookie with a malformed escape, of whatever name, and every request that changes state throws.\<close>

lemma read_cookies_malformed: "list_ex (\<lambda>p. cookie_of p = None) parts \<Longrightarrow> read_cookies parts jar = None"
  by (induction parts arbitrary: jar) (auto split: option.split)

lemma malformed_cookie_blocks:
  assumes "truthy cookie" "isStateChanging method" "part \<in> set (split_on CHR '';'' (the cookie))" "cookie_of part = None"
  shows "sessionHeaders cookie method = None"
proof -
  have "read_cookies (split_on CHR '';'' (the cookie)) [] = None"
    using assms(3,4) by (intro read_cookies_malformed) (auto simp: list_ex_iff)
  then show ?thesis using assms(1,2) by (simp add: sessionHeaders_def readCsrfToken_def)
qed

section \<open>The owner of a request\<close>

record resource_user =
  ru_ownerId :: "string option"
  ru_ownerType :: "string option"

definition OWNER_SCOPED_ROUTES :: "(string \<times> string) list" where
  "OWNER_SCOPED_ROUTES = [
     (''node/result/list'', ''ownerId''), (''nodeRoute/page'', ''ownerId''), (''datasource/create'', ''ownerId''),
     (''datasource/delete'', ''ownerId''), (''datasource/list'', ''ownerId''), (''datasource/detail'', ''ownerId''),
     (''datasource/nodes'', ''ownerId''), (''datatable/create'', ''ownerId''), (''datatable/list'', ''ownerId''),
     (''feature_datasource/create'', ''ownerId''), (''message/list'', ''ownerId''), (''message/detail'', ''ownerId''),
     (''message/pending'', ''ownerId''), (''inst/get'', ''instId''), (''approval/create'', ''initiatorId''),
     (''message/reply'', ''voteParticipantId'')]"

text \<open>What follows the last occurrence of the prefix.\<close>

fun after_last :: "string \<Rightarrow> string \<Rightarrow> string option" where
  "after_last p [] = (if p = '''' then Some '''' else None)"
| "after_last p (c # r) =
     (case after_last p r of
        Some t \<Rightarrow> Some t
      | None \<Rightarrow> if starts_with (c # r) p then Some (drop (length p) (c # r)) else None)"

definition route_of :: "string \<Rightarrow> string" where
  "route_of path =
     (let r = nullish (after_last ''/api/v1alpha1/'' path) path;
          r = (case r of c # t \<Rightarrow> if c = CHR ''/'' then t else r | [] \<Rightarrow> r)
      in hd (split_on CHR ''?'' r))"

definition ownerFieldFor :: "string \<Rightarrow> resource_user option \<Rightarrow> string option" where
  "ownerFieldFor path user =
     (case (map_of OWNER_SCOPED_ROUTES (route_of path), user) of
        (Some field, Some u) \<Rightarrow>
          if \<not> truthy (ru_ownerId u) \<or> to_upper (str_or (ru_ownerType u) '''') = ''CENTER'' then None else Some field
      | _ \<Rightarrow> None)"

definition snake :: "string \<Rightarrow> string" where
  "snake s = concat (map (\<lambda>c. if 65 \<le> (of_char c :: nat) \<and> (of_char c :: nat) \<le> 90 then [CHR ''_'', to_lower_char c] else [c]) s)"

definition has_text :: "jsobj \<Rightarrow> string \<Rightarrow> bool" where
  "has_text ob k \<longleftrightarrow> (case get_prop ob k of JStr t \<Rightarrow> trim t \<noteq> '''' | _ \<Rightarrow> False)"

definition withDataResourceOwner :: "string \<Rightarrow> jsval \<Rightarrow> resource_user option \<Rightarrow> jsval" where
  "withDataResourceOwner path body user =
     (case ownerFieldFor path user of
        None \<Rightarrow> body
      | Some field \<Rightarrow>
          (case (case body of Undefined \<Rightarrow> Some [] | JObj ob \<Rightarrow> Some ob | _ \<Rightarrow> None) of
             None \<Rightarrow> body
           | Some ob \<Rightarrow>
               if has_text ob field \<or> has_text ob (snake field) then body
               else JObj (set_prop field (JStr (str_or (Option.bind user ru_ownerId) '''')) ob)))"

text \<open>The identifier is filled in when it is missing, under one name, and nothing else changes.\<close>

lemma ownerFieldFor_user: "ownerFieldFor path user = Some f \<Longrightarrow> \<exists>u i. user = Some u \<and> ru_ownerId u = Some i \<and> i \<noteq> ''''"
  by (auto simp: ownerFieldFor_def truthy_iff split: option.splits if_splits)

lemma owner_filled:
  assumes "ownerFieldFor path user = Some f" "ob = [] \<and> body = Undefined \<or> body = JObj ob"
  shows "withDataResourceOwner path body user =
     (if has_text ob f \<or> has_text ob (snake f) then body
      else JObj (set_prop f (JStr (the (ru_ownerId (the user)))) ob))"
proof -
  obtain u i where u: "user = Some u" "ru_ownerId u = Some i" "i \<noteq> ''''" using ownerFieldFor_user [OF assms(1)] by blast
  then show ?thesis using assms by (auto simp: withDataResourceOwner_def)
qed

lemma owner_filled_twice:
  assumes "ru_ownerId (the user) = Some i" "trim i \<noteq> ''''"
  shows "withDataResourceOwner path (withDataResourceOwner path body user) user = withDataResourceOwner path body user"
proof (cases "ownerFieldFor path user")
  case None
  then show ?thesis by (simp add: withDataResourceOwner_def)
next
  case (Some f)
  then obtain u where u: "user = Some u" using ownerFieldFor_user by blast
  have set: "has_text (set_prop f (JStr i) ob) f" for ob
    using assms(2) by (simp add: has_text_def get_prop_def)
  then show ?thesis using Some u assms(1)
    by (cases body) (auto simp: withDataResourceOwner_def)
qed

section \<open>The marker in the storage\<close>

text \<open>
  \<open>localStorage\<close> may be unavailable (\<open>None\<close>); every access is guarded.  The user context under
  \<open>USER_KEY\<close> is what the guards of the routes take for being logged in.
\<close>

type_synonym storage = "(string \<rightharpoonup> string) option"

definition LEGACY_TOKEN_KEY :: string where "LEGACY_TOKEN_KEY = ''secretpad-token''"
definition USER_KEY :: string where "USER_KEY = ''secretpad-user''"

definition migrateLegacyTokenStorage :: "storage \<Rightarrow> storage" where
  "migrateLegacyTokenStorage st =
     map_option (\<lambda>m. if m LEGACY_TOKEN_KEY \<noteq> None then m(LEGACY_TOKEN_KEY := None, USER_KEY := None) else m) st"

definition hasStoredSession :: "storage \<Rightarrow> bool" where
  "hasStoredSession st \<longleftrightarrow> (case st of None \<Rightarrow> False | Some m \<Rightarrow> truthy (m USER_KEY))"

definition clearStoredSession :: "storage \<Rightarrow> storage" where
  "clearStoredSession st = map_option (\<lambda>m. m(USER_KEY := None, LEGACY_TOKEN_KEY := None)) st"

lemma cleared: "\<not> hasStoredSession (clearStoredSession st)"
  by (cases st) (simp_all add: hasStoredSession_def clearStoredSession_def USER_KEY_def LEGACY_TOKEN_KEY_def)

text \<open>After loading the page no bearer token is left, and a user of an older build must log in again.\<close>

lemma migrated:
  "(case migrateLegacyTokenStorage st of None \<Rightarrow> True | Some m \<Rightarrow> m LEGACY_TOKEN_KEY = None) \<and>
   migrateLegacyTokenStorage (migrateLegacyTokenStorage st) = migrateLegacyTokenStorage st"
  by (cases st) (simp_all add: migrateLegacyTokenStorage_def USER_KEY_def LEGACY_TOKEN_KEY_def)

end
