(* ===== verification/Refresh.thy ===== *)
theory Refresh
  imports Session
begin

text \<open>
  Requests that find the session expired: \<open>refreshSession\<close> of
  \<open>web/packages/api-client/src/session.ts\<close> and \<open>onResponse\<close> of \<open>api.ts\<close>.  The variable
  \<open>refreshing\<close> of the module holds a promise while a refresh runs and until a timer of zero
  milliseconds after it; whoever finds it waits for the same promise.  A refresh token may be used
  once: the server takes a second use for theft.
\<close>

section \<open>State\<close>

datatype outcome = Delivered | SentToLogin

datatype phase =
    Sent
  | Waiting
  | Woken bool
  | Replayed
  | Finished outcome

record api_request =
  rq_replayable :: bool
  rq_phase :: phase
  rq_sends :: nat

text \<open>\<open>refreshing\<close>: null, the promise of a refresh on its way, or a settled promise.\<close>

datatype refreshing = NoRefresh | InFlight | Settled bool

text \<open>
  \<open>rs_cookie\<close> is the refresh token in the cookie of the browser, \<open>rs_flights\<close> the tokens of the
  refresh calls on their way, \<open>rs_issued\<close> the number of tokens the server has issued, and
  \<open>rs_used\<close> the tokens it has accepted.
\<close>

record refresh_state =
  rs_refreshing :: refreshing
  rs_requests :: "api_request list"
  rs_flights :: "nat list"
  rs_cookie :: nat
  rs_issued :: nat
  rs_used :: "nat list"
  rs_storage :: storage
  rs_location :: string

definition opened_session :: "storage \<Rightarrow> string \<Rightarrow> refresh_state" where
  "opened_session st path = \<lparr>rs_refreshing = NoRefresh, rs_requests = [], rs_flights = [], rs_cookie = 0, rs_issued = 1,
     rs_used = [], rs_storage = st, rs_location = path\<rparr>"

section \<open>Operations\<close>

definition redirectTo :: "string \<Rightarrow> refresh_state \<Rightarrow> refresh_state" where
  "redirectTo path s = (if rs_location s = path then s else s\<lparr>rs_location := path\<rparr>)"

definition set_phase :: "nat \<Rightarrow> phase \<Rightarrow> refresh_state \<Rightarrow> refresh_state" where
  "set_phase i p s = s\<lparr>rs_requests := (rs_requests s)[i := (rs_requests s ! i)\<lparr>rq_phase := p\<rparr>]\<rparr>"

text \<open>The last lines of \<open>onResponse\<close>: the session is over.\<close>

definition give_up :: "nat \<Rightarrow> refresh_state \<Rightarrow> refresh_state" where
  "give_up i s =
     redirectTo ''/login'' ((set_phase i (Finished SentToLogin) s)\<lparr>rs_storage := clearStoredSession (rs_storage s)\<rparr>)"

text \<open>\<open>refreshSession\<close>: join the refresh that is running, or start one with the present cookie.\<close>

definition refreshSession :: "nat \<Rightarrow> refresh_state \<Rightarrow> refresh_state" where
  "refreshSession i s =
     (case rs_refreshing s of
        NoRefresh \<Rightarrow> (set_phase i Waiting s)\<lparr>rs_refreshing := InFlight, rs_flights := rs_flights s @ [rs_cookie s]\<rparr>
      | InFlight \<Rightarrow> set_phase i Waiting s
      | Settled b \<Rightarrow> set_phase i (Woken b) s)"

text \<open>\<open>onResponse\<close> for a response 401.\<close>

definition unauthorized :: "nat \<Rightarrow> refresh_state \<Rightarrow> refresh_state" where
  "unauthorized i s = (if rq_replayable (rs_requests s ! i) then refreshSession i s else give_up i s)"

text \<open>A refresh call ends: the promise settles and all who wait for it go on.\<close>

definition wake :: "bool \<Rightarrow> api_request \<Rightarrow> api_request" where
  "wake b r = (if rq_phase r = Waiting then r\<lparr>rq_phase := Woken b\<rparr> else r)"

definition settle :: "nat \<Rightarrow> bool \<Rightarrow> refresh_state \<Rightarrow> refresh_state" where
  "settle k b s = s\<lparr>rs_refreshing := Settled b, rs_flights := take k (rs_flights s) @ drop (Suc k) (rs_flights s),
     rs_requests := map (wake b) (rs_requests s)\<rparr>"

text \<open>After the \<open>await\<close>: replay once, or give up.\<close>

definition go_on :: "nat \<Rightarrow> refresh_state \<Rightarrow> refresh_state" where
  "go_on i s =
     (if rq_phase (rs_requests s ! i) = Woken True
      then s\<lparr>rs_requests := (rs_requests s)[i := (rs_requests s ! i)\<lparr>rq_phase := Replayed, rq_sends := Suc (rq_sends (rs_requests s ! i))\<rparr>]\<rparr>
      else give_up i s)"

datatype session_event =
    Send bool
  | Answer nat
  | Unauthorized nat
  | RefreshOk nat
  | RefreshRefused nat
  | RefreshLost nat
  | GoOn nat
  | ReplayAnswer nat bool
  | TimerClears
  | LoggedIn string

text \<open>
  \<open>RefreshOk\<close>: the server accepts the token, issues the next one and the answer sets the cookie.
  \<open>RefreshLost\<close>: the server does, but the answer never arrives.  \<open>ReplayAnswer\<close>: whether the
  replayed request is let through.
\<close>

fun session_step :: "refresh_state \<Rightarrow> session_event \<Rightarrow> refresh_state" where
  "session_step s (Send b) =
     s\<lparr>rs_requests := rs_requests s @ [\<lparr>rq_replayable = b, rq_phase = Sent, rq_sends = 1\<rparr>]\<rparr>"
| "session_step s (Answer i) = set_phase i (Finished Delivered) s"
| "session_step s (Unauthorized i) = unauthorized i s"
| "session_step s (RefreshOk k) =
     (settle k True s)\<lparr>rs_used := rs_used s @ [rs_flights s ! k], rs_cookie := rs_issued s, rs_issued := Suc (rs_issued s)\<rparr>"
| "session_step s (RefreshRefused k) = settle k False s"
| "session_step s (RefreshLost k) =
     (settle k False s)\<lparr>rs_used := rs_used s @ [rs_flights s ! k], rs_issued := Suc (rs_issued s)\<rparr>"
| "session_step s (GoOn i) = go_on i s"
| "session_step s (ReplayAnswer i ok) = (if ok then set_phase i (Finished Delivered) s else give_up i s)"
| "session_step s TimerClears = s\<lparr>rs_refreshing := NoRefresh\<rparr>"
| "session_step s (LoggedIn user) =
     s\<lparr>rs_cookie := rs_issued s, rs_issued := Suc (rs_issued s), rs_storage := map_option (\<lambda>m. m(USER_KEY \<mapsto> user)) (rs_storage s)\<rparr>"

definition in_phase :: "phase \<Rightarrow> nat \<Rightarrow> refresh_state \<Rightarrow> bool" where
  "in_phase p i s \<longleftrightarrow> i < length (rs_requests s) \<and> rq_phase (rs_requests s ! i) = p"

text \<open>The timer that clears the variable runs after all who waited have been resumed.\<close>

fun may_happen :: "refresh_state \<Rightarrow> session_event \<Rightarrow> bool" where
  "may_happen s (Send b) = True"
| "may_happen s (Answer i) = in_phase Sent i s"
| "may_happen s (Unauthorized i) = in_phase Sent i s"
| "may_happen s (RefreshOk k) = (k < length (rs_flights s))"
| "may_happen s (RefreshRefused k) = (k < length (rs_flights s))"
| "may_happen s (RefreshLost k) = (k < length (rs_flights s))"
| "may_happen s (GoOn i) = (\<exists>b. in_phase (Woken b) i s)"
| "may_happen s (ReplayAnswer i ok) = in_phase Replayed i s"
| "may_happen s TimerClears = (case rs_refreshing s of Settled _ \<Rightarrow> True | _ \<Rightarrow> False)"
| "may_happen s (LoggedIn user) = True"

fun loses_answer :: "session_event \<Rightarrow> bool" where
  "loses_answer (RefreshLost k) = True"
| "loses_answer _ = False"

inductive api_session :: "bool \<Rightarrow> refresh_state \<Rightarrow> bool" for lossless where
  opened: "api_session lossless (opened_session st path)"
| event: "api_session lossless s \<Longrightarrow> may_happen s ev \<Longrightarrow> (lossless \<Longrightarrow> \<not> loses_answer ev) \<Longrightarrow>
    api_session lossless (session_step s ev)"

section \<open>One refresh at a time\<close>

text \<open>Whoever waits, waits for a refresh that is on its way; there is never more than one.\<close>

definition single_flight :: "refresh_state \<Rightarrow> bool" where
  "single_flight s \<longleftrightarrow>
     (if rs_refreshing s = InFlight then length (rs_flights s) = 1
      else rs_flights s = [] \<and> (\<forall>r \<in> set (rs_requests s). rq_phase r \<noteq> Waiting))"

definition sends_ok :: "api_request \<Rightarrow> bool" where
  "sends_ok r \<longleftrightarrow> rq_sends r = (case rq_phase r of Sent \<Rightarrow> 1 | Waiting \<Rightarrow> 1 | Woken _ \<Rightarrow> 1 | Replayed \<Rightarrow> 2 | Finished _ \<Rightarrow> rq_sends r) \<and>
     rq_sends r \<le> 2"

lemma set_phase_fields [simp]:
  "rs_refreshing (set_phase i p s) = rs_refreshing s" "rs_flights (set_phase i p s) = rs_flights s"
  "rs_cookie (set_phase i p s) = rs_cookie s" "rs_issued (set_phase i p s) = rs_issued s"
  "rs_used (set_phase i p s) = rs_used s" "rs_storage (set_phase i p s) = rs_storage s"
  "rs_requests (set_phase i p s) = (rs_requests s)[i := (rs_requests s ! i)\<lparr>rq_phase := p\<rparr>]"
  by (simp_all add: set_phase_def)

lemma redirectTo_fields [simp]:
  "rs_refreshing (redirectTo p s) = rs_refreshing s" "rs_flights (redirectTo p s) = rs_flights s"
  "rs_cookie (redirectTo p s) = rs_cookie s" "rs_issued (redirectTo p s) = rs_issued s"
  "rs_used (redirectTo p s) = rs_used s" "rs_storage (redirectTo p s) = rs_storage s"
  "rs_requests (redirectTo p s) = rs_requests s" "rs_location (redirectTo p s) = p"
  by (simp_all add: redirectTo_def)

lemma give_up_fields [simp]:
  "rs_refreshing (give_up i s) = rs_refreshing s" "rs_flights (give_up i s) = rs_flights s"
  "rs_cookie (give_up i s) = rs_cookie s" "rs_issued (give_up i s) = rs_issued s" "rs_used (give_up i s) = rs_used s"
  "rs_requests (give_up i s) = (rs_requests s)[i := (rs_requests s ! i)\<lparr>rq_phase := Finished SentToLogin\<rparr>]"
  "rs_location (give_up i s) = ''/login''" "rs_storage (give_up i s) = clearStoredSession (rs_storage s)"
  by (simp_all add: give_up_def)

text \<open>A property of every request that the new request has, and that survives the changes made to one.\<close>

lemma all_update: "(\<forall>r \<in> set rs. P r) \<Longrightarrow> P r' \<Longrightarrow> \<forall>r \<in> set (rs[i := r']). P r"
  using set_update_subset_insert [of rs i r'] by blast

lemma no_waiting_update:
  "(\<forall>r \<in> set rs. rq_phase r \<noteq> Waiting) \<Longrightarrow> p \<noteq> Waiting \<Longrightarrow> \<forall>r \<in> set (rs[i := (rs ! i)\<lparr>rq_phase := p\<rparr>]). rq_phase r \<noteq> Waiting"
  by (rule all_update) simp_all

lemma no_waiting_wake: "\<forall>r \<in> set (map (wake b) rs). rq_phase r \<noteq> Waiting"
  by (auto simp: wake_def)

lemma single_flight_settle:
  "single_flight s \<Longrightarrow> k < length (rs_flights s) \<Longrightarrow> single_flight (settle k b s)"
  using no_waiting_wake [of b "rs_requests s"]
  by (cases "rs_flights s") (auto simp: single_flight_def settle_def split: if_splits)

lemma single_flight_update:
  "single_flight s \<Longrightarrow> p \<noteq> Waiting \<Longrightarrow> single_flight (set_phase i p s)"
  using no_waiting_update [of "rs_requests s" p i] by (simp add: single_flight_def split: if_splits)

lemma single_flight_step:
  assumes "single_flight s" "may_happen s ev"
  shows "single_flight (session_step s ev)"
proof (cases ev)
  case (Unauthorized i)
  then show ?thesis
    using assms(1) single_flight_update [OF assms(1), of "Finished SentToLogin" i] no_waiting_update [of "rs_requests s" "Woken b" i for b]
    by (auto simp: unauthorized_def refreshSession_def single_flight_def split: refreshing.split if_splits)
next
  case (GoOn i)
  have "\<forall>r \<in> set ((rs_requests s)[i := (rs_requests s ! i)\<lparr>rq_phase := Replayed, rq_sends := n\<rparr>]). rq_phase r \<noteq> Waiting"
    if "\<forall>r \<in> set (rs_requests s). rq_phase r \<noteq> Waiting" for n
    using that by (rule all_update) simp
  then show ?thesis
    using GoOn assms(1) single_flight_update [OF assms(1), of "Finished SentToLogin" i]
    by (auto simp: go_on_def single_flight_def split: if_splits)
next
  case (ReplayAnswer i ok)
  then show ?thesis
    using single_flight_update [OF assms(1), of "Finished SentToLogin" i] single_flight_update [OF assms(1), of "Finished Delivered" i]
    by (auto simp: single_flight_def split: if_splits)
next
  case (RefreshOk k)
  then show ?thesis using single_flight_settle [OF assms(1), of k True] assms(2) by (simp add: single_flight_def)
next
  case (RefreshRefused k)
  then show ?thesis using single_flight_settle [OF assms(1), of k False] assms(2) by simp
next
  case (RefreshLost k)
  then show ?thesis using single_flight_settle [OF assms(1), of k False] assms(2) by (simp add: single_flight_def)
next
  case (Answer i)
  then show ?thesis using single_flight_update [OF assms(1), of "Finished Delivered" i] by simp
qed (use assms in \<open>auto simp: single_flight_def split: if_splits refreshing.splits\<close>)

lemma session_single_flight: "api_session lossless s \<Longrightarrow> single_flight s"
proof (induction rule: api_session.induct)
  case (opened st path)
  then show ?case by (simp add: single_flight_def opened_session_def)
next
  case (event s ev)
  then show ?case using single_flight_step by blast
qed

section \<open>No token is used twice\<close>

definition tokens_ok :: "refresh_state \<Rightarrow> bool" where
  "tokens_ok s \<longleftrightarrow>
     distinct (rs_used s) \<and> (\<forall>t \<in> set (rs_used s). t < rs_issued s) \<and>
     (\<forall>t \<in> insert (rs_cookie s) (set (rs_flights s)). t < rs_issued s \<and> t \<notin> set (rs_used s))"

lemma tokens_ok_requests [simp]:
  "tokens_ok (s\<lparr>rs_requests := rs\<rparr>) = tokens_ok s" "tokens_ok (s\<lparr>rs_refreshing := r\<rparr>) = tokens_ok s"
  "tokens_ok (s\<lparr>rs_storage := st\<rparr>) = tokens_ok s" "tokens_ok (s\<lparr>rs_location := l\<rparr>) = tokens_ok s"
  "tokens_ok (set_phase i p s) = tokens_ok s" "tokens_ok (give_up i s) = tokens_ok s"
  by (simp_all add: tokens_ok_def)

lemma tokens_ok_unauthorized: "tokens_ok s \<Longrightarrow> tokens_ok (unauthorized i s)"
  by (auto simp: unauthorized_def refreshSession_def split: refreshing.split) (simp add: tokens_ok_def)

lemma last_flight:
  assumes "single_flight s" "k < length (rs_flights s)"
  obtains t where "rs_flights s = [t]" "k = 0"
  using assms by (cases "rs_flights s") (auto simp: single_flight_def split: if_splits)

lemma tokens_ok_step:
  assumes ok: "tokens_ok s" and one: "single_flight s" and ev: "may_happen s ev" "\<not> loses_answer ev"
  shows "tokens_ok (session_step s ev)"
proof (cases ev)
  case (RefreshOk k)
  then obtain t where t: "rs_flights s = [t]" "k = 0" using last_flight [OF one] ev(1) by auto
  then have "t < rs_issued s" "t \<notin> set (rs_used s)" using ok by (simp_all add: tokens_ok_def)
  then show ?thesis using ok RefreshOk t by (auto simp: tokens_ok_def settle_def intro: less_SucI)
next
  case (RefreshRefused k)
  then obtain t where t: "rs_flights s = [t]" "k = 0" using last_flight [OF one] ev(1) by auto
  then show ?thesis using ok RefreshRefused by (simp add: tokens_ok_def settle_def)
next
  case (LoggedIn user)
  then show ?thesis using ok by (auto simp: tokens_ok_def intro: less_SucI)
qed (use ok ev in \<open>simp_all add: tokens_ok_unauthorized go_on_def\<close>)

lemma session_tokens: "api_session True s \<Longrightarrow> tokens_ok s"
proof (induction rule: api_session.induct)
  case (opened st path)
  then show ?case by (simp add: tokens_ok_def opened_session_def)
next
  case (event s ev)
  then show ?case using tokens_ok_step session_single_flight by blast
qed

text \<open>
  When an answer is lost the cookie still holds the used token: a request that was on its way and
  finds the session expired later presents it a second time.
\<close>

definition lost_answer :: "session_event list" where
  "lost_answer = [Send True, Send True, Unauthorized 0, RefreshLost 0, GoOn 0, TimerClears, Unauthorized 1, RefreshOk 0]"

definition session_run :: "refresh_state \<Rightarrow> session_event list \<Rightarrow> refresh_state" where
  "session_run = foldl session_step"

lemmas session_simps = session_run_def unauthorized_def refreshSession_def settle_def wake_def go_on_def give_up_def
  set_phase_def redirectTo_def in_phase_def opened_session_def

lemma lost_answer_reused:
  "api_session False (session_run (opened_session st path) lost_answer) \<and>
   rs_used (session_run (opened_session st path) lost_answer) = [0, 0]"
proof
  show "api_session False (session_run (opened_session st path) lost_answer)"
    unfolding lost_answer_def session_run_def foldl_Cons foldl_Nil
    by (intro api_session.event api_session.opened) (auto simp: session_simps)
  show "rs_used (session_run (opened_session st path) lost_answer) = [0, 0]"
    by (simp add: lost_answer_def session_simps)
qed

section \<open>Every request ends\<close>

lemma unauthorized_requests:
  "rs_requests (unauthorized i s) = (rs_requests s)[i := (rs_requests s ! i)\<lparr>rq_phase :=
     if rq_replayable (rs_requests s ! i) then (case rs_refreshing s of Settled b \<Rightarrow> Woken b | _ \<Rightarrow> Waiting)
     else Finished SentToLogin\<rparr>]"
  by (simp add: unauthorized_def refreshSession_def split: refreshing.split)

lemma sends_ok_step:
  assumes "\<forall>r \<in> set (rs_requests s). sends_ok r" "may_happen s ev"
  shows "\<forall>r \<in> set (rs_requests (session_step s ev)). sends_ok r"
proof -
  have at: "sends_ok (rs_requests s ! i)" if "i < length (rs_requests s)" for i using assms(1) that by simp
  have phase: "\<forall>r \<in> set ((rs_requests s)[i := (rs_requests s ! i)\<lparr>rq_phase := p\<rparr>]). sends_ok r"
    if "i < length (rs_requests s)" "sends_ok ((rs_requests s ! i)\<lparr>rq_phase := p\<rparr>)" for i p
    using all_update [OF assms(1) that(2)] .
  have finished: "sends_ok (r\<lparr>rq_phase := Finished q\<rparr>)" if "sends_ok r" for r q using that by (simp add: sends_ok_def)
  have woken: "\<forall>r \<in> set (map (wake b) (rs_requests s)). sends_ok r" for b
    using assms(1) by (auto simp: wake_def sends_ok_def)
  show ?thesis
  proof (cases ev)
    case (Unauthorized i)
    then have i: "i < length (rs_requests s)" "rq_phase (rs_requests s ! i) = Sent" using assms(2) by (simp_all add: in_phase_def)
    have "sends_ok ((rs_requests s ! i)\<lparr>rq_phase := Waiting\<rparr>)" "sends_ok ((rs_requests s ! i)\<lparr>rq_phase := Woken b\<rparr>)" for b
      using at [OF i(1)] i(2) by (simp_all add: sends_ok_def)
    note ok = phase [OF i(1) this(1)] phase [OF i(1) this(2)] phase [OF i(1) finished [OF at [OF i(1)]]]
    then show ?thesis unfolding Unauthorized session_step.simps unauthorized_requests
      by (cases "rs_refreshing s"; cases "rq_replayable (rs_requests s ! i)"; simp only: refreshing.simps if_True if_False; blast)
  next
    case (GoOn i)
    then obtain b where i: "i < length (rs_requests s)" "rq_phase (rs_requests s ! i) = Woken b"
      using assms(2) by (auto simp: in_phase_def)
    have "sends_ok ((rs_requests s ! i)\<lparr>rq_phase := Replayed, rq_sends := Suc (rq_sends (rs_requests s ! i))\<rparr>)"
      using at [OF i(1)] i(2) by (simp add: sends_ok_def)
    note a = all_update [OF assms(1) this, of i] and f = phase [OF i(1) finished [OF at [OF i(1)]]]
    show ?thesis
    proof (cases "rq_phase (rs_requests s ! i) = Woken True")
      case True
      then show ?thesis using a unfolding GoOn session_step.simps go_on_def by simp
    next
      case False
      then show ?thesis using f unfolding GoOn session_step.simps go_on_def by simp
    qed
  next
    case (Answer i)
    then have "i < length (rs_requests s)" using assms(2) by (simp add: in_phase_def)
    then show ?thesis using phase [OF _ finished [OF at]] unfolding Answer by simp
  next
    case (ReplayAnswer i ok)
    then have "i < length (rs_requests s)" using assms(2) by (simp add: in_phase_def)
    then show ?thesis using phase [OF _ finished [OF at]] unfolding ReplayAnswer by simp
  qed (use assms woken in \<open>auto simp: settle_def sends_ok_def\<close>)
qed

lemma session_sends: "api_session lossless s \<Longrightarrow> \<forall>r \<in> set (rs_requests s). sends_ok r"
proof (induction rule: api_session.induct)
  case (opened st path)
  then show ?case by (simp add: opened_session_def)
next
  case (event s ev)
  then show ?case using sends_ok_step by blast
qed

text \<open>What is left to do: it shrinks with every event but a new request or a login.\<close>

fun phase_work :: "phase \<Rightarrow> nat" where
  "phase_work Sent = 10"
| "phase_work Waiting = 6"
| "phase_work (Woken b) = 5"
| "phase_work Replayed = 1"
| "phase_work (Finished q) = 0"

fun refresh_work :: "refreshing \<Rightarrow> nat" where
  "refresh_work NoRefresh = 0"
| "refresh_work InFlight = 2"
| "refresh_work (Settled b) = 1"

definition session_work :: "refresh_state \<Rightarrow> nat" where
  "session_work s = refresh_work (rs_refreshing s) + sum_list (map (\<lambda>r. phase_work (rq_phase r)) (rs_requests s))"

fun from_outside :: "session_event \<Rightarrow> bool" where
  "from_outside (Send b) = True"
| "from_outside (LoggedIn user) = True"
| "from_outside _ = False"

lemma work_update:
  fixes f :: "'a \<Rightarrow> nat"
  assumes "i < length rs"
  shows "sum_list (map f (rs[i := r])) + f (rs ! i) = sum_list (map f rs) + f r"
  using assms elem_le_sum_list [of i "map f rs"] by (simp add: map_update sum_list_update)

lemma wake_work: "sum_list (map (\<lambda>r. phase_work (rq_phase r)) (map (wake b) rs)) \<le> sum_list (map (\<lambda>r. phase_work (rq_phase r)) rs)"
  by (induction rs) (auto simp: wake_def)

lemma session_work_decreases:
  assumes "single_flight s" "may_happen s ev" "\<not> from_outside ev"
  shows "session_work (session_step s ev) < session_work s"
proof -
  have upd: "sum_list (map (\<lambda>r. phase_work (rq_phase r)) ((rs_requests s)[i := r])) + phase_work (rq_phase (rs_requests s ! i)) =
      sum_list (map (\<lambda>r. phase_work (rq_phase r)) (rs_requests s)) + phase_work (rq_phase r)" if "i < length (rs_requests s)" for i r
    using work_update [OF that] .
  have settle: "session_work (settle k b s) < session_work s" if k: "k < length (rs_flights s)" for k b
  proof -
    have "rs_refreshing s = InFlight" using assms(1) k by (auto simp: single_flight_def split: if_splits)
    then show ?thesis using wake_work [of b "rs_requests s"] by (simp add: session_work_def settle_def)
  qed
  show ?thesis
  proof (cases ev)
    case (Unauthorized i)
    then have i: "i < length (rs_requests s)" "rq_phase (rs_requests s ! i) = Sent" using assms(2) by (simp_all add: in_phase_def)
    have u: "sum_list (map (\<lambda>r. phase_work (rq_phase r)) ((rs_requests s)[i := (rs_requests s ! i)\<lparr>rq_phase := p\<rparr>])) + 10 =
        sum_list (map (\<lambda>r. phase_work (rq_phase r)) (rs_requests s)) + phase_work p" for p
      using upd [OF i(1), of "(rs_requests s ! i)\<lparr>rq_phase := p\<rparr>"] i(2) by simp
    show ?thesis
    proof (cases "rq_replayable (rs_requests s ! i)")
      case False
      then show ?thesis using Unauthorized u [of "Finished SentToLogin"] by (simp add: session_work_def unauthorized_def)
    next
      case True
      then show ?thesis
      proof (cases "rs_refreshing s")
        case (Settled b)
        then show ?thesis using True Unauthorized u [of "Woken b"] by (simp add: session_work_def unauthorized_def refreshSession_def)
      qed (use True Unauthorized u [of Waiting] in \<open>simp_all add: session_work_def unauthorized_def refreshSession_def\<close>)
    qed
  next
    case (GoOn i)
    then obtain b where i: "i < length (rs_requests s)" "rq_phase (rs_requests s ! i) = Woken b"
      using assms(2) by (auto simp: in_phase_def)
    then show ?thesis
      using GoOn upd [OF i(1), of "(rs_requests s ! i)\<lparr>rq_phase := Finished SentToLogin\<rparr>"]
        upd [OF i(1), of "(rs_requests s ! i)\<lparr>rq_phase := Replayed, rq_sends := Suc (rq_sends (rs_requests s ! i))\<rparr>"]
      by (simp add: session_work_def go_on_def)
  next
    case (Answer i)
    then have i: "i < length (rs_requests s)" "rq_phase (rs_requests s ! i) = Sent" using assms(2) by (simp_all add: in_phase_def)
    then show ?thesis using Answer upd [OF i(1), of "(rs_requests s ! i)\<lparr>rq_phase := Finished Delivered\<rparr>"] by (simp add: session_work_def)
  next
    case (ReplayAnswer i ok)
    then have i: "i < length (rs_requests s)" "rq_phase (rs_requests s ! i) = Replayed" using assms(2) by (simp_all add: in_phase_def)
    then show ?thesis using ReplayAnswer upd [OF i(1), of "(rs_requests s ! i)\<lparr>rq_phase := Finished Delivered\<rparr>"]
        upd [OF i(1), of "(rs_requests s ! i)\<lparr>rq_phase := Finished SentToLogin\<rparr>"]
      by (simp add: session_work_def)
  next
    case (RefreshOk k)
    then show ?thesis using settle [of k True] assms(2) by (simp add: session_work_def)
  next
    case (RefreshRefused k)
    then show ?thesis using settle [of k False] assms(2) by simp
  next
    case (RefreshLost k)
    then show ?thesis using settle [of k False] assms(2) by (simp add: session_work_def)
  next
    case TimerClears
    then show ?thesis using assms(2) by (cases "rs_refreshing s") (simp_all add: session_work_def)
  qed (use assms(3) in simp_all)
qed

text \<open>While a request is unfinished something can happen.\<close>

lemma session_not_stuck:
  assumes "single_flight s" "r \<in> set (rs_requests s)" "\<forall>q. rq_phase r \<noteq> Finished q"
  shows "\<exists>ev. may_happen s ev \<and> \<not> from_outside ev"
proof -
  obtain i where i: "i < length (rs_requests s)" "rs_requests s ! i = r" using assms(2) by (auto simp: in_set_conv_nth)
  show ?thesis
  proof (cases "rq_phase r")
    case Sent
    then show ?thesis using i by (intro exI [of _ "Answer i"]) (simp add: in_phase_def)
  next
    case Waiting
    then have "length (rs_flights s) = 1" using assms(1,2) by (auto simp: single_flight_def split: if_splits)
    then show ?thesis by (intro exI [of _ "RefreshRefused 0"]) simp
  next
    case (Woken b)
    then show ?thesis using i by (intro exI [of _ "GoOn i"]) (simp add: in_phase_def)
  next
    case Replayed
    then show ?thesis using i by (intro exI [of _ "ReplayAnswer i True"]) (simp add: in_phase_def)
  qed (use assms(3) in simp)
qed

end
