(* ===== verification/Calendar.thy ===== *)
theory Calendar
  imports JsConvert
begin

text \<open>
  Dates of the language: the arithmetic of days, months and years of its specification, on days
  counted from 1970-01-01.  A \<open>Date\<close> is its time value in milliseconds, shifted to local time; the
  offset of the time zone is taken as constant, so a day has 24 hours.
\<close>

section \<open>Years\<close>

definition leap :: "int \<Rightarrow> bool" where
  "leap y \<longleftrightarrow> 4 dvd y \<and> (\<not> 100 dvd y \<or> 400 dvd y)"

definition day_from_year :: "int \<Rightarrow> int" where
  "day_from_year y = 365 * (y - 1970) + (y - 1969) div 4 - (y - 1901) div 100 + (y - 1601) div 400"

definition year_length :: "int \<Rightarrow> int" where
  "year_length y = (if leap y then 366 else 365)"

lemma div_step: "(x + 1) div k = x div k + (if k dvd x + 1 then 1 else 0)" if "0 < k" for x k :: int
proof -
  have m: "0 \<le> x mod k" "x mod k < k" using that by simp_all
  have x: "x = k * (x div k) + x mod k" by simp
  show ?thesis
  proof (cases "x mod k = k - 1")
    case True
    then have "x + 1 = k * (x div k) + k" using x by linarith
    then have "x + 1 = k * (x div k + 1)" by (simp only: distrib_left mult_1_right)
    then show ?thesis using that by (metis dvd_triv_left less_irrefl nonzero_mult_div_cancel_left)
  next
    case False
    then have "(x mod k + 1) div k = 0" "(x mod k + 1) mod k = x mod k + 1" using m by simp_all
    moreover have "x + 1 = k * (x div k) + (x mod k + 1)" using x by simp
    ultimately have "(x + 1) div k = x div k" "(x + 1) mod k = x mod k + 1"
      using that by (metis add.right_neutral div_mult_self4 less_irrefl mult.commute add.commute, metis mod_mult_self4)
    then show ?thesis using m by (simp add: dvd_eq_mod_eq_0)
  qed
qed

lemma dvd_shift: "k dvd c \<Longrightarrow> k dvd y - c \<longleftrightarrow> k dvd y" for k c y :: int
  using dvd_add [of k "y - c" c] dvd_diff [of k y c] by auto

lemma div_bounds: "0 < k \<Longrightarrow> k * (x div k) \<le> x \<and> x - k < k * (x div k)" for k x :: int
  using pos_mod_bound [of k x] pos_mod_sign [of k x] mult_div_mod_eq [of k x] by linarith

lemma leap_sum:
  fixes p q r :: bool and y a b c :: int
  assumes "q \<longrightarrow> p" "r \<longrightarrow> q"
  shows "365 * (y + 1 - 1970) + (a + (if p then 1 else 0)) - (b + (if q then 1 else 0)) + (c + (if r then 1 else 0)) =
    365 * (y - 1970) + a - b + c + (if p \<and> (\<not> q \<or> r) then 366 else 365)"
  using assms by (cases p; cases q; cases r) simp_all

lemma day_from_year_next: "day_from_year (y + 1) = day_from_year y + year_length y"
proof -
  define a b c where "a = (y - 1969) div 4" and "b = (y - 1901) div 100" and "c = (y - 1601) div 400"
  have "(y + 1 - 1969) div 4 = a + (if 4 dvd y then 1 else 0)"
    using div_step [of 4 "y - 1969"] dvd_shift [of 4 1968 y] by (simp add: a_def)
  moreover have "(y + 1 - 1901) div 100 = b + (if 100 dvd y then 1 else 0)"
    using div_step [of 100 "y - 1901"] dvd_shift [of 100 1900 y] by (simp add: b_def)
  moreover have "(y + 1 - 1601) div 400 = c + (if 400 dvd y then 1 else 0)"
    using div_step [of 400 "y - 1601"] dvd_shift [of 400 1600 y] by (simp add: c_def)
  ultimately have "day_from_year (y + 1) = 365 * (y + 1 - 1970) + (a + (if 4 dvd y then 1 else 0)) -
      (b + (if 100 dvd y then 1 else 0)) + (c + (if 400 dvd y then 1 else 0))"
    by (simp only: day_from_year_def)
  moreover have "day_from_year y = 365 * (y - 1970) + a - b + c" by (simp only: day_from_year_def a_def b_def c_def)
  moreover have "100 dvd y \<longrightarrow> 4 dvd y" using dvd_trans [of 4 100 y] by simp
  moreover have "400 dvd y \<longrightarrow> 100 dvd y" using dvd_trans [of 100 400 y] by simp
  ultimately show ?thesis unfolding year_length_def leap_def by (simp only: leap_sum)
qed

lemma day_from_year_less:
  assumes "y < y'"
  shows "day_from_year y + 365 \<le> day_from_year y'"
  using assms
proof (induction rule: int_gr_induct)
  case base
  show ?case by (simp add: day_from_year_next year_length_def)
next
  case (step i)
  then show ?case by (simp add: day_from_year_next year_length_def)
qed

definition year_from_day :: "int \<Rightarrow> int" where
  "year_from_day z =
     (let y = 1970 + (400 * z) div 146097 in
      if z < day_from_year y then y - 1 else if day_from_year (y + 1) \<le> z then y + 1 else y)"

lemma year_from_day: "day_from_year (year_from_day z) \<le> z \<and> z < day_from_year (year_from_day z + 1)"
proof -
  define n where "n = (400 * z) div 146097"
  have n: "146097 * n \<le> 400 * z" "400 * z < 146097 * (n + 1)"
    using div_bounds [of 146097 "400 * z"] unfolding n_def by simp_all
  have est: "146097 * k - 506 \<le> 400 * day_from_year (1970 + k)" "400 * day_from_year (1970 + k) \<le> 146097 * k + 589" for k
  proof -
    have "4 * ((k + 1) div 4) \<le> k + 1 \<and> k + 1 - 4 < 4 * ((k + 1) div 4)" by (rule div_bounds) simp
    moreover have "100 * ((k + 69) div 100) \<le> k + 69 \<and> k + 69 - 100 < 100 * ((k + 69) div 100)" by (rule div_bounds) simp
    moreover have "400 * ((k + 369) div 400) \<le> k + 369 \<and> k + 369 - 400 < 400 * ((k + 369) div 400)" by (rule div_bounds) simp
    moreover have "day_from_year (1970 + k) = 365 * k + (k + 1) div 4 - (k + 69) div 100 + (k + 369) div 400"
      by (simp add: day_from_year_def add.commute)
    ultimately show "146097 * k - 506 \<le> 400 * day_from_year (1970 + k)" "400 * day_from_year (1970 + k) \<le> 146097 * k + 589"
      by linarith+
  qed
  have "day_from_year (1970 + n - 1) \<le> z" using est(2) [of "n - 1"] n by (simp add: algebra_simps)
  moreover have "z < day_from_year (1970 + n + 2)" using est(1) [of "n + 2"] n by (simp add: algebra_simps)
  ultimately show ?thesis
    unfolding year_from_day_def Let_def n_def [symmetric] by (auto simp: algebra_simps)
qed

lemma year_from_day_unique: "day_from_year y \<le> z \<Longrightarrow> z < day_from_year (y + 1) \<Longrightarrow> year_from_day z = y"
proof -
  assume y: "day_from_year y \<le> z" "z < day_from_year (y + 1)"
  have "\<not> year_from_day z < y"
    using year_from_day [of z] y day_from_year_less [of "year_from_day z + 1" y]
    by (cases "year_from_day z + 1 = y") auto
  moreover have "\<not> y < year_from_day z"
    using year_from_day [of z] y day_from_year_less [of "y + 1" "year_from_day z"]
    by (cases "y + 1 = year_from_day z") auto
  ultimately show ?thesis by simp
qed

section \<open>Months\<close>

text \<open>Months are counted from zero, as in the language; the day on which a month starts in its year.\<close>

definition month_start :: "bool \<Rightarrow> int \<Rightarrow> int" where
  "month_start lp m =
     [0, 31, 59, 90, 120, 151, 181, 212, 243, 273, 304, 334, 365] ! nat m + (if lp \<and> 2 \<le> m then 1 else 0)"

definition month_in_year :: "bool \<Rightarrow> int \<Rightarrow> int" where
  "month_in_year lp d =
     (let l = (if lp then 1 else 0) in
      if d < 31 then 0 else if d < 59 + l then 1 else if d < 90 + l then 2 else if d < 120 + l then 3
      else if d < 151 + l then 4 else if d < 181 + l then 5 else if d < 212 + l then 6 else if d < 243 + l then 7
      else if d < 273 + l then 8 else if d < 304 + l then 9 else if d < 334 + l then 10 else 11)"

definition month_length :: "int \<Rightarrow> int \<Rightarrow> int" where
  "month_length y m = month_start (leap y) (m + 1) - month_start (leap y) m"

definition month_from_day :: "int \<Rightarrow> int" where
  "month_from_day z = (let y = year_from_day z in month_in_year (leap y) (z - day_from_year y))"

definition date_from_day :: "int \<Rightarrow> int" where
  "date_from_day z =
     (let y = year_from_day z in z - day_from_year y - month_start (leap y) (month_from_day z) + 1)"

definition weekday :: "int \<Rightarrow> int" where
  "weekday z = (z + 4) mod 7"

text \<open>\<open>MakeDay\<close>: months and days out of range carry over.\<close>

definition make_day :: "int \<Rightarrow> int \<Rightarrow> int \<Rightarrow> int" where
  "make_day y m d =
     (let ym = y + m div 12; mn = m mod 12 in day_from_year ym + month_start (leap ym) mn + d - 1)"

lemma month_cases:
  assumes "0 \<le> m" "m \<le> (11 :: int)"
  shows "m = 0 \<or> m = 1 \<or> m = 2 \<or> m = 3 \<or> m = 4 \<or> m = 5 \<or> m = 6 \<or> m = 7 \<or> m = 8 \<or> m = 9 \<or> m = 10 \<or> m = 11"
  using assms by presburger

lemma month_in_year_range: "0 \<le> month_in_year lp d \<and> month_in_year lp d \<le> 11"
  by (simp add: month_in_year_def Let_def)

lemma month_in_year_bracket:
  assumes "0 \<le> d" "d < (if lp then 366 else 365)"
  shows "month_start lp (month_in_year lp d) \<le> d \<and> d < month_start lp (month_in_year lp d + 1)"
proof -
  define l :: int where "l = (if lp then 1 else 0)"
  have l: "0 \<le> l" "l \<le> 1" "d < 365 + l" using assms(2) by (simp_all add: l_def split: if_splits)
  have start: "month_start lp m = [0, 31, 59, 90, 120, 151, 181, 212, 243, 273, 304, 334, 365] ! nat m + (if 2 \<le> m then l else 0)" for m
    by (simp add: month_start_def l_def)
  have month: "month_in_year lp d = (if d < 31 then 0 else if d < 59 + l then 1 else if d < 90 + l then 2 else if d < 120 + l then 3
      else if d < 151 + l then 4 else if d < 181 + l then 5 else if d < 212 + l then 6 else if d < 243 + l then 7
      else if d < 273 + l then 8 else if d < 304 + l then 9 else if d < 334 + l then 10 else 11)"
    unfolding month_in_year_def l_def Let_def by (rule refl)
  consider "d < 31" | "31 \<le> d" "d < 59 + l" | "59 + l \<le> d" "d < 90 + l" | "90 + l \<le> d" "d < 120 + l" | "120 + l \<le> d" "d < 151 + l"
    | "151 + l \<le> d" "d < 181 + l" | "181 + l \<le> d" "d < 212 + l" | "212 + l \<le> d" "d < 243 + l" | "243 + l \<le> d" "d < 273 + l"
    | "273 + l \<le> d" "d < 304 + l" | "304 + l \<le> d" "d < 334 + l" | "334 + l \<le> d" by linarith
  then show ?thesis by cases (use assms(1) l in \<open>simp_all add: month start\<close>)
qed

lemma month_in_year_unique:
  assumes "0 \<le> m" "m \<le> 11" "month_start lp m \<le> d" "d < month_start lp (m + 1)"
  shows "month_in_year lp d = m"
  using month_cases [OF assms(1,2)] assms(3,4)
  by (cases lp; elim disjE; simp add: month_in_year_def month_start_def)

lemma month_length_range:
  assumes "0 \<le> m" "m \<le> 11"
  shows "28 \<le> month_length y m \<and> month_length y m \<le> 31"
  using month_cases [OF assms] by (elim disjE; simp add: month_length_def month_start_def)

lemma month_start_mono:
  assumes "0 \<le> m" "m \<le> 11"
  shows "0 \<le> month_start lp m \<and> month_start lp (m + 1) \<le> (if lp then 366 else 365)"
  using month_cases [OF assms] by (elim disjE; simp add: month_start_def)

section \<open>A day and its parts\<close>

lemma day_parts:
  "0 \<le> month_from_day z" "month_from_day z \<le> 11" "1 \<le> date_from_day z"
  "date_from_day z \<le> month_length (year_from_day z) (month_from_day z)"
  "make_day (year_from_day z) (month_from_day z) (date_from_day z) = z"
proof -
  let ?y = "year_from_day z"
  have d: "0 \<le> z - day_from_year ?y" "z - day_from_year ?y < (if leap ?y then 366 else 365)"
    using year_from_day [of z] by (simp_all add: day_from_year_next year_length_def split: if_splits)
  show m: "0 \<le> month_from_day z" "month_from_day z \<le> 11"
    using month_in_year_range by (simp_all add: month_from_day_def Let_def)
  from month_in_year_bracket [OF d] show "1 \<le> date_from_day z" "date_from_day z \<le> month_length ?y (month_from_day z)"
    by (simp_all add: date_from_day_def month_length_def month_from_day_def Let_def)
  show "make_day ?y (month_from_day z) (date_from_day z) = z"
    using m by (simp add: make_day_def date_from_day_def Let_def)
qed

lemma make_day_parts:
  assumes "0 \<le> m" "m \<le> 11" "1 \<le> d" "d \<le> month_length y m"
  shows "year_from_day (make_day y m d) = y" "month_from_day (make_day y m d) = m" "date_from_day (make_day y m d) = d"
proof -
  have z: "make_day y m d = day_from_year y + (month_start (leap y) m + d - 1)" using assms by (simp add: make_day_def)
  have b: "month_start (leap y) m \<le> month_start (leap y) m + d - 1" "month_start (leap y) m + d - 1 < month_start (leap y) (m + 1)"
    using assms by (simp_all add: month_length_def)
  have "0 \<le> month_start (leap y) m + d - 1" "month_start (leap y) m + d - 1 < year_length y"
    using month_start_mono [OF assms(1,2), of "leap y"] b by (auto simp: year_length_def)
  then show y: "year_from_day (make_day y m d) = y"
    unfolding z by (intro year_from_day_unique) (simp_all add: day_from_year_next)
  show m: "month_from_day (make_day y m d) = m"
    unfolding month_from_day_def Let_def y using month_in_year_unique [OF assms(1,2) b] by (simp add: z)
  show "date_from_day (make_day y m d) = d"
    unfolding date_from_day_def Let_def y m by (simp add: z)
qed

text \<open>The day before the first of the next month is the last one of the month.\<close>

lemma month_end:
  assumes "0 \<le> m" "m \<le> 11"
  shows "make_day y (m + 1) 0 = make_day y m (month_length y m)"
proof (cases "m = 11")
  case True
  then show ?thesis by (simp add: make_day_def month_length_def month_start_def day_from_year_next year_length_def)
next
  case False
  then show ?thesis using assms by (simp add: make_day_def month_length_def)
qed

lemma last_of_month:
  assumes "0 \<le> m" "m \<le> 11"
  shows "date_from_day (make_day y (m + 1) 0) = month_length y m"
proof -
  show ?thesis unfolding month_end [OF assms] using make_day_parts(3) [OF assms] month_length_range [OF assms, of y] by simp
qed

section \<open>Time values\<close>

definition DAY_MS :: int where "DAY_MS = 86400000"

definition day_of :: "int \<Rightarrow> int" where "day_of t = t div DAY_MS"

definition getFullYear :: "int \<Rightarrow> int" where "getFullYear t = year_from_day (day_of t)"
definition getMonth :: "int \<Rightarrow> int" where "getMonth t = month_from_day (day_of t)"
definition getDate :: "int \<Rightarrow> int" where "getDate t = date_from_day (day_of t)"
definition getDay :: "int \<Rightarrow> int" where "getDay t = weekday (day_of t)"
definition getHours :: "int \<Rightarrow> int" where "getHours t = t div 3600000 mod 24"
definition getMinutes :: "int \<Rightarrow> int" where "getMinutes t = t div 60000 mod 60"
definition getSeconds :: "int \<Rightarrow> int" where "getSeconds t = t div 1000 mod 60"

text \<open>\<open>new Date(y, m, d, h, mi, s)\<close>: the years 0 to 99 are those of the twentieth century.\<close>

definition new_date :: "int \<Rightarrow> int \<Rightarrow> int \<Rightarrow> int \<Rightarrow> int \<Rightarrow> int \<Rightarrow> int" where
  "new_date y m d h mi s =
     make_day (if 0 \<le> y \<and> y \<le> 99 then 1900 + y else y) m d * DAY_MS + h * 3600000 + mi * 60000 + s * 1000"

lemma day_of_time: "0 \<le> r \<Longrightarrow> r < DAY_MS \<Longrightarrow> day_of (z * DAY_MS + r) = z"
  by (simp add: day_of_def DAY_MS_def)

lemma div_div: "0 \<le> c \<Longrightarrow> b * c = d \<Longrightarrow> t div b div c = t div d" for t b c d :: int
  using zdiv_zmult2_eq [of c t b] by simp

text \<open>The parts of a time build it again, but for its milliseconds, or its seconds.\<close>

lemma time_parts:
  "t div 86400000 * 86400000 + t div 3600000 mod 24 * 3600000 + t div 60000 mod 60 * 60000 + t div 1000 mod 60 * 1000 = t - t mod (1000 :: int)"
  "t div 86400000 * 86400000 + t div 3600000 mod 24 * 3600000 + t div 60000 mod 60 * 60000 = t - t mod (60000 :: int)"
proof -
  define s mi h where "s = t div 1000" and "mi = t div 60000" and "h = t div 3600000"
  have "s div 60 = mi" unfolding s_def mi_def by (rule div_div) simp_all
  moreover have "mi div 60 = h" unfolding h_def mi_def by (rule div_div) simp_all
  moreover have "h div 24 = t div 86400000" unfolding h_def by (rule div_div) simp_all
  moreover have "t = 1000 * s + t mod 1000" "t = 60000 * mi + t mod 60000" by (simp_all add: s_def mi_def)
  moreover have "s = 60 * (s div 60) + s mod 60" "mi = 60 * (mi div 60) + mi mod 60" "h = 24 * (h div 24) + h mod 24"
    by simp_all
  ultimately show "t div 86400000 * 86400000 + t div 3600000 mod 24 * 3600000 + t div 60000 mod 60 * 60000 + t div 1000 mod 60 * 1000 = t - t mod 1000"
    "t div 86400000 * 86400000 + t div 3600000 mod 24 * 3600000 + t div 60000 mod 60 * 60000 = t - t mod 60000"
    unfolding s_def [symmetric] mi_def [symmetric] h_def [symmetric] by linarith+
qed

lemma new_date_floor:
  assumes "\<not> (0 \<le> getFullYear t \<and> getFullYear t \<le> 99)"
  shows "new_date (getFullYear t) (getMonth t) (getDate t) (getHours t) (getMinutes t) (getSeconds t) = t - t mod 1000"
    "new_date (getFullYear t) (getMonth t) (getDate t) (getHours t) (getMinutes t) 0 = t - t mod 60000"
proof -
  have "make_day (getFullYear t) (getMonth t) (getDate t) = day_of t"
    using day_parts(5) by (simp add: getFullYear_def getMonth_def getDate_def)
  moreover have "(if 0 \<le> getFullYear t \<and> getFullYear t \<le> 99 then 1900 + getFullYear t else getFullYear t) = getFullYear t"
    using assms by (simp only: if_False)
  ultimately have *: "new_date (getFullYear t) (getMonth t) (getDate t) h m s = t div 86400000 * 86400000 + h * 3600000 + m * 60000 + s * 1000" for h m s
    unfolding new_date_def by (simp only: day_of_def DAY_MS_def)
  show "new_date (getFullYear t) (getMonth t) (getDate t) (getHours t) (getMinutes t) (getSeconds t) = t - t mod 1000"
    unfolding * getHours_def getMinutes_def getSeconds_def by (rule time_parts)
  show "new_date (getFullYear t) (getMonth t) (getDate t) (getHours t) (getMinutes t) 0 = t - t mod 60000"
    unfolding * getHours_def getMinutes_def getSeconds_def mult_zero_left add_0_right by (rule time_parts)
qed

end
