(* ===== verification/Schedule.thy ===== *)
theory Schedule
  imports Calendar Utils
begin

text \<open>
  The form of a periodic task: \<open>schedule.ts\<close> of the schedule form.  Dates are local time values in
  milliseconds, written and read as texts; the scheduled dates of a range are enumerated day by
  day, as the code does, up to its guard of \<open>366 * 20\<close> days.
\<close>

section \<open>Texts of dates\<close>

definition pad2 :: "int \<Rightarrow> string" where
  "pad2 n = (let s = show_integer n in replicate (2 - length s) (CHR ''0'') @ s)"

definition formatDateTime :: "int \<Rightarrow> string" where
  "formatDateTime d =
     show_integer (getFullYear d) @ ''-'' @ pad2 (getMonth d + 1) @ ''-'' @ pad2 (getDate d) @ '' '' @
     pad2 (getHours d) @ '':'' @ pad2 (getMinutes d) @ '':'' @ pad2 (getSeconds d)"

definition toDateTimeLocal :: "int \<Rightarrow> string" where
  "toDateTimeLocal d =
     show_integer (getFullYear d) @ ''-'' @ pad2 (getMonth d + 1) @ ''-'' @ pad2 (getDate d) @ ''T'' @
     pad2 (getHours d) @ '':'' @ pad2 (getMinutes d)"

text \<open>The pattern of a date and time, sixteen characters or nineteen with the seconds.\<close>

fun matches_pattern :: "string \<Rightarrow> string \<Rightarrow> bool" where
  "matches_pattern [] [] = True"
| "matches_pattern (p # ps) (c # s) =
     ((if p = CHR ''d'' then is_digit c else if p = CHR ''T'' then c = CHR ''T'' \<or> c = CHR '' '' else c = p) \<and>
      matches_pattern ps s)"
| "matches_pattern _ _ = False"

definition digits_at :: "nat \<Rightarrow> nat \<Rightarrow> string \<Rightarrow> int" where
  "digits_at i n s = int (parse_nat (take n (drop i s)))"

definition parseDateTime :: "string \<Rightarrow> int option" where
  "parseDateTime v =
     (let s = trim v;
          date = (\<lambda>sec. new_date (digits_at 0 4 s) (digits_at 5 2 s - 1) (digits_at 8 2 s) (digits_at 11 2 s) (digits_at 14 2 s) sec) in
      if matches_pattern ''dddd-dd-ddTdd:dd'' s then Some (date 0)
      else if matches_pattern ''dddd-dd-ddTdd:dd:dd'' s then Some (date (digits_at 17 2 s))
      else None)"

definition hour_text :: "string \<Rightarrow> bool" where
  "hour_text s \<longleftrightarrow> matches_pattern ''dd'' s \<and> (hd s \<in> {CHR ''0'', CHR ''1''} \<or> (hd s = CHR ''2'' \<and> s ! 1 \<in> set ''0123''))"

definition sixty_text :: "string \<Rightarrow> bool" where
  "sixty_text s \<longleftrightarrow> matches_pattern ''dd'' s \<and> hd s \<in> set ''012345''"

definition isValidTime :: "string \<Rightarrow> bool" where
  "isValidTime v =
     (let s = trim v in
      hour_text (take 2 s) \<and> sixty_text (take 2 (drop 3 s)) \<and> take 1 (drop 2 s) = '':'' \<and>
      (length s = 5 \<or> (length s = 8 \<and> s ! 5 = CHR '':'' \<and> sixty_text (drop 6 s))))"

definition toScheduleTime :: "string \<Rightarrow> string" where
  "toScheduleTime v = (let s = trim v in if utf16_length s = 5 then s @ '':00'' else s)"

section \<open>Scheduled dates\<close>

datatype cycle = CycleD | CycleW | CycleM

fun cycle_name :: "cycle \<Rightarrow> string" where
  "cycle_name CycleD = ''D''"
| "cycle_name CycleW = ''W''"
| "cycle_name CycleM = ''M''"

definition SCHEDULE_MAX_DAYS :: nat where "SCHEDULE_MAX_DAYS = 5"
definition SCHEDULE_DESC_MAX :: nat where "SCHEDULE_DESC_MAX = 200"
definition SCHEDULE_MIN_RANGE_MS :: int where "SCHEDULE_MIN_RANGE_MS = 24 * 60 * 60 * 1000"
definition LAST_DAY_OF_MONTH :: string where "LAST_DAY_OF_MONTH = ''-1''"
definition WEEK_DAY_KEYS :: "string list" where
  "WEEK_DAY_KEYS = map show_nat [1..<8]"
definition MONTH_DAY_KEYS :: "string list" where
  "MONTH_DAY_KEYS = map show_nat [1..<32] @ [LAST_DAY_OF_MONTH]"

text \<open>The comparison of \<open>sortDays\<close>, on days that are finite numbers.\<close>

definition day_rank :: "string \<Rightarrow> rat" where
  "day_rank d = (case number_of_string d of Fin q \<Rightarrow> if q = - 1 then 99 else q | _ \<Rightarrow> 0)"

definition sortDays :: "string list \<Rightarrow> string list" where
  "sortDays days = sort_key day_rank (dedup days)"

definition buildScheduleDate :: "cycle \<Rightarrow> string list \<Rightarrow> string" where
  "buildScheduleDate c days =
     (if c = CycleD then '''' else join_with '','' (map (\<lambda>d. if d = LAST_DAY_OF_MONTH then ''end'' else d) (sortDays days)))"

definition ymd :: "int \<Rightarrow> string" where
  "ymd d = show_integer (getFullYear d) @ pad2 (getMonth d + 1) @ pad2 (getDate d)"

text \<open>\<open>setDate(getDate() + 1)\<close> keeps the time of the day.\<close>

definition next_date :: "int \<Rightarrow> int" where
  "next_date c = make_day (getFullYear c) (getMonth c) (getDate c + 1) * DAY_MS + c mod DAY_MS"

fun num_min :: "number \<Rightarrow> int \<Rightarrow> number" where
  "num_min n k = (if n = NaN then NaN else if num_lt n (Fin (of_int k)) then n else Fin (of_int k))"

definition is_candidate :: "cycle \<Rightarrow> string list \<Rightarrow> int \<Rightarrow> bool" where
  "is_candidate cyc days c =
     (case cyc of
        CycleD \<Rightarrow> True
      | CycleW \<Rightarrow> show_integer (if getDay c = 0 then 7 else getDay c) \<in> set days
      | CycleM \<Rightarrow> (let last = getDate (new_date (getFullYear c) (getMonth c + 1) 0 0 0 0) in
             Fin (of_int (getDate c)) \<in>
               set (map (\<lambda>d. if d = LAST_DAY_OF_MONTH then Fin (of_int last) else num_min (number_of_string d) last) days)))"

text \<open>
  A part of the time of the day, \<open>hh || 0\<close>: zero when it is missing or not a number, truncated by
  the date, \<open>None\<close> when it is infinite and the date is not valid.
\<close>

definition time_part :: "number list \<Rightarrow> nat \<Rightarrow> int option" where
  "time_part ns i =
     (case at_opt ns i of
        None \<Rightarrow> Some 0
      | Some NaN \<Rightarrow> Some 0
      | Some (Fin q) \<Rightarrow> Some (if q < 0 then ceiling q else floor q)
      | Some _ \<Rightarrow> None)"

definition moment_of :: "number list \<Rightarrow> int \<Rightarrow> int option" where
  "moment_of ns c =
     (case (time_part ns 0, time_part ns 1, time_part ns 2) of
        (Some h, Some m, Some s) \<Rightarrow> Some (new_date (getFullYear c) (getMonth c) (getDate c) h m s)
      | _ \<Rightarrow> None)"

definition fires :: "number list \<Rightarrow> cycle \<Rightarrow> string list \<Rightarrow> int \<Rightarrow> int \<Rightarrow> int \<Rightarrow> bool" where
  "fires ns cyc days startMs endMs c \<longleftrightarrow>
     is_candidate cyc days c \<and> (case moment_of ns c of None \<Rightarrow> False | Some t \<Rightarrow> startMs \<le> t \<and> t \<le> endMs)"

fun schedule_loop ::
  "nat \<Rightarrow> number list \<Rightarrow> cycle \<Rightarrow> string list \<Rightarrow> int \<Rightarrow> int \<Rightarrow> int \<Rightarrow> string list \<Rightarrow> string list" where
  "schedule_loop 0 ns cyc days startMs endMs c result = result"
| "schedule_loop (Suc g) ns cyc days startMs endMs c result =
     (if c \<le> endMs
      then schedule_loop g ns cyc days startMs endMs (next_date c)
             (if fires ns cyc days startMs endMs c \<and> ymd c \<notin> set result then result @ [ymd c] else result)
      else result)"

definition SCHEDULE_GUARD :: nat where "SCHEDULE_GUARD = 366 * 20"

definition getScheduledDatesWithinRange :: "int \<Rightarrow> int \<Rightarrow> cycle \<Rightarrow> string list \<Rightarrow> string \<Rightarrow> string list" where
  "getScheduledDatesWithinRange start finish cyc days time =
     schedule_loop SCHEDULE_GUARD (map number_of_string (split_on CHR '':'' (toScheduleTime time))) cyc days start finish
       (new_date (getFullYear start) (getMonth start) (getDate start) 0 0 0) []"

section \<open>Validation and the payload\<close>

record schedule_values =
  sv_scheduleId :: string
  sv_scheduleDesc :: string
  sv_startTime :: string
  sv_endTime :: string
  sv_cycle :: "cycle option"
  sv_days :: "string list"
  sv_time :: string

text \<open>The errors of the form, in the order in which its fields are checked.\<close>

definition range_errors :: "int option \<Rightarrow> int option \<Rightarrow> int \<Rightarrow> (string \<times> string) list" where
  "range_errors start finish now =
     (case (start, finish) of
        (Some a, Some b) \<Rightarrow>
          if b - a < SCHEDULE_MIN_RANGE_MS then [(''startTime'', ''scheduleForm.errors.rangeTooShort'')]
          else if b < now then [(''endTime'', ''scheduleForm.errors.endBeforeNow'')] else []
      | _ \<Rightarrow> [(''startTime'', ''scheduleForm.errors.rangeRequired'')])"

definition cycle_errors :: "cycle option \<Rightarrow> string list \<Rightarrow> (string \<times> string) list" where
  "cycle_errors cyc days =
     (case cyc of
        None \<Rightarrow> [(''cycle'', ''scheduleForm.errors.cycleRequired'')]
      | Some CycleD \<Rightarrow> []
      | Some c \<Rightarrow>
          (let allowed = (if c = CycleW then WEEK_DAY_KEYS else MONTH_DAY_KEYS) in
           if days = [] then [(''days'', ''scheduleForm.errors.daysRequired'')]
           else if length days > SCHEDULE_MAX_DAYS then [(''days'', ''scheduleForm.errors.daysTooMany'')]
           else if list_ex (\<lambda>d. d \<notin> set allowed) days then [(''days'', ''scheduleForm.errors.daysInvalid'')]
           else []))"

definition time_errors :: "string \<Rightarrow> (string \<times> string) list" where
  "time_errors t =
     (if t = '''' then [(''time'', ''scheduleForm.errors.timeRequired'')]
      else if \<not> isValidTime t then [(''time'', ''scheduleForm.errors.timeInvalid'')] else [])"

definition validateSchedule :: "schedule_values \<Rightarrow> int \<Rightarrow> (string \<times> string) list" where
  "validateSchedule v now =
     (let start = parseDateTime (sv_startTime v);
          finish = parseDateTime (sv_endTime v);
          errors =
            (if sv_scheduleId v = '''' then [(''scheduleId'', ''scheduleForm.errors.scheduleId'')] else []) @
            (if utf16_length (sv_scheduleDesc v) > SCHEDULE_DESC_MAX then [(''scheduleDesc'', ''scheduleForm.errors.descTooLong'')] else []) @
            range_errors start finish now @ cycle_errors (sv_cycle v) (sv_days v) @ time_errors (sv_time v)
      in if errors \<noteq> [] then errors
         else (case (start, finish, sv_cycle v) of
             (Some a, Some b, Some c) \<Rightarrow>
               if getScheduledDatesWithinRange a b c (sv_days v) (sv_time v) = [] then [(''form'', ''scheduleForm.errors.noSchedulableDate'')] else []
           | _ \<Rightarrow> []))"

definition isScheduleValid :: "(string \<times> string) list \<Rightarrow> bool" where
  "isScheduleValid errors \<longleftrightarrow> errors = []"

record schedule_cron =
  cr_startTime :: string
  cr_endTime :: string
  cr_scheduleCycle :: string
  cr_scheduleDate :: string
  cr_scheduleTime :: string

record schedule_request =
  sr_scheduleId :: string
  sr_scheduleDesc :: "string option"
  sr_cron :: schedule_cron
  sr_projectId :: string
  sr_graphId :: string
  sr_nodes :: "string list"

text \<open>\<open>None\<close> stands for the error \<open>Invalid schedule\<close>.\<close>

definition buildSchedulePayload :: "schedule_values \<Rightarrow> string \<Rightarrow> string \<Rightarrow> string list \<Rightarrow> schedule_request option" where
  "buildSchedulePayload v projectId graphId nodes =
     (case (parseDateTime (sv_startTime v), parseDateTime (sv_endTime v), sv_cycle v) of
        (Some a, Some b, Some c) \<Rightarrow>
          (let desc = trim (sv_scheduleDesc v) in
           Some \<lparr>sr_scheduleId = sv_scheduleId v,
                 sr_scheduleDesc = (if desc = '''' then None else Some desc),
                 sr_cron = \<lparr>cr_startTime = formatDateTime a, cr_endTime = formatDateTime b,
                   cr_scheduleCycle = cycle_name c, cr_scheduleDate = buildScheduleDate c (sv_days v),
                   cr_scheduleTime = toScheduleTime (sv_time v)\<rparr>,
                 sr_projectId = projectId, sr_graphId = graphId, sr_nodes = nodes\<rparr>)
      | _ \<Rightarrow> None)"

definition initialScheduleValues :: "string \<Rightarrow> int \<Rightarrow> schedule_values" where
  "initialScheduleValues scheduleId now =
     \<lparr>sv_scheduleId = scheduleId, sv_scheduleDesc = '''', sv_startTime = toDateTimeLocal (now + 2 * 60 * 1000),
      sv_endTime = '''', sv_cycle = None, sv_days = [], sv_time = ''''\<rparr>"


section \<open>Reading the texts back\<close>

lemma pad2_digits:
  assumes "0 \<le> n" "n \<le> 99"
  shows "pad2 n = [digit_char (nat n div 10), digit_char (nat n mod 10)]"
proof (cases "n < 10")
  case True
  then have "show_nat (nat n) = [digit_char (nat n)]" by (subst show_nat.simps) auto
  moreover have "nat n div 10 = 0" "nat n mod 10 = nat n" using True assms by auto
  moreover have "digit_char 0 = CHR ''0''" by code_simp
  ultimately show ?thesis using assms by (simp add: pad2_def show_integer_def)
next
  case False
  then have "nat n div 10 < 10" "\<not> nat n < 10" using assms by auto
  then have "show_nat (nat n) = [digit_char (nat n div 10), digit_char (nat n mod 10)]"
    using show_nat.simps [of "nat n"] show_nat.simps [of "nat n div 10"] by simp
  then show ?thesis using assms by (simp add: pad2_def show_integer_def)
qed

lemma parse_pad2: "0 \<le> n \<Longrightarrow> n \<le> 99 \<Longrightarrow> int (parse_nat (pad2 n)) = n"
  by (simp add: pad2_digits parse_nat_def)

lemma pad2_shape: "0 \<le> n \<Longrightarrow> n \<le> 99 \<Longrightarrow> length (pad2 n) = 2 \<and> list_all is_digit (pad2 n)"
  by (simp add: pad2_digits)

lemma show_year:
  assumes "1000 \<le> y" "y \<le> 9999"
  shows "length (show_integer y) = 4 \<and> list_all is_digit (show_integer y) \<and> int (parse_nat (show_integer y)) = y"
proof -
  define n where "n = nat y"
  have "\<not> n < 10" "\<not> n div 10 < 10" "\<not> n div 10 div 10 < 10" "n div 10 div 10 div 10 < 10"
    using assms unfolding n_def by auto
  then have "length (show_nat n) = 4"
    using show_nat.simps [of n] show_nat.simps [of "n div 10"] show_nat.simps [of "n div 10 div 10"]
      show_nat.simps [of "n div 10 div 10 div 10"] by simp
  then show ?thesis using assms show_nat_all_digits [of n] by (simp add: show_integer_def n_def)
qed

lemma length_Suc_obtain: "length xs = Suc n \<Longrightarrow> (\<And>x ys. xs = x # ys \<Longrightarrow> length ys = n \<Longrightarrow> thesis) \<Longrightarrow> thesis"
  by (cases xs) auto

lemma trim_ends: "s \<noteq> [] \<Longrightarrow> \<not> is_ws (hd s) \<Longrightarrow> \<not> is_ws (last s) \<Longrightarrow> trim s = s"
proof -
  assume s: "s \<noteq> []" "\<not> is_ws (hd s)" "\<not> is_ws (last s)"
  then have "dropWhile is_ws s = s" by (cases s) auto
  moreover have "dropWhile is_ws (rev s) = rev s" using s by (cases s rule: rev_cases) auto
  ultimately show ?thesis by (simp add: trim_def)
qed

lemma four_chars: "length xs = 4 \<Longrightarrow> \<exists>a b c d. xs = [a, b, c, d]"
  by (auto simp: eval_nat_numeral length_Suc_conv)

lemma two_chars: "length xs = 2 \<Longrightarrow> \<exists>a b. xs = [a, b]"
  by (auto simp: eval_nat_numeral length_Suc_conv)

lemma parse_fields:
  assumes "length y = 4" "length mo = 2" "length d = 2" "length h = 2" "length mi = 2" "length se = 2"
    and dg: "list_all is_digit (y @ mo @ d @ h @ mi @ se)"
    and num: "int (parse_nat y) = Y" "int (parse_nat mo) = MO + 1" "int (parse_nat d) = DD" "int (parse_nat h) = HH"
      "int (parse_nat mi) = MI" "int (parse_nat se) = SE" and x: "x = CHR ''T'' \<or> x = CHR '' ''"
  shows "parseDateTime (y @ ''-'' @ mo @ ''-'' @ d @ [x] @ h @ '':'' @ mi) = Some (new_date Y MO DD HH MI 0)"
    "parseDateTime (y @ ''-'' @ mo @ ''-'' @ d @ [x] @ h @ '':'' @ mi @ '':'' @ se) = Some (new_date Y MO DD HH MI SE)"
proof -
  obtain y1 y2 y3 y4 where y: "y = [y1, y2, y3, y4]" using four_chars [OF assms(1)] by blast
  obtain m1 m2 where m: "mo = [m1, m2]" using two_chars [OF assms(2)] by blast
  obtain d1 d2 where d: "d = [d1, d2]" using two_chars [OF assms(3)] by blast
  obtain h1 h2 where h: "h = [h1, h2]" using two_chars [OF assms(4)] by blast
  obtain i1 i2 where i: "mi = [i1, i2]" using two_chars [OF assms(5)] by blast
  obtain s1 s2 where s: "se = [s1, s2]" using two_chars [OF assms(6)] by blast
  note parts = y m d h i s
  have dig: "is_digit y1" "is_digit y2" "is_digit y3" "is_digit y4" "is_digit m1" "is_digit m2" "is_digit d1" "is_digit d2"
    "is_digit h1" "is_digit h2" "is_digit i1" "is_digit i2" "is_digit s1" "is_digit s2"
    using dg by (simp_all add: parts)
  have t: "trim (y @ ''-'' @ mo @ ''-'' @ d @ [x] @ h @ '':'' @ mi) = y @ ''-'' @ mo @ ''-'' @ d @ [x] @ h @ '':'' @ mi"
    "trim (y @ ''-'' @ mo @ ''-'' @ d @ [x] @ h @ '':'' @ mi @ '':'' @ se) = y @ ''-'' @ mo @ ''-'' @ d @ [x] @ h @ '':'' @ mi @ '':'' @ se"
    using dig digits_not_ws by (simp_all add: trim_ends parts)
  show "parseDateTime (y @ ''-'' @ mo @ ''-'' @ d @ [x] @ h @ '':'' @ mi) = Some (new_date Y MO DD HH MI 0)"
    unfolding parseDateTime_def Let_def t using dig num x by (simp add: digits_at_def parts)
  show "parseDateTime (y @ ''-'' @ mo @ ''-'' @ d @ [x] @ h @ '':'' @ mi @ '':'' @ se) = Some (new_date Y MO DD HH MI SE)"
    unfolding parseDateTime_def Let_def t using dig num x by (simp add: digits_at_def parts)
qed

lemma date_fields:
  "0 \<le> getMonth t" "getMonth t \<le> 11" "1 \<le> getDate t" "getDate t \<le> 31"
  "0 \<le> getHours t" "getHours t \<le> 23" "0 \<le> getMinutes t" "getMinutes t \<le> 59" "0 \<le> getSeconds t" "getSeconds t \<le> 59"
proof -
  have m: "0 \<le> month_from_day (day_of t)" "month_from_day (day_of t) \<le> 11" by (rule day_parts)+
  then show "0 \<le> getMonth t" "getMonth t \<le> 11" by (simp_all add: getMonth_def)
  show "1 \<le> getDate t" using day_parts(3) by (simp add: getDate_def)
  have "date_from_day (day_of t) \<le> month_length (year_from_day (day_of t)) (month_from_day (day_of t))" by (rule day_parts)
  then show "getDate t \<le> 31" using month_length_range [OF m, of "year_from_day (day_of t)"] by (simp add: getDate_def)
  have below: "0 \<le> x mod k \<and> x mod k \<le> k - 1" if "0 < k" for x k :: int
    using pos_mod_sign [OF that, of x] pos_mod_bound [OF that, of x] by simp
  show "0 \<le> getHours t" "getHours t \<le> 23" using below [of 24 "t div 3600000"] by (simp_all add: getHours_def)
  show "0 \<le> getMinutes t" "getMinutes t \<le> 59" using below [of 60 "t div 60000"] by (simp_all add: getMinutes_def)
  show "0 \<le> getSeconds t" "getSeconds t \<le> 59" using below [of 60 "t div 1000"] by (simp_all add: getSeconds_def)
qed

text \<open>A time without milliseconds is read back from its text, to the second or to the minute.\<close>

lemma date_time_round_trip:
  assumes y: "1000 \<le> getFullYear t" "getFullYear t \<le> 9999"
  shows "parseDateTime (formatDateTime t) = Some (t - t mod 1000)"
    "parseDateTime (toDateTimeLocal t) = Some (t - t mod 60000)"
proof -
  note f = date_fields [of t]
  have rng: "0 \<le> getMonth t + 1" "getMonth t + 1 \<le> 99" "0 \<le> getDate t" "getDate t \<le> 99" "getHours t \<le> 99" "getMinutes t \<le> 99" "getSeconds t \<le> 99"
    using f by linarith+
  have y4: "length (show_integer (getFullYear t)) = 4" "list_all is_digit (show_integer (getFullYear t))"
    "int (parse_nat (show_integer (getFullYear t))) = getFullYear t"
    using show_year [OF y] by blast+
  note p = pad2_shape [OF rng(1,2)] pad2_shape [OF rng(3,4)] pad2_shape [OF f(5) rng(5)] pad2_shape [OF f(7) rng(6)] pad2_shape [OF f(9) rng(7)]
  note q = parse_pad2 [OF rng(1,2)] parse_pad2 [OF rng(3,4)] parse_pad2 [OF f(5) rng(5)] parse_pad2 [OF f(7) rng(6)] parse_pad2 [OF f(9) rng(7)]
  have dg: "list_all is_digit (show_integer (getFullYear t) @ pad2 (getMonth t + 1) @ pad2 (getDate t) @ pad2 (getHours t) @
      pad2 (getMinutes t) @ pad2 (getSeconds t))"
    using p y4(2) by simp
  have "parseDateTime (formatDateTime t) = Some (new_date (getFullYear t) (getMonth t) (getDate t) (getHours t) (getMinutes t) (getSeconds t))"
    unfolding formatDateTime_def
    by (rule parse_fields(2) [OF y4(1) _ _ _ _ _ dg y4(3)]) (use p q in simp_all)
  moreover have "parseDateTime (toDateTimeLocal t) = Some (new_date (getFullYear t) (getMonth t) (getDate t) (getHours t) (getMinutes t) 0)"
    using parse_fields(1) [OF y4(1) _ _ _ _ _ dg y4(3), of "getMonth t" "getDate t" "getHours t" "getMinutes t" "getSeconds t" "CHR ''T''"] p q
    unfolding toDateTimeLocal_def by simp
  ultimately show "parseDateTime (formatDateTime t) = Some (t - t mod 1000)" "parseDateTime (toDateTimeLocal t) = Some (t - t mod 60000)"
    using new_date_floor [of t] y by simp_all
qed


section \<open>The days of a range\<close>

lemma midnight:
  "day_of (z * DAY_MS) = z" "z * DAY_MS mod DAY_MS = 0" "z * DAY_MS \<le> b \<longleftrightarrow> z \<le> day_of b"
proof -
  show "day_of (z * DAY_MS) = z" "z * DAY_MS mod DAY_MS = 0" by (simp_all add: day_of_def DAY_MS_def)
  have "k * c \<le> b \<longleftrightarrow> k \<le> b div c" if "0 < c" for k c b :: int
  proof -
    have b: "b = b div c * c + b mod c" "0 \<le> b mod c" "b mod c < c" using that by simp_all
    show ?thesis
    proof (cases "k \<le> b div c")
      case True
      then have "k * c \<le> b div c * c" using that by (simp add: mult_right_mono)
      then show ?thesis using True b by linarith
    next
      case False
      then have "(b div c + 1) * c \<le> k * c" using that by (intro mult_right_mono) simp_all
      then have "b div c * c + c \<le> k * c" by (simp only: distrib_right mult_1)
      then have "b < k * c" using b by linarith
      then show ?thesis using False by simp
    qed
  qed
  then show "z * DAY_MS \<le> b \<longleftrightarrow> z \<le> day_of b" by (simp add: day_of_def DAY_MS_def)
qed

lemma next_midnight: "next_date (z * DAY_MS) = (z + 1) * DAY_MS"
proof -
  have "make_day y m (d + 1) = make_day y m d + 1" for y m d by (simp add: make_day_def Let_def)
  then show ?thesis
    using day_parts(5) [of z] by (simp add: next_date_def getFullYear_def getMonth_def getDate_def midnight)
qed

lemma show_integer_inject: "show_integer i = show_integer j \<Longrightarrow> i = j"
  by (metis number.inject number_of_string_show_integer of_int_eq_iff)

lemma ymd_inject:
  assumes "ymd (z * DAY_MS) = ymd (z' * DAY_MS)"
  shows "z = z'"
proof -
  have *: "length (pad2 (getMonth t + 1)) = 2" "length (pad2 (getDate t)) = 2"
    "int (parse_nat (pad2 (getMonth t + 1))) = getMonth t + 1" "int (parse_nat (pad2 (getDate t))) = getDate t" for t
    using date_fields [of t] pad2_shape parse_pad2 by simp_all
  have "show_integer (getFullYear (z * DAY_MS)) = show_integer (getFullYear (z' * DAY_MS))"
    "pad2 (getMonth (z * DAY_MS) + 1) = pad2 (getMonth (z' * DAY_MS) + 1)" "pad2 (getDate (z * DAY_MS)) = pad2 (getDate (z' * DAY_MS))"
    using assms *(1,2) by (simp_all add: ymd_def append_eq_append_conv)
  moreover have "i = j" if "int (parse_nat s) = i + k" "int (parse_nat t) = j + k" "s = t" for s t i j k using that by simp
  ultimately have eq: "getFullYear (z * DAY_MS) = getFullYear (z' * DAY_MS)" "getMonth (z * DAY_MS) = getMonth (z' * DAY_MS)"
    "getDate (z * DAY_MS) = getDate (z' * DAY_MS)"
    using *(3) *(4) [of "z * DAY_MS"] *(4) [of "z' * DAY_MS"] by (blast intro: show_integer_inject, blast, metis)
  have "z = make_day (getFullYear (z * DAY_MS)) (getMonth (z * DAY_MS)) (getDate (z * DAY_MS))" for z
    unfolding getFullYear_def getMonth_def getDate_def midnight by (rule day_parts(5) [symmetric])
  from this [of z] this [of z'] show ?thesis unfolding eq by (rule trans [OF _ sym])
qed

lemma schedule_loop_days:
  assumes "\<forall>w\<in>set result. \<exists>y<z. w = ymd (y * DAY_MS)"
  shows "schedule_loop g ns cyc days a b (z * DAY_MS) result =
    result @ map (\<lambda>z. ymd (z * DAY_MS)) (filter (\<lambda>z. fires ns cyc days a b (z * DAY_MS)) [z .. min (day_of b) (z + int g - 1)])"
  using assms
proof (induction g arbitrary: z result)
  case 0
  then show ?case by simp
next
  case (Suc g)
  show ?case
  proof (cases "z \<le> day_of b")
    case False
    then show ?thesis by (simp add: midnight)
  next
    case True
    let ?r = "if fires ns cyc days a b (z * DAY_MS) \<and> ymd (z * DAY_MS) \<notin> set result then result @ [ymd (z * DAY_MS)] else result"
    have fresh: "ymd (z * DAY_MS) \<notin> set result" using Suc.prems ymd_inject by fastforce
    have "\<exists>y<z + 1. w = ymd (y * DAY_MS)" if "w \<in> set ?r" for w
    proof (cases "w = ymd (z * DAY_MS)")
      case True
      then show ?thesis by (intro exI [of _ z]) simp
    next
      case False
      then have "w \<in> set result" using that by (simp split: if_splits)
      then show ?thesis using Suc.prems less_trans [of _ z "z + 1"] by fastforce
    qed
    then have "\<forall>w\<in>set ?r. \<exists>y<z + 1. w = ymd (y * DAY_MS)" by blast
    note step = Suc.IH [OF this]
    have split: "[z .. min (day_of b) (z + int (Suc g) - 1)] = z # [z + 1 .. min (day_of b) (z + 1 + int g - 1)]"
      using True by (subst upto_rec1) (simp_all add: add.commute add.left_commute)
    show ?thesis
      unfolding split using True fresh step by (simp add: midnight next_midnight)
  qed
qed


text \<open>The time of the day in milliseconds, as a valid time writes it.\<close>

definition time_ms :: "string \<Rightarrow> int" where
  "time_ms t =
     (let s = trim t in
      digits_at 0 2 s * 3600000 + digits_at 3 2 s * 60000 + (if length s = 8 then digits_at 6 2 s else 0) * 1000)"

lemma number_of_two_digits:
  assumes "is_digit a" "is_digit b"
  shows "number_of_string [a, b] = Fin (of_int (int (parse_nat [a, b])))"
proof -
  have "trim [a, b] = [a, b]" using assms digits_not_ws by (intro trim_ends) simp_all
  moreover have "b \<notin> {CHR ''x'', CHR ''X''}" "b \<notin> {CHR ''o'', CHR ''O''}" "b \<notin> {CHR ''b'', CHR ''B''}"
    "a \<noteq> CHR ''-''" "a \<noteq> CHR ''+''"
    using assms by (auto simp: is_digit_def)
  ultimately have "number_of_string [a, b] = parse_unsigned [a, b]" by (simp add: number_of_string_def)
  then show ?thesis using assms by (simp add: parse_unsigned_digits)
qed

lemma digit_bounds: "is_digit a \<Longrightarrow> digit_val a \<le> 9"
  unfolding is_digit_def digit_val_def by linarith

lemma hour_value: "hour_text [a, b] \<Longrightarrow> is_digit a \<and> is_digit b \<and> parse_nat [a, b] \<le> 23"
proof -
  assume h: "hour_text [a, b]"
  then have d: "is_digit a" "is_digit b" by (simp_all add: hour_text_def)
  have "digit_val a \<le> 1 \<or> (digit_val a = 2 \<and> digit_val b \<le> 3)"
    using h by (auto simp: hour_text_def digit_val_def)
  then show ?thesis using d digit_bounds [OF d(2)] by (auto simp: parse_nat_def)
qed

lemma sixty_value: "sixty_text [a, b] \<Longrightarrow> is_digit a \<and> is_digit b \<and> parse_nat [a, b] \<le> 59"
proof -
  assume h: "sixty_text [a, b]"
  then have d: "is_digit a" "is_digit b" by (simp_all add: sixty_text_def)
  have "digit_val a \<le> 5" using h by (auto simp: sixty_text_def digit_val_def)
  then show ?thesis using d digit_bounds [OF d(2)] by (auto simp: parse_nat_def)
qed

lemma five_chars: "length xs = 5 \<Longrightarrow> \<exists>a b c d e. xs = [a, b, c, d, e]"
  by (auto simp: eval_nat_numeral length_Suc_conv)

lemma eight_chars: "length xs = 8 \<Longrightarrow> \<exists>a b c d e f g h. xs = [a, b, c, d, e, f, g, h]"
  by (auto simp: eval_nat_numeral length_Suc_conv)

lemma digit_ascii: "is_digit c \<Longrightarrow> (of_char c :: nat) < 0x80"
  by (simp add: is_digit_def)

lemma digit_not_colon: "is_digit c \<Longrightarrow> c \<noteq> CHR '':''"
  by (auto simp: is_digit_def)

lemma valid_time_parts:
  assumes "isValidTime t"
  obtains h m s where "map number_of_string (split_on CHR '':'' (toScheduleTime t)) = [Fin (of_int h), Fin (of_int m), Fin (of_int s)]"
    "0 \<le> h" "h \<le> 23" "0 \<le> m" "m \<le> 59" "0 \<le> s" "s \<le> 59" "time_ms t = h * 3600000 + m * 60000 + s * 1000"
proof -
  have v: "hour_text (take 2 (trim t))" "sixty_text (take 2 (drop 3 (trim t)))" "take 1 (drop 2 (trim t)) = '':''"
    "length (trim t) = 5 \<or> length (trim t) = 8 \<and> trim t ! 5 = CHR '':'' \<and> sixty_text (drop 6 (trim t))"
    using assms by (simp_all add: isValidTime_def Let_def)
  from v(4) show thesis
  proof (elim disjE conjE)
    assume "length (trim t) = 5"
    then obtain a b c d e where s: "trim t = [a, b, c, d, e]" using five_chars by blast
    have c: "c = CHR '':''" using v(3) by (simp add: s)
    have h: "is_digit a" "is_digit b" "parse_nat [a, b] \<le> 23" using hour_value v(1) by (simp_all add: s)
    have m: "is_digit d" "is_digit e" "parse_nat [d, e] \<le> 59" using sixty_value v(2) by (simp_all add: s)
    have l: "utf16_length (trim t) = 5"
      using h m digit_ascii by (subst utf16_length_ascii) (simp_all add: s c)
    have sp: "split_on CHR '':'' (toScheduleTime t) = [[a, b], [d, e], ''00'']"
      unfolding toScheduleTime_def Let_def l using h m digit_not_colon by (simp add: s c)
    have z: "number_of_string ''00'' = Fin (of_int 0)" by code_simp
    show thesis
      by (rule that [of "int (parse_nat [a, b])" "int (parse_nat [d, e])" 0])
        (use h m in \<open>simp_all add: sp z number_of_two_digits time_ms_def digits_at_def s\<close>)
  next
    assume "length (trim t) = 8" "trim t ! 5 = CHR '':''" and x: "sixty_text (drop 6 (trim t))"
    moreover from this obtain a b c d e f g i where s: "trim t = [a, b, c, d, e, f, g, i]" using eight_chars by blast
    ultimately have c: "c = CHR '':''" "f = CHR '':''" using v(3) by (simp_all add: s)
    have h: "is_digit a" "is_digit b" "parse_nat [a, b] \<le> 23" using hour_value v(1) by (simp_all add: s)
    have m: "is_digit d" "is_digit e" "parse_nat [d, e] \<le> 59" using sixty_value v(2) by (simp_all add: s)
    have k: "is_digit g" "is_digit i" "parse_nat [g, i] \<le> 59" using sixty_value x by (simp_all add: s)
    have l: "utf16_length (trim t) = 8"
      using h m k digit_ascii by (subst utf16_length_ascii) (simp_all add: s c)
    have sp: "split_on CHR '':'' (toScheduleTime t) = [[a, b], [d, e], [g, i]]"
      unfolding toScheduleTime_def Let_def l using h m k digit_not_colon by (simp add: s c)
    show thesis
      by (rule that [of "int (parse_nat [a, b])" "int (parse_nat [d, e])" "int (parse_nat [g, i])"])
        (use h m k in \<open>simp_all add: sp number_of_two_digits time_ms_def digits_at_def s\<close>)
  qed
qed

lemma time_ms_range: "isValidTime t \<Longrightarrow> 0 \<le> time_ms t \<and> time_ms t < DAY_MS"
  by (elim valid_time_parts) (simp add: DAY_MS_def)

lemma year_mono: "z \<le> z' \<Longrightarrow> year_from_day z \<le> year_from_day z'"
proof (rule ccontr)
  assume "z \<le> z'" "\<not> year_from_day z \<le> year_from_day z'"
  then have "day_from_year (year_from_day z' + 1) \<le> day_from_year (year_from_day z)"
    using day_from_year_less [of "year_from_day z' + 1" "year_from_day z"] by (cases "year_from_day z' + 1 = year_from_day z") auto
  then show False using \<open>z \<le> z'\<close> year_from_day [of z] year_from_day [of z'] by linarith
qed

lemma fires_on:
  assumes "isValidTime t" "100 \<le> year_from_day z"
  shows "fires (map number_of_string (split_on CHR '':'' (toScheduleTime t))) cyc days a b (z * DAY_MS) \<longleftrightarrow>
    is_candidate cyc days (z * DAY_MS) \<and> a \<le> z * DAY_MS + time_ms t \<and> z * DAY_MS + time_ms t \<le> b"
proof -
  obtain h m s where p: "map number_of_string (split_on CHR '':'' (toScheduleTime t)) = [Fin (of_int h), Fin (of_int m), Fin (of_int s)]"
    "time_ms t = h * 3600000 + m * 60000 + s * 1000"
    using assms(1) by (elim valid_time_parts)
  have i: "(if (q :: rat) < 0 then ceiling q else floor q) = k" if "q = of_int k" for q k using that by simp
  have "moment_of [Fin (of_int h), Fin (of_int m), Fin (of_int s)] (z * DAY_MS) =
      Some (new_date (year_from_day z) (month_from_day z) (date_from_day z) h m s)"
    by (simp add: moment_of_def time_part_def at_opt_def getFullYear_def getMonth_def getDate_def midnight)
  also have "new_date (year_from_day z) (month_from_day z) (date_from_day z) h m s = z * DAY_MS + time_ms t"
    using assms(2) day_parts(5) [of z] p(2) by (simp add: new_date_def)
  finally show ?thesis by (simp add: fires_def p(1))
qed

text \<open>The result, day by day: the moments in the range, up to the guard.\<close>

lemma scheduled_dates:
  assumes "isValidTime t" "100 \<le> getFullYear a"
  shows "getScheduledDatesWithinRange a b cyc days t =
    map (\<lambda>z. ymd (z * DAY_MS))
      (filter (\<lambda>z. is_candidate cyc days (z * DAY_MS) \<and> a \<le> z * DAY_MS + time_ms t \<and> z * DAY_MS + time_ms t \<le> b)
        [day_of a .. min (day_of b) (day_of a + 7319)])"
proof -
  have "new_date (getFullYear a) (getMonth a) (getDate a) 0 0 0 = day_of a * DAY_MS"
    using assms(2) day_parts(5) [of "day_of a"] by (simp add: new_date_def getFullYear_def getMonth_def getDate_def)
  then have eq: "getScheduledDatesWithinRange a b cyc days t =
      map (\<lambda>z. ymd (z * DAY_MS))
        (filter (\<lambda>z. fires (map number_of_string (split_on CHR '':'' (toScheduleTime t))) cyc days a b (z * DAY_MS))
          [day_of a .. min (day_of b) (day_of a + 7319)])"
    unfolding getScheduledDatesWithinRange_def by (simp add: schedule_loop_days SCHEDULE_GUARD_def add.commute)
  have "100 \<le> year_from_day z" if "day_of a \<le> z" for z
    using that year_mono assms(2) unfolding getFullYear_def by (meson order_trans)
  then have F: "fires (map number_of_string (split_on CHR '':'' (toScheduleTime t))) cyc days a b (z * DAY_MS) \<longleftrightarrow>
      is_candidate cyc days (z * DAY_MS) \<and> a \<le> z * DAY_MS + time_ms t \<and> z * DAY_MS + time_ms t \<le> b"
    if "z \<in> set [day_of a .. min (day_of b) (day_of a + 7319)]" for z
    using that fires_on [OF assms(1)] by simp
  have "filter (\<lambda>z. fires (map number_of_string (split_on CHR '':'' (toScheduleTime t))) cyc days a b (z * DAY_MS)) [day_of a .. min (day_of b) (day_of a + 7319)] =
      filter (\<lambda>z. is_candidate cyc days (z * DAY_MS) \<and> a \<le> z * DAY_MS + time_ms t \<and> z * DAY_MS + time_ms t \<le> b) [day_of a .. min (day_of b) (day_of a + 7319)]"
    by (rule filter_cong [OF refl]) (rule F)
  with eq show ?thesis by (simp only:)
qed


section \<open>Every valid schedule recurs\<close>

definition valid_days :: "cycle \<Rightarrow> string list \<Rightarrow> bool" where
  "valid_days cyc days \<longleftrightarrow>
     cyc = CycleD \<or>
     days \<noteq> [] \<and> length days \<le> SCHEDULE_MAX_DAYS \<and> set days \<subseteq> set (if cyc = CycleW then WEEK_DAY_KEYS else MONTH_DAY_KEYS)"

definition period :: "cycle \<Rightarrow> int" where
  "period cyc = (case cyc of CycleD \<Rightarrow> 1 | CycleW \<Rightarrow> 7 | CycleM \<Rightarrow> 61)"

lemma week_candidate:
  "is_candidate CycleW days (z * DAY_MS) \<longleftrightarrow> show_integer (if weekday z = 0 then 7 else weekday z) \<in> set days"
  by (simp add: is_candidate_def getDay_def midnight)

lemma week_recurs:
  assumes "valid_days CycleW days"
  shows "\<exists>z'. z \<le> z' \<and> z' < z + 7 \<and> is_candidate CycleW days (z' * DAY_MS)"
proof -
  have "days \<noteq> []" "set days \<subseteq> show_nat ` set [1..<8]"
    using assms unfolding valid_days_def WEEK_DAY_KEYS_def by (simp_all del: set_upt)
  then have "hd days \<in> show_nat ` set [1..<8]" using hd_in_set by blast
  then obtain k where "hd days = show_nat k" "k \<in> set [1..<8]" by (rule imageE)
  then have k: "show_nat k \<in> set days" "1 \<le> k" "k < 8" using hd_in_set [OF \<open>days \<noteq> []\<close>] by (simp_all only: set_upt atLeastLessThan_iff)
  define z' where "z' = z + (int k - 4 - z) mod 7"
  have "weekday z' = int k mod 7"
  proof -
    have "(z + (int k - 4 - z) mod 7 + 4) mod 7 = (z + 4 + (int k - 4 - z) mod 7) mod 7" by (simp only: ac_simps)
    also have "\<dots> = (z + 4 + (int k - 4 - z)) mod 7" by (rule mod_add_right_eq)
    also have "z + 4 + (int k - 4 - z) = int k" by simp
    finally show ?thesis unfolding weekday_def z'_def .
  qed
  then have "(if weekday z' = 0 then 7 else weekday z') = int k"
    using k(2,3) by (cases "k = 7") auto
  then have "is_candidate CycleW days (z' * DAY_MS)"
    using k(1) by (simp only: week_candidate) (simp add: show_integer_def)
  moreover have "z \<le> z'" "z' < z + 7" unfolding z'_def by simp_all
  ultimately show ?thesis by blast
qed

lemma month_candidate:
  assumes "0 \<le> m" "m \<le> 11" "1 \<le> d" "d \<le> month_length y m" "100 \<le> y"
  shows "is_candidate CycleM days (make_day y m d * DAY_MS) \<longleftrightarrow>
    Fin (of_int d) \<in> set (map (\<lambda>k. if k = LAST_DAY_OF_MONTH then Fin (of_int (month_length y m))
      else num_min (number_of_string k) (month_length y m)) days)"
proof -
  note p = make_day_parts [OF assms(1-4)]
  have "getDate (new_date y (m + 1) 0 0 0 0) = month_length y m"
    using assms(5) last_of_month [OF assms(1,2)] by (simp add: new_date_def getDate_def midnight)
  moreover have "getFullYear (make_day y m d * DAY_MS) = y" "getMonth (make_day y m d * DAY_MS) = m" "getDate (make_day y m d * DAY_MS) = d"
    by (simp_all add: getFullYear_def getMonth_def getDate_def midnight p)
  ultimately show ?thesis by (simp only: is_candidate_def cycle.case Let_def)
qed

lemma num_min_int: "num_min (Fin (of_int i)) j = Fin (of_int (min i j))"
  by (simp add: min_def)

lemma month_has_day:
  assumes "valid_days CycleM days" "0 \<le> m" "m \<le> 11" "100 \<le> y"
  shows "\<exists>d. 1 \<le> d \<and> d \<le> month_length y m \<and> is_candidate CycleM days (make_day y m d * DAY_MS)"
proof -
  have "days \<noteq> []" "set days \<subseteq> set MONTH_DAY_KEYS"
    using assms(1) unfolding valid_days_def by simp_all
  then obtain k where k: "k \<in> set days" "k \<in> set MONTH_DAY_KEYS" by (metis hd_in_set subsetD)
  note l = month_length_range [OF assms(2,3), of y]
  show ?thesis
  proof (cases "k = LAST_DAY_OF_MONTH")
    case True
    have d: "1 \<le> month_length y m" "month_length y m \<le> month_length y m" using l by simp_all
    have "Fin (of_int (month_length y m)) = (if k = LAST_DAY_OF_MONTH then Fin (of_int (month_length y m))
      else num_min (number_of_string k) (month_length y m))" using True by simp
    then have "is_candidate CycleM days (make_day y m (month_length y m) * DAY_MS)"
      unfolding month_candidate [OF assms(2,3) d assms(4)] set_map using k(1) by (rule image_eqI)
    then show ?thesis using d by blast
  next
    case False
    then obtain n where n: "k = show_nat n" "1 \<le> n" "n < 32"
      using k(2) unfolding MONTH_DAY_KEYS_def by auto
    define d where "d = min (int n) (month_length y m)"
    have d: "1 \<le> d" "d \<le> month_length y m" using n l unfolding d_def by simp_all
    have "num_min (number_of_string k) (month_length y m) = Fin (of_int d)"
      unfolding n number_of_string_show_nat d_def of_int_of_nat_eq [symmetric, where 'a = rat] by (rule num_min_int)
    then have "Fin (of_int d) = (if k = LAST_DAY_OF_MONTH then Fin (of_int (month_length y m))
      else num_min (number_of_string k) (month_length y m))" using False by (simp only: if_False)
    then have "is_candidate CycleM days (make_day y m d * DAY_MS)"
      unfolding month_candidate [OF assms(2,3) d assms(4)] set_map using k(1) by (rule image_eqI)
    then show ?thesis using d by blast
  qed
qed

lemma month_recurs:
  assumes "valid_days CycleM days" "100 \<le> year_from_day z"
  shows "\<exists>z'. z < z' \<and> z' \<le> z + 61 \<and> is_candidate CycleM days (z' * DAY_MS)"
proof -
  define y m where "y = year_from_day z" and "m = month_from_day z"
  have m: "0 \<le> m" "m \<le> 11" and d: "1 \<le> date_from_day z" "date_from_day z \<le> month_length y m" and z: "make_day y m (date_from_day z) = z"
    unfolding y_def m_def by (rule day_parts)+
  define y' m' where "y' = (if m = 11 then y + 1 else y)" and "m' = (if m = 11 then 0 else m + 1)"
  have m': "0 \<le> m'" "m' \<le> 11" "100 \<le> y'" using m assms(2) unfolding y'_def m'_def y_def by simp_all
  obtain e where e: "1 \<le> e" "e \<le> month_length y' m'" "is_candidate CycleM days (make_day y' m' e * DAY_MS)"
    using month_has_day [OF assms(1) m'] by blast
  have shift: "make_day y m' e = make_day y m' 0 + e" "make_day y m k = make_day y m 0 + k" for y m k
    by (simp_all add: make_day_def Let_def)
  have "make_day y' m' 0 = make_day y (m + 1) 0"
    using m unfolding y'_def m'_def by (simp add: make_day_def Let_def)
  then have "make_day y' m' e = z + (month_length y m - date_from_day z) + e"
    using shift month_end [OF m, of y] z by (metis add.assoc add_diff_eq diff_add_cancel add.commute)
  moreover have "month_length y m \<le> 31" "month_length y' m' \<le> 31" using month_length_range m m' by blast+
  ultimately show ?thesis using e d by (intro exI [of _ "make_day y' m' e"]) simp
qed

lemma schedule_recurs:
  assumes "valid_days cyc days" "100 \<le> year_from_day (z - 1)"
  shows "\<exists>z'. z \<le> z' \<and> z' < z + period cyc \<and> is_candidate cyc days (z' * DAY_MS)"
proof (cases cyc)
  case CycleD
  then show ?thesis by (intro exI [of _ z]) (simp add: period_def is_candidate_def)
next
  case CycleW
  then show ?thesis using week_recurs assms(1) by (simp add: period_def)
next
  case CycleM
  then obtain z' where "z - 1 < z'" "z' \<le> z - 1 + 61" "is_candidate cyc days (z' * DAY_MS)"
    using month_recurs [of days "z - 1"] assms by blast
  then show ?thesis using CycleM by (intro exI [of _ z']) (simp add: period_def)
qed


section \<open>Validation is exact\<close>

definition moment_in :: "int \<Rightarrow> int \<Rightarrow> cycle \<Rightarrow> string list \<Rightarrow> string \<Rightarrow> int \<Rightarrow> bool" where
  "moment_in a b cyc days t z \<longleftrightarrow>
     is_candidate cyc days (z * DAY_MS) \<and> a \<le> z * DAY_MS + time_ms t \<and> z * DAY_MS + time_ms t \<le> b"

lemma day_bracket: "day_of a * DAY_MS \<le> a \<and> a < (day_of a + 1) * DAY_MS"
proof -
  have "day_of a * DAY_MS \<le> a" using midnight(3) by blast
  moreover have "\<not> (day_of a + 1) * DAY_MS \<le> a" unfolding midnight(3) by simp
  ultimately show ?thesis by simp
qed

text \<open>A range of one period always holds a moment, on one of its first days.\<close>

lemma moment_within:
  assumes "isValidTime t" "valid_days cyc days" "101 \<le> getFullYear a"
  shows "\<exists>z. day_of a \<le> z \<and> z \<le> day_of a + 61 \<and> is_candidate cyc days (z * DAY_MS) \<and>
    a \<le> z * DAY_MS + time_ms t \<and> z * DAY_MS + time_ms t < a + period cyc * DAY_MS"
proof -
  define z0 where "z0 = (if a \<le> day_of a * DAY_MS + time_ms t then day_of a else day_of a + 1)"
  note ms = time_ms_range [OF assms(1)] and br = day_bracket [of a]
  have z0: "a \<le> z0 * DAY_MS + time_ms t" "z0 * DAY_MS + time_ms t < a + DAY_MS" "day_of a \<le> z0" "z0 \<le> day_of a + 1"
    using ms br unfolding z0_def by (simp_all add: distrib_right)
  have "year_from_day (day_of a) \<le> year_from_day (day_of a - 1) + 1"
  proof -
    have "day_of a - 1 \<le> day_of a" by simp
    have "day_from_year (year_from_day (day_of a)) \<le> day_of a" "day_of a - 1 < day_from_year (year_from_day (day_of a - 1) + 1)"
      using year_from_day [of "day_of a"] year_from_day [of "day_of a - 1"] by blast+
    then show ?thesis
      using day_from_year_less [of "year_from_day (day_of a - 1) + 1" "year_from_day (day_of a)"] by linarith
  qed
  then have "100 \<le> year_from_day (day_of a - 1)" using assms(3) unfolding getFullYear_def by linarith
  then have "100 \<le> year_from_day (z0 - 1)" using year_mono [of "day_of a - 1" "z0 - 1"] z0(3) by linarith
  from schedule_recurs [OF assms(2) this] obtain z where z: "z0 \<le> z" "z < z0 + period cyc" "is_candidate cyc days (z * DAY_MS)"
    by blast
  have "z0 * DAY_MS \<le> z * DAY_MS" "z * DAY_MS \<le> (z0 + period cyc - 1) * DAY_MS"
    using z by (intro mult_right_mono; simp add: DAY_MS_def)+
  moreover have "(z0 + period cyc - 1) * DAY_MS = z0 * DAY_MS + period cyc * DAY_MS - DAY_MS" by (simp add: algebra_simps)
  moreover have "period cyc \<le> 61" by (cases cyc) (simp_all add: period_def)
  ultimately show ?thesis using z z0 by (intro exI [of _ z]) linarith
qed

text \<open>So the guard of the enumeration is never the reason for an empty result.\<close>

lemma dates_exist:
  assumes "isValidTime t" "valid_days cyc days" "101 \<le> getFullYear a"
  shows "getScheduledDatesWithinRange a b cyc days t = [] \<longleftrightarrow> \<not> (\<exists>z. moment_in a b cyc days t z)"
proof -
  have "100 \<le> getFullYear a" using assms(3) by simp
  then have eq: "getScheduledDatesWithinRange a b cyc days t = [] \<longleftrightarrow>
      \<not> (\<exists>z \<in> {day_of a .. min (day_of b) (day_of a + 7319)}. moment_in a b cyc days t z)"
    unfolding scheduled_dates [OF assms(1) \<open>100 \<le> getFullYear a\<close>] by (simp add: filter_empty_conv moment_in_def)
  have "\<exists>z \<in> {day_of a .. min (day_of b) (day_of a + 7319)}. moment_in a b cyc days t z" if m: "moment_in a b cyc days t z" for z
  proof -
    note ms = time_ms_range [OF assms(1)]
    have zb: "z * DAY_MS \<le> b" using m ms unfolding moment_in_def by linarith
    have "a < (z + 1) * DAY_MS" using m ms unfolding moment_in_def by (simp add: distrib_right)
    then have za: "day_of a \<le> z" using midnight(3) [of "z + 1" a] by simp
    show ?thesis
    proof (cases "z \<le> day_of a + 61")
      case True
      then show ?thesis using za zb m midnight(3) by (intro bexI [of _ z]) auto
    next
      case False
      obtain y where y: "day_of a \<le> y" "y \<le> day_of a + 61" "is_candidate cyc days (y * DAY_MS)" "a \<le> y * DAY_MS + time_ms t"
        using moment_within [OF assms] by blast
      have "y * DAY_MS \<le> z * DAY_MS" using y(2) False by (intro mult_right_mono) (simp_all add: DAY_MS_def)
      then have "moment_in a b cyc days t y" "y * DAY_MS \<le> b" using y m zb unfolding moment_in_def by auto
      then show ?thesis using y(1,2) midnight(3) by (intro bexI [of _ y]) auto
    qed
  qed
  then show ?thesis unfolding eq by blast
qed

lemma period_schedulable:
  assumes "isValidTime t" "valid_days cyc days" "101 \<le> getFullYear a" "a + period cyc * DAY_MS \<le> b"
  shows "getScheduledDatesWithinRange a b cyc days t \<noteq> []"
proof -
  obtain z where "is_candidate cyc days (z * DAY_MS)" "a \<le> z * DAY_MS + time_ms t" "z * DAY_MS + time_ms t < a + period cyc * DAY_MS"
    using moment_within [OF assms(1-3)] by blast
  then have "moment_in a b cyc days t z" using assms(4) unfolding moment_in_def by simp
  then show ?thesis using dates_exist [OF assms(1-3)] by blast
qed

lemma cycle_errors_none: "cycle_errors (Some c) days = [] \<longleftrightarrow> valid_days c days"
  by (cases c) (auto simp: cycle_errors_def valid_days_def list_ex_iff)

lemma time_errors_none: "time_errors t = [] \<longleftrightarrow> isValidTime t"
proof -
  have "\<not> isValidTime ''''" by code_simp
  then show ?thesis by (auto simp: time_errors_def)
qed

text \<open>The form is accepted exactly when it describes a task that will run.\<close>

lemma schedule_accepted:
  assumes a: "parseDateTime (sv_startTime v) = Some a" "101 \<le> getFullYear a"
  shows "isScheduleValid (validateSchedule v now) \<longleftrightarrow>
    sv_scheduleId v \<noteq> '''' \<and> utf16_length (sv_scheduleDesc v) \<le> 200 \<and> isValidTime (sv_time v) \<and>
    (\<exists>b cyc. parseDateTime (sv_endTime v) = Some b \<and> sv_cycle v = Some cyc \<and> valid_days cyc (sv_days v) \<and>
       a + DAY_MS \<le> b \<and> now \<le> b \<and> (\<exists>z. moment_in a b cyc (sv_days v) (sv_time v) z))"
proof (cases "parseDateTime (sv_endTime v)")
  case None
  then show ?thesis by (simp add: isScheduleValid_def validateSchedule_def Let_def range_errors_def a)
next
  case (Some b)
  have r: "range_errors (Some a) (Some b) now = [] \<longleftrightarrow> a + DAY_MS \<le> b \<and> now \<le> b"
    by (auto simp: range_errors_def SCHEDULE_MIN_RANGE_MS_def DAY_MS_def)
  show ?thesis
  proof (cases "sv_cycle v")
    case None
    then show ?thesis by (simp add: isScheduleValid_def validateSchedule_def Let_def cycle_errors_def)
  next
    case (Some c)
    have "isScheduleValid (validateSchedule v now) \<longleftrightarrow>
        sv_scheduleId v \<noteq> '''' \<and> utf16_length (sv_scheduleDesc v) \<le> 200 \<and> (a + DAY_MS \<le> b \<and> now \<le> b) \<and>
        valid_days c (sv_days v) \<and> isValidTime (sv_time v) \<and> getScheduledDatesWithinRange a b c (sv_days v) (sv_time v) \<noteq> []"
      unfolding isScheduleValid_def validateSchedule_def Let_def \<open>parseDateTime (sv_endTime v) = Some b\<close> a Some
      using r cycle_errors_none [of c "sv_days v"] time_errors_none [of "sv_time v"] by (auto simp: SCHEDULE_DESC_MAX_def)
    then show ?thesis
      using dates_exist [of "sv_time v" c "sv_days v" a b] a(2) Some \<open>parseDateTime (sv_endTime v) = Some b\<close> by auto
  qed
qed


section \<open>The request\<close>

lemma parsed_whole_seconds: "parseDateTime s = Some a \<Longrightarrow> a mod 1000 = 0"
proof -
  have "(x * DAY_MS + h * 3600000 + m * 60000 + k * 1000) mod 1000 = 0" for x h m k
  proof -
    have "x * DAY_MS + h * 3600000 + m * 60000 + k * 1000 = 1000 * (x * 86400 + h * 3600 + m * 60 + k)" by (simp add: DAY_MS_def)
    then show ?thesis by (simp only: mod_mult_self1_is_0)
  qed
  moreover assume "parseDateTime s = Some a"
  ultimately show ?thesis by (auto simp: parseDateTime_def Let_def new_date_def split: if_splits)
qed

lemma day_key_text: "d \<in> set (if cyc = CycleW then WEEK_DAY_KEYS else MONTH_DAY_KEYS) \<Longrightarrow> CHR '','' \<notin> set d \<and> d \<noteq> ''end''"
proof -
  have "CHR '','' \<notin> set (show_nat n) \<and> show_nat n \<noteq> ''end''" for n
    using show_nat_digits [of _ n] by (force simp: is_digit_def)
  moreover assume "d \<in> set (if cyc = CycleW then WEEK_DAY_KEYS else MONTH_DAY_KEYS)"
  ultimately show ?thesis
    unfolding WEEK_DAY_KEYS_def MONTH_DAY_KEYS_def LAST_DAY_OF_MONTH_def by (auto split: if_splits simp del: set_upt)
qed

definition day_name :: "string \<Rightarrow> string" where
  "day_name d = (if d = LAST_DAY_OF_MONTH then ''end'' else d)"

lemma schedule_date_days:
  assumes "valid_days cyc days" "cyc \<noteq> CycleD"
  shows "set (split_on CHR '','' (buildScheduleDate cyc days)) = day_name ` set days"
    "distinct (split_on CHR '','' (buildScheduleDate cyc days))"
proof -
  have k: "days \<noteq> []" "\<forall>d\<in>set days. CHR '','' \<notin> set d \<and> d \<noteq> ''end''"
    using assms day_key_text [of _ cyc] unfolding valid_days_def by blast+
  have s: "set (sortDays days) = set days" "distinct (sortDays days)" by (simp_all add: sortDays_def)
  have "split_on CHR '','' (buildScheduleDate cyc days) = map day_name (sortDays days)"
    unfolding buildScheduleDate_def using assms(2) k s(1)
    by (simp add: day_name_def [abs_def]) (subst split_join, auto)
  moreover have "inj_on day_name (set days)" using k(2) by (auto simp: inj_on_def day_name_def)
  ultimately show "set (split_on CHR '','' (buildScheduleDate cyc days)) = day_name ` set days"
    "distinct (split_on CHR '','' (buildScheduleDate cyc days))"
    using s by (simp_all add: distinct_map)
qed

lemma request_faithful:
  assumes "parseDateTime (sv_startTime v) = Some a" "1000 \<le> getFullYear a" "getFullYear a \<le> 9999"
    and "parseDateTime (sv_endTime v) = Some b" "1000 \<le> getFullYear b" "getFullYear b \<le> 9999"
    and "sv_cycle v = Some cyc" "valid_days cyc (sv_days v)"
  shows "\<exists>r. buildSchedulePayload v p g ns = Some r \<and>
    parseDateTime (cr_startTime (sr_cron r)) = Some a \<and> parseDateTime (cr_endTime (sr_cron r)) = Some b \<and>
    (cyc \<noteq> CycleD \<longrightarrow> set (split_on CHR '','' (cr_scheduleDate (sr_cron r))) = day_name ` set (sv_days v))"
proof -
  have "parseDateTime (formatDateTime a) = Some a" "parseDateTime (formatDateTime b) = Some b"
    using date_time_round_trip(1) parsed_whole_seconds assms by simp_all
  then show ?thesis using assms schedule_date_days(1) by (simp add: buildSchedulePayload_def Let_def)
qed

end
