(* ===== verification/CreateProject.thy ===== *)
theory CreateProject
  imports TemplateRegistry Utils
begin

text \<open>
  Creating a project: \<open>validation.ts\<close> and \<open>service.ts\<close> of \<open>features/create-project\<close>.  The backend
  is a parameter: what it answers to a call, given the calls before it, and the order in which the
  calls made at once settle.  The model returns the calls made, in order, next to the result.
\<close>

section \<open>Names and descriptions\<close>

definition PROJECT_NAME_MAX :: nat where "PROJECT_NAME_MAX = 32"
definition PROJECT_DESC_MAX :: nat where "PROJECT_DESC_MAX = 128"
definition MIN_PARTICIPANTS :: nat where "MIN_PARTICIPANTS = 2"
definition MAX_PARTICIPANTS :: nat where "MAX_PARTICIPANTS = 10"

text \<open>The pattern of names is that of column names; the result is the key of the message, if any.\<close>

definition validateProjectName :: "string \<Rightarrow> string option" where
  "validateProjectName name =
     (let v = trim name in
      if v = '''' then Some ''projectWizard.errors.nameRequired''
      else if utf16_length v > PROJECT_NAME_MAX then Some ''projectWizard.errors.nameTooLong''
      else if \<not> legal_name v then Some ''projectWizard.errors.nameCharset''
      else None)"

definition validateProjectDescription :: "string option \<Rightarrow> string option" where
  "validateProjectDescription desc =
     (let v = trim (str_or desc '''') in
      if v = '''' then None
      else if utf16_length v > PROJECT_DESC_MAX then Some ''projectWizard.errors.descTooLong''
      else if \<not> legal_name v then Some ''projectWizard.errors.descCharset''
      else None)"

definition validateParticipants :: "string list \<Rightarrow> string option" where
  "validateParticipants ids =
     (let count = length (dedup (filter (\<lambda>i. i \<noteq> '''') ids)) in
      if count < MIN_PARTICIPANTS then Some ''projectWizard.errors.tooFewNodes''
      else if count > MAX_PARTICIPANTS then Some ''projectWizard.errors.tooManyNodes''
      else None)"

definition validateTeeNode :: "compute_mode \<Rightarrow> string option \<Rightarrow> string option" where
  "validateTeeNode mode teeNodeId =
     (if mode = TEE \<and> \<not> truthy teeNodeId then Some ''projectWizard.errors.teeNodeRequired'' else None)"

text \<open>\<open>replace(/\s+/g, '_')\<close>, \<open>replace\<close> of what the pattern excludes, \<open>replace(/_+/g, '_')\<close>.\<close>

fun join_spaces :: "bool \<Rightarrow> string \<Rightarrow> string" where
  "join_spaces prev [] = []"
| "join_spaces prev (c # r) =
     (let k = ws_length (c # r) in
      if k = 0 then c # join_spaces False r
      else (if prev then [] else [CHR ''_'']) @ join_spaces True (drop (k - 1) r))"

fun keep_legal :: "string \<Rightarrow> string" where
  "keep_legal [] = []"
| "keep_legal (a # s) =
     (if word_char a then a # keep_legal s
      else (case s of
          b # c # r \<Rightarrow> if cjk_bytes a b c then a # b # c # keep_legal r else keep_legal s
        | _ \<Rightarrow> keep_legal s))"

fun join_underscores :: "bool \<Rightarrow> string \<Rightarrow> string" where
  "join_underscores prev [] = []"
| "join_underscores prev (c # r) =
     (if c = CHR ''_'' then (if prev then [] else [c]) @ join_underscores True r else c # join_underscores False r)"

text \<open>\<open>slice(0, n)\<close> of a text whose characters are one unit each.\<close>

definition continuation :: "char \<Rightarrow> bool" where
  "continuation c \<longleftrightarrow> 0x80 \<le> (of_char c :: nat) \<and> (of_char c :: nat) < 0xC0"

fun take_units :: "nat \<Rightarrow> string \<Rightarrow> string" where
  "take_units 0 s = []"
| "take_units (Suc n) [] = []"
| "take_units (Suc n) (c # s) = c # takeWhile continuation s @ take_units n (dropWhile continuation s)"

definition toValidProjectName :: "string \<Rightarrow> string" where
  "toValidProjectName raw =
     (let cleaned = join_underscores False (keep_legal (join_spaces False raw));
          name = take_units PROJECT_NAME_MAX cleaned
      in if name = '''' then ''project'' else name)"

section \<open>A cleaned name is valid\<close>

lemma word_char_ascii: "word_char c \<Longrightarrow> (of_char c :: nat) < 0x80 \<and> \<not> is_ws c"
  by (auto simp: word_char_def is_upper_def is_lower_def is_digit_def is_ws_def)

lemma cjk_high: "cjk_bytes a b c \<Longrightarrow>
    0xE0 \<le> (of_char a :: nat) \<and> (of_char a :: nat) < 0xF0 \<and> continuation b \<and> continuation c \<and> \<not> word_char a \<and>
    a \<noteq> CHR ''_'' \<and> b \<noteq> CHR ''_'' \<and> c \<noteq> CHR ''_'' \<and> \<not> is_ws a \<and> \<not> is_ws b \<and> \<not> is_ws c"
  using word_char_ascii [of a] by (auto simp: cjk_bytes_def Let_def continuation_def is_ws_def)

lemma legal_cases:
  assumes "legal_chars s"
  obtains "s = []" | a r where "s = a # r" "word_char a" "legal_chars r"
    | a b c r where "s = a # b # c # r" "cjk_bytes a b c" "legal_chars r"
  using assms by (cases s rule: legal_chars.cases) (auto split: if_splits list.splits)

lemma legal_word [simp]: "word_char a \<Longrightarrow> legal_chars (a # r) = legal_chars r"
  by simp

lemma legal_cjk [simp]: "cjk_bytes a b c \<Longrightarrow> legal_chars (a # b # c # r) = legal_chars r"
  using cjk_high [of a b c] by simp

lemma legal_induct [consumes 1, case_names Nil word cjk]:
  assumes "legal_chars s" "P []" "\<And>a r. word_char a \<Longrightarrow> legal_chars r \<Longrightarrow> P r \<Longrightarrow> P (a # r)"
    "\<And>a b c r. cjk_bytes a b c \<Longrightarrow> legal_chars r \<Longrightarrow> P r \<Longrightarrow> P (a # b # c # r)"
  shows "P s"
  using assms(1)
proof (induction "length s" arbitrary: s rule: less_induct)
  case less
  from less.prems show ?case
  proof (cases rule: legal_cases)
    case 1
    then show ?thesis using assms(2) by simp
  next
    case (2 a r)
    then show ?thesis using assms(3) less.hyps [of r] by simp
  next
    case (3 a b c r)
    then show ?thesis using assms(4) less.hyps [of r] by simp
  qed
qed

lemma keep_legal_legal: "legal_chars (keep_legal s)"
proof (induction s rule: keep_legal.induct)
  case (2 a s)
  then show ?case by (auto split: list.split)
qed simp

lemma join_underscores_legal: "legal_chars s \<Longrightarrow> legal_chars (join_underscores prev s)"
proof (induction arbitrary: prev rule: legal_induct)
  case (cjk a b c r)
  then show ?case using cjk_high [of a b c] by simp
qed (auto simp: word_char_def)

lemma legal_no_continuation: "legal_chars s \<Longrightarrow> dropWhile continuation s = s \<and> takeWhile continuation s = []"
  by (cases rule: legal_cases) (auto simp: continuation_def dest: word_char_ascii cjk_high)

lemma take_units_Nil [simp]: "take_units n [] = []"
  by (cases n) simp_all

lemma utf16_Nil [simp]: "utf16_length [] = 0"
  by (simp add: utf16_length_def)

lemma take_units_legal: "legal_chars s \<Longrightarrow> legal_chars (take_units n s)"
proof (induction arbitrary: n rule: legal_induct)
  case (word a r)
  then show ?case using legal_no_continuation by (cases n) simp_all
next
  case (cjk a b c r)
  then show ?case using legal_no_continuation [of r] cjk_high [of a b c] by (cases n) simp_all
qed simp

lemma utf16_append [simp]: "utf16_length (s @ t) = utf16_length s + utf16_length t"
  by (simp add: utf16_length_def)

lemma utf16_word: "word_char a \<Longrightarrow> utf16_length (a # r) = Suc (utf16_length r)"
  using word_char_ascii [of a] by (simp add: utf16_length_def)

lemma utf16_cjk: "cjk_bytes a b c \<Longrightarrow> utf16_length (a # b # c # r) = Suc (utf16_length r)"
  using cjk_high [of a b c] by (auto simp: utf16_length_def continuation_def)

lemma take_units_length: "legal_chars s \<Longrightarrow> utf16_length (take_units n s) \<le> n"
proof (induction arbitrary: n rule: legal_induct)
  case (word a r)
  then show ?case using legal_no_continuation [of r] by (cases n) (simp_all add: utf16_word)
next
  case (cjk a b c r)
  then show ?case using legal_no_continuation [of r] cjk_high [of a b c]
    by (cases n) (simp_all add: utf16_cjk)
qed simp

lemma legal_trim: "legal_chars s \<Longrightarrow> trim s = s"
proof -
  assume "legal_chars s"
  then have "\<forall>c \<in> set s. \<not> is_ws c"
    by (induction rule: legal_induct) (auto dest: word_char_ascii cjk_high)
  then have "dropWhile is_ws t = t" if "set t = set s" for t using that by (cases t) auto
  from this [of s] this [of "rev s"] have "dropWhile is_ws s = s" "dropWhile is_ws (rev s) = rev s" by simp_all
  then show ?thesis by (simp add: trim_def)
qed

lemma valid_project_name: "validateProjectName (toValidProjectName raw) = None"
proof -
  define name where "name = take_units 32 (join_underscores False (keep_legal (join_spaces False raw)))"
  have "legal_chars name" "utf16_length name \<le> 32"
    unfolding name_def by (intro take_units_legal take_units_length join_underscores_legal keep_legal_legal)+
  then have "validateProjectName name = None" if "name \<noteq> ''''"
    using that legal_trim by (simp add: validateProjectName_def PROJECT_NAME_MAX_def legal_name_def)
  moreover have "validateProjectName ''project'' = None" by code_simp
  ultimately show ?thesis
    unfolding toValidProjectName_def Let_def PROJECT_NAME_MAX_def name_def [symmetric] by simp
qed


section \<open>The calls\<close>

record create_input =
  ci_name :: string
  ci_description :: "string option"
  ci_computeMode :: compute_mode
  ci_computeFunc :: "string option"
  ci_teeNodeId :: "string option"
  ci_templateKey :: "string option"
  ci_graphName :: "string option"
  ci_participants :: "(participant \<times> string option) list"

record create_context =
  cx_platformType :: string
  cx_ownerType :: string
  cx_ownerId :: string

datatype backend_call =
    CreateProject string string string "string option" "string option"
  | AddNode string string
  | AddInst string string
  | AddDatatable string string string "column_config list option" "string option"
  | CreateGraph string string
  | UpdateGraph string string template_graph

datatype create_step = StepNode | StepInst | StepDatatable | StepGraph

record create_warning =
  cw_step :: create_step
  cw_target :: string
  cw_message :: string

record create_result =
  cr_projectId :: string
  cr_graphId :: "string option"
  cr_warnings :: "create_warning list"

text \<open>
  The backend answers a call with an identifier or rejects it with a message, given the calls made
  before; \<open>bk_settles n\<close> is the order in which \<open>n\<close> calls made at once settle.
\<close>

record backend =
  bk_answer :: "backend_call list \<Rightarrow> backend_call \<Rightarrow> string + string"
  bk_settles :: "backend_call list \<Rightarrow> nat \<Rightarrow> nat list"

definition EMBEDDED_INSTS :: "string list" where "EMBEDDED_INSTS = [''alice'', ''bob'']"

definition resolveInstIds :: "create_input \<Rightarrow> create_context \<Rightarrow> string list" where
  "resolveInstIds input ctx =
     (if cx_platformType ctx \<noteq> ''CENTER'' then []
      else dedup (concat (map (\<lambda>(p, inst).
        if truthy inst then [the inst] else if pt_nodeId p \<in> set EMBEDDED_INSTS then [pt_nodeId p] else []) (ci_participants input))))"

definition resolveNodeIds :: "create_input \<Rightarrow> create_context \<Rightarrow> string list" where
  "resolveNodeIds input ctx =
     (let isEdgeOnCenter = (cx_platformType ctx = ''CENTER'' \<and> cx_ownerType ctx = ''EDGE'' \<and> cx_ownerId ctx \<noteq> '''');
          ids = dedup (filter (\<lambda>i. i \<noteq> '''') (map (pt_nodeId \<circ> fst) (ci_participants input)))
      in if isEdgeOnCenter then filter (\<lambda>i. i \<noteq> cx_ownerId ctx) ids else ids)"

section \<open>The sequence\<close>

text \<open>
  One \<open>Promise.all\<close>: the calls are made in order before any of them settles; a rejected call
  leaves a warning, and the warnings come in the order in which the calls settle.
\<close>

definition call_all ::
  "backend \<Rightarrow> backend_call list \<Rightarrow> create_step \<Rightarrow> (string \<times> backend_call) list \<Rightarrow> backend_call list \<times> create_warning list" where
  "call_all bk hist step calls =
     (let answers = map (\<lambda>i. bk_answer bk (hist @ map snd (take i calls)) (snd (calls ! i))) [0..<length calls] in
      (hist @ map snd calls,
       concat (map (\<lambda>i. case answers ! i of
           Inl message \<Rightarrow> [\<lparr>cw_step = step, cw_target = fst (calls ! i), cw_message = message\<rparr>]
         | Inr _ \<Rightarrow> []) (bk_settles bk hist (length calls)))))"

definition tee_of :: "create_input \<Rightarrow> string option" where
  "tee_of input = (if ci_computeMode input = TEE then ci_teeNodeId input else None)"

definition node_calls :: "create_input \<Rightarrow> create_context \<Rightarrow> string \<Rightarrow> (string \<times> backend_call) list" where
  "node_calls input ctx pid = map (\<lambda>i. (i, AddNode pid i)) (resolveNodeIds input ctx)"

definition inst_calls :: "create_input \<Rightarrow> create_context \<Rightarrow> string \<Rightarrow> (string \<times> backend_call) list" where
  "inst_calls input ctx pid = map (\<lambda>i. (i, AddInst pid i)) (resolveInstIds input ctx)"

definition table_calls :: "create_input \<Rightarrow> string \<Rightarrow> (string \<times> backend_call) list" where
  "table_calls input pid =
     map (\<lambda>p. (pt_nodeId p @ ''/'' @ the (pt_datatableId p),
         AddDatatable pid (pt_nodeId p) (the (pt_datatableId p))
           (if truthy (ci_templateKey input) then defaultTableConfigs (pt_nodeId p) (the (ci_templateKey input)) else None)
           (tee_of input)))
       (filter (\<lambda>p. truthy (pt_datatableId p)) (map fst (ci_participants input)))"

definition graph_name :: "create_input \<Rightarrow> string \<Rightarrow> string" where
  "graph_name input key =
     (let given = trim (str_or (ci_graphName input) '''') in
      if given \<noteq> '''' then given
      else if key = ''blank'' then (utf8 [0xE8, 0x87, 0xAA, 0xE5, 0xAE, 0x9A, 0xE4, 0xB9, 0x89, 0xE8, 0xAE, 0xAD, 0xE7, 0xBB, 0x83, 0xE6, 0xB5, 0x81])
      else trim (ci_name input) @ ''-'' @ key)"

text \<open>The graph of the template: its failure is a warning, and the graph may exist without its nodes.\<close>

definition create_graph ::
  "backend \<Rightarrow> backend_call list \<Rightarrow> create_input \<Rightarrow> string \<Rightarrow> backend_call list \<times> string option \<times> create_warning list" where
  "create_graph bk hist input pid =
     (case (if truthy (ci_templateKey input) then templateByKey (the (ci_templateKey input)) else None) of
        None \<Rightarrow> (hist, None, [])
      | Some t \<Rightarrow>
          (let key = the (ci_templateKey input);
               warn = (\<lambda>m. [\<lparr>cw_step = StepGraph, cw_target = key, cw_message = m\<rparr>]);
               call = CreateGraph pid (graph_name input key)
           in case bk_answer bk hist call of
               Inl m \<Rightarrow> (hist @ [call], None, warn m)
             | Inr gid \<Rightarrow>
                 (let g = tpl_build t gid (buildTemplateConfigs (tpl_key t) (map fst (ci_participants input)));
                      update = UpdateGraph pid gid g
                  in if tg_nodes g = [] then (hist @ [call], Some gid, [])
                     else (hist @ [call, update], Some gid,
                       (case bk_answer bk (hist @ [call]) update of Inl m \<Rightarrow> warn m | Inr _ \<Rightarrow> [])))))"

definition project_call :: "create_input \<Rightarrow> backend_call" where
  "project_call input = CreateProject (trim (ci_name input)) (trim (str_or (ci_description input) ''''))
     (mode_name (ci_computeMode input)) (tee_of input) (ci_computeFunc input)"

definition createProjectWithSetup ::
  "create_input \<Rightarrow> create_context \<Rightarrow> backend \<Rightarrow> backend_call list \<times> (string + create_result)" where
  "createProjectWithSetup input ctx bk =
     (let created = project_call input in
      case bk_answer bk [] created of
        Inl m \<Rightarrow> ([created], Inl m)
      | Inr pid \<Rightarrow>
          if pid = '''' then ([created], Inl ''project/create returned no projectId'')
          else
            (let (h1, w1) = call_all bk [created] StepNode (node_calls input ctx pid);
                 (h2, w2) = call_all bk h1 StepInst (inst_calls input ctx pid);
                 (h3, w3) = call_all bk h2 StepDatatable (table_calls input pid);
                 (h4, graphId, w4) = create_graph bk h3 input pid
             in (h4, Inr \<lparr>cr_projectId = pid, cr_graphId = graphId, cr_warnings = w1 @ w2 @ w3 @ w4\<rparr>)))"

section \<open>What is called, and what is reported\<close>

definition settles_all :: "backend \<Rightarrow> bool" where
  "settles_all bk \<longleftrightarrow> (\<forall>hist n. mset (bk_settles bk hist n) = mset [0..<n])"

lemma call_all_calls [simp]: "fst (call_all bk hist step calls) = hist @ map snd calls"
  by (simp add: call_all_def Let_def)

text \<open>The warnings of one phase are those of the rejected calls, each once.\<close>

definition rejected :: "backend \<Rightarrow> backend_call list \<Rightarrow> create_step \<Rightarrow> (string \<times> backend_call) list \<Rightarrow> create_warning list" where
  "rejected bk hist step calls =
     concat (map (\<lambda>i. case bk_answer bk (hist @ map snd (take i calls)) (snd (calls ! i)) of
         Inl message \<Rightarrow> [\<lparr>cw_step = step, cw_target = fst (calls ! i), cw_message = message\<rparr>]
       | Inr _ \<Rightarrow> []) [0..<length calls])"

lemma mset_concat_map: "mset xs = mset ys \<Longrightarrow> mset (concat (map f xs)) = mset (concat (map f ys))"
  by (metis mset_concat mset_map sum_mset_sum_list)

lemma call_all_warnings:
  assumes "settles_all bk"
  shows "mset (snd (call_all bk hist step calls)) = mset (rejected bk hist step calls)"
proof -
  define f where "f i = (case bk_answer bk (hist @ map snd (take i calls)) (snd (calls ! i)) of
      Inl message \<Rightarrow> [\<lparr>cw_step = step, cw_target = fst (calls ! i), cw_message = message\<rparr>] | Inr _ \<Rightarrow> [])" for i
  have p: "mset (bk_settles bk hist (length calls)) = mset [0..<length calls]" using assms by (simp add: settles_all_def)
  then have "\<forall>i \<in> set (bk_settles bk hist (length calls)). i < length calls" using mset_eq_setD [OF p] by simp
  then have "snd (call_all bk hist step calls) = concat (map f (bk_settles bk hist (length calls)))"
    unfolding call_all_def Let_def snd_conv f_def by (intro arg_cong [of _ _ concat] map_cong) simp_all
  then show ?thesis using mset_concat_map [OF p, of f] by (simp add: rejected_def f_def [abs_def])
qed

definition graph_calls :: "backend \<Rightarrow> backend_call list \<Rightarrow> create_input \<Rightarrow> string \<Rightarrow> backend_call list" where
  "graph_calls bk hist input pid = drop (length hist) (fst (create_graph bk hist input pid))"

lemma create_graph_calls: "fst (create_graph bk hist input pid) = hist @ graph_calls bk hist input pid"
  by (auto simp: create_graph_def graph_calls_def Let_def split: option.split sum.split)

text \<open>
  Nothing is called before the project exists; then come the nodes, the institutions, the tables
  and the graph, every phase after the previous one.
\<close>

lemma calls_in_order:
  assumes "bk_answer bk [] (project_call input) = Inr pid" "pid \<noteq> ''''"
  shows "\<exists>h. h = project_call input # map snd (node_calls input ctx pid) @ map snd (inst_calls input ctx pid) @ map snd (table_calls input pid) \<and>
    fst (createProjectWithSetup input ctx bk) = h @ graph_calls bk h input pid"
  using assms by (simp add: createProjectWithSetup_def Let_def case_prod_unfold create_graph_calls)

lemma creation_fails:
  "(\<exists>m. bk_answer bk [] (project_call input) = Inl m) \<or> bk_answer bk [] (project_call input) = Inr '''' \<longleftrightarrow>
   (\<exists>m. createProjectWithSetup input ctx bk = ([project_call input], Inl m))"
  by (auto simp: createProjectWithSetup_def Let_def case_prod_unfold split: sum.splits)

text \<open>Every rejected call is reported, and nothing else.\<close>

lemma warnings_exact:
  assumes "settles_all bk" "bk_answer bk [] (project_call input) = Inr pid" "pid \<noteq> ''''"
  shows "\<exists>r. snd (createProjectWithSetup input ctx bk) = Inr r \<and> cr_projectId r = pid \<and>
    (\<exists>h1 h2 h3. h1 = [project_call input] @ map snd (node_calls input ctx pid) \<and> h2 = h1 @ map snd (inst_calls input ctx pid) \<and>
      h3 = h2 @ map snd (table_calls input pid) \<and>
      mset (cr_warnings r) = mset (rejected bk [project_call input] StepNode (node_calls input ctx pid) @
        rejected bk h1 StepInst (inst_calls input ctx pid) @ rejected bk h2 StepDatatable (table_calls input pid) @
        snd (snd (create_graph bk h3 input pid))))"
  using assms(2,3) call_all_warnings [OF assms(1)]
  by (simp add: createProjectWithSetup_def Let_def case_prod_unfold)

text \<open>A node joins once; the account of an edge does not add its own node.\<close>

lemma nodes_joined:
  "distinct (resolveNodeIds input ctx)"
  "set (resolveNodeIds input ctx) = {pt_nodeId p | p inst. (p, inst) \<in> set (ci_participants input) \<and> pt_nodeId p \<noteq> ''''} -
     (if cx_platformType ctx = ''CENTER'' \<and> cx_ownerType ctx = ''EDGE'' then {cx_ownerId ctx} else {})"
  by (auto simp: resolveNodeIds_def Let_def image_iff) force+

lemma institutions_joined:
  "distinct (resolveInstIds input ctx)" "'''' \<notin> set (resolveInstIds input ctx)"
  "cx_platformType ctx \<noteq> ''CENTER'' \<Longrightarrow> resolveInstIds input ctx = []"
  by (auto simp: resolveInstIds_def truthy_iff EMBEDDED_INSTS_def split: if_splits)

text \<open>What is sent as the graph of a template is wired like the template.\<close>

lemma sent_graph_wired:
  assumes "UpdateGraph pid gid g \<in> set (graph_calls bk h input pid)" "no_line_break gid" "ci_templateKey input \<noteq> Some ''tee''"
  shows "well_wired g \<and> tg_nodes g \<noteq> []"
proof -
  from assms(1) obtain t where t: "truthy (ci_templateKey input)" "templateByKey (the (ci_templateKey input)) = Some t"
    "g = tpl_build t gid (buildTemplateConfigs (tpl_key t) (map fst (ci_participants input)))" "tg_nodes g \<noteq> []"
    by (auto simp: graph_calls_def create_graph_def Let_def split: if_splits option.splits sum.splits)
  then have "t \<in> set allTemplates" "tpl_key t \<noteq> ''tee''"
    using templateByKey_Some assms(3) by (auto simp: truthy_iff)
  then show ?thesis using all_well_wired assms(2) t(3,4) by simp
qed

section \<open>Every rejected call of the transcript is reported\<close>

text \<open>
  The messages of the rejected calls among \<open>calls ! i\<close> for \<open>i\<close> in \<open>is\<close>, when each call is answered
  after those before it.
\<close>

definition rejections :: "backend \<Rightarrow> backend_call list \<Rightarrow> nat list \<Rightarrow> string list" where
  "rejections bk calls is = concat (map (\<lambda>i. case bk_answer bk (take i calls) (calls ! i) of Inl m \<Rightarrow> [m] | Inr _ \<Rightarrow> []) is)"

lemma rejections_append: "rejections bk calls (is @ js) = rejections bk calls is @ rejections bk calls js"
  by (simp add: rejections_def)

lemma rejected_messages:
  "map cw_message (rejected bk hist step calls) =
     rejections bk (hist @ map snd calls @ rest) [length hist..<length hist + length calls]"
proof -
  have "[length hist..<length hist + length calls] = map (\<lambda>i. i + length hist) [0..<length calls]"
    by (simp add: map_add_upt add.commute)
  then show ?thesis
    unfolding rejected_def rejections_def map_concat
    by (auto simp: comp_def nth_append take_map intro!: arg_cong [of _ _ concat] map_cong split: sum.split)
qed

lemma graph_messages:
  "map cw_message (snd (snd (create_graph bk h input pid))) =
     rejections bk (h @ graph_calls bk h input pid) [length h..<length h + length (graph_calls bk h input pid)]"
proof (cases "if truthy (ci_templateKey input) then templateByKey (the (ci_templateKey input)) else None")
  case None
  then show ?thesis unfolding create_graph_def graph_calls_def by (simp add: rejections_def)
next
  case (Some t)
  define call where "call = CreateGraph pid (graph_name input (the (ci_templateKey input)))"
  show ?thesis
  proof (cases "bk_answer bk h call")
    case (Inl m)
    then show ?thesis unfolding create_graph_def graph_calls_def Let_def Some by (simp add: rejections_def call_def)
  next
    case (Inr gid)
    define g where "g = tpl_build t gid (buildTemplateConfigs (tpl_key t) (map fst (ci_participants input)))"
    show ?thesis
      using Inr unfolding create_graph_def graph_calls_def Let_def Some call_def [symmetric] g_def [symmetric]
      by (cases "tg_nodes g = []"; cases "bk_answer bk (h @ [call]) (UpdateGraph pid gid g)") (simp_all add: rejections_def nth_append g_def)
  qed
qed

lemma transcript_reported:
  assumes "settles_all bk" "bk_answer bk [] (project_call input) = Inr pid" "pid \<noteq> ''''"
    and "createProjectWithSetup input ctx bk = (calls, outcome)"
  shows "\<exists>r. outcome = Inr r \<and> cr_projectId r = pid \<and> hd calls = project_call input \<and>
    mset (map cw_message (cr_warnings r)) = mset (rejections bk calls [1..<length calls])"
proof -
  define c1 c2 c3 where c: "c1 = node_calls input ctx pid" "c2 = inst_calls input ctx pid" "c3 = table_calls input pid"
  define h1 h2 h3 where h: "h1 = [project_call input] @ map snd c1" "h2 = h1 @ map snd c2" "h3 = h2 @ map snd c3"
  define c4 where "c4 = graph_calls bk h3 input pid"
  obtain r where r: "outcome = Inr r" "cr_projectId r = pid"
      "mset (cr_warnings r) = mset (rejected bk [project_call input] StepNode c1 @ rejected bk h1 StepInst c2 @
         rejected bk h2 StepDatatable c3 @ snd (snd (create_graph bk h3 input pid)))"
    using warnings_exact [OF assms(1-3), of ctx] assms(4) unfolding c h by auto
  have calls: "calls = h3 @ c4"
    using calls_in_order [OF assms(2,3), of ctx] assms(4) by (simp add: c h c4_def)
  have s1: "[project_call input] @ map snd c1 @ map snd c2 @ map snd c3 @ c4 = calls" "length h1 = 1 + length c1"
    and s2: "calls = h1 @ map snd c2 @ (map snd c3 @ c4)" "length h2 = length h1 + length c2"
    and s3: "calls = h2 @ map snd c3 @ c4" "length h3 = length h2 + length c3" by (simp_all add: calls h)
  have "mset (map cw_message (cr_warnings r)) = image_mset cw_message (mset (cr_warnings r))" by simp
  also have "\<dots> = mset (map cw_message (rejected bk [project_call input] StepNode c1) @ map cw_message (rejected bk h1 StepInst c2) @
      map cw_message (rejected bk h2 StepDatatable c3) @ map cw_message (snd (snd (create_graph bk h3 input pid))))"
    unfolding r(3) by simp
  also have "map cw_message (rejected bk [project_call input] StepNode c1) = rejections bk calls [1..<length h1]"
    using rejected_messages [of bk "[project_call input]" StepNode c1 "map snd c2 @ map snd c3 @ c4"]
    unfolding s1(1) [symmetric] s1(2) by simp
  also have "map cw_message (rejected bk h1 StepInst c2) = rejections bk calls [length h1..<length h2]"
    unfolding s2 by (rule rejected_messages)
  also have "map cw_message (rejected bk h2 StepDatatable c3) = rejections bk calls [length h2..<length h3]"
    unfolding s3 by (rule rejected_messages)
  also have "map cw_message (snd (snd (create_graph bk h3 input pid))) = rejections bk calls [length h3..<length calls]"
    using graph_messages [of bk h3 input pid] unfolding c4_def [symmetric] calls [symmetric] by (simp add: calls)
  also have "rejections bk calls [1..<length h1] @ rejections bk calls [length h1..<length h2] @
      rejections bk calls [length h2..<length h3] @ rejections bk calls [length h3..<length calls] = rejections bk calls [1..<length calls]"
  proof -
    have le: "1 \<le> length h1" "length h1 \<le> length h2" "length h2 \<le> length h3" "length h3 \<le> length calls" by (simp_all add: h calls)
    have app: "[i..<k] = [i..<j] @ [j..<k]" if "i \<le> j" "j \<le> k" for i j k :: nat
      using upt_add_eq_append [of i j "k - j"] that by simp
    have "[length h2..<length calls] = [length h2..<length h3] @ [length h3..<length calls]" by (rule app [OF le(3,4)])
    moreover have "[length h1..<length calls] = [length h1..<length h2] @ [length h2..<length calls]"
      by (rule app [OF le(2) le_trans [OF le(3,4)]])
    moreover have "[1..<length calls] = [1..<length h1] @ [length h1..<length calls]"
      by (rule app [OF le(1) le_trans [OF le(2) le_trans [OF le(3,4)]]])
    ultimately have "[1..<length calls] = [1..<length h1] @ [length h1..<length h2] @ [length h2..<length h3] @ [length h3..<length calls]"
      by (simp only:)
    then show ?thesis by (simp add: rejections_append)
  qed
  finally show ?thesis using r(1,2) by (auto simp: calls h)
qed

end
