(* ===== verification/Report.thy ===== *)
theory Report
  imports JsConvert Utils
begin

text \<open>
  Result reports: \<open>web/packages/dag-next/src/result/report.ts\<close>, and the pivot configuration of
  \<open>result-view.tsx\<close>.  The cells of a report are values of the language; the records of the report
  are taken as their declared types say.  Adding two numbers is exact.
\<close>

section \<open>Values of a report\<close>

text \<open>\<open>VALUE_KEY_BY_TYPE\<close>\<close>

definition VALUE_KEY_BY_TYPE :: "(string \<times> string) list" where
  "VALUE_KEY_BY_TYPE = [(''float'', ''f''), (''int'', ''i64''), (''bool'', ''b''), (''str'', ''s''), (''AT_FLOAT'', ''f''),
     (''AT_INT'', ''i64''), (''AT_STRING'', ''s''), (''AT_BOOL'', ''b''), (''AT_FLOATS'', ''fs''), (''AT_INTS'', ''i64s''),
     (''AT_STRINGS'', ''ss''), (''AT_BOOLS'', ''bs'')]"

fun is_safe_integer :: "number \<Rightarrow> bool" where
  "is_safe_integer (Fin q) = (q = of_int (floor q) \<and> \<bar>q\<bar> \<le> 9007199254740991)"
| "is_safe_integer _ = False"

text \<open>\<open>/^-?\d+$/\<close>\<close>

definition integer_digits :: "string \<Rightarrow> bool" where
  "integer_digits s = (let r = (case s of c # t \<Rightarrow> if c = CHR ''-'' then t else s | [] \<Rightarrow> []) in r \<noteq> [] \<and> all_digits r)"

definition toNumber :: "jsval \<Rightarrow> jsval" where
  "toNumber v =
     (if v = Undefined \<or> v = Null then Undefined
      else (case v of
          JNum n \<Rightarrow> v
        | JStr s \<Rightarrow>
            (let n = number_of_string s in
             if n = NaN then v else if is_safe_integer n \<or> \<not> integer_digits s then JNum n else v)
        | _ \<Rightarrow> (let n = number_of v in if n = NaN then v else JNum n)))"

definition read_field :: "jsobj \<Rightarrow> string \<Rightarrow> jsval" where
  "read_field value k =
     (let raw = get_prop value k in
      if raw = Undefined \<or> raw = Null then Undefined
      else if k = ''f'' \<or> k = ''i64'' then toNumber raw
      else if k = ''fs'' \<or> k = ''i64s'' then
        (case raw of
           JArr xs \<Rightarrow> JArr (map (\<lambda>x. let n = toNumber x in if n = Undefined then JStr '''' else n) xs)
         | _ \<Rightarrow> raw)
      else raw)"

definition FIELD_ORDER :: "string list" where
  "FIELD_ORDER = [''s'', ''f'', ''i64'', ''b'', ''ss'', ''fs'', ''i64s'', ''bs'']"

text \<open>The declared field, else the first one that is present.\<close>

definition decodeValue :: "jsval \<Rightarrow> string option \<Rightarrow> jsval" where
  "decodeValue v type =
     (case v of
        JObj ob \<Rightarrow>
          (let declared = (case (if truthy type then map_of VALUE_KEY_BY_TYPE (the type) else None) of
                 None \<Rightarrow> Undefined | Some k \<Rightarrow> read_field ob k)
           in if declared \<noteq> Undefined then declared
              else (case filter (\<lambda>x. x \<noteq> Undefined) (map (read_field ob) FIELD_ORDER) of [] \<Rightarrow> Undefined | x # _ \<Rightarrow> x))
      | _ \<Rightarrow> Undefined)"

definition formatCell :: "jsval \<Rightarrow> string" where
  "formatCell v =
     (if v = Undefined \<or> v = Null then ''-''
      else (case v of JArr xs \<Rightarrow> join_with '', '' (map string_of xs) | _ \<Rightarrow> string_of v))"

definition scalarize :: "jsval \<Rightarrow> jsval" where
  "scalarize v =
     (if v = Undefined then JStr ''-''
      else (case v of JArr xs \<Rightarrow> JStr (join_with '', '' (map string_of xs)) | _ \<Rightarrow> v))"

section \<open>Reports\<close>

record report_item =
  ri_name :: string
  ri_type :: string
  ri_value :: jsval

record report_table =
  rt_headers :: "(string \<times> string) list"
  rt_rows :: "(string option \<times> jsval list) list"

datatype report_child =
    Descriptions "report_item list"
  | TableChild report_table
  | DivChild "report_child list"

record report_tab =
  tab_name :: "string option"
  tab_divs :: "report_child list list"

definition TAB_NAME_ZH :: "(string \<times> string) list" where
  "TAB_NAME_ZH = [(''SummaryReport'', (utf8 [0xE6, 0x80, 0xBB, 0xE8, 0xAF, 0x84, 0xE4, 0xBC, 0xB0, 0xE8, 0xA1, 0xA8])), (''eq_frequent_bin_report'', (utf8 [0xE7, 0xAD, 0x89, 0xE9, 0xA2, 0x91])), (''eq_range_bin_report'', (utf8 [0xE7, 0xAD, 0x89, 0xE5, 0xAE, 0xBD])),
     (''head_report'', (utf8 [0xE5, 0xA4, 0xB4, 0xE8, 0xA1, 0xA8])), (''eq_range_bin_tbl'', (utf8 [0xE7, 0xAD, 0x89, 0xE5, 0xAE, 0xBD]))]"

definition getTabName :: "string option \<Rightarrow> nat \<Rightarrow> bool \<Rightarrow> string" where
  "getTabName name index zh =
     (if \<not> truthy name then (if zh then (utf8 [0xE8, 0xBE, 0x93, 0xE5, 0x87, 0xBA, 0xE8, 0xA1, 0xA8]) @ show_nat (index + 1) else ''Table '' @ show_nat (index + 1))
      else if zh then str_or (map_of TAB_NAME_ZH (the name)) (the name) else the name)"

text \<open>
  \<open>parseReportTabs\<close>: an array, a text, a report or a distributed-data object.  \<open>parse\<close> stands for
  \<open>JSON.parse\<close>, \<open>None\<close> for its exception; the first argument bounds the nesting of objects within
  texts within objects.
\<close>

definition tab_like :: "jsval \<Rightarrow> bool" where
  "tab_like t = (case t of JObj ob \<Rightarrow> (case get_prop ob ''divs'' of JArr _ \<Rightarrow> True | _ \<Rightarrow> False) | _ \<Rightarrow> False)"

definition tabs_of_array :: "(string \<Rightarrow> jsval option) \<Rightarrow> jsval list \<Rightarrow> jsval list" where
  "tabs_of_array parse xs =
     filter tab_like (map (\<lambda>t. case t of JStr s \<Rightarrow> nullish (parse s) Null | _ \<Rightarrow> t) xs)"

fun parseReportTabs :: "nat \<Rightarrow> (string \<Rightarrow> jsval option) \<Rightarrow> jsval \<Rightarrow> jsval list option" where
  "parseReportTabs 0 parse raw = None"
| "parseReportTabs (Suc n) parse raw =
     (case (case raw of JStr s \<Rightarrow> parse s | _ \<Rightarrow> Some raw) of
        None \<Rightarrow> Some []
      | Some data \<Rightarrow>
          (case data of
             JArr xs \<Rightarrow> Some (tabs_of_array parse xs)
           | JObj ob \<Rightarrow>
               (case get_prop ob ''tabs'' of
                  JArr xs \<Rightarrow> Some (tabs_of_array parse xs)
                | _ \<Rightarrow>
                    (case get_prop ob ''meta'' of
                       JObj meta \<Rightarrow> parseReportTabs n parse (get_prop meta ''tabs'')
                     | JArr _ \<Rightarrow> parseReportTabs n parse Undefined
                     | _ \<Rightarrow> Some []))
           | _ \<Rightarrow> Some []))"

section \<open>Tables\<close>

datatype table_kind = IsTable | IsDescriptions

record flat_table =
  ft_kind :: table_kind
  ft_columns :: "(string \<times> string) list"
  ft_rows :: "jsval list list"

definition first_child :: "report_tab \<Rightarrow> report_child option" where
  "first_child tab = (case tab_divs tab of (c # _) # _ \<Rightarrow> Some c | _ \<Rightarrow> None)"

definition description_items :: "report_tab \<Rightarrow> report_item list" where
  "description_items tab =
     concat (map (\<lambda>children. concat (map (\<lambda>c. case c of Descriptions items \<Rightarrow> items | _ \<Rightarrow> []) children)) (tab_divs tab))"

definition header_type :: "report_table \<Rightarrow> nat \<Rightarrow> string option" where
  "header_type t i = map_option snd (at_opt (rt_headers t) i)"

definition row_cells :: "report_table \<Rightarrow> jsval list \<Rightarrow> jsval list" where
  "row_cells t items = map (\<lambda>(i, item). scalarize (decodeValue item (header_type t i))) (enumerate 0 items)"

definition tabToFlatTable :: "report_tab \<Rightarrow> string option \<Rightarrow> flat_table" where
  "tabToFlatTable tab codeName =
     (case first_child tab of
        Some (Descriptions _) \<Rightarrow>
          \<lparr>ft_kind = IsDescriptions, ft_columns = [(''name'', ''str''), (''value'', ''str'')],
           ft_rows = map (\<lambda>it. [JStr (ri_name it), scalarize (decodeValue (ri_value it) (Some (ri_type it)))]) (description_items tab)\<rparr>
      | Some (TableChild t) \<Rightarrow>
          (let withName = (codeName \<noteq> Some ''stats/scql_analysis'') in
           \<lparr>ft_kind = IsTable,
            ft_columns = (if withName then [(''name'', ''str'')] else []) @ rt_headers t,
            ft_rows = map (\<lambda>(i, (name, items)).
              (if withName then [JStr (nullish name (show_nat i))] else []) @ row_cells t items) (enumerate 0 (rt_rows t))\<rparr>)
      | _ \<Rightarrow> \<lparr>ft_kind = IsTable, ft_columns = [], ft_rows = []\<rparr>)"

definition cell :: "jsval list \<Rightarrow> nat \<Rightarrow> jsval" where
  "cell r i = nullish (at_opt r i) Undefined"

fun index_of :: "('a \<Rightarrow> bool) \<Rightarrow> 'a list \<Rightarrow> nat option" where
  "index_of P [] = None"
| "index_of P (x # xs) = (if P x then Some 0 else map_option Suc (index_of P xs))"

section \<open>Series\<close>

definition zero_if_nan :: "number \<Rightarrow> number" where
  "zero_if_nan n = (if n = NaN then Fin 0 else n)"

definition tabToCorrMatrix :: "report_tab \<Rightarrow> string list \<times> number list list" where
  "tabToCorrMatrix tab =
     (case first_child tab of
        Some (TableChild t) \<Rightarrow>
          (let colLabels = map fst (rt_headers t);
               rowLabels = map (\<lambda>(i, (name, _)). nullish name (nullish (at_opt colLabels i) (show_nat i))) (enumerate 0 (rt_rows t));
               matrix = map (\<lambda>(_, items). map (\<lambda>(i, item). zero_if_nan (number_of (decodeValue item (header_type t i)))) (enumerate 0 items)) (rt_rows t)
           in (if length rowLabels = length colLabels then colLabels else rowLabels, matrix))
      | _ \<Rightarrow> ([], []))"

record pva_point =
  pva_label :: string
  pva_prediction :: number
  pva_actual :: number
  pva_bias :: number

definition tabToPvaSeries :: "report_tab \<Rightarrow> pva_point list" where
  "tabToPvaSeries tab =
     (let flat = tabToFlatTable tab None;
          idx = (\<lambda>n. index_of (\<lambda>c. fst c = n) (ft_columns flat));
          num = (\<lambda>r n. case idx n of Some i \<Rightarrow> number_of (cell r i) | None \<Rightarrow> NaN)
      in if ft_kind flat \<noteq> IsTable then []
         else map (\<lambda>(i, r). \<lparr>pva_label = string_of (case idx ''interval'' of Some k \<Rightarrow> cell r k
                                | None \<Rightarrow> (if cell r 0 = Undefined \<or> cell r 0 = Null then JNum (Fin (of_nat i)) else cell r 0)),
              pva_prediction = num r ''avg_prediction'', pva_actual = num r ''avg_label'', pva_bias = num r ''bias''\<rparr>)
            (enumerate 0 (ft_rows flat)))"

definition histogram_bin :: "report_table \<Rightarrow> jsval list \<Rightarrow> jsval list \<Rightarrow> nat \<Rightarrow> string \<times> number" where
  "histogram_bin t bounds counts i =
     (let type = header_type t (Suc i) in
      (''['' @ formatCell (decodeValue (cell bounds i) type) @ '','' @ formatCell (decodeValue (cell bounds (Suc i)) type) @ '')'',
       zero_if_nan (number_of (decodeValue (cell counts i) type))))"

definition tabToHistogram :: "report_tab \<Rightarrow> (string \<times> number) list" where
  "tabToHistogram tab =
     (case first_child tab of
        Some (TableChild t) \<Rightarrow>
          (case rt_rows t of
             (_, bounds) # (_, counts) # _ \<Rightarrow> map (histogram_bin t bounds counts) [0..<length bounds - 1]
           | _ \<Rightarrow> [])
      | _ \<Rightarrow> [])"

text \<open>\<open>formatDpCell\<close>: the record of the row is keyed by column name, the last of equal names winning.\<close>

fun round_number :: "number \<Rightarrow> number" where
  "round_number (Fin q) = Fin (of_int (floor (q + 1 / 2)))"
| "round_number n = n"

definition formatDpCell :: "jsval \<Rightarrow> (string \<times> jsval) list \<Rightarrow> string option \<Rightarrow> jsval" where
  "formatDpCell v row codeName =
     (if codeName = Some ''privacy/differential_privacy'' \<and> get_prop row ''query_type'' = JStr ''count''
      then (let n = number_of v in if n = NaN then v else JNum (round_number n))
      else v)"

definition statsPsiFullCsv :: "report_tab list \<Rightarrow> jsval list list" where
  "statsPsiFullCsv tabs =
     (case tabs of
        [] \<Rightarrow> []
      | t # ts \<Rightarrow>
          (let detail = map_set_all (map (\<lambda>t. (nullish (tab_name t) '''', tabToFlatTable t None)) ts) in
           map JStr [''name (feature)'', ''feature'', ''PSI (feature)'', ''name (Label)'', ''Label'', ''PSI (Label)'', ''Base Ratio'', ''Test Ratio''] #
           concat (map (\<lambda>row. row # (case detail (string_of (cell row 1)) of None \<Rightarrow> []
               | Some f \<Rightarrow> map (\<lambda>r. [JStr '''', JStr '''', JStr ''''] @ r) (ft_rows f))) (ft_rows (tabToFlatTable t None)))))"

record sample_row =
  sm_name :: string
  sm_before :: number
  sm_after :: number
  sm_rate :: number

definition sample_value :: "flat_table \<Rightarrow> string \<Rightarrow> number" where
  "sample_value flat k =
     zero_if_nan (case (if ft_kind flat = IsDescriptions then List.find (\<lambda>r. cell r 0 = JStr k) (ft_rows flat) else None) of
       None \<Rightarrow> NaN | Some r \<Rightarrow> number_of (cell r 1))"

definition sampleSummary :: "report_tab list \<Rightarrow> sample_row list" where
  "sampleSummary tabs = map (\<lambda>(i, tab).
     (let flat = tabToFlatTable tab None in
      \<lparr>sm_name = str_or (tab_name tab) (show_nat i), sm_before = sample_value flat ''num_before_sample'',
       sm_after = sample_value flat ''num_after_sample'', sm_rate = sample_value flat ''sample_rate''\<rparr>)) (enumerate 0 tabs)"

definition sampleSummaryCsv :: "sample_row list \<Rightarrow> jsval list list" where
  "sampleSummaryCsv rows =
     map JStr [''sample_name'', ''num_before_sample'', ''num_after_sample'', ''sample_rate''] #
     map (\<lambda>r. [JStr (sm_name r), JNum (sm_before r), JNum (sm_after r), JNum (sm_rate r)]) rows"

section \<open>Pivot tables\<close>

record pivot_config =
  pc_rows :: "nat list"
  pc_columns :: "nat list"
  pc_values :: "nat list"

definition is_text :: "jsval \<Rightarrow> bool" where
  "is_text v = (case v of JStr _ \<Rightarrow> True | _ \<Rightarrow> False)"

definition skips_first :: "flat_table \<Rightarrow> bool" where
  "skips_first flat \<longleftrightarrow> ft_kind flat = IsTable \<and> map_option fst (at_opt (ft_columns flat) 0) = Some ''name''"

definition defaultPivotConfig :: "flat_table \<Rightarrow> pivot_config" where
  "defaultPivotConfig flat =
     (let idx = drop (if skips_first flat then 1 else 0) [0..<length (ft_columns flat)];
          dims = filter (\<lambda>i. list_ex (\<lambda>r. is_text (cell r i)) (ft_rows flat)) idx;
          vals = filter (\<lambda>i. i \<notin> set dims) idx
      in \<lparr>pc_rows = take 1 dims, pc_columns = take 1 (drop 1 dims), pc_values = take 1 vals\<rparr>)"

datatype pivot_zone = RowsZone | ColumnsZone | ValuesZone | FieldsZone

definition movePivotField :: "pivot_config \<Rightarrow> nat \<Rightarrow> pivot_zone \<Rightarrow> pivot_config" where
  "movePivotField cfg idx zone =
     (let off = filter (\<lambda>i. i \<noteq> idx);
          next = \<lparr>pc_rows = off (pc_rows cfg), pc_columns = off (pc_columns cfg), pc_values = off (pc_values cfg)\<rparr>
      in case zone of
           RowsZone \<Rightarrow> next\<lparr>pc_rows := pc_rows next @ [idx]\<rparr>
         | ColumnsZone \<Rightarrow> next\<lparr>pc_columns := pc_columns next @ [idx]\<rparr>
         | ValuesZone \<Rightarrow> next\<lparr>pc_values := pc_values next @ [idx]\<rparr>
         | FieldsZone \<Rightarrow> next)"

definition pivot_key :: "jsval list \<Rightarrow> nat list \<Rightarrow> string" where
  "pivot_key r dims = join_with '' / '' (map (\<lambda>d. string_of (cell r d)) dims)"

fun num_add :: "number \<Rightarrow> number \<Rightarrow> number" where
  "num_add (Fin a) (Fin b) = Fin (a + b)"
| "num_add NaN _ = NaN"
| "num_add _ NaN = NaN"
| "num_add PosInf NegInf = NaN"
| "num_add NegInf PosInf = NaN"
| "num_add (Fin a) n = n"
| "num_add n _ = n"

definition combine :: "jsval \<Rightarrow> jsval \<Rightarrow> jsval" where
  "combine prev cur = (case (prev, cur) of (JNum a, JNum b) \<Rightarrow> JNum (num_add a b) | _ \<Rightarrow> cur)"

definition column_key_of :: "pivot_config \<Rightarrow> jsval list \<Rightarrow> string" where
  "column_key_of cfg r = (if pc_columns cfg \<noteq> [] then pivot_key r (pc_columns cfg) else '''')"

definition cell_key :: "string \<Rightarrow> string \<Rightarrow> nat \<Rightarrow> string" where
  "cell_key rk ck v = rk @ [CHR 0x00] @ ck @ [CHR 0x00] @ show_nat v"

definition pivot_step :: "pivot_config \<Rightarrow> (string \<times> jsval) list \<Rightarrow> jsval list \<Rightarrow> (string \<times> jsval) list" where
  "pivot_step cfg cells r =
     foldl (\<lambda>cells v. let k = cell_key (pivot_key r (pc_rows cfg)) (column_key_of cfg r) v
                      in set_prop k (combine (get_prop cells k) (cell r v)) cells) cells (pc_values cfg)"

definition pivot_cells :: "flat_table \<Rightarrow> pivot_config \<Rightarrow> (string \<times> jsval) list" where
  "pivot_cells flat cfg = foldl (pivot_step cfg) [] (ft_rows flat)"

definition pivot_row_keys :: "flat_table \<Rightarrow> pivot_config \<Rightarrow> string list" where
  "pivot_row_keys flat cfg = dedup (map (\<lambda>r. pivot_key r (pc_rows cfg)) (ft_rows flat))"

definition pivot_col_keys :: "flat_table \<Rightarrow> pivot_config \<Rightarrow> string list" where
  "pivot_col_keys flat cfg =
     (if pc_columns cfg \<noteq> [] then dedup (map (\<lambda>r. pivot_key r (pc_columns cfg)) (ft_rows flat)) else [''''])"

definition column_title :: "flat_table \<Rightarrow> nat \<Rightarrow> string" where
  "column_title flat i = nullish (map_option fst (at_opt (ft_columns flat) i)) (show_nat i)"

definition dash_if_missing :: "jsval \<Rightarrow> jsval" where
  "dash_if_missing v = (if v = Undefined \<or> v = Null then JStr ''-'' else v)"

definition pivotFlatTable :: "flat_table \<Rightarrow> pivot_config \<Rightarrow> flat_table" where
  "pivotFlatTable flat cfg =
     (let rowKeys = pivot_row_keys flat cfg; colKeys = pivot_col_keys flat cfg; values = pc_values cfg;
          cells = pivot_cells flat cfg;
          header = (if pc_rows cfg \<noteq> [] then join_with '' / '' (map (column_title flat) (pc_rows cfg)) else '''');
          cornerName = (if pc_columns cfg \<noteq> [] then header @ [CHR '' '', CHR 0x5C, CHR '' ''] @ join_with '' / '' (map (column_title flat) (pc_columns cfg))
                        else if header \<noteq> '''' then header else ''-'');
          columns = (cornerName, ''str'') # concat (map (\<lambda>ck. map (\<lambda>v.
              (join_with (utf8 [0x20, 0xC2, 0xB7, 0x20]) (filter (\<lambda>s. s \<noteq> '''') [ck, if length values > 1 \<or> ck = '''' then column_title flat v else '''']),
               nullish (map_option snd (at_opt (ft_columns flat) v)) ''float'')) values) colKeys);
          rows = map (\<lambda>rk. JStr (if rk = '''' then ''-'' else rk) # concat (map (\<lambda>ck. map (\<lambda>v.
              dash_if_missing (get_prop cells (cell_key rk ck v))) values) colKeys)) rowKeys
      in \<lparr>ft_kind = IsTable, ft_columns = columns, ft_rows = rows\<rparr>)"

section \<open>Export\<close>

definition csv_cell :: "jsval \<Rightarrow> string" where
  "csv_cell c =
     (let s = filter (\<lambda>x. x \<noteq> dquote) (string_of (if c = Undefined \<or> c = Null then JStr '''' else c)) in
      if CHR '','' \<in> set s \<or> CHR 0x0A \<in> set s then dquote # s @ [dquote] else s)"

definition csv_row :: "jsval list \<Rightarrow> string" where
  "csv_row r = join_with '','' (map csv_cell r)"

definition toCsv :: "jsval list list \<Rightarrow> string" where
  "toCsv rows = join_with [CHR 0x0A] (map csv_row rows)"


section \<open>Tables are rectangular\<close>

text \<open>A cell is never an array, and a table whose rows have one item per header gives full rows.\<close>

lemma row_cells_length [simp]: "length (row_cells t items) = length items"
  by (simp add: row_cells_def)

lemma enumerate_member: "(i, x) \<in> set (enumerate n xs) \<Longrightarrow> x \<in> set xs"
  by (auto simp: in_set_enumerate_eq)

lemma flat_rows_full:
  assumes "\<forall>t. first_child tab = Some (TableChild t) \<longrightarrow> (\<forall>row \<in> set (rt_rows t). length (snd row) = length (rt_headers t))"
  shows "\<forall>r \<in> set (ft_rows (tabToFlatTable tab code)). length r = length (ft_columns (tabToFlatTable tab code))"
proof (cases "first_child tab")
  case (Some c)
  show ?thesis
  proof (cases c)
    case (TableChild t)
    have "length items = length (rt_headers t)" if "(i, name, items) \<in> set (enumerate 0 (rt_rows t))" for i name items
      using assms enumerate_member [OF that] Some TableChild by force
    then show ?thesis using Some TableChild by (auto simp: tabToFlatTable_def Let_def)
  qed (use Some in \<open>auto simp: tabToFlatTable_def\<close>)
qed (simp add: tabToFlatTable_def)

lemma histogram_length:
  "first_child tab = Some (TableChild t) \<Longrightarrow> rt_rows t = (n, bounds) # (m, counts) # rest \<Longrightarrow>
   length (tabToHistogram tab) = length bounds - 1"
  by (simp add: tabToHistogram_def)

section \<open>Sixty-four bit integers\<close>

lemma integer_digits_show: "integer_digits (show_integer i)"
proof -
  have "(case show_nat n of c # t \<Rightarrow> if c = CHR ''-'' then t else show_nat n | [] \<Rightarrow> []) = show_nat n" for n
  proof -
    obtain c r where cr: "show_nat n = c # r" by (cases "show_nat n") auto
    then have "is_digit c" using show_nat_digits [of c n] by simp
    then have "c \<noteq> CHR ''-''" by (auto simp: is_digit_def)
    then show ?thesis by (simp add: cr)
  qed
  moreover have "all_digits (show_nat n)" for n using show_nat_all_digits by (simp add: all_digits_def)
  ultimately show ?thesis by (simp add: integer_digits_def show_integer_def Let_def)
qed

text \<open>An integer sent as a text is shown with all its digits, and becomes a number only if a double holds it.\<close>

lemma toNumber_integer:
  "toNumber (JStr (show_integer i)) = (if \<bar>i\<bar> \<le> 9007199254740991 then JNum (Fin (of_int i)) else JStr (show_integer i))"
proof -
  have "\<bar>of_int i :: rat\<bar> \<le> 9007199254740991 \<longleftrightarrow> \<bar>i\<bar> \<le> 9007199254740991"
    by (metis of_int_abs of_int_le_iff of_int_numeral)
  then show ?thesis
    by (simp add: toNumber_def Let_def number_of_string_show_integer integer_digits_show)
qed

lemma integer_cell_text: "formatCell (decodeValue (JObj [(''i64'', JStr (show_integer i))]) (Some ''AT_INT'')) = show_integer i"
proof -
  have "map_of VALUE_KEY_BY_TYPE ''AT_INT'' = Some ''i64''" by (simp add: VALUE_KEY_BY_TYPE_def)
  moreover have "string_of (toNumber (JStr (show_integer i))) = show_integer i" by (simp add: toNumber_integer)
  ultimately show ?thesis
    by (simp add: decodeValue_def Let_def read_field_def get_prop_def) (simp add: formatCell_def toNumber_integer)
qed

section \<open>The shapes of a report\<close>

text \<open>Array, report, distributed data, and the text of any of them give the same tabs.\<close>

lemma report_shapes:
  assumes "parse s = Some (JObj ob)" "get_prop ob ''tabs'' = JArr xs"
    and "get_prop dd ''tabs'' = Undefined" "get_prop dd ''meta'' = JObj meta" "get_prop meta ''tabs'' = JArr xs"
  shows "parseReportTabs (Suc n) parse (JArr xs) = Some (tabs_of_array parse xs)"
    "parseReportTabs (Suc n) parse (JObj ob) = Some (tabs_of_array parse xs)"
    "parseReportTabs (Suc n) parse (JStr s) = Some (tabs_of_array parse xs)"
    "parseReportTabs (Suc (Suc n)) parse (JObj dd) = Some (tabs_of_array parse xs)"
  using assms by simp_all

lemma report_tabs_have_divs: "parseReportTabs n parse raw = Some ts \<Longrightarrow> t \<in> set ts \<Longrightarrow> tab_like t"
proof (induction n arbitrary: raw)
  case (Suc n)
  have a: "t \<in> set (tabs_of_array parse xs) \<Longrightarrow> tab_like t" for xs by (simp add: tabs_of_array_def)
  obtain r where r: "r = (case raw of JStr s \<Rightarrow> parse s | _ \<Rightarrow> Some raw)" by blast
  show ?case
  proof (cases r)
    case None
    then show ?thesis using Suc.prems by (simp add: r [symmetric])
  next
    case (Some data)
    then have d: "parseReportTabs (Suc n) parse raw = (case data of
             JArr xs \<Rightarrow> Some (tabs_of_array parse xs)
           | JObj ob \<Rightarrow>
               (case get_prop ob ''tabs'' of
                  JArr xs \<Rightarrow> Some (tabs_of_array parse xs)
                | _ \<Rightarrow>
                    (case get_prop ob ''meta'' of
                       JObj meta \<Rightarrow> parseReportTabs n parse (get_prop meta ''tabs'')
                     | JArr _ \<Rightarrow> parseReportTabs n parse Undefined
                     | _ \<Rightarrow> Some []))
           | _ \<Rightarrow> Some [])"
      by (simp add: r [symmetric])
    note p = Suc.prems(1) [unfolded d]
    show ?thesis
    proof (cases data)
      case (JArr xs)
      then show ?thesis using p Suc.prems(2) a [of xs] by simp
    next
      case (JObj ob)
      show ?thesis
      proof (cases "\<exists>xs. get_prop ob ''tabs'' = JArr xs")
        case True
        then show ?thesis using p Suc.prems(2) a by (auto simp: JObj)
      next
        case False
        then have "(case get_prop ob ''meta'' of
            JObj meta \<Rightarrow> parseReportTabs n parse (get_prop meta ''tabs'') | JArr _ \<Rightarrow> parseReportTabs n parse Undefined | _ \<Rightarrow> Some []) = Some ts"
          using p by (cases "get_prop ob ''tabs''") (simp_all add: JObj)
        then show ?thesis using Suc.IH Suc.prems(2) by (cases "get_prop ob ''meta''") auto
      qed
    qed (use p Suc.prems(2) in simp_all)
  qed
qed simp

section \<open>The pivot configuration\<close>

definition pivot_ok :: "pivot_config \<Rightarrow> bool" where
  "pivot_ok cfg \<longleftrightarrow> distinct (pc_rows cfg @ pc_columns cfg @ pc_values cfg)"

inductive pivot_session :: "flat_table \<Rightarrow> pivot_config \<Rightarrow> bool" for flat where
  opened: "pivot_session flat (defaultPivotConfig flat)"
| moved: "pivot_session flat cfg \<Longrightarrow> pivot_session flat (movePivotField cfg i zone)"

lemma move_ok: "pivot_ok cfg \<Longrightarrow> pivot_ok (movePivotField cfg i zone)"
  by (cases zone) (auto simp: movePivotField_def Let_def pivot_ok_def)

lemma default_ok: "pivot_ok (defaultPivotConfig flat)"
proof -
  define idx where "idx = drop (if skips_first flat then 1 else 0) [0..<length (ft_columns flat)]"
  define dims where "dims = filter (\<lambda>i. list_ex (\<lambda>r. is_text (cell r i)) (ft_rows flat)) idx"
  have d: "distinct dims" unfolding dims_def idx_def by simp
  have e: "distinct (take 1 dims @ take 1 (drop 1 dims))"
    using d by (cases dims; cases "tl dims") auto
  have "set (take 1 dims @ take 1 (drop 1 dims)) \<subseteq> set dims" by (auto dest: in_set_takeD in_set_dropD)
  moreover have "distinct (take 1 (filter (\<lambda>i. i \<notin> set dims) idx))" unfolding idx_def by simp
  moreover have "set (take 1 (filter (\<lambda>i. i \<notin> set dims) idx)) \<inter> set dims = {}" by (auto dest: in_set_takeD)
  ultimately show ?thesis
    using e unfolding pivot_ok_def defaultPivotConfig_def Let_def idx_def [symmetric] dims_def [symmetric] by auto
qed

lemma session_pivot_ok: "pivot_session flat cfg \<Longrightarrow> pivot_ok cfg"
  by (induction rule: pivot_session.induct) (simp_all add: default_ok move_ok)

text \<open>After a move the field is in its zone and in no other.\<close>

definition zone_of :: "pivot_config \<Rightarrow> nat \<Rightarrow> pivot_zone" where
  "zone_of cfg i =
     (if i \<in> set (pc_rows cfg) then RowsZone else if i \<in> set (pc_columns cfg) then ColumnsZone
      else if i \<in> set (pc_values cfg) then ValuesZone else FieldsZone)"

lemma moved_zone: "zone_of (movePivotField cfg i zone) j = (if j = i then zone else zone_of cfg j)"
  by (cases zone) (auto simp: zone_of_def movePivotField_def Let_def)


section \<open>A pivot keeps every number\<close>

lemma cell_key_split:
  assumes "CHR 0x00 \<notin> set rk" "CHR 0x00 \<notin> set ck"
  shows "split_on (CHR 0x00) (cell_key rk ck v) = [rk, ck, show_nat v]"
proof -
  have "CHR 0x00 \<notin> set (show_nat v)" using show_nat_digits [of "CHR 0x00" v] by (auto simp: is_digit_def)
  then show ?thesis using assms by (simp add: cell_key_def split_on_append_sep split_on_no_sep)
qed

lemma cell_key_inject:
  assumes "CHR 0x00 \<notin> set rk" "CHR 0x00 \<notin> set ck" "CHR 0x00 \<notin> set rk'" "CHR 0x00 \<notin> set ck'"
  shows "cell_key rk ck v = cell_key rk' ck' v' \<longleftrightarrow> rk = rk' \<and> ck = ck' \<and> v = v'"
  using cell_key_split [OF assms(1,2), of v] cell_key_split [OF assms(3,4), of v'] by (metis list.inject show_nat_inject)

definition plain_keys :: "pivot_config \<Rightarrow> jsval list \<Rightarrow> bool" where
  "plain_keys cfg r \<longleftrightarrow> CHR 0x00 \<notin> set (pivot_key r (pc_rows cfg)) \<and> CHR 0x00 \<notin> set (column_key_of cfg r)"

lemma get_set_prop [simp]: "get_prop (set_prop k v ob) j = (if j = k then v else get_prop ob j)"
  by (simp add: get_prop_def)

lemma pivot_step_get:
  assumes r: "plain_keys cfg r" and k: "CHR 0x00 \<notin> set rk" "CHR 0x00 \<notin> set ck" and vs: "distinct (pc_values cfg)"
  shows "get_prop (pivot_step cfg cells r) (cell_key rk ck v) =
    (if v \<in> set (pc_values cfg) \<and> pivot_key r (pc_rows cfg) = rk \<and> column_key_of cfg r = ck
     then combine (get_prop cells (cell_key rk ck v)) (cell r v) else get_prop cells (cell_key rk ck v))"
proof -
  let ?rk = "pivot_key r (pc_rows cfg)" and ?ck = "column_key_of cfg r"
  have inj: "cell_key rk ck v = cell_key ?rk ?ck w \<longleftrightarrow> rk = ?rk \<and> ck = ?ck \<and> v = w" for w
    using r k by (intro cell_key_inject) (simp_all add: plain_keys_def)
  have "distinct ws \<Longrightarrow> get_prop (foldl (\<lambda>cells v. let k = cell_key ?rk ?ck v in set_prop k (combine (get_prop cells k) (cell r v)) cells) cells ws) (cell_key rk ck v) =
    (if v \<in> set ws \<and> ?rk = rk \<and> ?ck = ck then combine (get_prop cells (cell_key rk ck v)) (cell r v) else get_prop cells (cell_key rk ck v))"
    for ws cells
  proof (induction ws arbitrary: cells)
    case (Cons w ws)
    then show ?case using inj [of w] by (auto simp: Let_def)
  qed simp
  then show ?thesis using vs by (simp add: pivot_step_def)
qed

text \<open>A cell combines, in order, the values of the rows that fall into it.\<close>

lemma pivot_cell_content:
  assumes "\<forall>r \<in> set rs. plain_keys cfg r" "CHR 0x00 \<notin> set rk" "CHR 0x00 \<notin> set ck" "distinct (pc_values cfg)" "v \<in> set (pc_values cfg)"
  shows "get_prop (foldl (pivot_step cfg) cells rs) (cell_key rk ck v) =
    foldl combine (get_prop cells (cell_key rk ck v))
      (map (\<lambda>r. cell r v) (filter (\<lambda>r. pivot_key r (pc_rows cfg) = rk \<and> column_key_of cfg r = ck) rs))"
  using assms(1)
proof (induction rs arbitrary: cells)
  case (Cons r rs)
  then show ?case using pivot_step_get [of cfg r rk ck] assms(2-5) by simp
qed simp

definition number_in :: "jsval \<Rightarrow> rat" where
  "number_in v = (case v of JNum (Fin q) \<Rightarrow> q | _ \<Rightarrow> 0)"

definition finite_number :: "jsval \<Rightarrow> bool" where
  "finite_number v \<longleftrightarrow> (\<exists>q. v = JNum (Fin q))"

lemma combine_numbers:
  "\<forall>v \<in> set vs. finite_number v \<Longrightarrow> finite_number x \<or> x = Undefined \<Longrightarrow>
   number_in (foldl combine x vs) = number_in x + sum_list (map number_in vs) \<and>
   (finite_number (foldl combine x vs) \<or> foldl combine x vs = Undefined)"
proof (induction vs arbitrary: x)
  case (Cons v vs)
  then obtain q where q: "v = JNum (Fin q)" by (auto simp: finite_number_def)
  have "finite_number (combine x v)" "number_in (combine x v) = number_in x + number_in v"
    using Cons.prems(2) by (auto simp: q combine_def finite_number_def number_in_def)
  then show ?case using Cons.IH [of "combine x v"] Cons.prems(1) by simp
qed simp

lemma sum_at_key: "distinct ks \<Longrightarrow> k \<in> set ks \<Longrightarrow> sum_list (map (\<lambda>j. if k = j then c else 0) ks) = (c :: rat)"
proof (induction ks)
  case (Cons j ks)
  have "k \<notin> set ks \<Longrightarrow> sum_list (map (\<lambda>j. if k = j then c else 0) ks) = 0" by (induction ks) auto
  then show ?case using Cons by auto
qed simp

lemma sum_by_key:
  fixes f :: "'a \<Rightarrow> rat"
  assumes "distinct ks" "\<forall>r \<in> set rs. key r \<in> set ks"
  shows "sum_list (map (\<lambda>k. sum_list (map f (filter (\<lambda>r. key r = k) rs))) ks) = sum_list (map f rs)"
  using assms(2)
proof (induction rs)
  case Nil
  then show ?case by (simp add: sum_list_0)
next
  case (Cons r rs)
  have "sum_list (map (\<lambda>k. sum_list (map f (filter (\<lambda>r. key r = k) (r # rs)))) ks) =
      sum_list (map (\<lambda>k. (if key r = k then f r else 0) + sum_list (map f (filter (\<lambda>r. key r = k) rs))) ks)"
    by (rule arg_cong [of _ _ sum_list], rule map_cong [OF refl]) simp
  also have "\<dots> = f r + sum_list (map f rs)"
    using Cons sum_at_key [OF assms(1), of "key r" "f r"] by (simp add: sum_list_addf)
  finally show ?case by simp
qed

lemma sum_swap:
  fixes f :: "'a \<Rightarrow> 'b \<Rightarrow> rat"
  shows "sum_list (map (\<lambda>x. sum_list (map (f x) ys)) xs) = sum_list (map (\<lambda>y. sum_list (map (\<lambda>x. f x y) xs)) ys)"
  by (induction xs) (simp_all add: sum_list_addf sum_list_0)

lemma sum_product: "sum_list (map (\<lambda>x. sum_list (map (\<lambda>y. f (x, y)) ys)) xs) = sum_list (map f (List.product xs ys))"
  by (induction xs) (simp_all add: comp_def)

text \<open>The cells of one value column add up to that column.\<close>

lemma pivot_column_total:
  assumes keys: "\<forall>r \<in> set (ft_rows flat). plain_keys cfg r" and vs: "distinct (pc_values cfg)" "v \<in> set (pc_values cfg)"
    and num: "\<forall>r \<in> set (ft_rows flat). finite_number (cell r v)"
  shows "sum_list (map (\<lambda>rk. sum_list (map (\<lambda>ck. number_in (get_prop (pivot_cells flat cfg) (cell_key rk ck v))) (pivot_col_keys flat cfg)))
      (pivot_row_keys flat cfg)) = sum_list (map (\<lambda>r. number_in (cell r v)) (ft_rows flat))"
proof -
  let ?rs = "ft_rows flat"
  define key where "key r = (pivot_key r (pc_rows cfg), column_key_of cfg r)" for r
  define ks where "ks = List.product (pivot_row_keys flat cfg) (pivot_col_keys flat cfg)"
  have rk: "set (pivot_row_keys flat cfg) = (\<lambda>r. pivot_key r (pc_rows cfg)) ` set ?rs" by (simp add: pivot_row_keys_def)
  have ck: "set (pivot_col_keys flat cfg) = (if pc_columns cfg \<noteq> [] then column_key_of cfg ` set ?rs else {''''})"
    by (simp add: pivot_col_keys_def column_key_of_def)
  have d: "distinct ks" unfolding ks_def by (intro distinct_product) (simp_all add: pivot_row_keys_def pivot_col_keys_def)
  have cover: "\<forall>r \<in> set ?rs. key r \<in> set ks" unfolding ks_def key_def using rk ck by (auto simp: column_key_of_def)
  have plain: "CHR 0x00 \<notin> set (fst k) \<and> CHR 0x00 \<notin> set (snd k)" if "k \<in> set ks" for k
    using that keys unfolding ks_def by (auto simp: rk ck plain_keys_def split: if_splits)
  have cell: "number_in (get_prop (pivot_cells flat cfg) (cell_key (fst k) (snd k) v)) =
      sum_list (map (\<lambda>r. number_in (cell r v)) (filter (\<lambda>r. key r = k) ?rs))" if "k \<in> set ks" for k
  proof -
    have "get_prop (pivot_cells flat cfg) (cell_key (fst k) (snd k) v) =
        foldl combine Undefined (map (\<lambda>r. cell r v) (filter (\<lambda>r. key r = k) ?rs))"
      unfolding pivot_cells_def key_def prod_eq_iff fst_conv snd_conv
      using pivot_cell_content [OF keys _ _ vs, of "fst k" "snd k" "[]"] plain [OF that] by (simp add: get_prop_def)
    moreover have "number_in (foldl combine Undefined (map (\<lambda>r. cell r v) (filter (\<lambda>r. key r = k) ?rs))) =
        number_in Undefined + sum_list (map number_in (map (\<lambda>r. cell r v) (filter (\<lambda>r. key r = k) ?rs)))"
      using num by (intro combine_numbers [THEN conjunct1]) auto
    ultimately show ?thesis by (simp add: number_in_def [of Undefined] comp_def)
  qed
  have "sum_list (map (\<lambda>rk. sum_list (map (\<lambda>ck. number_in (get_prop (pivot_cells flat cfg) (cell_key rk ck v))) (pivot_col_keys flat cfg)))
      (pivot_row_keys flat cfg)) = sum_list (map (\<lambda>k. number_in (get_prop (pivot_cells flat cfg) (cell_key (fst k) (snd k) v))) ks)"
    unfolding ks_def by (simp add: sum_product [where f = "\<lambda>k. number_in (get_prop (pivot_cells flat cfg) (cell_key (fst k) (snd k) v))", symmetric])
  also have "\<dots> = sum_list (map (\<lambda>k. sum_list (map (\<lambda>r. number_in (cell r v)) (filter (\<lambda>r. key r = k) ?rs))) ks)"
    by (intro arg_cong [of _ _ sum_list] map_cong) (simp_all add: cell)
  also have "\<dots> = sum_list (map (\<lambda>r. number_in (cell r v)) ?rs)" by (rule sum_by_key [OF d cover])
  finally show ?thesis .
qed

lemma dash_number [simp]: "number_in (dash_if_missing v) = number_in v"
  by (simp add: dash_if_missing_def number_in_def)

text \<open>And the whole table of a pivot adds up to the value columns of the flat table.\<close>

lemma pivot_total:
  assumes "\<forall>r \<in> set (ft_rows flat). plain_keys cfg r" "distinct (pc_values cfg)"
    "\<forall>r \<in> set (ft_rows flat). \<forall>v \<in> set (pc_values cfg). finite_number (cell r v)"
  shows "sum_list (map (\<lambda>r. sum_list (map number_in (tl r))) (ft_rows (pivotFlatTable flat cfg))) =
    sum_list (map (\<lambda>v. sum_list (map (\<lambda>r. number_in (cell r v)) (ft_rows flat))) (pc_values cfg))"
proof -
  let ?g = "\<lambda>rk ck v. number_in (get_prop (pivot_cells flat cfg) (cell_key rk ck v))"
  have cc: "sum_list (map number_in (concat (map (\<lambda>ck. map (\<lambda>v. dash_if_missing (get_prop (pivot_cells flat cfg) (cell_key rk ck v))) vs) cks))) =
      sum_list (map (\<lambda>ck. sum_list (map (?g rk ck) vs)) cks)" for rk vs cks
    by (induction cks) (simp_all add: comp_def)
  have "sum_list (map (\<lambda>r. sum_list (map number_in (tl r))) (ft_rows (pivotFlatTable flat cfg))) =
      sum_list (map (\<lambda>rk. sum_list (map (\<lambda>ck. sum_list (map (?g rk ck) (pc_values cfg))) (pivot_col_keys flat cfg))) (pivot_row_keys flat cfg))"
    by (simp add: pivotFlatTable_def Let_def comp_def cc)
  also have "\<dots> = sum_list (map (\<lambda>rk. sum_list (map (\<lambda>v. sum_list (map (\<lambda>ck. ?g rk ck v) (pivot_col_keys flat cfg))) (pc_values cfg))) (pivot_row_keys flat cfg))"
    by (intro arg_cong [of _ _ sum_list] map_cong refl sum_swap)
  also have "\<dots> = sum_list (map (\<lambda>v. sum_list (map (\<lambda>rk. sum_list (map (\<lambda>ck. ?g rk ck v) (pivot_col_keys flat cfg))) (pivot_row_keys flat cfg))) (pc_values cfg))"
    by (rule sum_swap)
  also have "\<dots> = sum_list (map (\<lambda>v. sum_list (map (\<lambda>r. number_in (cell r v)) (ft_rows flat))) (pc_values cfg))"
    by (rule arg_cong [of _ _ sum_list], rule map_cong [OF refl], rule pivot_column_total [OF assms(1,2)]) (use assms(3) in auto)
  finally show ?thesis .
qed

text \<open>The shape: one row per row key, one column per column key and value.\<close>

lemma pivot_shape:
  "length (ft_rows (pivotFlatTable flat cfg)) = length (pivot_row_keys flat cfg)"
  "\<forall>r \<in> set (ft_rows (pivotFlatTable flat cfg)). length r = length (ft_columns (pivotFlatTable flat cfg))"
  by (auto simp: pivotFlatTable_def Let_def length_concat comp_def)

text \<open>Rows that differ are merged when their joined keys agree.\<close>

definition merging_table :: flat_table where
  "merging_table = \<lparr>ft_kind = IsTable, ft_columns = [(''a'', ''str''), (''b'', ''str''), (''n'', ''int'')],
     ft_rows = [[JStr ''x / y'', JStr ''z'', JNum (Fin 1)], [JStr ''x'', JStr ''y / z'', JNum (Fin 2)]]\<rparr>"

definition merging_config :: pivot_config where
  "merging_config = movePivotField (movePivotField (movePivotField (defaultPivotConfig merging_table) 0 RowsZone) 1 RowsZone) 2 ValuesZone"

lemma rows_merged:
  "pivot_session merging_table merging_config \<and>
   ft_rows (pivotFlatTable merging_table merging_config) = [[JStr ''x / y / z'', JNum (Fin 3)]]"
proof
  show "pivot_session merging_table merging_config"
    unfolding merging_config_def by (intro pivot_session.moved pivot_session.opened)
  show "ft_rows (pivotFlatTable merging_table merging_config) = [[JStr ''x / y / z'', JNum (Fin 3)]]"
    by code_simp
qed


section \<open>The nesting of a report is read to its end\<close>

text \<open>The length of a value as far as texts are concerned; a JSON text is longer than what it denotes.\<close>

fun weight :: "jsval \<Rightarrow> nat" where
  "weight (JStr s) = Suc (length s)"
| "weight (JArr xs) = Suc (sum_list (map weight xs))"
| "weight (JObj ob) = 2 + sum_list (map (\<lambda>(k, v). weight v) ob)"
| "weight _ = 1"

lemma weight_prop: "weight (get_prop ob k) \<le> Suc (sum_list (map (\<lambda>(k, v). weight v) ob))"
proof (cases "map_of ob k")
  case (Some v)
  then have "(k, v) \<in> set ob" by (rule map_of_SomeD)
  then have "weight v \<in> set (map (\<lambda>(k, v). weight v) ob)" by force
  then show ?thesis using Some member_le_sum_list [of "weight v" "map (\<lambda>(k, v). weight v) ob"] by (simp add: get_prop_def)
qed (simp add: get_prop_def)

lemma weight_nested:
  assumes "get_prop ob ''meta'' = JObj meta"
  shows "weight (get_prop meta ''tabs'') < weight (JObj ob)"
  using weight_prop [of ob "''meta''"] weight_prop [of meta "''tabs''"] assms by simp

definition shorter_values :: "(string \<Rightarrow> jsval option) \<Rightarrow> bool" where
  "shorter_values parse \<longleftrightarrow> (\<forall>s v. parse s = Some v \<longrightarrow> weight v \<le> length s)"

lemma report_tabs_total:
  assumes "shorter_values parse" "weight raw \<le> n"
  shows "parseReportTabs n parse raw \<noteq> None"
  using assms(2)
proof (induction n arbitrary: raw)
  case 0
  then show ?case by (cases raw) auto
next
  case (Suc n)
  have step: "parseReportTabs (Suc n) parse raw \<noteq> None"
    if d: "(case raw of JStr s \<Rightarrow> parse s | _ \<Rightarrow> Some raw) = Some data" and w: "weight data \<le> Suc n" for data
  proof (cases data)
    case (JObj ob)
    have "parseReportTabs n parse (get_prop meta ''tabs'') \<noteq> None" if "get_prop ob ''meta'' = JObj meta" for meta
      using Suc.IH weight_nested [OF that] w JObj by simp
    moreover have "parseReportTabs n parse Undefined \<noteq> None" if "get_prop ob ''meta'' = JArr xs" for xs
      using w JObj by (intro Suc.IH) simp
    ultimately show ?thesis by (auto simp: d JObj split: jsval.split)
  qed (simp_all add: d)
  show ?case
  proof (cases raw)
    case (JStr s)
    show ?thesis
    proof (cases "parse s")
      case (Some v)
      then have "weight v \<le> length s" using assms(1) by (simp add: shorter_values_def)
      then show ?thesis using step [of v] Suc.prems by (simp add: JStr Some)
    qed (simp add: JStr)
  qed (use step [of raw] Suc.prems in simp_all)
qed

end
