(* ===== verification/Datatable.thy ===== *)
theory Datatable
  imports Utils JsConvert
begin

text \<open>
  Registering tables: \<open>web/packages/utils/src/datatable.ts\<close>, and \<open>datatable-schema/model.ts\<close>,
  \<open>data-upload/model.ts\<close> and \<open>datatable-register/model.ts\<close> of the features.  \<open>JSON.parse\<close> is a
  parameter where null strings are read, \<open>None\<close> standing for its exception.
\<close>

section \<open>Keywords\<close>

definition SQL_KEYWORDS :: "string list" where
  "SQL_KEYWORDS = concat [
     [''ACCESSIBLE'', ''ACCOUNT'', ''ACTION'', ''ACTIVE'', ''ADD'', ''ADMIN'', ''AFTER'', ''AGAINST'', ''AGGREGATE'', ''ALGORITHM'', ''ALL'', ''ALTER''],
     [''ALWAYS'', ''ANALYSE'', ''ANALYZE'', ''AND'', ''ANY'', ''ARRAY'', ''AS'', ''ASC'', ''ASCII'', ''ASENSITIVE'', ''AT'', ''ATTRIBUTE''],
     [''AUTHENTICATION'', ''AUTOEXTEND_SIZE'', ''AUTO_INCREMENT'', ''AVG'', ''AVG_ROW_LENGTH'', ''BACKUP'', ''BEFORE'', ''BEGIN''],
     [''BETWEEN'', ''BIGINT'', ''BINARY'', ''BINLOG'', ''BIT'', ''BLOB'', ''BLOCK'', ''BOOL'', ''BOOLEAN'', ''BOTH'', ''BTREE'', ''BUCKETS'', ''BULK'', ''BY''],
     [''BYTE'', ''CACHE'', ''CALL'', ''CASCADE'', ''CASCADED'', ''CASE'', ''CATALOG_NAME'', ''CHAIN'', ''CHALLENGE_RESPONSE'', ''CHANGE''],
     [''CHANGED'', ''CHANNEL'', ''CHAR'', ''CHARACTER'', ''CHARSET'', ''CHECK'', ''CHECKSUM'', ''CIPHER'', ''CLASS_ORIGIN'', ''CLIENT'', ''CLONE''],
     [''CLOSE'', ''COALESCE'', ''CODE'', ''COLLATE'', ''COLLATION'', ''COLUMN'', ''COLUMNS'', ''COLUMN_FORMAT'', ''COLUMN_NAME'', ''COMMENT''],
     [''COMMIT'', ''COMMITTED'', ''COMPACT'', ''COMPLETION'', ''COMPONENT'', ''COMPRESSED'', ''COMPRESSION'', ''CONCURRENT''],
     [''CONDITION'', ''CONNECTION'', ''CONSISTENT'', ''CONSTRAINT'', ''CONSTRAINT_CATALOG'', ''CONSTRAINT_NAME''],
     [''CONSTRAINT_SCHEMA'', ''CONTAINS'', ''CONTEXT'', ''CONTINUE'', ''CONVERT'', ''CPU'', ''CREATE'', ''CROSS'', ''CUBE'', ''CUME_DIST''],
     [''CURRENT'', ''CURRENT_DATE'', ''CURRENT_TIME'', ''CURRENT_TIMESTAMP'', ''CURRENT_USER'', ''CURSOR'', ''CURSOR_NAME''],
     [''DATA'', ''DATABASE'', ''DATABASES'', ''DATAFILE'', ''DATE'', ''DATETIME'', ''DAY'', ''DAY_HOUR'', ''DAY_MICROSECOND'', ''DAY_MINUTE''],
     [''DAY_SECOND'', ''DEALLOCATE'', ''DEC'', ''DECIMAL'', ''DECLARE'', ''DEFAULT'', ''DEFAULT_AUTH'', ''DEFINER'', ''DEFINITION''],
     [''DELAYED'', ''DELAY_KEY_WRITE'', ''DELETE'', ''DENSE_RANK'', ''DESC'', ''DESCRIBE'', ''DESCRIPTION'', ''DES_KEY_FILE''],
     [''DETERMINISTIC'', ''DIAGNOSTICS'', ''DIRECTORY'', ''DISABLE'', ''DISCARD'', ''DISK'', ''DISTINCT'', ''DISTINCTROW'', ''DIV'', ''DO''],
     [''DOUBLE'', ''DROP'', ''DUAL'', ''DUMPFILE'', ''DUPLICATE'', ''DYNAMIC'', ''EACH'', ''ELSE'', ''ELSEIF'', ''EMPTY'', ''ENABLE'', ''ENCLOSED''],
     [''ENCRYPTION'', ''END'', ''ENDS'', ''ENFORCED'', ''ENGINE'', ''ENGINES'', ''ENGINE_ATTRIBUTE'', ''ENUM'', ''ERROR'', ''ERRORS'', ''ESCAPE''],
     [''ESCAPED'', ''EVENT'', ''EVENTS'', ''EVERY'', ''EXCEPT'', ''EXCHANGE'', ''EXCLUDE'', ''EXECUTE'', ''EXISTS'', ''EXIT'', ''EXPANSION'', ''EXPIRE''],
     [''EXPLAIN'', ''EXPORT'', ''EXTENDED'', ''EXTENT_SIZE'', ''FACTOR'', ''FAILED_LOGIN_ATTEMPTS'', ''FALSE'', ''FAST'', ''FAULTS''],
     [''FETCH'', ''FIELDS'', ''FILE'', ''FILE_BLOCK_SIZE'', ''FILTER'', ''FINISH'', ''FIRST'', ''FIRST_VALUE'', ''FIXED'', ''FLOAT'', ''FLOAT4''],
     [''FLOAT8'', ''FLUSH'', ''FOLLOWING'', ''FOLLOWS'', ''FOR'', ''FORCE'', ''FOREIGN'', ''FORMAT'', ''FOUND'', ''FROM'', ''FULL'', ''FULLTEXT''],
     [''FUNCTION'', ''GENERAL'', ''GENERATE'', ''GENERATED'', ''GEOMCOLLECTION'', ''GEOMETRY'', ''GEOMETRYCOLLECTION'', ''GET''],
     [''GET_FORMAT'', ''GET_MASTER_PUBLIC_KEY'', ''GET_SOURCE_PUBLIC_KEY'', ''GLOBAL'', ''GRANT'', ''GRANTS'', ''GROUP''],
     [''GROUPING'', ''GROUPS'', ''GROUP_REPLICATION'', ''GTID_ONLY'', ''HANDLER'', ''HASH'', ''HAVING'', ''HELP'', ''HIGH_PRIORITY''],
     [''HISTOGRAM'', ''HISTORY'', ''HOST'', ''HOSTS'', ''HOUR'', ''HOUR_MICROSECOND'', ''HOUR_MINUTE'', ''HOUR_SECOND'', ''IDENTIFIED''],
     [''IF'', ''IGNORE'', ''IGNORE_SERVER_IDS'', ''IMPORT'', ''IN'', ''INACTIVE'', ''INDEX'', ''INDEXES'', ''INFILE'', ''INITIAL''],
     [''INITIAL_SIZE'', ''INITIATE'', ''INNER'', ''INOUT'', ''INSENSITIVE'', ''INSERT'', ''INSERT_METHOD'', ''INSTALL'', ''INSTANCE'', ''INT''],
     [''INT1'', ''INT2'', ''INT3'', ''INT4'', ''INT8'', ''INTEGER'', ''INTERSECT'', ''INTERVAL'', ''INTO'', ''INVISIBLE'', ''INVOKER'', ''IO''],
     [''IO_AFTER_GTIDS'', ''IO_BEFORE_GTIDS'', ''IO_THREAD'', ''IPC'', ''IS'', ''ISOLATION'', ''ISSUER'', ''ITERATE'', ''JOIN'', ''JSON''],
     [''JSON_TABLE'', ''JSON_VALUE'', ''KEY'', ''KEYRING'', ''KEYS'', ''KEY_BLOCK_SIZE'', ''KILL'', ''LAG'', ''LANGUAGE'', ''LAST'', ''LAST_VALUE''],
     [''LATERAL'', ''LEAD'', ''LEADING'', ''LEAVE'', ''LEAVES'', ''LEFT'', ''LESS'', ''LEVEL'', ''LIKE'', ''LIMIT'', ''LINEAR'', ''LINES'', ''LINESTRING''],
     [''LIST'', ''LOAD'', ''LOCAL'', ''LOCALTIME'', ''LOCALTIMESTAMP'', ''LOCK'', ''LOCKED'', ''LOCKS'', ''LOGFILE'', ''LOGS'', ''LONG'', ''LONGBLOB''],
     [''LONGTEXT'', ''LOOP'', ''LOW_PRIORITY'', ''MASTER'', ''MASTER_AUTO_POSITION'', ''MASTER_BIND''],
     [''MASTER_COMPRESSION_ALGORITHMS'', ''MASTER_CONNECT_RETRY'', ''MASTER_DELAY'', ''MASTER_HEARTBEAT_PERIOD''],
     [''MASTER_HOST'', ''MASTER_LOG_FILE'', ''MASTER_LOG_POS'', ''MASTER_PASSWORD'', ''MASTER_PORT''],
     [''MASTER_PUBLIC_KEY_PATH'', ''MASTER_RETRY_COUNT'', ''MASTER_SERVER_ID'', ''MASTER_SSL'', ''MASTER_SSL_CA''],
     [''MASTER_SSL_CAPATH'', ''MASTER_SSL_CERT'', ''MASTER_SSL_CIPHER'', ''MASTER_SSL_CRL'', ''MASTER_SSL_CRLPATH''],
     [''MASTER_SSL_KEY'', ''MASTER_SSL_VERIFY_SERVER_CERT'', ''MASTER_TLS_CIPHERSUITES'', ''MASTER_TLS_VERSION''],
     [''MASTER_USER'', ''MASTER_ZSTD_COMPRESSION_LEVEL'', ''MATCH'', ''MAXVALUE'', ''MAX_CONNECTIONS_PER_HOUR''],
     [''MAX_QUERIES_PER_HOUR'', ''MAX_ROWS'', ''MAX_SIZE'', ''MAX_UPDATES_PER_HOUR'', ''MAX_USER_CONNECTIONS'', ''MEDIUM''],
     [''MEDIUMBLOB'', ''MEDIUMINT'', ''MEDIUMTEXT'', ''MEMBER'', ''MEMORY'', ''MERGE'', ''MESSAGE_TEXT'', ''MICROSECOND'', ''MIDDLEINT''],
     [''MIGRATE'', ''MINUTE'', ''MINUTE_MICROSECOND'', ''MINUTE_SECOND'', ''MIN_ROWS'', ''MOD'', ''MODE'', ''MODIFIES'', ''MODIFY'', ''MONTH''],
     [''MULTILINESTRING'', ''MULTIPOINT'', ''MULTIPOLYGON'', ''MUTEX'', ''MYSQL_ERRNO'', ''NAME'', ''NAMES'', ''NATIONAL'', ''NATURAL''],
     [''NCHAR'', ''NDB'', ''NDBCLUSTER'', ''NESTED'', ''NETWORK_NAMESPACE'', ''NEVER'', ''NEW'', ''NEXT'', ''NO'', ''NODEGROUP'', ''NONE'', ''NOT''],
     [''NOWAIT'', ''NO_WAIT'', ''NO_WRITE_TO_BINLOG'', ''NTH_VALUE'', ''NTILE'', ''NULL'', ''NULLS'', ''NUMBER'', ''NUMERIC'', ''NVARCHAR'', ''OF''],
     [''OFF'', ''OFFSET'', ''OJ'', ''OLD'', ''ON'', ''ONE'', ''ONLY'', ''OPEN'', ''OPTIMIZE'', ''OPTIMIZER_COSTS'', ''OPTION'', ''OPTIONAL'', ''OPTIONALLY''],
     [''OPTIONS'', ''OR'', ''ORDER'', ''ORDINALITY'', ''ORGANIZATION'', ''OTHERS'', ''OUT'', ''OUTER'', ''OUTFILE'', ''OVER'', ''OWNER'', ''PACK_KEYS''],
     [''PAGE'', ''PARSER'', ''PARTIAL'', ''PARTITION'', ''PARTITIONING'', ''PARTITIONS'', ''PASSWORD'', ''PASSWORD_LOCK_TIME'', ''PATH''],
     [''PERCENT_RANK'', ''PERSIST'', ''PERSIST_ONLY'', ''PHASE'', ''PLUGIN'', ''PLUGINS'', ''PLUGIN_DIR'', ''POINT'', ''POLYGON'', ''PORT''],
     [''PRECEDES'', ''PRECEDING'', ''PRECISION'', ''PREPARE'', ''PRESERVE'', ''PREV'', ''PRIMARY'', ''PRIVILEGES''],
     [''PRIVILEGE_CHECKS_USER'', ''PROCEDURE'', ''PROCESS'', ''PROCESSLIST'', ''PROFILE'', ''PROFILES'', ''PROXY'', ''PURGE''],
     [''QUARTER'', ''QUERY'', ''QUICK'', ''RANDOM'', ''RANGE'', ''RANK'', ''READ'', ''READS'', ''READ_ONLY'', ''READ_WRITE'', ''REAL'', ''REBUILD''],
     [''RECOVER'', ''RECURSIVE'', ''REDOFILE'', ''REDO_BUFFER_SIZE'', ''REDUNDANT'', ''REFERENCE'', ''REFERENCES'', ''REGEXP''],
     [''REGISTRATION'', ''RELAY'', ''RELAYLOG'', ''RELAY_LOG_FILE'', ''RELAY_LOG_POS'', ''RELAY_THREAD'', ''RELEASE'', ''RELOAD''],
     [''REMOTE'', ''REMOVE'', ''RENAME'', ''REORGANIZE'', ''REPAIR'', ''REPEAT'', ''REPEATABLE'', ''REPLACE'', ''REPLICA'', ''REPLICAS''],
     [''REPLICATE_DO_DB'', ''REPLICATE_DO_TABLE'', ''REPLICATE_IGNORE_DB'', ''REPLICATE_IGNORE_TABLE''],
     [''REPLICATE_REWRITE_DB'', ''REPLICATE_WILD_DO_TABLE'', ''REPLICATE_WILD_IGNORE_TABLE'', ''REPLICATION''],
     [''REQUIRE'', ''REQUIRE_ROW_FORMAT'', ''RESET'', ''RESIGNAL'', ''RESOURCE'', ''RESPECT'', ''RESTART'', ''RESTORE'', ''RESTRICT''],
     [''RESUME'', ''RETAIN'', ''RETURN'', ''RETURNED_SQLSTATE'', ''RETURNING'', ''RETURNS'', ''REUSE'', ''REVERSE'', ''REVOKE'', ''RIGHT''],
     [''RLIKE'', ''ROLE'', ''ROLLBACK'', ''ROLLUP'', ''ROTATE'', ''ROUTINE'', ''ROW'', ''ROWS'', ''ROW_COUNT'', ''ROW_FORMAT'', ''ROW_NUMBER''],
     [''RTREE'', ''SAVEPOINT'', ''SCHEDULE'', ''SCHEMA'', ''SCHEMAS'', ''SCHEMA_NAME'', ''SECOND'', ''SECONDARY'', ''SECONDARY_ENGINE''],
     [''SECONDARY_ENGINE_ATTRIBUTE'', ''SECONDARY_LOAD'', ''SECONDARY_UNLOAD'', ''SECOND_MICROSECOND'', ''SECURITY''],
     [''SELECT'', ''SENSITIVE'', ''SEPARATOR'', ''SERIAL'', ''SERIALIZABLE'', ''SERVER'', ''SESSION'', ''SET'', ''SHARE'', ''SHOW'', ''SHUTDOWN''],
     [''SIGNAL'', ''SIGNED'', ''SIMPLE'', ''SKIP'', ''SLAVE'', ''SLOW'', ''SMALLINT'', ''SNAPSHOT'', ''SOCKET'', ''SOME'', ''SONAME'', ''SOUNDS'', ''SOURCE''],
     [''SOURCE_AUTO_POSITION'', ''SOURCE_BIND'', ''SOURCE_COMPRESSION_ALGORITHMS'', ''SOURCE_CONNECT_RETRY''],
     [''SOURCE_DELAY'', ''SOURCE_HEARTBEAT_PERIOD'', ''SOURCE_HOST'', ''SOURCE_LOG_FILE'', ''SOURCE_LOG_POS''],
     [''SOURCE_PASSWORD'', ''SOURCE_PORT'', ''SOURCE_PUBLIC_KEY_PATH'', ''SOURCE_RETRY_COUNT'', ''SOURCE_SSL''],
     [''SOURCE_SSL_CA'', ''SOURCE_SSL_CAPATH'', ''SOURCE_SSL_CERT'', ''SOURCE_SSL_CIPHER'', ''SOURCE_SSL_CRL''],
     [''SOURCE_SSL_CRLPATH'', ''SOURCE_SSL_KEY'', ''SOURCE_SSL_VERIFY_SERVER_CERT'', ''SOURCE_TLS_CIPHERSUITES''],
     [''SOURCE_TLS_VERSION'', ''SOURCE_USER'', ''SOURCE_ZSTD_COMPRESSION_LEVEL'', ''SPATIAL'', ''SPECIFIC'', ''SQL''],
     [''SQLEXCEPTION'', ''SQLSTATE'', ''SQLWARNING'', ''SQL_AFTER_GTIDS'', ''SQL_AFTER_MTS_GAPS'', ''SQL_BEFORE_GTIDS''],
     [''SQL_BIG_RESULT'', ''SQL_BUFFER_RESULT'', ''SQL_CACHE'', ''SQL_CALC_FOUND_ROWS'', ''SQL_NO_CACHE''],
     [''SQL_SMALL_RESULT'', ''SQL_THREAD'', ''SQL_TSI_DAY'', ''SQL_TSI_HOUR'', ''SQL_TSI_MINUTE'', ''SQL_TSI_MONTH''],
     [''SQL_TSI_QUARTER'', ''SQL_TSI_SECOND'', ''SQL_TSI_WEEK'', ''SQL_TSI_YEAR'', ''SRID'', ''SSL'', ''STACKED'', ''START''],
     [''STARTING'', ''STARTS'', ''STATS_AUTO_RECALC'', ''STATS_PERSISTENT'', ''STATS_SAMPLE_PAGES'', ''STATUS'', ''STOP''],
     [''STORAGE'', ''STORED'', ''STRAIGHT_JOIN'', ''STREAM'', ''STRING'', ''SUBCLASS_ORIGIN'', ''SUBJECT'', ''SUBPARTITION''],
     [''SUBPARTITIONS'', ''SUPER'', ''SUSPEND'', ''SWAPS'', ''SWITCHES'', ''SYSTEM'', ''TABLE'', ''TABLES'', ''TABLESPACE''],
     [''TABLE_CHECKSUM'', ''TABLE_NAME'', ''TEMPORARY'', ''TEMPTABLE'', ''TERMINATED'', ''TEXT'', ''THAN'', ''THEN'', ''THREAD_PRIORITY''],
     [''TIES'', ''TIME'', ''TIMESTAMP'', ''TIMESTAMPADD'', ''TIMESTAMPDIFF'', ''TINYBLOB'', ''TINYINT'', ''TINYTEXT'', ''TLS'', ''TO''],
     [''TRAILING'', ''TRANSACTION'', ''TRIGGER'', ''TRIGGERS'', ''TRUE'', ''TRUNCATE'', ''TYPE'', ''TYPES'', ''UNBOUNDED'', ''UNCOMMITTED''],
     [''UNDEFINED'', ''UNDO'', ''UNDOFILE'', ''UNDO_BUFFER_SIZE'', ''UNICODE'', ''UNINSTALL'', ''UNION'', ''UNIQUE'', ''UNKNOWN'', ''UNLOCK''],
     [''UNREGISTER'', ''UNSIGNED'', ''UNTIL'', ''UPDATE'', ''UPGRADE'', ''URL'', ''USAGE'', ''USE'', ''USER'', ''USER_RESOURCES'', ''USE_FRM''],
     [''USING'', ''UTC_DATE'', ''UTC_TIME'', ''UTC_TIMESTAMP'', ''VALIDATION'', ''VALUE'', ''VALUES'', ''VARBINARY'', ''VARCHAR''],
     [''VARCHARACTER'', ''VARIABLES'', ''VARYING'', ''VCPU'', ''VIEW'', ''VIRTUAL'', ''VISIBLE'', ''WAIT'', ''WARNINGS'', ''WEEK''],
     [''WEIGHT_STRING'', ''WHEN'', ''WHERE'', ''WHILE'', ''WINDOW'', ''WITH'', ''WITHOUT'', ''WORK'', ''WRAPPER'', ''WRITE'', ''X509'', ''XA'', ''XID'', ''XML''],
     [''XOR'', ''YEAR'', ''YEAR_MONTH'', ''ZEROFILL'', ''ZONE'']]"

definition isSqlKeyword :: "string option \<Rightarrow> bool" where
  "isSqlKeyword word \<longleftrightarrow> truthy word \<and> to_lower (trim (the word)) \<in> set (map to_lower SQL_KEYWORDS)"

definition isScqlUnfriendly :: "string option \<Rightarrow> bool" where
  "isScqlUnfriendly word \<longleftrightarrow> truthy word \<and> (isSqlKeyword word \<or> CHR ''-'' \<in> set (the word))"

section \<open>Schema rows\<close>

record schema_field =
  sf_name :: string
  sf_type :: string
  sf_desc :: string

datatype field_issue = NameRequired | NameTooLong | NamePattern | Duplicate | TypeRequired | DescTooLong

definition FEATURE_NAME_MAX :: nat where "FEATURE_NAME_MAX = 64"
definition FEATURE_DESC_MAX :: nat where "FEATURE_DESC_MAX = 200"

definition feature_name :: "string \<Rightarrow> bool" where
  "feature_name s \<longleftrightarrow> s \<noteq> '''' \<and> (is_upper (hd s) \<or> is_lower (hd s)) \<and> list_all word_char (tl s)"

definition field_issues :: "string list \<Rightarrow> nat \<Rightarrow> schema_field \<Rightarrow> (nat \<times> field_issue) list" where
  "field_issues names index f =
     (let name = trim (sf_name f) in
      (if name = '''' then [(index, NameRequired)]
       else (if utf16_length name > FEATURE_NAME_MAX then [(index, NameTooLong)] else []) @
            (if \<not> feature_name name then [(index, NamePattern)] else []) @
            (if count_list names name > 1 then [(index, Duplicate)] else [])) @
      (if sf_type f = '''' then [(index, TypeRequired)] else []) @
      (if utf16_length (sf_desc f) > FEATURE_DESC_MAX then [(index, DescTooLong)] else []))"

definition validateSchemaFields :: "schema_field list \<Rightarrow> (nat \<times> field_issue) list" where
  "validateSchemaFields sfs =
     (let names = filter (\<lambda>n. n \<noteq> '''') (map (trim \<circ> sf_name) sfs) in
      concat (map (\<lambda>(i, f). field_issues names i f) (enumerate 0 sfs)))"

definition scqlWarningIndexes :: "schema_field list \<Rightarrow> nat list" where
  "scqlWarningIndexes sfs = map fst (filter (\<lambda>(i, f). isScqlUnfriendly (Some (trim (sf_name f)))) (enumerate 0 sfs))"

definition toSchemaColType :: "string \<Rightarrow> string" where
  "toSchemaColType t =
     (if t \<in> {''int'', ''float'', ''str''} then t else if t = ''integer'' then ''int'' else ''str'')"

definition isSchemaValid :: "schema_field list \<Rightarrow> bool" where
  "isSchemaValid sfs \<longleftrightarrow> sfs \<noteq> [] \<and> validateSchemaFields sfs = []"

section \<open>The schema as a CSV file\<close>

text \<open>The value and the label of a type.\<close>

definition SCHEMA_TYPE_OPTIONS :: "(string \<times> string) list" where
  "SCHEMA_TYPE_OPTIONS = [(''int'', ''integer''), (''float'', ''float''), (''str'', ''string'')]"

definition SCHEMA_TEMPLATE_HEADER :: "string list" where
  "SCHEMA_TEMPLATE_HEADER = [(utf8 [0xE7, 0x89, 0xB9, 0xE5, 0xBE, 0x81, 0xE5, 0x90, 0x8D, 0xE7, 0xA7, 0xB0]), (utf8 [0xE7, 0x89, 0xB9, 0xE5, 0xBE, 0x81, 0xE7, 0xB1, 0xBB, 0xE5, 0x9E, 0x8B]), (utf8 [0xE7, 0x89, 0xB9, 0xE5, 0xBE, 0x81, 0xE6, 0x8F, 0x8F, 0xE8, 0xBF, 0xB0])]"

definition SCHEMA_TEMPLATE_ROWS :: "string list list" where
  "SCHEMA_TEMPLATE_ROWS = [[''id1'', ''string'', ''''], [''x1'', ''integer'', (utf8 [0xE6, 0x8F, 0x8F, 0xE8, 0xBF, 0xB0])], [''x2'', ''integer'', ''''],
     [''x3'', ''integer'', ''''], [''x4'', ''float'', ''''], [''x5'', ''float'', ''''], [''x6'', ''float'', ''''],
     [''x7'', ''float'', ''''], [''x8'', ''float'', ''''], [''x9'', ''float'', ''''], [''x10'', ''float'', '''']]"

definition csvCell :: "string \<Rightarrow> string" where
  "csvCell v =
     (if dquote \<in> set v \<or> CHR '','' \<in> set v \<or> CHR 0x0D \<in> set v \<or> CHR 0x0A \<in> set v then quote_field v else v)"

definition buildSchemaTemplateCsv :: string where
  "buildSchemaTemplateCsv =
     BOM @ join_with [CHR 0x0A] (map (\<lambda>r. join_with '','' (map csvCell r)) (SCHEMA_TEMPLATE_HEADER # SCHEMA_TEMPLATE_ROWS)) @ [CHR 0x0A]"

fun first_index :: "'a \<Rightarrow> 'a list \<Rightarrow> nat option" where
  "first_index x [] = None"
| "first_index x (y # ys) = (if x = y then Some 0 else map_option Suc (first_index x ys))"

definition field_at :: "string list \<Rightarrow> nat option \<Rightarrow> string" where
  "field_at r i = trim (nullish (Option.bind i (at_opt r)) '''')"

definition option_value :: "string \<Rightarrow> string" where
  "option_value raw = (case List.find (\<lambda>(v, l). l = raw \<or> v = raw) SCHEMA_TYPE_OPTIONS of None \<Rightarrow> '''' | Some (v, _) \<Rightarrow> v)"

fun schema_rows ::
  "nat option \<Rightarrow> nat option \<Rightarrow> nat option \<Rightarrow> string list list \<Rightarrow> string set \<Rightarrow> schema_field list \<times> nat" where
  "schema_rows iName iType iDesc [] seen = ([], 0)"
| "schema_rows iName iType iDesc (r # rows) seen =
     (let name = field_at r iName in
      if name = '''' then schema_rows iName iType iDesc rows seen
      else if name \<in> seen then (let (fs, d) = schema_rows iName iType iDesc rows seen in (fs, Suc d))
      else (let (fs, d) = schema_rows iName iType iDesc rows (insert name seen) in
        (\<lparr>sf_name = name, sf_type = option_value (field_at r iType), sf_desc = field_at r iDesc\<rparr> # fs, d)))"

definition parseSchemaCsv :: "string list \<times> string list list \<Rightarrow> (schema_field list \<times> nat) option" where
  "parseSchemaCsv preview =
     (let header = map trim (fst preview) in
      if length header \<noteq> 3 then None
      else if list_ex (\<lambda>h. h \<noteq> '''' \<and> h \<notin> set SCHEMA_TEMPLATE_HEADER) header then None
      else Some (schema_rows (first_index (SCHEMA_TEMPLATE_HEADER ! 0) header) (first_index (SCHEMA_TEMPLATE_HEADER ! 1) header)
        (first_index (SCHEMA_TEMPLATE_HEADER ! 2) header) (snd preview) {}))"

text \<open>
  \<open>readCsvHead\<close>: of a file that is longer than the head, the last line of the head is dropped.
  The text is its bytes, so cutting it may cut a character, of the line that is dropped.
\<close>

definition readCsvHead :: "string \<Rightarrow> nat \<Rightarrow> nat \<Rightarrow> string list \<times> string list list" where
  "readCsvHead file bytes sampleRows =
     (let t = take bytes file;
          cut = rev (tl (dropWhile (\<lambda>c. c \<noteq> CHR 0x0A) (rev t)));
          safe = (if bytes < length file then (if cut = [] then t else cut) else t)
      in parseCsvPreview safe sampleRows)"

fun inferred_name :: "inferred_type \<Rightarrow> string" where
  "inferred_name ColInt = ''int''"
| "inferred_name ColFloat = ''float''"
| "inferred_name ColBool = ''bool''"
| "inferred_name ColStr = ''str''"

definition schemaFromCsvPreview :: "string list \<times> string list list \<Rightarrow> string list \<Rightarrow> schema_field list" where
  "schemaFromCsvPreview preview nullStrs =
     map (\<lambda>(i, col). \<lparr>sf_name = col,
        sf_type = toSchemaColType (inferred_name (inferColumnType (map (\<lambda>r. nullish (at_opt r i) '''') (snd preview)) nullStrs)),
        sf_desc = ''''\<rparr>) (enumerate 0 (fst preview))"

definition toTableColumns :: "schema_field list \<Rightarrow> (string \<times> string \<times> string) list" where
  "toTableColumns sfs = map (\<lambda>f. (trim (sf_name f), sf_type f, sf_desc f)) sfs"

definition toDatatableSchema :: "schema_field list \<Rightarrow> (string \<times> string \<times> string) list" where
  "toDatatableSchema sfs = map (\<lambda>f. (trim (sf_name f), sf_type f, sf_desc f)) sfs"

section \<open>Names and null strings\<close>

datatype name_issue = NameMissing | NameLong | NameChars

definition DISPLAY_NAME_MAX :: nat where "DISPLAY_NAME_MAX = 32"

definition validateDisplayName :: "string \<Rightarrow> nat \<Rightarrow> name_issue option" where
  "validateDisplayName name limit =
     (let v = trim name in
      if v = '''' then Some NameMissing else if utf16_length v > limit then Some NameLong
      else if \<not> legal_name v then Some NameChars else None)"

fun hasWhitespace :: "string \<Rightarrow> bool" where
  "hasWhitespace [] = False"
| "hasWhitespace (c # s) = (ws_length (c # s) > 0 \<or> hasWhitespace s)"

definition parseNullStrs :: "(string \<Rightarrow> jsval option) \<Rightarrow> string \<Rightarrow> string list option" where
  "parseNullStrs parse t =
     (let v = trim t in
      if v = '''' then Some []
      else (case parse (''['' @ v @ '']'') of Some (JArr xs) \<Rightarrow> Some (map string_of xs) | _ \<Rightarrow> None))"

definition formatFailedNodes :: "(jsval \<Rightarrow> string) \<Rightarrow> jsobj option \<Rightarrow> (string \<times> string) list" where
  "formatFailedNodes stringify failed =
     map (\<lambda>(n, m). (n, case m of JStr s \<Rightarrow> s | Undefined \<Rightarrow> '''' | Null \<Rightarrow> '''' | _ \<Rightarrow> stringify m)) (nullish failed [])"

section \<open>Uploading a file\<close>

datatype file_issue = NotCsv | Whitespace

definition checkUploadFile :: "string \<Rightarrow> file_issue option" where
  "checkUploadFile name =
     (if \<not> starts_with (rev (to_lower name)) (rev ''.csv'') then Some NotCsv
      else if hasWhitespace name then Some Whitespace else None)"

record upload_values =
  up_tableName :: string
  up_description :: string
  up_nullStrsText :: string
  up_fields :: "schema_field list"

record form_issues =
  fi_address :: bool
  fi_tableName :: "name_issue option"
  fi_description :: bool
  fi_nullStrs :: bool
  fi_schema :: bool
  fi_nodesRequired :: bool
  fi_nodesTooMany :: bool
  fi_partitions :: bool

definition no_issues :: form_issues where
  "no_issues = \<lparr>fi_address = False, fi_tableName = None, fi_description = False, fi_nullStrs = False, fi_schema = False,
     fi_nodesRequired = False, fi_nodesTooMany = False, fi_partitions = False\<rparr>"

definition validateUploadForm :: "(string \<Rightarrow> jsval option) \<Rightarrow> upload_values \<Rightarrow> form_issues" where
  "validateUploadForm parse v = no_issues\<lparr>fi_tableName := validateDisplayName (up_tableName v) DISPLAY_NAME_MAX,
     fi_description := utf16_length (up_description v) > 200,
     fi_nullStrs := parseNullStrs parse (up_nullStrsText v) = None,
     fi_schema := \<not> isSchemaValid (up_fields v)\<rparr>"

section \<open>Registering a table\<close>

definition MAX_REGISTER_NODES :: nat where "MAX_REGISTER_NODES = 5"
definition TABLE_DESC_MAX :: nat where "TABLE_DESC_MAX = 100"

record register_values =
  rg_address :: string
  rg_tableName :: string
  rg_description :: string
  rg_nullStrsText :: string
  rg_fields :: "schema_field list"
  rg_partitions :: "string list"

definition supportsNullStrs :: "string \<Rightarrow> bool" where
  "supportsNullStrs type \<longleftrightarrow> type \<in> {''OSS'', ''ODPS'', ''MYSQL''}"

definition field_names :: "schema_field list \<Rightarrow> string list" where
  "field_names sfs = map (trim \<circ> sf_name) sfs"

definition validateRegisterForm :: "(string \<Rightarrow> jsval option) \<Rightarrow> string \<Rightarrow> register_values \<Rightarrow> string list \<Rightarrow> bool \<Rightarrow> form_issues" where
  "validateRegisterForm parse type v nodeIds multiNode =
     \<lparr>fi_address = (trim (rg_address v) = ''''),
      fi_tableName = validateDisplayName (rg_tableName v) DISPLAY_NAME_MAX,
      fi_description = (utf16_length (rg_description v) > TABLE_DESC_MAX),
      fi_nullStrs = (supportsNullStrs type \<and> parseNullStrs parse (rg_nullStrsText v) = None),
      fi_schema = (\<not> isSchemaValid (rg_fields v)),
      fi_nodesRequired = (multiNode \<and> nodeIds = []),
      fi_nodesTooMany = (multiNode \<and> length nodeIds > MAX_REGISTER_NODES),
      fi_partitions = (type = ''ODPS'' \<and> list_ex (\<lambda>p. trim p \<noteq> '''' \<and> trim p \<notin> set (field_names (rg_fields v))) (rg_partitions v))\<rparr>"

definition tableKeywordWarnings :: "string \<Rightarrow> register_values \<Rightarrow> bool \<times> bool" where
  "tableKeywordWarnings type v =
     (isSqlKeyword (Some (trim (rg_tableName v))), type \<in> {''MYSQL'', ''ODPS''} \<and> isSqlKeyword (Some (trim (rg_address v))))"

record register_request =
  rq_ownerId :: string
  rq_nodeIds :: "string list"
  rq_datatableName :: string
  rq_datasourceId :: string
  rq_datasourceName :: string
  rq_type :: string
  rq_desc :: string
  rq_relativeUri :: string
  rq_columns :: "(string \<times> string \<times> string) list"
  rq_nullStrs :: "string list option"
  rq_partition :: "(string \<times> string \<times> string) list option"

definition HTTP_DATASOURCE_ID :: string where "HTTP_DATASOURCE_ID = ''http-data-source''"

definition partition_fields :: "schema_field list \<Rightarrow> string list \<Rightarrow> (string \<times> string \<times> string) list" where
  "partition_fields sfs partitions =
     map (\<lambda>f. (trim (sf_name f), sf_type f, sf_desc f))
       (List.map_filter (\<lambda>name. List.find (\<lambda>f. trim (sf_name f) = name) sfs) (filter (\<lambda>p. p \<noteq> '''') (map trim partitions)))"

definition buildCreateDatatableRequest ::
  "(string \<Rightarrow> jsval option) \<Rightarrow> string \<Rightarrow> string list \<Rightarrow> string \<times> string \<times> string \<Rightarrow> register_values \<Rightarrow> register_request" where
  "buildCreateDatatableRequest parse ownerId nodeIds datasource v =
     (let (dsId, dsName, type) = datasource;
          base = \<lparr>rq_ownerId = ownerId, rq_nodeIds = nodeIds, rq_datatableName = trim (rg_tableName v), rq_datasourceId = dsId,
            rq_datasourceName = dsName, rq_type = type, rq_desc = trim (rg_description v), rq_relativeUri = trim (rg_address v),
            rq_columns = toTableColumns (rg_fields v), rq_nullStrs = None, rq_partition = None\<rparr>
      in if type = ''HTTP'' then base\<lparr>rq_datasourceId := HTTP_DATASOURCE_ID, rq_datasourceName := HTTP_DATASOURCE_ID\<rparr>
         else (let withNull = (if supportsNullStrs type then base\<lparr>rq_nullStrs := Some (nullish (parseNullStrs parse (rg_nullStrsText v)) [])\<rparr> else base)
               in if type = ''ODPS'' then withNull\<lparr>rq_partition := Some (partition_fields (rg_fields v) (rg_partitions v))\<rparr>
                  else withNull))"


section \<open>What an accepted schema is\<close>

definition good_field :: "schema_field \<Rightarrow> bool" where
  "good_field f \<longleftrightarrow> feature_name (trim (sf_name f)) \<and> utf16_length (trim (sf_name f)) \<le> 64 \<and> sf_type f \<noteq> '''' \<and>
     utf16_length (sf_desc f) \<le> 200"

lemma field_issues_none:
  "field_issues names i f = [] \<longleftrightarrow> good_field f \<and> count_list names (trim (sf_name f)) \<le> 1"
  by (auto simp: field_issues_def Let_def good_field_def feature_name_def FEATURE_NAME_MAX_def FEATURE_DESC_MAX_def)

lemma count_distinct: "(\<forall>x \<in> set xs. count_list xs x \<le> 1) \<longleftrightarrow> distinct xs"
proof (induction xs)
  case (Cons y xs)
  have "(\<forall>x \<in> set (y # xs). count_list (y # xs) x \<le> 1) \<longleftrightarrow> count_list xs y = 0 \<and> (\<forall>x \<in> set xs. count_list xs x \<le> 1)"
  proof
    assume a: "\<forall>x \<in> set (y # xs). count_list (y # xs) x \<le> 1"
    then have "count_list xs y = 0" by simp
    moreover have "count_list xs x \<le> 1" if "x \<in> set xs" for x
    proof -
      have "count_list xs x \<le> count_list (y # xs) x" by simp
      also have "\<dots> \<le> 1" using a that by (meson list.set_intros(2))
      finally show ?thesis .
    qed
    ultimately show "count_list xs y = 0 \<and> (\<forall>x \<in> set xs. count_list xs x \<le> 1)" by blast
  qed auto
  then show ?case using Cons by (simp add: count_list_0_iff)
qed simp

lemma schema_accepted:
  "isSchemaValid sfs \<longleftrightarrow> sfs \<noteq> [] \<and> (\<forall>f \<in> set sfs. good_field f) \<and> distinct (field_names sfs)"
proof -
  define names where "names = filter (\<lambda>n. n \<noteq> '''') (map (trim \<circ> sf_name) sfs)"
  have "validateSchemaFields sfs = [] \<longleftrightarrow> (\<forall>(i, f) \<in> set (enumerate 0 sfs). field_issues names i f = [])"
    by (auto simp: validateSchemaFields_def Let_def names_def)
  also have "\<dots> \<longleftrightarrow> (\<forall>f \<in> set sfs. good_field f \<and> count_list names (trim (sf_name f)) \<le> 1)"
  proof
    assume a: "\<forall>(i, f) \<in> set (enumerate 0 sfs). field_issues names i f = []"
    show "\<forall>f \<in> set sfs. good_field f \<and> count_list names (trim (sf_name f)) \<le> 1"
    proof
      fix f assume "f \<in> set sfs"
      then obtain i where "(i, f) \<in> set (enumerate 0 sfs)"
        by (metis add_0 in_set_conv_nth in_set_enumerate_eq le0 length_map fst_conv snd_conv diff_zero add.right_neutral)
      then show "good_field f \<and> count_list names (trim (sf_name f)) \<le> 1" using a field_issues_none by fastforce
    qed
  qed (auto simp: field_issues_none in_set_enumerate_eq nth_mem)
  also have "\<dots> \<longleftrightarrow> (\<forall>f \<in> set sfs. good_field f) \<and> distinct (field_names sfs)"
  proof -
    have "names = field_names sfs" if "\<forall>f \<in> set sfs. good_field f"
      using that unfolding names_def field_names_def by (intro filter_True) (auto simp: good_field_def feature_name_def)
    then show ?thesis using count_distinct [of "field_names sfs"] by (auto simp: field_names_def)
  qed
  finally show ?thesis by (auto simp: isSchemaValid_def)
qed

section \<open>What is read from a schema file\<close>

text \<open>The names read are those of the rows, each once; every other row with a name is counted.\<close>

lemma schema_rows_spec:
  "schema_rows iName iType iDesc rows seen = (fs, d) \<Longrightarrow>
   distinct (map sf_name fs) \<and> set (map sf_name fs) \<inter> seen = {} \<and>
   set (map sf_name fs) = {n \<in> (\<lambda>r. field_at r iName) ` set rows. n \<noteq> '''' \<and> n \<notin> seen} \<and>
   length fs + d = length (filter (\<lambda>r. field_at r iName \<noteq> '''') rows)"
proof (induction rows arbitrary: seen fs d)
  case (Cons r rows)
  let ?n = "field_at r iName"
  consider "?n = ''''" | "?n \<noteq> ''''" "?n \<in> seen" | "?n \<noteq> ''''" "?n \<notin> seen" by blast
  then show ?case
  proof cases
    case 1
    then show ?thesis using Cons.prems Cons.IH [of seen fs d] by auto
  next
    case 2
    obtain fs' d' where r: "schema_rows iName iType iDesc rows seen = (fs', d')" by fastforce
    then have "fs = fs'" "d = Suc d'" using Cons.prems 2 by simp_all
    then show ?thesis using Cons.IH [OF r] 2 by auto
  next
    case 3
    obtain fs' d' where r: "schema_rows iName iType iDesc rows (insert ?n seen) = (fs', d')" by fastforce
    then have "fs = \<lparr>sf_name = ?n, sf_type = option_value (field_at r iType), sf_desc = field_at r iDesc\<rparr> # fs'" "d = d'"
      using Cons.prems 3 by simp_all
    then show ?thesis using Cons.IH [OF r] 3 by auto
  qed
qed simp

lemma schema_file_spec:
  assumes "parseSchemaCsv (header, rows) = Some (fs, d)"
  shows "\<exists>i. i = first_index (SCHEMA_TEMPLATE_HEADER ! 0) (map trim header) \<and> distinct (map sf_name fs) \<and>
    set (map sf_name fs) = {n \<in> (\<lambda>r. field_at r i) ` set rows. n \<noteq> ''''} \<and>
    length fs + d = length (filter (\<lambda>r. field_at r i \<noteq> '''') rows)"
proof -
  have "schema_rows (first_index (SCHEMA_TEMPLATE_HEADER ! 0) (map trim header)) (first_index (SCHEMA_TEMPLATE_HEADER ! 1) (map trim header))
      (first_index (SCHEMA_TEMPLATE_HEADER ! 2) (map trim header)) rows {} = (fs, d)"
    using assms by (simp add: parseSchemaCsv_def Let_def split: if_splits)
  from schema_rows_spec [OF this] show ?thesis by auto
qed

text \<open>The file the console offers for download is read back without loss and accepted.\<close>

definition template_fields :: "schema_field list" where
  "template_fields = map (\<lambda>r. \<lparr>sf_name = r ! 0, sf_type = option_value (r ! 1), sf_desc = r ! 2\<rparr>) SCHEMA_TEMPLATE_ROWS"

lemma preview_enough: "length (snd (parseCsvPreview t n)) < n \<Longrightarrow> n \<le> k \<Longrightarrow> parseCsvPreview t k = parseCsvPreview t n"
  by (auto simp: parseCsvPreview_def Let_def split: list.splits)

lemma first_index_nth: "distinct xs \<Longrightarrow> i < length xs \<Longrightarrow> first_index (xs ! i) xs = Some i"
  by (induction xs arbitrary: i) (auto simp: nth_Cons split: nat.split)

lemma template_file_accepted:
  assumes "12 \<le> k"
  shows "parseSchemaCsv (parseCsvPreview buildSchemaTemplateCsv k) = Some (template_fields, 0) \<and> isSchemaValid template_fields"
proof
  have read: "parseCsvPreview buildSchemaTemplateCsv 12 = (SCHEMA_TEMPLATE_HEADER, SCHEMA_TEMPLATE_ROWS)" by code_simp
  then have "length (snd (parseCsvPreview buildSchemaTemplateCsv 12)) < 12" by (simp add: SCHEMA_TEMPLATE_ROWS_def)
  then have "parseCsvPreview buildSchemaTemplateCsv k = parseCsvPreview buildSchemaTemplateCsv 12"
    using assms by (rule preview_enough)
  moreover note read
  moreover have "parseSchemaCsv (SCHEMA_TEMPLATE_HEADER, SCHEMA_TEMPLATE_ROWS) = Some (template_fields, 0)"
  proof -
    let ?h = "SCHEMA_TEMPLATE_HEADER"
    have len: "length ?h = 3" by (simp add: SCHEMA_TEMPLATE_HEADER_def)
    have texts: "distinct ?h \<and> list_all (\<lambda>h. trim h = h) ?h" by code_simp
    then have "map trim ?h = ?h" by (auto simp: list_all_iff intro: map_idI)
    moreover note len
    moreover have "\<not> list_ex (\<lambda>h. h \<noteq> '''' \<and> h \<notin> set ?h) ?h" by (simp add: list_ex_iff)
    moreover have "first_index (?h ! 0) ?h = Some 0" "first_index (?h ! 1) ?h = Some 1" "first_index (?h ! 2) ?h = Some 2"
      using texts len by (simp_all add: first_index_nth)
    moreover have "list_all (\<lambda>r. length r = 3 \<and> map trim r = r) SCHEMA_TEMPLATE_ROWS" by code_simp
    then have "schema_rows (Some 0) (Some 1) (Some 2) SCHEMA_TEMPLATE_ROWS {} = (template_fields, 0)"
      by (simp add: template_fields_def SCHEMA_TEMPLATE_ROWS_def field_at_def at_opt_def)
    ultimately show ?thesis unfolding parseSchemaCsv_def Let_def fst_conv snd_conv by (simp only: if_False not_True_eq_False simp_thms)
  qed
  ultimately show "parseSchemaCsv (parseCsvPreview buildSchemaTemplateCsv k) = Some (template_fields, 0)" by simp
  show "isSchemaValid template_fields" by code_simp
qed


section \<open>Reading only the head of a file\<close>

lemma csv_fields_not_Nil [simp]: "csv_fields d s c b \<noteq> []"
  by (induction d s c b rule: csv_fields.induct) (auto split: list.split)

lemma csv_trailing_cr:
  "delim \<noteq> CHR 0x0D \<Longrightarrow> csv_fields delim (s @ [CHR 0x0D]) cur q =
     butlast (csv_fields delim s cur q) @ [last (csv_fields delim s cur q) @ [CHR 0x0D]]"
proof (induction delim s cur q rule: csv_fields.induct)
  case (1 delim cur inQuotes)
  then show ?case by (simp add: dquote_def)
next
  case (2 delim ch r cur inQuotes)
  have q: "CHR 0x0D \<noteq> dquote" by (simp add: dquote_def)
  show ?case
  proof (cases inQuotes)
    case False
    then show ?thesis using 2 by simp
  next
    case True
    show ?thesis
    proof (cases "ch = dquote")
      case False
      then show ?thesis using True 2 by simp
    next
      case d: True
      show ?thesis
      proof (cases r)
        case Nil
        then show ?thesis using True d q 2 by simp
      next
        case (Cons c r')
        then show ?thesis using True d 2 by simp
      qed
    qed
  qed
qed

lemma trim_cr [simp]: "trim (s @ [CHR 0x0D]) = trim s"
proof -
  have ws: "is_ws (CHR 0x0D)" by (simp add: is_ws_def)
  have "dropWhile is_ws (s @ [CHR 0x0D]) = (if list_all is_ws s then [] else dropWhile is_ws s @ [CHR 0x0D])"
    by (induction s) (simp_all add: ws)
  moreover have "dropWhile is_ws s = []" if "list_all is_ws s" using that by (simp add: list_all_iff)
  ultimately show ?thesis unfolding trim_def by (cases "list_all is_ws s") (simp_all only: if_True if_False rev.simps rev_append append_Nil append_Cons dropWhile.simps ws)
qed

lemma splitCsvLine_cr: "splitCsvLine (s @ [CHR 0x0D]) = splitCsvLine s"
proof -
  have "map trim (butlast xs @ [last xs @ [CHR 0x0D]]) = map trim xs" if "xs \<noteq> []" for xs
    using that by (cases xs rule: rev_cases) simp_all
  note * = this [OF csv_fields_not_Nil]
  have "csv_fields CHR '','' (s @ [CHR 0x0D]) [] False =
      butlast (csv_fields CHR '','' s [] False) @ [last (csv_fields CHR '','' s [] False) @ [CHR 0x0D]]"
    by (rule csv_trailing_cr) simp
  then show ?thesis unfolding splitCsvLine_def by (simp only: *)
qed

lemma strip_cr_split: "splitCsvLine (strip_cr l) = splitCsvLine l" "trim (strip_cr l) = trim l"
proof -
  have "l = butlast l @ [CHR 0x0D]" if "l \<noteq> []" "last l = CHR 0x0D" using that append_butlast_last_id [of l] by simp
  then show "splitCsvLine (strip_cr l) = splitCsvLine l" "trim (strip_cr l) = trim l"
    unfolding strip_cr_def using splitCsvLine_cr [of "butlast l"] trim_cr [of "butlast l"] by (metis, metis)
qed

text \<open>The lines that hold something, as fields; carriage returns at their ends do not matter.\<close>

definition csv_lines :: "string \<Rightarrow> string list list" where
  "csv_lines t = map splitCsvLine (filter (\<lambda>l. trim l \<noteq> '''') (split_on (CHR 0x0A) t))"

lemma csv_lines_split: "map splitCsvLine (filter (\<lambda>l. trim l \<noteq> '''') (split_lines t)) = csv_lines t"
proof -
  have "map splitCsvLine (filter (\<lambda>l. trim l \<noteq> '''') (map strip_cr ls)) = map splitCsvLine (filter (\<lambda>l. trim l \<noteq> '''') ls)" for ls
    by (induction ls) (simp_all add: strip_cr_split)
  moreover have "split_on (CHR 0x0A) t = butlast (split_on (CHR 0x0A) t) @ [last (split_on (CHR 0x0A) t)]" by simp
  ultimately show ?thesis unfolding csv_lines_def split_lines_def Let_def by (metis filter_append map_append)
qed

definition without_bom :: "string \<Rightarrow> string" where
  "without_bom t = (if starts_with t BOM then drop 3 t else t)"

lemma parseCsvPreview_lines:
  "parseCsvPreview t k = (case csv_lines (without_bom t) of [] \<Rightarrow> ([], []) | h # rest \<Rightarrow> (h, take k rest))"
  unfolding parseCsvPreview_def Let_def csv_lines_split [symmetric] without_bom_def [symmetric]
  by (cases "filter (\<lambda>l. trim l \<noteq> '''') (split_lines (without_bom t))") (simp_all add: take_map)

lemma csv_lines_append: "csv_lines (s @ CHR 0x0A # r) = csv_lines s @ csv_lines r"
proof -
  have "split_on c (s @ c # r) = split_on c s @ split_on c r" for c
    by (induction s) (auto split: list.split simp: neq_Nil_conv)
  then show ?thesis by (simp add: csv_lines_def)
qed

lemma cut_at_newline:
  assumes "CHR 0x0A \<in> set t"
  shows "\<exists>r. t = rev (tl (dropWhile (\<lambda>c. c \<noteq> CHR 0x0A) (rev t))) @ CHR 0x0A # r"
proof -
  obtain x ys where d: "dropWhile (\<lambda>c. c \<noteq> CHR 0x0A) (rev t) = x # ys"
    using assms by (cases "dropWhile (\<lambda>c. c \<noteq> CHR 0x0A) (rev t)") auto
  then have "x = CHR 0x0A" using hd_dropWhile [of "\<lambda>c. c \<noteq> CHR 0x0A" "rev t"] by simp
  then have "rev t = takeWhile (\<lambda>c. c \<noteq> CHR 0x0A) (rev t) @ CHR 0x0A # ys" using d by (metis takeWhile_dropWhile_id)
  then have "t = rev ys @ CHR 0x0A # rev (takeWhile (\<lambda>c. c \<noteq> CHR 0x0A) (rev t))"
    by (metis append.assoc append_Cons append_Nil rev.simps(2) rev_append rev_rev_ident)
  then show ?thesis using d by (intro exI [of _ "rev (takeWhile (\<lambda>c. c \<noteq> CHR 0x0A) (rev t))"]) simp
qed

text \<open>
  When the head holds a whole line, the header read from it is that of the file and its rows are
  first rows of the file.
\<close>

lemma head_is_prefix:
  assumes "csv_lines (without_bom safe) \<noteq> []" "file = safe @ CHR 0x0A # rest" "safe \<noteq> ''''"
  shows "fst (parseCsvPreview safe k) = fst (parseCsvPreview file k) \<and>
    (\<exists>more. snd (parseCsvPreview file k) = snd (parseCsvPreview safe k) @ more)"
proof -
  have "without_bom file = without_bom safe @ CHR 0x0A # rest"
  proof (cases "starts_with safe BOM")
    case True
    then show ?thesis using assms(2) by (auto simp: without_bom_def starts_with_iff BOM_def utf8_def)
  next
    case False
    have "\<not> starts_with (safe @ CHR 0x0A # rest) BOM"
    proof
      assume "starts_with (safe @ CHR 0x0A # rest) BOM"
      then obtain u where "safe @ CHR 0x0A # rest = BOM @ u" by (auto simp: starts_with_iff)
      moreover have "length BOM = 3" by (simp add: BOM_def utf8_def)
      ultimately have t: "take 3 (safe @ CHR 0x0A # rest) = BOM" by (simp only:) simp
      have "CHR 0x0A \<notin> set BOM" by code_simp
      moreover have "CHR 0x0A \<in> set (take 3 (safe @ CHR 0x0A # rest))" if "length safe < 3"
        using that by (simp add: take_Cons')
      ultimately have "3 \<le> length safe" using t by (metis not_le)
      then have "take 3 safe = BOM" using t by simp
      then show False using False by (metis append_take_drop_id starts_with_append)
    qed
    then show ?thesis using False assms(2) by (simp add: without_bom_def)
  qed
  then have l: "csv_lines (without_bom file) = csv_lines (without_bom safe) @ csv_lines rest" by (simp add: csv_lines_append)
  obtain h r where h: "csv_lines (without_bom safe) = h # r" using assms(1) by (cases "csv_lines (without_bom safe)") auto
  show ?thesis unfolding parseCsvPreview_lines l h by simp
qed

lemma head_read:
  assumes "bytes < length file" "safe = rev (tl (dropWhile (\<lambda>c. c \<noteq> CHR 0x0A) (rev (take bytes file))))"
    "csv_lines (without_bom safe) \<noteq> []" "safe \<noteq> ''''"
  shows "fst (readCsvHead file bytes k) = fst (parseCsvPreview file k) \<and>
    (\<exists>more. snd (parseCsvPreview file k) = snd (readCsvHead file bytes k) @ more)"
proof -
  have "CHR 0x0A \<in> set (take bytes file)"
  proof (rule ccontr)
    assume "CHR 0x0A \<notin> set (take bytes file)"
    then have "\<forall>c \<in> set (rev (take bytes file)). c \<noteq> CHR 0x0A" by (metis set_rev)
    then have "dropWhile (\<lambda>c. c \<noteq> CHR 0x0A) (rev (take bytes file)) = []" by (simp only: dropWhile_eq_Nil_conv)
    then show False using assms(2,4) by (simp only: list.sel(2) rev.simps(1))
  qed
  from cut_at_newline [OF this] obtain r where "take bytes file = safe @ CHR 0x0A # r" unfolding assms(2) by blast
  then have f: "file = safe @ CHR 0x0A # (r @ drop bytes file)" by (metis append.assoc append_Cons append_take_drop_id)
  have "readCsvHead file bytes k = parseCsvPreview safe k"
    using assms(1,4) unfolding readCsvHead_def Let_def assms(2) [symmetric] by (simp only: if_True if_False)
  then show ?thesis using head_is_prefix [OF assms(3) f assms(4), of k] by (simp only:)
qed

section \<open>No partition column is lost\<close>

lemma partitions_kept:
  assumes "\<not> fi_partitions (validateRegisterForm parse ''ODPS'' v nodeIds multi)"
  shows "map fst (partition_fields (rg_fields v) (rg_partitions v)) = filter (\<lambda>p. p \<noteq> '''') (map trim (rg_partitions v))"
proof -
  have known: "\<exists>f. List.find (\<lambda>f. trim (sf_name f) = p) (rg_fields v) = Some f \<and> trim (sf_name f) = p"
    if "p \<in> set (filter (\<lambda>p. p \<noteq> '''') (map trim (rg_partitions v)))" for p
  proof -
    have "p \<in> set (field_names (rg_fields v))" using assms that by (auto simp: validateRegisterForm_def list_ex_iff)
    then obtain f where "List.find (\<lambda>f. trim (sf_name f) = p) (rg_fields v) = Some f"
      by (cases "List.find (\<lambda>f. trim (sf_name f) = p) (rg_fields v)") (auto simp: find_None_iff field_names_def)
    then show ?thesis using find_Some_iff_mem by fastforce
  qed
  have "map (trim \<circ> sf_name) (List.map_filter (\<lambda>name. List.find (\<lambda>f. trim (sf_name f) = name) (rg_fields v)) ps) = ps"
    if "\<forall>p \<in> set ps. \<exists>f. List.find (\<lambda>f. trim (sf_name f) = p) (rg_fields v) = Some f \<and> trim (sf_name f) = p" for ps
    using that by (induction ps) (auto simp: List.map_filter_simps)
  then show ?thesis using known by (simp add: partition_fields_def comp_def)
qed

end
