(* ===== verification/DataSource.thy ===== *)
theory DataSource
  imports CreateProject
begin

text \<open>The form of a data source: \<open>features/datasource-form/model.ts\<close>.\<close>

datatype ds_type = OSS | ODPS | MYSQL | HTTP | LOCAL

fun ds_name :: "ds_type \<Rightarrow> string" where
  "ds_name OSS = ''OSS''"
| "ds_name ODPS = ''ODPS''"
| "ds_name MYSQL = ''MYSQL''"
| "ds_name HTTP = ''HTTP''"
| "ds_name LOCAL = ''LOCAL''"

definition MAX_DATASOURCE_NODES :: nat where "MAX_DATASOURCE_NODES = 5"
definition ODPS_NAME_PREFIX :: string where "ODPS_NAME_PREFIX = ''ODPS-''"

record ds_values =
  dv_type :: ds_type
  dv_name :: string
  dv_ossEndpoint :: string
  dv_ak :: string
  dv_sk :: string
  dv_bucket :: string
  dv_prefix :: string
  dv_virtualhost :: bool
  dv_mysqlHost :: string
  dv_mysqlPort :: string
  dv_mysqlUser :: string
  dv_mysqlPassword :: string
  dv_mysqlDatabase :: string
  dv_odpsEndpoint :: string
  dv_odpsProject :: string
  dv_accessId :: string
  dv_accessKey :: string
  dv_localPath :: string

definition emptyDatasourceForm :: "ds_type \<Rightarrow> ds_values" where
  "emptyDatasourceForm type = \<lparr>dv_type = type, dv_name = '''', dv_ossEndpoint = '''', dv_ak = '''', dv_sk = '''', dv_bucket = '''',
     dv_prefix = '''', dv_virtualhost = False, dv_mysqlHost = '''', dv_mysqlPort = ''3306'', dv_mysqlUser = '''',
     dv_mysqlPassword = '''', dv_mysqlDatabase = '''', dv_odpsEndpoint = '''', dv_odpsProject = '''', dv_accessId = '''',
     dv_accessKey = '''', dv_localPath = ''''\<rparr>"

datatype ds_error =
    DsRequired | TooLong32 | TooLong64 | DsNamePattern | BucketLength | BucketPattern | PortError | DatabaseLength
  | DatabasePattern | NodesRequired | NodesTooMany | NodesDuplicate

text \<open>The patterns of bucket and database names.\<close>

definition bucket_char :: "char \<Rightarrow> bool" where
  "bucket_char c \<longleftrightarrow> is_lower c \<or> is_digit c"

definition bucket_name :: "string \<Rightarrow> bool" where
  "bucket_name s \<longleftrightarrow> s \<noteq> '''' \<and> bucket_char (hd s) \<and> list_all (\<lambda>c. bucket_char c \<or> c = CHR ''-'') (tl s)"

definition database_name :: "string \<Rightarrow> bool" where
  "database_name s \<longleftrightarrow> s \<noteq> '''' \<and> (is_upper (hd s) \<or> is_lower (hd s) \<or> hd s = CHR ''_'') \<and> list_all word_char (tl s)"

definition nameRule :: "string \<Rightarrow> ds_error option" where
  "nameRule v =
     (let s = trim v in
      if s = '''' then Some DsRequired else if utf16_length s > 32 then Some TooLong32
      else if \<not> legal_name s then Some DsNamePattern else None)"

definition required :: "string \<Rightarrow> bool \<Rightarrow> ds_error option" where
  "required v limited =
     (let s = trim v in
      if s = '''' then Some DsRequired else if limited \<and> utf16_length s > 64 then Some TooLong64 else None)"

text \<open>\<open>set\<close>: an error is recorded under its field, over one recorded before.\<close>

definition set_error :: "string \<Rightarrow> ds_error option \<Rightarrow> (string \<times> ds_error) list \<Rightarrow> (string \<times> ds_error) list" where
  "set_error k err e = (case err of None \<Rightarrow> e | Some x \<Rightarrow> set_prop k x e)"

definition bucket_error :: "string \<Rightarrow> ds_error option" where
  "bucket_error v =
     (let b = trim v in
      if b = '''' then Some DsRequired
      else if utf16_length b < 3 \<or> utf16_length b > 63 then Some BucketLength
      else if \<not> bucket_name b then Some BucketPattern else None)"

definition database_error :: "string \<Rightarrow> ds_error option" where
  "database_error v =
     (let d = trim v in
      if d = '''' then Some DsRequired
      else if utf16_length d < 3 \<or> utf16_length d > 63 then Some DatabaseLength
      else if \<not> database_name d then Some DatabasePattern else None)"

definition port_ok :: "string \<Rightarrow> bool" where
  "port_ok p \<longleftrightarrow> p \<noteq> '''' \<and> list_all is_digit p \<and> 1 \<le> parse_nat p \<and> parse_nat p \<le> 65535"

definition port_errors :: "string \<Rightarrow> string \<Rightarrow> (string \<times> ds_error) list \<Rightarrow> (string \<times> ds_error) list" where
  "port_errors host port e =
     (let p = trim port in
      if p = '''' then set_error ''mysqlPort'' (Some DsRequired) e
      else if \<not> port_ok p then set_error ''mysqlPort'' (Some PortError) e
      else if utf16_length (trim host @ '':'' @ p) > 64 then set_error ''mysqlHost'' (Some TooLong64) e
      else e)"

definition type_errors :: "ds_values \<Rightarrow> (string \<times> ds_error) list \<Rightarrow> (string \<times> ds_error) list" where
  "type_errors v e =
     (case dv_type v of
        OSS \<Rightarrow>
          set_error ''bucket'' (bucket_error (dv_bucket v))
            (set_error ''sk'' (required (dv_sk v) False)
              (set_error ''ak'' (required (dv_ak v) False)
                (set_error ''ossEndpoint'' (required (dv_ossEndpoint v) True) e)))
      | MYSQL \<Rightarrow>
          set_error ''mysqlDatabase'' (database_error (dv_mysqlDatabase v))
            (set_error ''mysqlPassword'' (required (dv_mysqlPassword v) False)
              (set_error ''mysqlUser'' (required (dv_mysqlUser v) False)
                (port_errors (dv_mysqlHost v) (dv_mysqlPort v)
                  (set_error ''mysqlHost'' (required (dv_mysqlHost v) True) e))))
      | ODPS \<Rightarrow>
          set_error ''accessKey'' (required (dv_accessKey v) False)
            (set_error ''accessId'' (required (dv_accessId v) False)
              (set_error ''odpsEndpoint'' (required (dv_odpsEndpoint v) True)
                (set_error ''odpsProject'' (nameRule (dv_odpsProject v)) e)))
      | LOCAL \<Rightarrow> set_error ''localPath'' (required (dv_localPath v) False) e
      | HTTP \<Rightarrow> e)"

definition node_error :: "string list \<Rightarrow> nat \<Rightarrow> ds_error option" where
  "node_error nodeIds maxNodes =
     (let ids = filter (\<lambda>i. i \<noteq> '''') nodeIds in
      if ids = [] \<or> length ids \<noteq> length nodeIds then Some NodesRequired
      else if length ids > maxNodes then Some NodesTooMany
      else if length (dedup ids) \<noteq> length ids then Some NodesDuplicate
      else None)"

definition validateDatasourceForm :: "ds_values \<Rightarrow> string list \<Rightarrow> nat \<Rightarrow> (string \<times> ds_error) list" where
  "validateDatasourceForm v nodeIds maxNodes =
     set_error ''nodeIds'' (node_error nodeIds maxNodes) (type_errors v (set_error ''name'' (nameRule (dv_name v)) []))"

section \<open>The request\<close>

definition buildDataSourceInfo :: "ds_values \<Rightarrow> jsobj" where
  "buildDataSourceInfo v =
     (case dv_type v of
        OSS \<Rightarrow> [(''endpoint'', JStr (trim (dv_ossEndpoint v))), (''ak'', JStr (trim (dv_ak v))), (''sk'', JStr (dv_sk v)),
          (''bucket'', JStr (trim (dv_bucket v))), (''prefix'', JStr (trim (dv_prefix v))), (''virtualhost'', JBool (dv_virtualhost v))]
      | MYSQL \<Rightarrow> [(''endpoint'', JStr (trim (dv_mysqlHost v) @ '':'' @ trim (dv_mysqlPort v))), (''user'', JStr (trim (dv_mysqlUser v))),
          (''password'', JStr (dv_mysqlPassword v)), (''database'', JStr (trim (dv_mysqlDatabase v)))]
      | ODPS \<Rightarrow> [(''endpoint'', JStr (trim (dv_odpsEndpoint v))), (''project'', JStr (trim (dv_odpsProject v))),
          (''accessId'', JStr (trim (dv_accessId v))), (''accessKey'', JStr (dv_accessKey v))]
      | LOCAL \<Rightarrow> [(''path'', JStr (trim (dv_localPath v)))]
      | HTTP \<Rightarrow> [])"

definition datasourceSubmitName :: "ds_values \<Rightarrow> string" where
  "datasourceSubmitName v =
     (let n = trim (dv_name v) in
      if dv_type v = ODPS \<and> \<not> starts_with n ODPS_NAME_PREFIX then ODPS_NAME_PREFIX @ n else n)"

record ds_request =
  dr_ownerId :: string
  dr_nodeIds :: "string list"
  dr_type :: string
  dr_name :: string
  dr_info :: jsobj

definition buildCreateDatasourceRequest :: "ds_values \<Rightarrow> string \<Rightarrow> string list \<Rightarrow> ds_request" where
  "buildCreateDatasourceRequest v ownerId nodeIds =
     \<lparr>dr_ownerId = ownerId, dr_nodeIds = filter (\<lambda>i. i \<noteq> '''') nodeIds, dr_type = ds_name (dv_type v),
      dr_name = datasourceSubmitName v, dr_info = buildDataSourceInfo v\<rparr>"

datatype delete_block = BlockHttp | BlockBound

definition datasourceDeleteBlock :: "string option \<Rightarrow> string list option \<Rightarrow> delete_block option" where
  "datasourceDeleteBlock type relatedDatas =
     (if nullish relatedDatas [] \<noteq> [] then Some BlockBound else if type = Some ''HTTP'' then Some BlockHttp else None)"

section \<open>When the form is accepted\<close>

lemma set_error_Nil [simp]: "set_error k err e = [] \<longleftrightarrow> err = None \<and> e = []"
proof -
  have "set_prop k x e \<noteq> []" for x by (cases e; cases "hd e") auto
  then show ?thesis by (simp add: set_error_def split: option.split)
qed

lemma port_errors_Nil [simp]:
  "port_errors host port e = [] \<longleftrightarrow> port_ok (trim port) \<and> utf16_length (trim host @ '':'' @ trim port) \<le> 64 \<and> e = []"
  by (auto simp: port_errors_def Let_def port_ok_def not_less)

lemma nameRule_None: "nameRule v = None \<longleftrightarrow> legal_name (trim v) \<and> utf16_length (trim v) \<le> 32"
  by (auto simp: nameRule_def Let_def legal_name_def)

lemma required_None: "required v limited = None \<longleftrightarrow> trim v \<noteq> '''' \<and> (limited \<longrightarrow> utf16_length (trim v) \<le> 64)"
  by (auto simp: required_def Let_def)

lemma bucket_None: "bucket_error v = None \<longleftrightarrow> bucket_name (trim v) \<and> 3 \<le> utf16_length (trim v) \<and> utf16_length (trim v) \<le> 63"
  by (auto simp: bucket_error_def Let_def bucket_name_def)

lemma database_None: "database_error v = None \<longleftrightarrow> database_name (trim v) \<and> 3 \<le> utf16_length (trim v) \<and> utf16_length (trim v) \<le> 63"
  by (auto simp: database_error_def Let_def database_name_def)

lemma dedup_length: "length (dedup xs) = length xs \<longleftrightarrow> distinct xs"
  by (metis card_distinct dedup_distinct distinct_card distinct_dedup set_dedup)

lemma node_error_None:
  "node_error nodeIds k = None \<longleftrightarrow> nodeIds \<noteq> [] \<and> '''' \<notin> set nodeIds \<and> length nodeIds \<le> k \<and> distinct nodeIds"
proof -
  have "length (filter P xs) = length xs \<longleftrightarrow> (\<forall>x \<in> set xs. P x)" for P and xs :: "string list"
    by (metis filter_True length_filter_less nat_neq_iff)
  then have l: "length (filter (\<lambda>i. i \<noteq> '''') nodeIds) = length nodeIds \<longleftrightarrow> '''' \<notin> set nodeIds" by auto
  show ?thesis
  proof (cases "'''' \<in> set nodeIds")
    case True
    then show ?thesis using l by (simp add: node_error_def Let_def)
  next
    case False
    then have "filter (\<lambda>i. i \<noteq> '''') nodeIds = nodeIds" by (auto intro: filter_True)
    then show ?thesis using False by (auto simp: node_error_def Let_def dedup_length)
  qed
qed

definition type_accepted :: "ds_values \<Rightarrow> bool" where
  "type_accepted v \<longleftrightarrow>
     (case dv_type v of
        OSS \<Rightarrow> trim (dv_ossEndpoint v) \<noteq> '''' \<and> utf16_length (trim (dv_ossEndpoint v)) \<le> 64 \<and> trim (dv_ak v) \<noteq> '''' \<and>
          trim (dv_sk v) \<noteq> '''' \<and> bucket_name (trim (dv_bucket v)) \<and>
          3 \<le> utf16_length (trim (dv_bucket v)) \<and> utf16_length (trim (dv_bucket v)) \<le> 63
      | MYSQL \<Rightarrow> trim (dv_mysqlHost v) \<noteq> '''' \<and> port_ok (trim (dv_mysqlPort v)) \<and>
          utf16_length (trim (dv_mysqlHost v) @ '':'' @ trim (dv_mysqlPort v)) \<le> 64 \<and>
          trim (dv_mysqlUser v) \<noteq> '''' \<and> trim (dv_mysqlPassword v) \<noteq> '''' \<and> database_name (trim (dv_mysqlDatabase v)) \<and>
          3 \<le> utf16_length (trim (dv_mysqlDatabase v)) \<and> utf16_length (trim (dv_mysqlDatabase v)) \<le> 63
      | ODPS \<Rightarrow> legal_name (trim (dv_odpsProject v)) \<and> utf16_length (trim (dv_odpsProject v)) \<le> 32 \<and>
          trim (dv_odpsEndpoint v) \<noteq> '''' \<and> utf16_length (trim (dv_odpsEndpoint v)) \<le> 64 \<and>
          trim (dv_accessId v) \<noteq> '''' \<and> trim (dv_accessKey v) \<noteq> ''''
      | LOCAL \<Rightarrow> trim (dv_localPath v) \<noteq> ''''
      | HTTP \<Rightarrow> True)"

lemma type_errors_Nil: "type_errors v e = [] \<longleftrightarrow> type_accepted v \<and> e = []"
  by (cases "dv_type v")
     (auto simp: type_errors_def type_accepted_def required_None bucket_None database_None nameRule_None)

lemma datasource_accepted:
  "validateDatasourceForm v nodeIds k = [] \<longleftrightarrow>
     legal_name (trim (dv_name v)) \<and> utf16_length (trim (dv_name v)) \<le> 32 \<and> type_accepted v \<and>
     nodeIds \<noteq> [] \<and> '''' \<notin> set nodeIds \<and> length nodeIds \<le> k \<and> distinct nodeIds"
  by (auto simp: validateDatasourceForm_def type_errors_Nil nameRule_None node_error_None)

lemma split_at_mark:
  "\<forall>c \<in> set xs. c \<noteq> x \<Longrightarrow> takeWhile (\<lambda>c. c \<noteq> x) (xs @ x # r) = xs \<and> dropWhile (\<lambda>c. c \<noteq> x) (xs @ x # r) = x # r"
  by (induction xs) auto

text \<open>The endpoint of an accepted MySQL source is read back as its host and its port.\<close>

lemma mysql_endpoint:
  assumes "validateDatasourceForm v nodeIds k = []" "dv_type v = MYSQL"
  shows "\<exists>endpoint. get_prop (buildDataSourceInfo v) ''endpoint'' = JStr endpoint \<and> utf16_length endpoint \<le> 64 \<and>
    rev (takeWhile (\<lambda>c. c \<noteq> CHR '':'') (rev endpoint)) = trim (dv_mysqlPort v) \<and>
    rev (tl (dropWhile (\<lambda>c. c \<noteq> CHR '':'') (rev endpoint))) = trim (dv_mysqlHost v)"
proof -
  let ?h = "trim (dv_mysqlHost v)" and ?p = "trim (dv_mysqlPort v)"
  have p: "port_ok ?p" "utf16_length (?h @ '':'' @ ?p) \<le> 64"
    using assms by (simp_all add: datasource_accepted type_accepted_def)
  have "\<forall>c \<in> set (rev ?p). c \<noteq> CHR '':''" using p(1) by (auto simp: port_ok_def list_all_iff is_digit_def)
  note split = split_at_mark [OF this, where r = "rev ?h"]
  have "get_prop (buildDataSourceInfo v) ''endpoint'' = JStr (?h @ '':'' @ ?p)"
    using assms(2) by (simp add: buildDataSourceInfo_def get_prop_def)
  moreover have "rev (?h @ '':'' @ ?p) = rev ?p @ CHR '':'' # rev ?h" by simp
  ultimately show ?thesis using p(2) split by simp
qed

lemma odps_prefixed:
  "dv_type v = ODPS \<Longrightarrow> starts_with (datasourceSubmitName v) ODPS_NAME_PREFIX"
  by (simp add: datasourceSubmitName_def Let_def)

text \<open>The name that is sent may be longer than the limit the form checks.\<close>

lemma odps_name_too_long:
  "\<exists>v. validateDatasourceForm v [''n''] 5 = [] \<and> utf16_length (datasourceSubmitName v) = 37"
proof -
  define v where "v = (emptyDatasourceForm ODPS)\<lparr>dv_name := replicate 32 CHR ''a'', dv_odpsProject := ''p'', dv_odpsEndpoint := ''e'',
    dv_accessId := ''i'', dv_accessKey := ''k''\<rparr>"
  have "validateDatasourceForm v [''n''] 5 = []" unfolding v_def by code_simp
  moreover have "utf16_length (datasourceSubmitName v) = 37" unfolding v_def by code_simp
  ultimately show ?thesis by blast
qed

end
