(* ===== verification/QuickConfig.thy ===== *)
theory QuickConfig
  imports TemplateRegistry GraphApi
begin

text \<open>
  The quick configuration of a template: the drawer
  (\<open>web/packages/dag-next/src/template-quick-config.tsx\<close>) checks its form and hands over an
  untyped dictionary, \<open>web/apps/secretpad/src/pages/dag/quick-config.ts\<close> turns the dictionary into
  the configuration of a template, and the page builds the graph.  The dictionary is a JavaScript
  object; \<open>nodeId\<close>, which is set for the single-table templates and read by none, is left out.
\<close>

datatype template_type =
    QPsi | QPsiTee | QRisk | QTee | QDifferentialPrivacy | QLocalDifferentialPrivacy | QKAnonymity | QLDiversity | QSanitization

section \<open>The form\<close>

record quick_form =
  qf_dataTableReceiver :: "string option"
  qf_dataTableReceiverPartition :: "string option"
  qf_receiverKeys :: "string list"
  qf_dataTableSender :: "string option"
  qf_dataTableSenderPartition :: "string option"
  qf_senderKeys :: "string list"
  qf_featureSelects :: "string list"
  qf_receiverPSI :: "string list"
  qf_labelSelects :: "string list"
  qf_pred :: string
  qf_receiver :: "string option"
  qf_trainIdSelect :: "string list"
  qf_saveId :: bool
  qf_predictIdSelect :: "string list"
  qf_saveLabel :: bool
  qf_label :: string
  qf_score :: string
  qf_dataTable :: "string option"
  qf_queryCol :: "string option"
  qf_qiCols :: "string list"
  qf_saCols :: "string list"
  qf_sanitizationCols :: "string list"

definition initialState :: quick_form where
  "initialState = \<lparr>qf_dataTableReceiver = None, qf_dataTableReceiverPartition = None, qf_receiverKeys = [''''],
     qf_dataTableSender = None, qf_dataTableSenderPartition = None, qf_senderKeys = [''''], qf_featureSelects = [],
     qf_receiverPSI = [], qf_labelSelects = [], qf_pred = ''pred'', qf_receiver = None, qf_trainIdSelect = [],
     qf_saveId = False, qf_predictIdSelect = [], qf_saveLabel = False, qf_label = ''label'', qf_score = ''pred'',
     qf_dataTable = None, qf_queryCol = None, qf_qiCols = [], qf_saCols = [], qf_sanitizationCols = []\<rparr>"

definition isTwoTable :: "template_type \<Rightarrow> bool" where
  "isTwoTable t \<longleftrightarrow> t = QPsi \<or> t = QPsiTee \<or> t = QRisk \<or> t = QTee"

definition isMpcPsi :: "template_type \<Rightarrow> bool" where
  "isMpcPsi t \<longleftrightarrow> t = QPsi \<or> t = QRisk"

text \<open>One rule of the form: a message under a field when the condition holds.\<close>

definition rule_error :: "bool \<Rightarrow> string \<Rightarrow> string \<Rightarrow> (string \<times> string) list" where
  "rule_error bad field message = (if bad then [(field, message)] else [])"

definition key_errors :: "string \<Rightarrow> string list \<Rightarrow> (string \<times> string) list" where
  "key_errors field keys =
     (if \<not> truthy (at_opt keys 0) then [(field, (utf8 [0xE8, 0x87, 0xB3, 0xE5, 0xB0, 0x91, 0xE9, 0x80, 0x89, 0xE6, 0x8B, 0xA9, 0x31, 0xE5, 0x88, 0x97, 0xE4, 0xBD, 0x9C, 0xE4, 0xB8, 0xBA, 0xE5, 0x85, 0xB3, 0xE8, 0x81, 0x94, 0xE9, 0x94, 0xAE]))]
      else rule_error (list_ex (\<lambda>k. k = '''') (drop 1 keys)) field (utf8 [0xE5, 0x85, 0xB3, 0xE8, 0x81, 0x94, 0xE9, 0x94, 0xAE, 0xE4, 0xB8, 0xBA, 0xE7, 0xA9, 0xBA, 0xEF, 0xBC, 0x8C, 0xE8, 0xAF, 0xB7, 0xE5, 0x88, 0xA0, 0xE9, 0x99, 0xA4]))"

definition two_table_errors :: "quick_form \<Rightarrow> (string \<times> string) list" where
  "two_table_errors s =
     rule_error (\<not> truthy (qf_dataTableReceiver s)) ''dataTableReceiver'' (utf8 [0xE8, 0xAF, 0xB7, 0xE8, 0xBE, 0x93, 0xE5, 0x85, 0xA5, 0xE6, 0xA0, 0xB7, 0xE6, 0x9C, 0xAC, 0xE8, 0xA1, 0xA8]) @
     (if \<not> truthy (qf_dataTableSender s) then [(''dataTableSender'', (utf8 [0xE8, 0xAF, 0xB7, 0xE8, 0xBE, 0x93, 0xE5, 0x85, 0xA5, 0xE6, 0xA0, 0xB7, 0xE6, 0x9C, 0xAC, 0xE8, 0xA1, 0xA8]))]
      else rule_error (qf_dataTableSender s = qf_dataTableReceiver s) ''dataTableSender'' (utf8 [0xE4, 0xB8, 0x8D, 0xE8, 0x83, 0xBD, 0xE9, 0x80, 0x89, 0xE6, 0x8B, 0xA9, 0xE5, 0x90, 0x8C, 0xE4, 0xB8, 0x80, 0xE4, 0xBB, 0xBD, 0xE6, 0xA0, 0xB7, 0xE6, 0x9C, 0xAC, 0xE8, 0xA1, 0xA8])) @
     key_errors ''receiverKeys'' (qf_receiverKeys s) @ key_errors ''senderKeys'' (qf_senderKeys s)"

definition risk_errors :: "quick_form \<Rightarrow> (string \<times> string) list" where
  "risk_errors s =
     rule_error (length (qf_labelSelects s) \<noteq> 1) ''labelSelects'' (utf8 [0xE8, 0xAF, 0xB7, 0xE9, 0x80, 0x89, 0xE6, 0x8B, 0xA9, 0xE6, 0xA0, 0x87, 0xE7, 0xAD, 0xBE, 0xE5, 0x88, 0x97]) @
     rule_error (trim (qf_pred s) = '''') ''pred'' (utf8 [0xE8, 0xAF, 0xB7, 0xE5, 0xA1, 0xAB, 0xE5, 0x86, 0x99, 0xE9, 0xA2, 0x84, 0xE6, 0xB5, 0x8B, 0xE7, 0xBB, 0x93, 0xE6, 0x9E, 0x9C, 0xE5, 0x88, 0x97, 0xE5, 0x90, 0x8D]) @
     rule_error (\<not> truthy (qf_receiver s)) ''receiver'' (utf8 [0xE8, 0xAF, 0xB7, 0xE8, 0xBE, 0x93, 0xE5, 0x85, 0xA5, 0xE6, 0x8E, 0xA5, 0xE6, 0x94, 0xB6, 0xE6, 0x96, 0xB9])"

definition tee_errors :: "quick_form \<Rightarrow> (string \<times> string) list" where
  "tee_errors s =
     rule_error (length (qf_labelSelects s) \<noteq> 1) ''labelSelects'' (utf8 [0xE8, 0xAF, 0xB7, 0xE9, 0x80, 0x89, 0xE6, 0x8B, 0xA9, 0xE6, 0xA0, 0x87, 0xE7, 0xAD, 0xBE, 0xE5, 0x88, 0x97]) @
     rule_error (length (qf_predictIdSelect s) > 1) ''predictIdSelect'' (utf8 [0xE6, 0x9C, 0x80, 0xE5, 0xA4, 0x9A, 0xE9, 0x80, 0x89, 0xE6, 0x8B, 0xA9, 0x20, 0x31, 0x20, 0xE5, 0x88, 0x97]) @
     rule_error (trim (qf_label s) = '''') ''label'' (utf8 [0xE8, 0xAF, 0xB7, 0xE8, 0xBE, 0x93, 0xE5, 0x85, 0xA5, 0xE9, 0xA2, 0x84, 0xE6, 0xB5, 0x8B, 0xE5, 0x80, 0xBC, 0xE6, 0xA0, 0x87, 0xE7, 0xAD, 0xBE]) @
     rule_error (trim (qf_score s) = '''') ''score'' (utf8 [0xE8, 0xAF, 0xB7, 0xE8, 0xBE, 0x93, 0xE5, 0x85, 0xA5, 0xE9, 0xA2, 0x84, 0xE6, 0xB5, 0x8B, 0xE5, 0x80, 0xBC, 0xE9, 0xA2, 0x84, 0xE6, 0xB5, 0x8B, 0xE5, 0xBE, 0x97, 0xE5, 0x88, 0x86])"

definition single_table_errors :: "template_type \<Rightarrow> quick_form \<Rightarrow> (string \<times> string) list" where
  "single_table_errors t s =
     rule_error (\<not> truthy (qf_dataTable s)) ''dataTable'' (utf8 [0xE8, 0xAF, 0xB7, 0xE8, 0xBE, 0x93, 0xE5, 0x85, 0xA5, 0xE6, 0xA0, 0xB7, 0xE6, 0x9C, 0xAC, 0xE8, 0xA1, 0xA8]) @
     rule_error ((t = QDifferentialPrivacy \<or> t = QLocalDifferentialPrivacy) \<and> \<not> truthy (qf_queryCol s)) ''queryCol'' (utf8 [0xE8, 0xAF, 0xB7, 0xE8, 0xBE, 0x93, 0xE5, 0x85, 0xA5, 0xE6, 0x9F, 0xA5, 0xE8, 0xAF, 0xA2, 0xE5, 0x88, 0x97]) @
     (if t = QKAnonymity \<or> t = QLDiversity then
        rule_error (qf_qiCols s = []) ''qiCols'' (utf8 [0xE8, 0xAF, 0xB7, 0xE9, 0x80, 0x89, 0xE6, 0x8B, 0xA9, 0xE8, 0x87, 0xB3, 0xE5, 0xB0, 0x91, 0xE4, 0xB8, 0x80, 0xE4, 0xB8, 0xAA, 0xE5, 0x87, 0x86, 0xE6, 0xA0, 0x87, 0xE8, 0xAF, 0x86, 0xE7, 0xAC, 0xA6, 0xE5, 0x88, 0x97]) @
        rule_error (qf_saCols s = []) ''saCols'' (utf8 [0xE8, 0xAF, 0xB7, 0xE9, 0x80, 0x89, 0xE6, 0x8B, 0xA9, 0xE8, 0x87, 0xB3, 0xE5, 0xB0, 0x91, 0xE4, 0xB8, 0x80, 0xE4, 0xB8, 0xAA, 0xE6, 0x95, 0x8F, 0xE6, 0x84, 0x9F, 0xE5, 0xB1, 0x9E, 0xE6, 0x80, 0xA7, 0xE5, 0x88, 0x97]) else []) @
     rule_error (t = QSanitization \<and> qf_sanitizationCols s = []) ''sanitizationCols'' (utf8 [0xE8, 0xAF, 0xB7, 0xE9, 0x80, 0x89, 0xE6, 0x8B, 0xA9, 0xE8, 0x87, 0xB3, 0xE5, 0xB0, 0x91, 0xE4, 0xB8, 0x80, 0xE4, 0xB8, 0xAA, 0xE9, 0x9C, 0x80, 0xE8, 0xA6, 0x81, 0xE8, 0x84, 0xB1, 0xE6, 0x95, 0x8F, 0xE7, 0x9A, 0x84, 0xE5, 0x88, 0x97])"

definition validateQuickConfig :: "template_type \<Rightarrow> quick_form \<Rightarrow> (string \<times> string) list" where
  "validateQuickConfig t s =
     (if isTwoTable t then two_table_errors s else []) @
     rule_error ((isMpcPsi t \<or> t = QTee) \<and> qf_featureSelects s = []) ''featureSelects'' (utf8 [0xE8, 0xAF, 0xB7, 0xE9, 0x80, 0x89, 0xE6, 0x8B, 0xA9, 0xE7, 0x89, 0xB9, 0xE5, 0xBE, 0x81, 0xE5, 0x88, 0x97]) @
     rule_error (isMpcPsi t \<and> qf_receiverPSI s = []) ''receiverPSI'' (utf8 [0xE8, 0xAF, 0xB7, 0xE8, 0xBE, 0x93, 0xE5, 0x85, 0xA5, 0xE6, 0x8E, 0xA5, 0xE6, 0x94, 0xB6, 0xE6, 0x96, 0xB9]) @
     (if t = QRisk then risk_errors s else []) @
     (if t = QTee then tee_errors s else []) @
     (if isTwoTable t then [] else single_table_errors t s)"

section \<open>The dictionary\<close>

record table_info =
  ti_datatableId :: string
  ti_isPartitionTable :: bool

definition opt_js :: "string option \<Rightarrow> jsval" where
  "opt_js v = (case v of None \<Rightarrow> Undefined | Some s \<Rightarrow> JStr s)"

definition js_s :: "string option \<Rightarrow> jsval" where
  "js_s v = JObj [(''s'', opt_js v)]"

definition js_ss :: "string list \<Rightarrow> jsval" where
  "js_ss xs = JObj [(''ss'', JArr (map JStr xs))]"

definition partition_of :: "table_info list \<Rightarrow> string option \<Rightarrow> string option \<Rightarrow> string option" where
  "partition_of tables tid p =
     (case List.find (\<lambda>t. Some (ti_datatableId t) = tid) tables of
        None \<Rightarrow> None
      | Some t \<Rightarrow> if ti_isPartitionTable t \<and> truthy p then p else None)"

definition quickConfigValues :: "template_type \<Rightarrow> quick_form \<Rightarrow> table_info list \<Rightarrow> jsobj" where
  "quickConfigValues t s tables =
     (if isTwoTable t then
        [(''dataTableReceiver'', js_s (qf_dataTableReceiver s)), (''dataTableSender'', js_s (qf_dataTableSender s)),
         (''receiverKey'', js_ss (non_empty (qf_receiverKeys s))), (''senderKey'', js_ss (non_empty (qf_senderKeys s)))] @
        (if isMpcPsi t then
           [(''dataTableReceiverPartition'', opt_js (partition_of tables (qf_dataTableReceiver s) (qf_dataTableReceiverPartition s))),
            (''dataTableSenderPartition'', opt_js (partition_of tables (qf_dataTableSender s) (qf_dataTableSenderPartition s))),
            (''featureSelects'', js_ss (qf_featureSelects s)), (''receiverPSI'', js_ss (qf_receiverPSI s))] else []) @
        (if t = QRisk then
           [(''labelSelects'', js_ss (qf_labelSelects s)), (''pred'', js_s (Some (qf_pred s))),
            (''receiver'', js_ss (if truthy (qf_receiver s) then [the (qf_receiver s)] else []))] else []) @
        (if t = QTee then
           [(''featureSelects'', js_ss (qf_featureSelects s)), (''labelSelect'', js_ss (qf_labelSelects s))] @
           (if qf_trainIdSelect s \<noteq> [] then [(''trainIdSelect'', js_ss (qf_trainIdSelect s))] else []) @
           [(''saveId'', JBool (qf_saveId s))] @
           (if qf_predictIdSelect s \<noteq> [] then [(''predictIdSelect'', js_ss (qf_predictIdSelect s))] else []) @
           [(''saveLabel'', JBool (qf_saveLabel s)), (''label'', js_ss [qf_label s]), (''score'', js_ss [qf_score s])] else [])
      else
        [(''dataTable'', js_s (qf_dataTable s))] @
        (if t = QDifferentialPrivacy \<or> t = QLocalDifferentialPrivacy then [(''queryCol'', js_s (qf_queryCol s))] else []) @
        (if t = QKAnonymity \<or> t = QLDiversity then
           [(''qiCols'', JArr (map JStr (qf_qiCols s))), (''saCols'', JArr (map JStr (qf_saCols s)))] else []) @
        (if t = QSanitization then [(''sanitizationCols'', JArr (map JStr (qf_sanitizationCols s)))] else []))"

section \<open>The configuration of the template\<close>

text \<open>\<open>sOf\<close> and \<open>ssOf\<close>: a part of the dictionary read as \<open>{ s }\<close> or \<open>{ ss }\<close>; entries that are not
  texts do not occur in what the drawer hands over and are skipped here.\<close>

definition part :: "jsval \<Rightarrow> string \<Rightarrow> jsval" where
  "part v k = (case v of JObj ob \<Rightarrow> get_prop ob k | _ \<Rightarrow> Undefined)"

fun text_entries :: "jsval \<Rightarrow> string list" where
  "text_entries (JArr xs) = List.map_filter (\<lambda>x. case x of JStr s \<Rightarrow> Some s | _ \<Rightarrow> None) xs"
| "text_entries _ = []"

definition sOf :: "jsval \<Rightarrow> string option" where
  "sOf v = (case part v ''s'' of JStr s \<Rightarrow> if s \<noteq> '''' then Some s else None | _ \<Rightarrow> None)"

definition ssOf :: "jsval \<Rightarrow> string list" where
  "ssOf v = non_empty (text_entries (part v ''ss''))"

definition text_or_none :: "jsval \<Rightarrow> string option" where
  "text_or_none v = (case v of JStr s \<Rightarrow> if s \<noteq> '''' then Some s else None | _ \<Rightarrow> None)"

definition ownerOf :: "project_detail option \<Rightarrow> string option \<Rightarrow> string option" where
  "ownerOf project tid =
     (if \<not> truthy tid then None
      else case project of
          None \<Rightarrow> None
        | Some p \<Rightarrow> map_option pp_nodeId
            (List.find (\<lambda>n. list_ex (\<lambda>t. Some (pt_id t) = tid) (pp_datatables n)) (pd_nodes p)))"

definition two_table_base :: "jsobj \<Rightarrow> project_detail option \<Rightarrow> configs" where
  "two_table_base vs project =
     (let v = get_prop vs; r = sOf (v ''dataTableReceiver''); s = sOf (v ''dataTableSender'');
          c = no_configs\<lparr>cfg_receiverTableId := r, cfg_senderTableId := s,
            cfg_receiverPartition := text_or_none (v ''dataTableReceiverPartition''),
            cfg_senderPartition := text_or_none (v ''dataTableSenderPartition''),
            cfg_receiverKey := Some (Many (ssOf (v ''receiverKey''))), cfg_senderKey := Some (Many (ssOf (v ''senderKey''))),
            cfg_receiverNodeId := ownerOf project r, cfg_senderNodeId := ownerOf project s\<rparr>;
          c = (if js_truthy (v ''featureSelects'') then c\<lparr>cfg_featureSelects := Some (ssOf (v ''featureSelects''))\<rparr> else c)
      in if js_truthy (v ''receiverPSI'') then c\<lparr>cfg_receiverParties := Some (ssOf (v ''receiverPSI''))\<rparr> else c)"

definition quickConfigToTemplateConfigs :: "template_type \<Rightarrow> jsobj \<Rightarrow> project_detail option \<Rightarrow> configs" where
  "quickConfigToTemplateConfigs t vs project =
     (let v = get_prop vs in
      if isTwoTable t then
        (let c = two_table_base vs project;
             c = (if t = QRisk then c\<lparr>cfg_labelSelects := Some \<lparr>ls_s = None, ls_ss = Some (ssOf (v ''labelSelects''))\<rparr>,
                    cfg_pred := Some (nullish (sOf (v ''pred'')) ''pred''), cfg_predictReceiver := at_opt (ssOf (v ''receiver'')) 0\<rparr>
                  else c)
         in if t = QTee then c\<lparr>cfg_labelSelects := Some \<lparr>ls_s = None, ls_ss = Some (ssOf (v ''labelSelect''))\<rparr>,
              cfg_trainIdSelect := Some (ssOf (v ''trainIdSelect'')), cfg_predictIdSelect := Some (ssOf (v ''predictIdSelect'')),
              cfg_saveId := Some (js_truthy (v ''saveId'')), cfg_saveLabel := Some (js_truthy (v ''saveLabel'')),
              cfg_label := at_opt (ssOf (v ''label'')) 0, cfg_score := at_opt (ssOf (v ''score'')) 0\<rparr>
            else c)
      else
        (let c = no_configs\<lparr>cfg_tableId := sOf (v ''dataTable'')\<rparr>;
             c = (if t = QKAnonymity \<or> t = QLDiversity
                  then c\<lparr>cfg_qiCols := Some (text_entries (v ''qiCols'')), cfg_saCols := Some (text_entries (v ''saCols''))\<rparr> else c);
             c = (if t = QDifferentialPrivacy \<or> t = QLocalDifferentialPrivacy then c\<lparr>cfg_queryCol := sOf (v ''queryCol'')\<rparr> else c)
         in if t = QSanitization then c\<lparr>cfg_sanitizationCols := Some (text_entries (v ''sanitizationCols''))\<rparr> else c))"

definition QUICK_CONFIG_TEMPLATES :: "(template_type \<times> string) list" where
  "QUICK_CONFIG_TEMPLATES = [(QPsi, ''psi''), (QPsiTee, ''psiTee''), (QRisk, ''risk''), (QTee, ''tee''), (QKAnonymity, ''kAnonymity''),
     (QLDiversity, ''lDiversity''), (QDifferentialPrivacy, ''differentialPrivacy''),
     (QLocalDifferentialPrivacy, ''localDifferentialPrivacy''), (QSanitization, ''sanitization'')]"

text \<open>\<open>saveQuickConfig\<close> up to the request: the graph that replaces the canvas.\<close>

definition quick_graph :: "template_type \<Rightarrow> string \<Rightarrow> quick_form \<Rightarrow> table_info list \<Rightarrow> project_detail option \<Rightarrow> template_graph option" where
  "quick_graph t graphId s tables project =
     (case Option.bind (map_of QUICK_CONFIG_TEMPLATES t) templateByKey of
        None \<Rightarrow> None
      | Some tpl \<Rightarrow> Some (tpl_build tpl graphId (quickConfigToTemplateConfigs t (quickConfigValues t s tables) project)))"

section \<open>What arrives\<close>

lemma texts_strings [simp]: "text_entries (JArr (map JStr xs)) = xs"
  by (induction xs) (simp_all add: List.map_filter_simps)

declare text_entries.simps [simp del]

lemma no_entries [simp]: "text_entries Undefined = []"
  by (rule text_entries.simps)

lemma non_empty_twice [simp]: "non_empty (non_empty xs) = non_empty xs"
  by (simp add: non_empty_def)

lemma ssOf_js_ss [simp]: "ssOf (js_ss xs) = non_empty xs"
  by (simp add: ssOf_def js_ss_def part_def get_prop_def)

lemma sOf_js_s [simp]: "sOf (js_s v) = (if truthy v then v else None)"
  by (cases v) (auto simp: sOf_def js_s_def part_def get_prop_def opt_js_def)

lemma missing_parts [simp]: "ssOf Undefined = []" "sOf Undefined = None"
  by (simp_all add: ssOf_def sOf_def part_def non_empty_def)

lemma js_ss_truthy [simp]: "js_truthy (js_ss xs)"
  by (simp add: js_ss_def)


text \<open>The selections of a form: nothing empty is selected (the empty key rows apart).\<close>

definition selections :: "quick_form \<Rightarrow> string list" where
  "selections s = qf_featureSelects s @ qf_receiverPSI s @ qf_labelSelects s @ qf_trainIdSelect s @ qf_predictIdSelect s"

lemma non_empty_id: "'''' \<notin> set xs \<Longrightarrow> non_empty xs = xs"
  by (induction xs) (auto simp: non_empty_def)

lemma rule_error_Nil [simp]: "rule_error b f m = [] \<longleftrightarrow> \<not> b"
  by (simp add: rule_error_def)

lemma key_errors_Nil: "key_errors f keys = [] \<longleftrightarrow> keys \<noteq> [] \<and> '''' \<notin> set keys"
  by (cases keys) (auto simp: key_errors_def at_opt_def truthy_iff list_ex_iff)

lemma two_table_accepted:
  "isTwoTable t \<Longrightarrow> validateQuickConfig t s = [] \<Longrightarrow>
     truthy (qf_dataTableReceiver s) \<and> truthy (qf_dataTableSender s) \<and> qf_dataTableSender s \<noteq> qf_dataTableReceiver s \<and>
     qf_receiverKeys s \<noteq> [] \<and> '''' \<notin> set (qf_receiverKeys s) \<and> qf_senderKeys s \<noteq> [] \<and> '''' \<notin> set (qf_senderKeys s)"
  by (auto simp: validateQuickConfig_def two_table_errors_def key_errors_Nil split: if_splits)

lemma toList_Many [simp]: "toList (Some (Many xs)) = non_empty xs"
  by (simp add: toList_def)

lemma text_opt_js [simp]: "text_or_none (opt_js v) = (if truthy v then v else None)"
  by (cases v) (auto simp: text_or_none_def opt_js_def)

lemma text_Undefined [simp]: "text_or_none Undefined = None"
  by (simp add: text_or_none_def)

text \<open>What the form holds is what the template is given.\<close>

lemma base_values:
  fixes s :: quick_form and tables :: "table_info list"
  assumes "isTwoTable t"
  defines "v \<equiv> get_prop (quickConfigValues t s tables)"
  shows "v ''dataTableReceiver'' = js_s (qf_dataTableReceiver s)" "v ''dataTableSender'' = js_s (qf_dataTableSender s)"
    "v ''receiverKey'' = js_ss (non_empty (qf_receiverKeys s))" "v ''senderKey'' = js_ss (non_empty (qf_senderKeys s))"
    "v ''featureSelects'' = (if isMpcPsi t \<or> t = QTee then js_ss (qf_featureSelects s) else Undefined)"
    "v ''receiverPSI'' = (if isMpcPsi t then js_ss (qf_receiverPSI s) else Undefined)"
    "v ''dataTableReceiverPartition'' =
       (if isMpcPsi t then opt_js (partition_of tables (qf_dataTableReceiver s) (qf_dataTableReceiverPartition s)) else Undefined)"
    "v ''dataTableSenderPartition'' =
       (if isMpcPsi t then opt_js (partition_of tables (qf_dataTableSender s) (qf_dataTableSenderPartition s)) else Undefined)"
  using assms(1) unfolding v_def quickConfigValues_def get_prop_def
  by (auto simp: isTwoTable_def isMpcPsi_def)


lemma risk_values:
  fixes s :: quick_form and tables :: "table_info list"
  defines "v \<equiv> get_prop (quickConfigValues QRisk s tables)"
  shows "v ''labelSelects'' = js_ss (qf_labelSelects s)" "v ''pred'' = js_s (Some (qf_pred s))"
    "v ''receiver'' = js_ss (if truthy (qf_receiver s) then [the (qf_receiver s)] else [])"
  unfolding v_def quickConfigValues_def get_prop_def by (simp_all add: isTwoTable_def isMpcPsi_def)

lemma tee_values:
  fixes s :: quick_form and tables :: "table_info list"
  defines "v \<equiv> get_prop (quickConfigValues QTee s tables)"
  shows "v ''labelSelect'' = js_ss (qf_labelSelects s)" "ssOf (v ''trainIdSelect'') = non_empty (qf_trainIdSelect s)"
    "ssOf (v ''predictIdSelect'') = non_empty (qf_predictIdSelect s)" "v ''saveId'' = JBool (qf_saveId s)"
    "v ''saveLabel'' = JBool (qf_saveLabel s)" "v ''label'' = js_ss [qf_label s]" "v ''score'' = js_ss [qf_score s]"
  unfolding v_def quickConfigValues_def get_prop_def
  by (auto simp: isTwoTable_def isMpcPsi_def map_of_eq_None_iff) (simp_all add: non_empty_def)

lemma not_blank: "trim s \<noteq> '''' \<Longrightarrow> s \<noteq> ''''"
  by auto

lemma one_label:
  "length xs = 1 \<Longrightarrow> '''' \<notin> set xs \<Longrightarrow> labelOf (Some \<lparr>ls_s = None, ls_ss = Some (non_empty xs)\<rparr>) = hd xs"
  "length xs = 1 \<Longrightarrow> '''' \<notin> set xs \<Longrightarrow> labelOf (Some \<lparr>ls_s = None, ls_ss = Some xs\<rparr>) = hd xs"
  by (cases xs; auto simp: labelOf_def non_empty_def at_opt_def)+

text \<open>The part of the configuration every two-table template gets.\<close>

lemma base_arrives:
  assumes "isTwoTable t" "validateQuickConfig t s = []" "'''' \<notin> set (selections s)"
  shows "two_table_base (quickConfigValues t s tables) project =
    no_configs\<lparr>cfg_receiverTableId := qf_dataTableReceiver s, cfg_senderTableId := qf_dataTableSender s,
      cfg_receiverPartition := (if isMpcPsi t then partition_of tables (qf_dataTableReceiver s) (qf_dataTableReceiverPartition s) else None),
      cfg_senderPartition := (if isMpcPsi t then partition_of tables (qf_dataTableSender s) (qf_dataTableSenderPartition s) else None),
      cfg_receiverKey := Some (Many (qf_receiverKeys s)), cfg_senderKey := Some (Many (qf_senderKeys s)),
      cfg_receiverNodeId := ownerOf project (qf_dataTableReceiver s), cfg_senderNodeId := ownerOf project (qf_dataTableSender s),
      cfg_featureSelects := (if isMpcPsi t \<or> t = QTee then Some (qf_featureSelects s) else None),
      cfg_receiverParties := (if isMpcPsi t then Some (qf_receiverPSI s) else None)\<rparr>"
proof -
  note ok = two_table_accepted [OF assms(1,2)]
  have p: "(if truthy p then p else None) = p" if "p = partition_of tables i q" for p i q
    using that by (auto simp: partition_of_def split: option.splits)
  have sel: "'''' \<notin> set (qf_featureSelects s)" "'''' \<notin> set (qf_receiverPSI s)" using assms(3) by (auto simp: selections_def)
  show ?thesis
    unfolding two_table_base_def Let_def base_values [OF assms(1)]
    using ok sel p by (simp add: non_empty_id no_configs_def)
qed


text \<open>The values one template needs on top.\<close>

lemma risk_arrives:
  fixes tables :: "table_info list" and project :: "project_detail option"
  assumes "validateQuickConfig QRisk s = []" "'''' \<notin> set (selections s)"
  defines "c \<equiv> quickConfigToTemplateConfigs QRisk (quickConfigValues QRisk s tables) project"
  shows "labelOf (cfg_labelSelects c) = hd (qf_labelSelects s) \<and> cfg_pred c = Some (qf_pred s) \<and> cfg_predictReceiver c = qf_receiver s"
proof -
  have l: "length (qf_labelSelects s) = 1" "trim (qf_pred s) \<noteq> ''''" "truthy (qf_receiver s)"
    using assms(1) by (auto simp: validateQuickConfig_def risk_errors_def split: if_splits)
  have "'''' \<notin> set (qf_labelSelects s)" using assms(2) by (auto simp: selections_def)
  moreover have "qf_pred s \<noteq> ''''" using l(2) by (rule not_blank)
  moreover obtain r where "qf_receiver s = Some r" "r \<noteq> ''''" using l(3) by (auto simp: truthy_iff)
  ultimately show ?thesis
    unfolding c_def using l(1)
    by (simp add: quickConfigToTemplateConfigs_def Let_def isTwoTable_def risk_values one_label non_empty_def [of "[_]"] at_opt_def)
qed

lemma tee_arrives:
  fixes tables :: "table_info list" and project :: "project_detail option"
  assumes "validateQuickConfig QTee s = []" "'''' \<notin> set (selections s)"
  defines "c \<equiv> quickConfigToTemplateConfigs QTee (quickConfigValues QTee s tables) project"
  shows "labelOf (cfg_labelSelects c) = hd (qf_labelSelects s) \<and>
    cfg_trainIdSelect c = Some (qf_trainIdSelect s) \<and> cfg_predictIdSelect c = Some (qf_predictIdSelect s) \<and>
    cfg_saveId c = Some (qf_saveId s) \<and> cfg_saveLabel c = Some (qf_saveLabel s) \<and>
    cfg_label c = Some (qf_label s) \<and> cfg_score c = Some (qf_score s)"
proof -
  have l: "length (qf_labelSelects s) = 1" "trim (qf_label s) \<noteq> ''''" "trim (qf_score s) \<noteq> ''''"
    using assms(1) by (auto simp: validateQuickConfig_def tee_errors_def split: if_splits)
  have sel: "'''' \<notin> set (qf_labelSelects s)" "'''' \<notin> set (qf_trainIdSelect s)" "'''' \<notin> set (qf_predictIdSelect s)"
    using assms(2) by (auto simp: selections_def)
  show ?thesis
    unfolding c_def using l(1) sel not_blank [OF l(2)] not_blank [OF l(3)]
    by (simp add: quickConfigToTemplateConfigs_def Let_def isTwoTable_def tee_values one_label non_empty_id at_opt_def)
qed

section \<open>The graph that is saved\<close>

lemma quick_template:
  "\<exists>tpl \<in> set allTemplates. map_of QUICK_CONFIG_TEMPLATES t = Some (tpl_key tpl) \<and> templateByKey (tpl_key tpl) = Some tpl"
proof -
  obtain k where k: "map_of QUICK_CONFIG_TEMPLATES t = Some k" "k \<in> set all_keys"
    by (cases t) (auto simp: QUICK_CONFIG_TEMPLATES_def all_keys_def)
  then obtain tpl where "tpl \<in> set allTemplates" "k = tpl_key tpl" using all_keys by (metis imageE list.set_map)
  then show ?thesis using k templateByKey_found by auto
qed

lemma quick_key: "map_of QUICK_CONFIG_TEMPLATES t = Some ''tee'' \<longleftrightarrow> t = QTee"
  by (cases t) (auto simp: QUICK_CONFIG_TEMPLATES_def)

lemma quick_graph_wired:
  assumes "no_line_break g"
  shows "\<exists>tg. quick_graph t g s tables project = Some tg \<and> well_formed tg \<and> (t \<noteq> QTee \<longrightarrow> well_wired tg)"
proof -
  obtain tpl where tpl: "tpl \<in> set allTemplates" "map_of QUICK_CONFIG_TEMPLATES t = Some (tpl_key tpl)"
      "templateByKey (tpl_key tpl) = Some tpl"
    using quick_template by blast
  have "t \<noteq> QTee \<Longrightarrow> tpl_key tpl \<noteq> ''tee''" using tpl(2) quick_key [of t] by auto
  then show ?thesis
    using tpl all_well_formed [OF tpl(1) assms] all_well_wired [OF tpl(1) _ assms] by (simp add: quick_graph_def)
qed

lemma quick_psi_build:
  "quick_graph QPsi g s tables project =
     Some (layoutTemplate (psi_build g (two_table_base (quickConfigValues QPsi s tables) project)))"
proof -
  have "with_layout psiTemplate \<in> set allTemplates" by (simp add: allTemplates_def registered_def)
  from templateByKey_found [OF this] have "templateByKey ''psi'' = Some (with_layout psiTemplate)"
    by (simp add: psiTemplate_def metadata_def)
  then show ?thesis
    by (simp add: quick_graph_def QUICK_CONFIG_TEMPLATES_def quickConfigToTemplateConfigs_def Let_def isTwoTable_def psiTemplate_def
        metadata_def)
qed

text \<open>The intersection that is saved reads the two tables, joins on the keys and serves the parties the form shows.\<close>

lemma quick_psi_saved:
  assumes ok: "validateQuickConfig QPsi s = []" "'''' \<notin> set (selections s)"
    and g: "quick_graph QPsi g s tables project = Some tg"
  shows "node_attr tg (nodeId g 1) ''datatable_selected'' = Some (sAttr (the (qf_dataTableReceiver s))) \<and>
    node_attr tg (nodeId g 2) ''datatable_selected'' = Some (sAttr (the (qf_dataTableSender s))) \<and>
    node_attr tg (nodeId g 3) ''input/input_ds1/keys'' = Some (ssAttr (qf_receiverKeys s)) \<and>
    node_attr tg (nodeId g 3) ''input/input_ds2/keys'' = Some (ssAttr (qf_senderKeys s)) \<and>
    node_attr tg (nodeId g 3) ''receiver_parties'' = Some (ssAttr (qf_receiverPSI s)) \<and>
    node_attr tg (nodeId g 4) ''input/input_ds/features'' = Some (ssAttr (qf_featureSelects s))"
proof -
  have two: "isTwoTable QPsi" by (simp add: isTwoTable_def)
  note acc = two_table_accepted [OF two ok(1)]
  have more: "qf_featureSelects s \<noteq> []" "qf_receiverPSI s \<noteq> []"
    using ok(1) by (auto simp: validateQuickConfig_def isMpcPsi_def split: if_splits)
  have tg: "tg = layoutTemplate (psi_build g (two_table_base (quickConfigValues QPsi s tables) project))"
    using g by (simp add: quick_psi_build)
  have keys: "toList (Some (Many (qf_receiverKeys s))) = qf_receiverKeys s" "toList (Some (Many (qf_senderKeys s))) = qf_senderKeys s"
    using acc by (simp_all add: non_empty_id)
  have "map_of (zip (fst (datatableDef tid p)) (snd (datatableDef tid p))) ''datatable_selected'' = Some (sAttr (the tid))"
    if "truthy tid" for tid p using that by (simp add: datatableDef_def)
  note read = this
  show ?thesis
    unfolding tg node_attr_layout psi_build_def Let_def base_arrives [OF two ok]
    using acc more keys
    by (simp add: node_attr_def createReadDataNode_def createPsiNode_def createTableStatisticsNode_def createNode_def
        with_attrs_def plain_def_def attrs_if_def key_or_empty_def no_configs_def read isMpcPsi_def Let_def split_beta)
qed


text \<open>The column a differential-privacy query is drawn for is required by the form and read by no template: two
  accepted forms that differ in it give the same graph.\<close>

lemma dp_column_ignored:
  "quick_graph QDifferentialPrivacy g (s\<lparr>qf_queryCol := q\<rparr>) tables project = quick_graph QDifferentialPrivacy g s tables project"
proof -
  have "with_layout differentialPrivacyTemplate \<in> set allTemplates" by (simp add: allTemplates_def registered_def)
  from templateByKey_found [OF this]
  have k: "templateByKey ''differentialPrivacy'' = Some (with_layout differentialPrivacyTemplate)"
    by (simp add: differentialPrivacyTemplate_def metadata_def)
  have b: "tpl_build differentialPrivacyTemplate g c = tpl_build differentialPrivacyTemplate g c'"
    if "cfg_tableId c = cfg_tableId c'" for c c'
    using that by (simp add: differentialPrivacyTemplate_def metadata_def differentialPrivacy_build_def)
  show ?thesis
    by (simp add: quick_graph_def QUICK_CONFIG_TEMPLATES_def k)
       (intro arg_cong [where f = layoutTemplate] b,
        simp add: quickConfigToTemplateConfigs_def Let_def isTwoTable_def quickConfigValues_def get_prop_def)
qed

end
