(* ===== verification/TemplateWizard.thy ===== *)
theory TemplateWizard
  imports TemplateRegistry
begin

text \<open>
  The wizard that starts a graph from a template, \<open>useTemplateWizard\<close>
  (\<open>web/apps/secretpad/src/features/dag-templates/use-template-wizard.ts\<close>): the form, the two effects
  that fill it, the check, and the two requests of the creation.

  What the hook reads from outside is one record: the nodes of the project and, per node, the tables
  the query has delivered (none while it is loading).  \<open>toLocaleString\<close>, the time in a proposed name,
  is a text of that record.  The filling runs at every commit: its condition is a function of its
  dependencies and false once it has fired, so a run with unchanged dependencies does nothing.
\<close>

section \<open>The form\<close>

record wizard_table =
  wt_tableId :: string
  wt_columns :: "column list option"

record wizard_env =
  we_nodes :: "string list"
  we_tables :: "string \<Rightarrow> wizard_table list"
  we_now :: string

record wizard_form =
  wf_templateKey :: string
  wf_graphName :: string
  wf_receiverNodeId :: string
  wf_receiverTableId :: string
  wf_receiverKey :: string
  wf_senderNodeId :: string
  wf_senderTableId :: string
  wf_senderKey :: string
  wf_nodeId :: string
  wf_tableId :: string
  wf_featureColumns :: "string list"
  wf_labelColumn :: string
  wf_predictionName :: string
  wf_qiColumns :: "string list"
  wf_saColumns :: "string list"
  wf_queryColumn :: string
  wf_sanitizationColumns :: "string list"

definition defaultForm :: wizard_form where
  "defaultForm = \<lparr>wf_templateKey = ''psi'', wf_graphName = '''', wf_receiverNodeId = '''', wf_receiverTableId = '''',
     wf_receiverKey = '''', wf_senderNodeId = '''', wf_senderTableId = '''', wf_senderKey = '''', wf_nodeId = '''',
     wf_tableId = '''', wf_featureColumns = [], wf_labelColumn = '''', wf_predictionName = ''pred'', wf_qiColumns = [],
     wf_saColumns = [], wf_queryColumn = '''', wf_sanitizationColumns = []\<rparr>"

definition GRAPH_NAMES :: "(string \<times> string) list" where
  "GRAPH_NAMES =
     [(''psi'', (utf8 [0x50, 0x53, 0x49, 0x20, 0xE6, 0xA8, 0xA1, 0xE6, 0x9D, 0xBF])), (''psiGuide'', (utf8 [0x50, 0x53, 0x49, 0x20, 0xE5, 0xBC, 0x95, 0xE5, 0xAF, 0xBC, 0xE6, 0xA8, 0xA1, 0xE6, 0x9D, 0xBF])), (''psiTee'', (utf8 [0x54, 0x45, 0x45, 0x20, 0x50, 0x53, 0x49, 0x20, 0xE6, 0xA8, 0xA1, 0xE6, 0x9D, 0xBF])),
      (''psiTeeGuide'', (utf8 [0x54, 0x45, 0x45, 0x20, 0x50, 0x53, 0x49, 0x20, 0xE5, 0xBC, 0x95, 0xE5, 0xAF, 0xBC, 0xE6, 0xA8, 0xA1, 0xE6, 0x9D, 0xBF])), (''scenarioPsi'', (utf8 [0xE9, 0x9A, 0x90, 0xE7, 0xA7, 0x81, 0xE6, 0xB1, 0x82, 0xE4, 0xBA, 0xA4, 0xE5, 0x9C, 0xBA, 0xE6, 0x99, 0xAF])), (''risk'', (utf8 [0xE4, 0xBA, 0x8C, 0xE5, 0x88, 0x86, 0xE7, 0xB1, 0xBB, 0xE5, 0xBB, 0xBA, 0xE6, 0xA8, 0xA1])),
      (''riskGuide'', (utf8 [0xE4, 0xBA, 0x8C, 0xE5, 0x88, 0x86, 0xE7, 0xB1, 0xBB, 0xE5, 0xBB, 0xBA, 0xE6, 0xA8, 0xA1, 0xE5, 0xBC, 0x95, 0xE5, 0xAF, 0xBC])), (''tee'', (utf8 [0x54, 0x45, 0x45, 0x20, 0xE4, 0xBA, 0x8C, 0xE5, 0x88, 0x86, 0xE7, 0xB1, 0xBB, 0xE5, 0xBB, 0xBA, 0xE6, 0xA8, 0xA1])), (''teeGuide'', (utf8 [0x54, 0x45, 0x45, 0x20, 0xE4, 0xBA, 0x8C, 0xE5, 0x88, 0x86, 0xE7, 0xB1, 0xBB, 0xE5, 0xBB, 0xBA, 0xE6, 0xA8, 0xA1, 0xE5, 0xBC, 0x95, 0xE5, 0xAF, 0xBC])),
      (''dataClassification'', (utf8 [0xE6, 0x95, 0xB0, 0xE6, 0x8D, 0xAE, 0xE5, 0x88, 0x86, 0xE7, 0xB1, 0xBB, 0xE5, 0x88, 0x86, 0xE7, 0xBA, 0xA7])), (''sanitization'', (utf8 [0xE6, 0x95, 0xB0, 0xE6, 0x8D, 0xAE, 0xE8, 0x84, 0xB1, 0xE6, 0x95, 0x8F])), (''kAnonymity'', (utf8 [0x4B, 0x2D, 0xE5, 0x8C, 0xBF, 0xE5, 0x90, 0x8D])),
      (''lDiversity'', (utf8 [0x4C, 0x2D, 0xE5, 0xA4, 0x9A, 0xE6, 0xA0, 0xB7, 0xE6, 0x80, 0xA7])), (''localDifferentialPrivacy'', (utf8 [0xE6, 0x9C, 0xAC, 0xE5, 0x9C, 0xB0, 0xE5, 0xB7, 0xAE, 0xE5, 0x88, 0x86, 0xE9, 0x9A, 0x90, 0xE7, 0xA7, 0x81])),
      (''differentialPrivacy'', (utf8 [0xE5, 0xB7, 0xAE, 0xE5, 0x88, 0x86, 0xE9, 0x9A, 0x90, 0xE7, 0xA7, 0x81, 0xE6, 0x9F, 0xA5, 0xE8, 0xAF, 0xA2])), (''privacyGuide'', (utf8 [0xE5, 0xB7, 0xAE, 0xE5, 0x88, 0x86, 0xE9, 0x9A, 0x90, 0xE7, 0xA7, 0x81, 0xE5, 0xBC, 0x95, 0xE5, 0xAF, 0xBC])),
      (''queryObfuscation'', (utf8 [0xE6, 0x9F, 0xA5, 0xE8, 0xAF, 0xA2, 0xE6, 0xB7, 0xB7, 0xE6, 0xB7, 0x86])), (''blank'', (utf8 [0xE7, 0xA9, 0xBA, 0xE7, 0x99, 0xBD, 0xE5, 0x9B, 0xBE]))]"

definition inferGraphName :: "wizard_env \<Rightarrow> template \<Rightarrow> string" where
  "inferGraphName env t = nullish (map_of GRAPH_NAMES (tpl_key t)) (utf8 [0xE6, 0xA8, 0xA1, 0xE6, 0x9D, 0xBF, 0xE5, 0x9B, 0xBE]) @ '' '' @ we_now env"

definition selectedTemplate :: "wizard_form \<Rightarrow> template" where
  "selectedTemplate form =
     (case templateByKey (wf_templateKey form) of Some t \<Rightarrow> t | None \<Rightarrow> the (templateByKey ''blank''))"

definition wizard_table_of :: "wizard_env \<Rightarrow> string \<Rightarrow> string \<Rightarrow> wizard_table option" where
  "wizard_table_of env node tid = List.find (\<lambda>t. wt_tableId t = tid) (if node = '''' then [] else we_tables env node)"

definition loaded_columns :: "wizard_table option \<Rightarrow> column list" where
  "loaded_columns t = nullish (Option.bind t wt_columns) []"

definition receiverTable :: "wizard_env \<Rightarrow> wizard_form \<Rightarrow> wizard_table option" where
  "receiverTable env form =
     (if isTwoTableTemplate (selectedTemplate form)
      then wizard_table_of env (wf_receiverNodeId form) (wf_receiverTableId form) else None)"

definition allColumns :: "wizard_env \<Rightarrow> wizard_form \<Rightarrow> column list" where
  "allColumns env form =
     (let t = selectedTemplate form in
      if isTwoTableTemplate t then
        mergeTableColumns [Option.bind (receiverTable env form) wt_columns,
          Option.bind (wizard_table_of env (wf_senderNodeId form) (wf_senderTableId form)) wt_columns]
      else if isSingleTableTemplate t then loaded_columns (wizard_table_of env (wf_nodeId form) (wf_tableId form))
      else [])"

section \<open>The effects\<close>

definition reset_form :: "wizard_env \<Rightarrow> wizard_form \<Rightarrow> wizard_form" where
  "reset_form env form =
     (let t = selectedTemplate form;
          next = defaultForm\<lparr>wf_templateKey := tpl_key t, wf_graphName := inferGraphName env t\<rparr>
      in if isTwoTableTemplate t then
           next\<lparr>wf_receiverNodeId := nullish (at_opt (we_nodes env) 0) '''',
                wf_senderNodeId := nullish (at_opt (we_nodes env) 1) ''''\<rparr>
         else if isSingleTableTemplate t then next\<lparr>wf_nodeId := nullish (at_opt (we_nodes env) 0) ''''\<rparr>
         else next)"

definition numeric_column :: "column \<Rightarrow> bool" where
  "numeric_column c \<longleftrightarrow> col_type c \<in> set [''float'', ''double'', ''int'', ''integer'', ''long'']"

definition feature_candidates :: "wizard_env \<Rightarrow> wizard_form \<Rightarrow> string list" where
  "feature_candidates env form =
     (let numeric = map col_name (filter numeric_column (allColumns env form));
          names = (if numeric \<noteq> [] then numeric else map col_name (allColumns env form))
      in filter (\<lambda>c. c \<noteq> wf_labelColumn form \<and> c \<noteq> wf_receiverKey form \<and> c \<noteq> wf_senderKey form) names)"

definition proposes :: "wizard_env \<Rightarrow> wizard_form \<Rightarrow> bool" where
  "proposes env form \<longleftrightarrow>
     needsFeatureColumns (selectedTemplate form) \<and> wf_featureColumns form = [] \<and> feature_candidates env form \<noteq> []"

section \<open>The events\<close>

text \<open>\<open>setField\<close>, one constructor per field; the three that name a column take it out of the features.\<close>

datatype wizard_field =
    GraphName string | ReceiverNode string | ReceiverTable string | ReceiverKey string | SenderNode string
  | SenderTable string | SenderKey string | SingleNode string | SingleTable string | FeatureColumns "string list"
  | LabelColumn string | PredictionName string | QiColumns "string list" | SaColumns "string list"
  | QueryColumn string | SanitizationColumns "string list"

definition drop_feature :: "string \<Rightarrow> wizard_form \<Rightarrow> wizard_form" where
  "drop_feature c form = form\<lparr>wf_featureColumns := filter (\<lambda>f. f \<noteq> c) (wf_featureColumns form)\<rparr>"

fun setField :: "wizard_field \<Rightarrow> wizard_form \<Rightarrow> wizard_form" where
  "setField (GraphName v) f = f\<lparr>wf_graphName := v\<rparr>"
| "setField (ReceiverNode v) f = f\<lparr>wf_receiverNodeId := v\<rparr>"
| "setField (ReceiverTable v) f = f\<lparr>wf_receiverTableId := v\<rparr>"
| "setField (ReceiverKey v) f = drop_feature v (f\<lparr>wf_receiverKey := v\<rparr>)"
| "setField (SenderNode v) f = f\<lparr>wf_senderNodeId := v\<rparr>"
| "setField (SenderTable v) f = f\<lparr>wf_senderTableId := v\<rparr>"
| "setField (SenderKey v) f = drop_feature v (f\<lparr>wf_senderKey := v\<rparr>)"
| "setField (SingleNode v) f = f\<lparr>wf_nodeId := v\<rparr>"
| "setField (SingleTable v) f = f\<lparr>wf_tableId := v\<rparr>"
| "setField (FeatureColumns v) f = f\<lparr>wf_featureColumns := v\<rparr>"
| "setField (LabelColumn v) f = drop_feature v (f\<lparr>wf_labelColumn := v\<rparr>)"
| "setField (PredictionName v) f = f\<lparr>wf_predictionName := v\<rparr>"
| "setField (QiColumns v) f = f\<lparr>wf_qiColumns := v\<rparr>"
| "setField (SaColumns v) f = f\<lparr>wf_saColumns := v\<rparr>"
| "setField (QueryColumn v) f = f\<lparr>wf_queryColumn := v\<rparr>"
| "setField (SanitizationColumns v) f = f\<lparr>wf_sanitizationColumns := v\<rparr>"

text \<open>
  The state of the hook.  \<open>NewProject\<close> is another project object (its identity is a dependency of the
  reset), \<open>Arrive\<close> what the table queries have delivered.
\<close>

record wizard =
  wz_open :: bool
  wz_env :: wizard_env
  wz_form :: wizard_form

datatype wizard_event =
    OpenWizard | CloseWizard | SelectTemplate string | SetField wizard_field | Arrive "string \<Rightarrow> wizard_table list" | NewProject "string list"

text \<open>
  The effects of one commit.  Both read the form that was committed; the updates they queue are applied in
  their order.  The filling therefore looks at the form \<open>before\<close> the reset and writes into the one after it.
\<close>

definition run_effects :: "bool \<Rightarrow> wizard \<Rightarrow> wizard" where
  "run_effects resets w =
     (let form = wz_form w; env = wz_env w;
          next = (if wz_open w \<and> resets then reset_form env form else form)
      in w\<lparr>wz_form :=
          (if wz_open w \<and> proposes env form then next\<lparr>wf_featureColumns := feature_candidates env form\<rparr> else next)\<rparr>)"

definition wizard_commit :: "wizard \<Rightarrow> wizard \<Rightarrow> wizard" where
  "wizard_commit old new =
     run_effects (wz_open old \<noteq> wz_open new \<or>
       tpl_key (selectedTemplate (wz_form old)) \<noteq> tpl_key (selectedTemplate (wz_form new))) new"

fun wizard_step :: "wizard \<Rightarrow> wizard_event \<Rightarrow> wizard" where
  "wizard_step w OpenWizard =
     (if we_nodes (wz_env w) = [] then w else wizard_commit w (w\<lparr>wz_open := True, wz_form := defaultForm\<rparr>))"
| "wizard_step w CloseWizard = wizard_commit w (w\<lparr>wz_open := False\<rparr>)"
| "wizard_step w (SelectTemplate key) = wizard_commit w (w\<lparr>wz_form := (wz_form w)\<lparr>wf_templateKey := key\<rparr>\<rparr>)"
| "wizard_step w (SetField x) = wizard_commit w (w\<lparr>wz_form := setField x (wz_form w)\<rparr>)"
| "wizard_step w (Arrive tables) = wizard_commit w (w\<lparr>wz_env := (wz_env w)\<lparr>we_tables := tables\<rparr>\<rparr>)"
| "wizard_step w (NewProject nodes) = run_effects True (w\<lparr>wz_env := (wz_env w)\<lparr>we_nodes := nodes\<rparr>\<rparr>)"

section \<open>The check and the configuration\<close>

definition isValid :: "wizard_form \<Rightarrow> bool" where
  "isValid form =
     (let t = selectedTemplate form in
      if trim (wf_graphName form) = '''' then False
      else if needsNoInputs t then True
      else if isTwoTableTemplate t then
        (if wf_receiverNodeId form = '''' \<or> wf_receiverTableId form = '''' \<or> wf_receiverKey form = '''' then False
         else if isModelingKey (tpl_key t) \<and> wf_receiverNodeId form = wf_senderNodeId form then False
         else if wf_senderNodeId form = '''' \<or> wf_senderTableId form = '''' \<or> wf_senderKey form = '''' then False
         else if needsFeatureColumns t then
           (if wf_featureColumns form = [] then False
            else if needsLabelColumn t \<and> wf_labelColumn form = '''' then False
            else wf_labelColumn form \<notin> set (wf_featureColumns form))
         else True)
      else if isSingleTableTemplate t then wf_nodeId form \<noteq> '''' \<and> wf_tableId form \<noteq> ''''
      else True)"

definition two_table_wizard :: "wizard_env \<Rightarrow> wizard_form \<Rightarrow> template \<Rightarrow> configs" where
  "two_table_wizard env form t =
     (let c = no_configs\<lparr>cfg_receiverNodeId := Some (wf_receiverNodeId form), cfg_senderNodeId := Some (wf_senderNodeId form),
            cfg_receiverTableId := Some (wf_receiverTableId form), cfg_senderTableId := Some (wf_senderTableId form),
            cfg_receiverKey := Some (One (wf_receiverKey form)), cfg_senderKey := Some (One (wf_senderKey form))\<rparr>;
          c = (if needsFeatureColumns t
               then c\<lparr>cfg_featureSelects := Some (wf_featureColumns form),
                      cfg_labelSelects := Some \<lparr>ls_s = Some (wf_labelColumn form), ls_ss = None\<rparr>\<rparr> else c);
          c = (if isModelingKey (tpl_key t) \<and> needsLabelColumn t
               then c\<lparr>cfg_predictReceiver := Some
                      (if list_ex (\<lambda>x. col_name x = wf_labelColumn form) (loaded_columns (receiverTable env form))
                       then wf_receiverNodeId form else wf_senderNodeId form)\<rparr> else c)
      in if needsPredictionName t
         then c\<lparr>cfg_pred := Some (if wf_predictionName form \<noteq> '''' then wf_predictionName form else ''pred'')\<rparr> else c)"

definition single_table_wizard :: "wizard_form \<Rightarrow> template \<Rightarrow> configs" where
  "single_table_wizard form t =
     (let c = no_configs\<lparr>cfg_tableId := Some (wf_tableId form)\<rparr>; k = tpl_key t in
      if k = ''kAnonymity'' \<or> k = ''lDiversity'' then c\<lparr>cfg_qiCols := Some (wf_qiColumns form), cfg_saCols := Some (wf_saColumns form)\<rparr>
      else if k = ''localDifferentialPrivacy'' then c\<lparr>cfg_queryCol := Some (wf_queryColumn form)\<rparr>
      else if k = ''sanitization'' then c\<lparr>cfg_sanitizationCols := Some (wf_sanitizationColumns form)\<rparr>
      else c)"

definition buildConfigs :: "wizard_env \<Rightarrow> wizard_form \<Rightarrow> configs" where
  "buildConfigs env form =
     (let t = selectedTemplate form in
      if isTwoTableTemplate t then two_table_wizard env form t
      else if isSingleTableTemplate t then single_table_wizard form t
      else no_configs)"

section \<open>The creation\<close>

text \<open>The two requests, and whether each is answered: an empty graph is created, then the template is written into it.\<close>

datatype wizard_request = CreateGraph string string | UpdateGraph string string template_graph

datatype wizard_outcome = NoProject | Created string | CreateFailed | UpdateFailed string

definition graph_title :: "wizard_env \<Rightarrow> wizard_form \<Rightarrow> string" where
  "graph_title env form =
     (if trim (wf_graphName form) \<noteq> '''' then trim (wf_graphName form) else inferGraphName env (selectedTemplate form))"

definition wizard_create ::
  "wizard_env \<Rightarrow> wizard_form \<Rightarrow> string option \<Rightarrow> string option \<Rightarrow> bool \<Rightarrow> wizard_request list \<times> wizard_outcome" where
  "wizard_create env form project created updated =
     (case project of
        None \<Rightarrow> ([], NoProject)
      | Some p \<Rightarrow>
          (case created of
             None \<Rightarrow> ([CreateGraph p (graph_title env form)], CreateFailed)
           | Some g \<Rightarrow>
               ([CreateGraph p (graph_title env form),
                 UpdateGraph p g (tpl_build (selectedTemplate form) g (buildConfigs env form))],
                if updated then Created g else UpdateFailed g)))"


section \<open>One round of effects is enough\<close>

lemma selected_registered: "selectedTemplate form \<in> set allTemplates"
proof (cases "templateByKey (wf_templateKey form)")
  case None
  have "with_layout blankTemplate \<in> set allTemplates" by (simp add: allTemplates_def registered_def)
  from templateByKey_found [OF this] have "templateByKey ''blank'' = Some (with_layout blankTemplate)"
    by (simp add: blankTemplate_def metadata_def)
  with None show ?thesis by (simp add: selectedTemplate_def allTemplates_def registered_def)
next
  case (Some t)
  then show ?thesis using templateByKey_Some by (auto simp: selectedTemplate_def)
qed

lemma selected_reset [simp]: "selectedTemplate (reset_form env form) = selectedTemplate form"
proof -
  have "templateByKey (tpl_key (selectedTemplate form)) = Some (selectedTemplate form)"
    using templateByKey_found [OF selected_registered] .
  moreover have "wf_templateKey (reset_form env form) = tpl_key (selectedTemplate form)"
    by (simp add: reset_form_def Let_def)
  ultimately show ?thesis by (simp add: selectedTemplate_def [of "reset_form env form"])
qed

lemma reset_tables: "wf_receiverTableId (reset_form env form) = '''' \<and> wf_senderTableId (reset_form env form) = '''' \<and>
    wf_tableId (reset_form env form) = ''''"
  by (simp add: reset_form_def Let_def defaultForm_def)

definition named_tables :: "wizard_env \<Rightarrow> bool" where
  "named_tables env \<longleftrightarrow> (\<forall>n. list_all (\<lambda>t. wt_tableId t \<noteq> '''') (we_tables env n))"

lemma no_table: "named_tables env \<Longrightarrow> wizard_table_of env n '''' = None"
  by (auto simp: wizard_table_of_def named_tables_def list_all_iff find_None_iff)

lemma no_columns: "named_tables env \<Longrightarrow> allColumns env (reset_form env form) = []"
  by (simp add: allColumns_def Let_def reset_tables no_table loaded_columns_def receiverTable_def mergeTableColumns_def)

lemma feature_update_selected [simp]:
  "selectedTemplate (form\<lparr>wf_featureColumns := fs\<rparr>) = selectedTemplate form"
  by (simp add: selectedTemplate_def)

lemma effects_settle:
  assumes "named_tables (wz_env w)"
  shows "run_effects False (run_effects r w) = run_effects r w"
proof -
  have "\<not> proposes (wz_env w) (reset_form (wz_env w) (wz_form w))"
    using assms by (simp add: proposes_def feature_candidates_def no_columns)
  then show ?thesis by (auto simp: run_effects_def Let_def proposes_def)
qed

section \<open>What a valid form sends\<close>

lemma valid_two_table:
  assumes "isTwoTableTemplate (selectedTemplate form)" "\<not> needsNoInputs (selectedTemplate form)" "isValid form"
  shows "wf_receiverTableId form \<noteq> ''''" "wf_senderTableId form \<noteq> ''''" "wf_receiverKey form \<noteq> ''''" "wf_senderKey form \<noteq> ''''"
    "isModelingKey (tpl_key (selectedTemplate form)) \<Longrightarrow> wf_receiverNodeId form \<noteq> wf_senderNodeId form"
    "needsFeatureColumns (selectedTemplate form) \<Longrightarrow> wf_featureColumns form \<noteq> [] \<and> wf_labelColumn form \<notin> set (wf_featureColumns form)"
    "needsLabelColumn (selectedTemplate form) \<Longrightarrow> needsFeatureColumns (selectedTemplate form) \<Longrightarrow> wf_labelColumn form \<noteq> ''''"
  using assms by (auto simp: isValid_def Let_def split: if_splits)

lemma creation_order:
  assumes "wizard_create env form project created updated = (reqs, outcome)"
  shows "outcome = Created g \<longleftrightarrow> updated \<and> (\<exists>p. project = Some p \<and> created = Some g)"
    and "outcome = Created g \<Longrightarrow> \<exists>p. reqs = [CreateGraph p (graph_title env form),
      UpdateGraph p g (tpl_build (selectedTemplate form) g (buildConfigs env form))]"
  using assms by (auto simp: wizard_create_def split: option.splits if_splits)

text \<open>What the training graph of a valid form computes.\<close>

definition modeling_graph_of :: "wizard_form \<Rightarrow> string \<Rightarrow> template_graph \<Rightarrow> bool" where
  "modeling_graph_of form g tg \<longleftrightarrow>
     node_attr tg (nodeId g 1) ''datatable_selected'' = Some (sAttr (wf_receiverTableId form)) \<and>
     node_attr tg (nodeId g 2) ''datatable_selected'' = Some (sAttr (wf_senderTableId form)) \<and>
     node_attr tg (nodeId g 3) ''input/input_ds1/input_ds1_keys'' = Some (ssAttr [wf_receiverKey form]) \<and>
     node_attr tg (nodeId g 3) ''input/input_ds2/input_ds2_keys'' = Some (ssAttr [wf_senderKey form]) \<and>
     node_attr tg (nodeId g 5) ''input/input_ds/feature_selects'' = Some (ssAttr (wf_featureColumns form)) \<and>
     node_attr tg (nodeId g 5) ''input/input_ds/label'' =
       (if wf_templateKey form = ''kmeans'' then None else Some (ssAttr [wf_labelColumn form]))"

lemma zip_attributes: "map_of (zip (map fst as) (map (attribute_of \<circ> snd) as)) path = map_option attribute_of (map_of as path)"
  by (induction as) auto

lemma make_node_attr:
  "map_of (zip (nullish (def_attrPaths (gn_def (make_node g i d n ins k as v))) [])
     (nullish (def_attrs (gn_def (make_node g i d n ins k as v))) [])) path = map_option attribute_of (map_of as path)"
  by (simp add: make_node_def createNode_def with_attrs_def plain_def_def zip_attributes)


lemma modeling_selected:
  assumes "isModelingKey (tpl_key (selectedTemplate form))"
  obtains pre where "pre \<in> set modelingPresets" "preset_ok pre" "pre_key pre = tpl_key (selectedTemplate form)"
    "\<And>g c. tpl_build (selectedTemplate form) g c = layoutTemplate (modeling_build pre g c)"
proof -
  obtain pre where pre: "pre \<in> set modelingPresets" "pre_key pre = tpl_key (selectedTemplate form)"
    using assms by (auto simp: isModelingKey_def list_ex_iff)
  let ?t = "with_layout (metadata (pre_key pre) (Some [''MPC'']) ''ml'' (modeling_build pre))"
  have "?t \<in> set allTemplates" using pre(1) by (auto simp: allTemplates_def registered_def modelingTemplates_def)
  from templateByKey_found [OF this] have a: "templateByKey (pre_key pre) = Some ?t" by (simp add: metadata_def)
  have s: "selectedTemplate form = ?t"
    using templateByKey_found [OF selected_registered, of form] a pre(2) by simp
  have "tpl_build (selectedTemplate form) g c = layoutTemplate (modeling_build pre g c)" for g c
    unfolding s by (simp add: metadata_def)
  moreover have "preset_ok pre" using presets_ok pre(1) by (simp add: list_all_iff)
  ultimately show thesis using pre that by blast
qed

lemma modeling_kinds:
  assumes "isModelingKey (tpl_key t)"
  shows "isTwoTableTemplate t" "needsFeatureColumns t" "needsLabelColumn t \<longleftrightarrow> tpl_key t \<noteq> ''kmeans''" "\<not> needsNoInputs t"
proof -
  show "isTwoTableTemplate t" "needsFeatureColumns t" using assms by (simp_all add: isTwoTableTemplate_def needsFeatureColumns_def)
  have k: "tpl_key t \<in> set (map pre_key modelingPresets)"
    using assms by (auto simp: isModelingKey_def list_ex_iff intro: rev_image_eqI)
  show "needsLabelColumn t \<longleftrightarrow> tpl_key t \<noteq> ''kmeans''" "\<not> needsNoInputs t"
    using k assms by (auto simp: needsLabelColumn_def needsNoInputs_def modelingPresets_def)
qed

lemma labelOf_text: "labelOf (Some \<lparr>ls_s = Some l, ls_ss = None\<rparr>) = l"
  by (cases "l = ''''") (simp_all add: labelOf_def)

lemma selected_key: "wf_templateKey form \<in> set all_keys \<Longrightarrow> tpl_key (selectedTemplate form) = wf_templateKey form"
proof -
  assume "wf_templateKey form \<in> set all_keys"
  then obtain t where t: "t \<in> set allTemplates" "tpl_key t = wf_templateKey form" using all_keys by (metis imageE list.set_map)
  then have "templateByKey (wf_templateKey form) = Some t" using templateByKey_found by metis
  with t show ?thesis by (simp add: selectedTemplate_def)
qed

lemma modeling_graph_sent:
  assumes m: "isModelingKey (wf_templateKey form)" and valid: "isValid form"
    and clean: "wf_receiverKey form \<notin> set (wf_featureColumns form)" "wf_senderKey form \<notin> set (wf_featureColumns form)"
  shows "modeling_graph_of form g (tpl_build (selectedTemplate form) g (buildConfigs env form))"
proof -
  have "wf_templateKey form \<in> set all_keys" using m by (auto simp: isModelingKey_def list_ex_iff modelingPresets_def all_keys_def)
  note key = selected_key [OF this]
  with m have mk: "isModelingKey (tpl_key (selectedTemplate form))" by simp
  obtain pre where pre: "preset_ok pre" "pre_key pre = wf_templateKey form"
      "\<And>g c. tpl_build (selectedTemplate form) g c = layoutTemplate (modeling_build pre g c)"
    using modeling_selected [OF mk] key by metis
  note kinds = modeling_kinds [OF mk]
  note ok = valid_two_table [OF kinds(1) kinds(4) valid]
  have nk: "map_of (pre_attrs pre) ''input/input_ds/feature_selects'' = None" "map_of (pre_attrs pre) ''input/input_ds/label'' = None"
    using pre(1) by (auto simp: preset_ok_def map_of_eq_None_iff)
  define c where "c = buildConfigs env form"
  have c: "cfg_receiverTableId c = Some (wf_receiverTableId form)" "cfg_senderTableId c = Some (wf_senderTableId form)"
      "cfg_receiverKey c = Some (One (wf_receiverKey form))" "cfg_senderKey c = Some (One (wf_senderKey form))"
      "cfg_featureSelects c = Some (wf_featureColumns form)" "cfg_labelSelects c = Some \<lparr>ls_s = Some (wf_labelColumn form), ls_ss = None\<rparr>"
    using kinds by (simp_all add: c_def buildConfigs_def two_table_wizard_def Let_def no_configs_def)
  have keys: "toList (cfg_receiverKey c) = [wf_receiverKey form]" "toList (cfg_senderKey c) = [wf_senderKey form]"
    using ok(3,4) by (simp_all add: c toList_def non_empty_def)
  have feats: "modeling_features c = wf_featureColumns form" "wf_featureColumns form \<noteq> []"
    using clean ok(6) kinds(2)
    by (auto simp: modeling_features_def modeling_identifiers_def keys keys [unfolded c] c labelOf_text intro!: filter_eq_self)
  have label: "wf_templateKey form \<noteq> ''kmeans'' \<Longrightarrow> wf_labelColumn form \<noteq> ''''"
    using ok(7) kinds(2,3) key by simp
  have train: "map_of (train_attrs pre c) ''input/input_ds/feature_selects'' = Some (VStrs (wf_featureColumns form))"
      "map_of (train_attrs pre c) ''input/input_ds/label'' =
        (if wf_templateKey form = ''kmeans'' then None else Some (VStrs [wf_labelColumn form]))"
    using feats label nk by (simp_all add: train_attrs_def Let_def c labelOf_text pre(2) map_add_def)
  show ?thesis
    unfolding c_def [symmetric] modeling_graph_of_def pre(3) node_attr_layout
    by (simp add: node_attr_def modeling_build_def Let_def make_node_attr train keys keys [unfolded c] ssAttr_def ok(1,2) c
        createReadDataNode_def datatableDef_def createNode_def with_attrs_def plain_def_def split_beta)
qed


text \<open>A key column that is picked as the only feature passes the check and is taken out by the template: the
  training component is left without features.\<close>

definition key_as_feature :: wizard_form where
  "key_as_feature = defaultForm\<lparr>wf_templateKey := ''ssXgb'', wf_graphName := ''g'', wf_receiverNodeId := ''alice'',
     wf_receiverTableId := ''t1'', wf_receiverKey := ''id1'', wf_senderNodeId := ''bob'', wf_senderTableId := ''t2'',
     wf_senderKey := ''id2'', wf_featureColumns := [''id1''], wf_labelColumn := ''y''\<rparr>"

lemma key_as_feature_lost:
  "isValid key_as_feature \<and>
   node_attr (tpl_build (selectedTemplate key_as_feature) g (buildConfigs env key_as_feature)) (nodeId g 5)
     ''input/input_ds/feature_selects'' = None"
proof -
  have k: "tpl_key (selectedTemplate key_as_feature) = ''ssXgb''"
    using selected_key [of key_as_feature] by (simp add: key_as_feature_def all_keys_def)
  then have mk: "isModelingKey (tpl_key (selectedTemplate key_as_feature))" by (simp add: isModelingKey_def modelingPresets_def)
  obtain pre where pre: "preset_ok pre" "\<And>g c. tpl_build (selectedTemplate key_as_feature) g c = layoutTemplate (modeling_build pre g c)"
    using modeling_selected [OF mk] by metis
  note kinds = modeling_kinds [OF mk]
  define c where "c = buildConfigs env key_as_feature"
  have "cfg_receiverKey c = Some (One ''id1'')" "cfg_featureSelects c = Some [''id1'']"
    using kinds by (simp_all add: c_def buildConfigs_def two_table_wizard_def Let_def no_configs_def key_as_feature_def)
  then have "modeling_features c = []" by (simp add: modeling_features_def modeling_identifiers_def toList_def non_empty_def)
  then have "map_of (train_attrs pre c) ''input/input_ds/feature_selects'' = None"
    using pre(1) by (auto simp: train_attrs_def Let_def preset_ok_def map_of_eq_None_iff)
  moreover have "isValid key_as_feature"
    using kinds k by (simp add: isValid_def Let_def) (simp add: key_as_feature_def trim_def is_ws_def)
  ultimately show ?thesis
    unfolding c_def [symmetric] pre(2) node_attr_layout
    by (simp add: node_attr_def modeling_build_def Let_def make_node_attr createReadDataNode_def createNode_def split_beta)
qed

section \<open>Switching the template\<close>

text \<open>The features proposed right after a switch are columns of the tables the switch has just discarded, and
  choosing tables does not replace them.\<close>

lemma switch_proposes_old_columns:
  assumes "wz_open w" "wf_featureColumns (wz_form w) = []" "key \<in> set all_keys"
    and "key \<noteq> tpl_key (selectedTemplate (wz_form w))"
    and "proposes (wz_env w) ((wz_form w)\<lparr>wf_templateKey := key\<rparr>)"
  defines "f \<equiv> wz_form (wizard_step w (SelectTemplate key))"
  shows "wf_receiverTableId f = '''' \<and> wf_senderTableId f = '''' \<and> wf_templateKey f = key \<and>
    wf_featureColumns f = feature_candidates (wz_env w) ((wz_form w)\<lparr>wf_templateKey := key\<rparr>) \<and> wf_featureColumns f \<noteq> []"
proof -
  let ?g = "(wz_form w)\<lparr>wf_templateKey := key\<rparr>"
  have k: "tpl_key (selectedTemplate ?g) = key" using selected_key [of ?g] assms(3) by simp
  have "f = (reset_form (wz_env w) ?g)\<lparr>wf_featureColumns := feature_candidates (wz_env w) ?g\<rparr>"
    using assms(1,4,5) k by (simp add: f_def wizard_commit_def run_effects_def Let_def)
  moreover have "wf_templateKey (reset_form (wz_env w) ?g) = key" using k by (simp add: reset_form_def Let_def)
  moreover have "feature_candidates (wz_env w) ?g \<noteq> []" using assms(5) by (simp add: proposes_def)
  ultimately show ?thesis using reset_tables by simp
qed

lemma tables_keep_features:
  assumes "wf_featureColumns (wz_form w) \<noteq> []" "x = ReceiverTable t \<or> x = SenderTable t"
  shows "wf_featureColumns (wz_form (wizard_step w (SetField x))) = wf_featureColumns (wz_form w)"
proof -
  have s: "selectedTemplate (setField x (wz_form w)) = selectedTemplate (wz_form w)"
    using assms(2) by (auto simp: selectedTemplate_def)
  then show ?thesis using assms by (auto simp: wizard_commit_def run_effects_def Let_def proposes_def)
qed

end
