(* ===== verification/DataAuth.thy ===== *)
theory DataAuth
  imports JsConvert
begin

text \<open>
  What a project may do with the columns of a table (\<open>pages/data-tables/auth-model.ts\<close>) and how the
  features of a model are mapped when it is published (\<open>pages/models/feature-mapping.ts\<close>), both under
  \<open>web/apps/secretpad/src\<close>.
\<close>

section \<open>Column authorisation\<close>

record auth_column =
  au_colName :: string
  au_colType :: "string option"
  au_colComment :: "string option"
  au_isAssociateKey :: bool
  au_isGroupKey :: bool
  au_isLabelKey :: bool
  au_isProtection :: bool

text \<open>A column of the schema, and a saved configuration; every field may be missing.\<close>

record schema_column =
  sc_colName :: "string option"
  sc_colType :: "string option"
  sc_colComment :: "string option"

record saved_column =
  sv_colName :: "string option"
  sv_colType :: "string option"
  sv_colComment :: "string option"
  sv_isAssociateKey :: "bool option"
  sv_isGroupKey :: "bool option"
  sv_isLabelKey :: "bool option"
  sv_isProtection :: "bool option"

datatype config_key = IsAssociateKey | IsGroupKey | IsLabelKey | IsProtection

definition flag :: "(saved_column \<Rightarrow> bool option) \<Rightarrow> saved_column option \<Rightarrow> bool" where
  "flag sel saved = (Option.bind saved sel = Some True)"

text \<open>\<open>new Map(configs.map(c => [c.colName, c]))\<close>: the last configuration of a name counts.\<close>

definition mergeColumnConfigs :: "schema_column list \<Rightarrow> saved_column list \<Rightarrow> auth_column list" where
  "mergeColumnConfigs schema configs =
     (let byName = map_set_all (map (\<lambda>c. (sv_colName c, c)) configs) in
      map (\<lambda>col. let saved = byName (sc_colName col) in
        \<lparr>au_colName = str_or (sc_colName col) '''',
         au_colType = nullish_opt (sc_colType col) (Option.bind saved sv_colType),
         au_colComment = nullish_opt (sc_colComment col) (Option.bind saved sv_colComment),
         au_isAssociateKey = flag sv_isAssociateKey saved, au_isGroupKey = flag sv_isGroupKey saved,
         au_isLabelKey = flag sv_isLabelKey saved, au_isProtection = flag sv_isProtection saved\<rparr>) schema)"

definition change_column :: "config_key \<Rightarrow> bool \<Rightarrow> auth_column \<Rightarrow> auth_column" where
  "change_column key v f =
     (case key of
        IsAssociateKey \<Rightarrow> f\<lparr>au_isAssociateKey := v, au_isGroupKey := False, au_isProtection := (v \<or> au_isProtection f)\<rparr>
      | IsGroupKey \<Rightarrow> f\<lparr>au_isGroupKey := v, au_isAssociateKey := False, au_isProtection := (v \<or> au_isProtection f)\<rparr>
      | IsProtection \<Rightarrow> f\<lparr>au_isProtection := v, au_isGroupKey := False, au_isAssociateKey := False\<rparr>
      | IsLabelKey \<Rightarrow> f\<lparr>au_isLabelKey := v\<rparr>)"

definition applyColumnConfigChange :: "auth_column list \<Rightarrow> string \<Rightarrow> config_key \<Rightarrow> bool \<Rightarrow> auth_column list" where
  "applyColumnConfigChange fs colName key v = map (\<lambda>f. if au_colName f \<noteq> colName then f else change_column key v f) fs"

definition toConfigParams :: "auth_column list \<Rightarrow> saved_column list" where
  "toConfigParams fs = map (\<lambda>f. \<lparr>sv_colName = Some (au_colName f), sv_colType = None, sv_colComment = None,
     sv_isAssociateKey = Some (au_isAssociateKey f), sv_isGroupKey = Some (au_isGroupKey f),
     sv_isLabelKey = Some (au_isLabelKey f), sv_isProtection = Some (au_isProtection f)\<rparr>) fs"

definition EMBEDDED_SHEETS :: "string list" where "EMBEDDED_SHEETS = [''alice.csv'', ''bob.csv'']"

datatype table_block = BlockAuthorized | BlockEmbedded

definition datatableDeleteBlock :: "string option \<Rightarrow> string list option \<Rightarrow> table_block option" where
  "datatableDeleteBlock name authProjects =
     (if str_or name '''' \<in> set EMBEDDED_SHEETS then Some BlockEmbedded
      else if nullish authProjects [] \<noteq> [] then Some BlockAuthorized else None)"

definition canPushToTee :: "string option \<Rightarrow> bool" where
  "canPushToTee sourceType \<longleftrightarrow> str_or sourceType '''' \<notin> set [''HTTP'', ''OSS'', ''MYSQL'', ''ODPS'']"

text \<open>A batch: per row \<open>None\<close> when its request was fulfilled, else the message of the rejection.\<close>

definition summarizeBatch :: "('row \<Rightarrow> string) \<Rightarrow> 'row list \<Rightarrow> string option list \<Rightarrow> nat \<times> (string \<times> string) list" where
  "summarizeBatch nameOf rows results =
     (length (filter (\<lambda>r. r = None) results),
      List.map_filter (\<lambda>(row, r). map_option (Pair (nameOf row)) r) (zip rows results))"

section \<open>The coupling of the flags\<close>

definition coupled :: "auth_column \<Rightarrow> bool" where
  "coupled f \<longleftrightarrow> \<not> (au_isAssociateKey f \<and> au_isGroupKey f) \<and> (au_isAssociateKey f \<or> au_isGroupKey f \<longrightarrow> au_isProtection f)"

lemma change_keeps_coupled: "coupled f \<Longrightarrow> coupled (change_column key v f)"
  by (cases key) (auto simp: coupled_def change_column_def)

text \<open>Any change but one of the label repairs a column that was saved uncoupled, up to its protection.\<close>

lemma change_couples: "key \<noteq> IsLabelKey \<Longrightarrow> v \<or> key = IsProtection \<Longrightarrow> coupled (change_column key v f)"
  by (cases key) (auto simp: coupled_def change_column_def)

lemma change_frame: "au_colName (change_column key v f) = au_colName f" "au_colType (change_column key v f) = au_colType f"
  "au_colComment (change_column key v f) = au_colComment f"
  by (cases key; simp add: change_column_def)+

lemma change_idem: "change_column key v (change_column key v f) = change_column key v f"
  by (cases key) (auto simp: change_column_def)

inductive auth_session :: "auth_column list \<Rightarrow> auth_column list \<Rightarrow> bool" for start where
  start: "auth_session start start"
| change: "auth_session start fs \<Longrightarrow> auth_session start (applyColumnConfigChange fs colName key v)"

lemma apply_names [simp]: "map au_colName (applyColumnConfigChange fs c key v) = map au_colName fs"
  by (simp add: applyColumnConfigChange_def comp_def change_frame if_distrib [of au_colName] cong: if_cong)

lemma session_coupled:
  assumes "auth_session start fs" "list_all coupled start"
  shows "list_all coupled fs \<and> map au_colName fs = map au_colName start"
  using assms(1)
proof induction
  case start
  then show ?case using assms(2) by simp
next
  case (change fs colName key v)
  then have "list_all coupled (applyColumnConfigChange fs colName key v)"
    by (auto simp: applyColumnConfigChange_def list_all_iff change_keeps_coupled)
  with change show ?case by simp
qed

text \<open>What is sent and read back with the same schema is what was shown.\<close>

lemma map_to: "list_all2 P xs ys \<Longrightarrow> (\<And>x y. P x y \<Longrightarrow> y \<in> set ys \<Longrightarrow> g x = y) \<Longrightarrow> map g xs = ys"
  by (induction rule: list_all2_induct) auto

lemma nullish_opt_same: "nullish_opt x None = x"
  by (cases x) simp_all

lemma saved_columns_return:
  assumes "distinct (map au_colName fs)"
    and "list_all2 (\<lambda>col f. sc_colName col = Some (au_colName f) \<and> sc_colType col = au_colType f \<and> sc_colComment col = au_colComment f) schema fs"
  shows "mergeColumnConfigs schema (toConfigParams fs) = fs"
proof -
  let ?save = "\<lambda>f. \<lparr>sv_colName = Some (au_colName f), sv_colType = None, sv_colComment = None,
     sv_isAssociateKey = Some (au_isAssociateKey f), sv_isGroupKey = Some (au_isGroupKey f),
     sv_isLabelKey = Some (au_isLabelKey f), sv_isProtection = Some (au_isProtection f)\<rparr>"
  have m: "map (\<lambda>c. (sv_colName c, c)) (toConfigParams fs) = map (\<lambda>f. (Some (au_colName f), ?save f)) fs"
    by (simp add: toConfigParams_def)
  have "distinct (map fst (map (\<lambda>f. (Some (au_colName f), ?save f)) fs))"
    using assms(1) by (simp add: comp_def distinct_map inj_on_def)
  then have look: "map_set_all (map (\<lambda>c. (sv_colName c, c)) (toConfigParams fs)) (Some (au_colName f)) = Some (?save f)"
    if "f \<in> set fs" for f
    unfolding m by (rule map_set_all_distinct) (use that in auto)
  show ?thesis
    unfolding mergeColumnConfigs_def Let_def
    by (rule map_to [OF assms(2)])
       (auto simp: look flag_def str_or_cases truthy_iff nullish_opt_same)
qed

lemma batch_counts:
  "length rows = length results \<Longrightarrow> fst (summarizeBatch n rows results) + length (snd (summarizeBatch n rows results)) = length rows"
  by (induction rows results rule: list_induct2) (auto simp: summarizeBatch_def List.map_filter_simps split: option.split)


section \<open>Feature mapping\<close>

definition MOCK_FEATURE_SERVICE :: string where "MOCK_FEATURE_SERVICE = ''mock''"

record feature_map =
  fm_into :: string
  fm_online :: "string option"

datatype match_status = MatchDefault | MatchSuccess | MatchError

definition autoMatchFeatures :: "string list \<Rightarrow> string list \<Rightarrow> feature_map list" where
  "autoMatchFeatures offline online = map (\<lambda>i. \<lparr>fm_into = i, fm_online = (if i \<in> set online then Some i else None)\<rparr>) offline"

definition mockMatchFeatures :: "string list \<Rightarrow> feature_map list" where
  "mockMatchFeatures offline = map (\<lambda>i. \<lparr>fm_into = i, fm_online = Some i\<rparr>) offline"

text \<open>\<open>online || undefined\<close>\<close>

definition or_none :: "string option \<Rightarrow> string option" where
  "or_none x = (if truthy x then x else None)"

definition setFeatureMapping :: "feature_map list \<Rightarrow> string \<Rightarrow> string option \<Rightarrow> feature_map list" where
  "setFeatureMapping items target online =
     map (\<lambda>i. if fm_into i = target then \<lparr>fm_into = target, fm_online = or_none online\<rparr> else i) items"

definition unmatchedCount :: "feature_map list \<Rightarrow> nat" where
  "unmatchedCount items = length (filter (\<lambda>i. \<not> truthy (fm_online i)) items)"

definition matchStatus :: "string option \<Rightarrow> string option \<Rightarrow> feature_map list \<Rightarrow> match_status" where
  "matchStatus node tid items =
     (if \<not> truthy node \<or> \<not> truthy tid then MatchDefault else if unmatchedCount items > 0 then MatchError else MatchSuccess)"

definition used_online :: "feature_map list \<Rightarrow> string list" where
  "used_online items = List.map_filter (\<lambda>i. or_none (fm_online i)) items"

definition availableOnlineFeatures :: "string list \<Rightarrow> feature_map list \<Rightarrow> string option \<Rightarrow> string list" where
  "availableOnlineFeatures online items current =
     filter (\<lambda>x. Some x = current \<or> x \<notin> set (used_online items)) online"

record publish_row =
  pr_nodeId :: "string option"
  pr_featureTableId :: "string option"
  pr_items :: "feature_map list"

record resource_config =
  rc_minCpu :: number
  rc_maxCpu :: number
  rc_minMemory :: number
  rc_maxMemory :: number

definition DEFAULT_RESOURCE :: resource_config where
  "DEFAULT_RESOURCE = \<lparr>rc_minCpu = Fin 0, rc_maxCpu = Fin 0, rc_minMemory = Fin 0, rc_maxMemory = Fin 0\<rparr>"

datatype resource_error = CpuError | MemoryError

fun in_range :: "number \<Rightarrow> rat \<Rightarrow> bool" where
  "in_range (Fin v) m = (0 \<le> v \<and> v \<le> m)"
| "in_range _ m = False"

definition validateResource :: "resource_config \<Rightarrow> resource_error option" where
  "validateResource r =
     (if \<not> in_range (rc_minCpu r) 1000 \<or> \<not> in_range (rc_maxCpu r) 1000 \<or> num_lt (rc_maxCpu r) (rc_minCpu r) then Some CpuError
      else if \<not> in_range (rc_minMemory r) 10000 \<or> \<not> in_range (rc_maxMemory r) 10000 \<or> num_lt (rc_maxMemory r) (rc_minMemory r)
        then Some MemoryError else None)"

record party_config =
  pc_nodeId :: string
  pc_featureTableId :: "string option"
  pc_isMock :: bool
  pc_features :: "(string \<times> string option) list"
  pc_resources :: "string \<times> string \<times> string \<times> string"

definition row_config :: "(string \<Rightarrow> resource_config option) \<Rightarrow> publish_row \<Rightarrow> party_config" where
  "row_config resources r =
     (let n = the (pr_nodeId r); res = nullish (resources n) DEFAULT_RESOURCE in
      \<lparr>pc_nodeId = n, pc_featureTableId = pr_featureTableId r,
       pc_isMock = (pr_featureTableId r = Some MOCK_FEATURE_SERVICE),
       pc_features = map (\<lambda>i. (fm_into i, fm_online i)) (pr_items r),
       pc_resources = (number_text (rc_minCpu res), number_text (rc_maxCpu res),
         number_text (rc_minMemory res) @ ''Gi'', number_text (rc_maxMemory res) @ ''Gi'')\<rparr>)"

definition buildPartyConfigs :: "publish_row list \<Rightarrow> (string \<Rightarrow> resource_config option) \<Rightarrow> party_config list" where
  "buildPartyConfigs rows resources = map (row_config resources) (filter (\<lambda>r. truthy (pr_nodeId r)) rows)"

definition canPublish :: "publish_row list \<Rightarrow> bool" where
  "canPublish rows \<longleftrightarrow> rows \<noteq> [] \<and>
     list_all (\<lambda>r. matchStatus (pr_nodeId r) (pr_featureTableId r) (pr_items r) = MatchSuccess) rows"

section \<open>What is published\<close>

lemma row_ready:
  "matchStatus n t items = MatchSuccess \<longleftrightarrow> truthy n \<and> truthy t \<and> list_all (\<lambda>i. truthy (fm_online i)) items"
  by (auto simp: matchStatus_def unmatchedCount_def list_all_iff filter_empty_conv)

lemma published_complete:
  assumes "canPublish rows"
  shows "length (buildPartyConfigs rows resources) = length rows \<and>
    list_all2 (\<lambda>r c. pr_nodeId r = Some (pc_nodeId c) \<and> pr_featureTableId r = pc_featureTableId c \<and>
      map fst (pc_features c) = map fm_into (pr_items r) \<and> list_all (\<lambda>(i, x). truthy x) (pc_features c)) rows (buildPartyConfigs rows resources)"
proof -
  have r: "truthy (pr_nodeId r) \<and> truthy (pr_featureTableId r) \<and> list_all (\<lambda>i. truthy (fm_online i)) (pr_items r)" if "r \<in> set rows" for r
    using assms that by (auto simp: canPublish_def row_ready list_all_iff)
  then have f: "filter (\<lambda>r. truthy (pr_nodeId r)) rows = rows" by (intro filter_eq_self) blast
  have "pr_nodeId r = Some (the (pr_nodeId r))" if "r \<in> set rows" for r using r [OF that] by (auto simp: truthy_iff)
  then show ?thesis
    using r unfolding buildPartyConfigs_def f
    by (auto simp: list_all2_map2 list.rel_refl_strong row_config_def Let_def comp_def list_all_iff intro!: list.rel_refl_strong)
qed

lemma resource_accepted:
  "validateResource r = None \<longleftrightarrow>
     (\<exists>a b c d. r = \<lparr>rc_minCpu = Fin a, rc_maxCpu = Fin b, rc_minMemory = Fin c, rc_maxMemory = Fin d\<rparr> \<and>
        0 \<le> a \<and> a \<le> b \<and> b \<le> 1000 \<and> 0 \<le> c \<and> c \<le> d \<and> d \<le> 10000)"
proof -
  have "in_range v m \<and> in_range w m \<and> \<not> num_lt w v \<longleftrightarrow> (\<exists>a b. v = Fin a \<and> w = Fin b \<and> 0 \<le> a \<and> a \<le> b \<and> b \<le> m)" for v w m
    by (cases v; cases w) auto
  note this [of "rc_minCpu r" 1000 "rc_maxCpu r"] this [of "rc_minMemory r" 10000 "rc_maxMemory r"]
  moreover have "validateResource r = None \<longleftrightarrow>
      (in_range (rc_minCpu r) 1000 \<and> in_range (rc_maxCpu r) 1000 \<and> \<not> num_lt (rc_maxCpu r) (rc_minCpu r)) \<and>
      (in_range (rc_minMemory r) 10000 \<and> in_range (rc_maxMemory r) 10000 \<and> \<not> num_lt (rc_maxMemory r) (rc_minMemory r))"
    by (auto simp: validateResource_def)
  ultimately show ?thesis by (cases r) auto
qed

section \<open>No online feature is used twice\<close>

text \<open>The page: the rows are matched by name, then the user picks, for one row, a feature that is offered for it, or clears it.\<close>

inductive mapping_session :: "string list \<Rightarrow> string list \<Rightarrow> feature_map list \<Rightarrow> bool" for offline online where
  matched: "mapping_session offline online (autoMatchFeatures offline online)"
| picked: "mapping_session offline online items \<Longrightarrow> i \<in> set items \<Longrightarrow>
    c \<in> set (availableOnlineFeatures online items (fm_online i)) \<Longrightarrow>
    mapping_session offline online (setFeatureMapping items (fm_into i) (Some c))"
| cleared: "mapping_session offline online items \<Longrightarrow> mapping_session offline online (setFeatureMapping items f None)"

definition mapping_ok :: "string list \<Rightarrow> string list \<Rightarrow> feature_map list \<Rightarrow> bool" where
  "mapping_ok offline online items \<longleftrightarrow> map fm_into items = offline \<and> set (used_online items) \<subseteq> set online \<and>
     (\<forall>i \<in> set items. \<forall>j \<in> set items. \<forall>x. x \<noteq> '''' \<and> fm_online i = Some x \<and> fm_online j = Some x \<longrightarrow> fm_into i = fm_into j)"

lemma mapping_okD:
  "mapping_ok offline online items \<Longrightarrow> i \<in> set items \<Longrightarrow> j \<in> set items \<Longrightarrow> fm_online i = Some x \<Longrightarrow> fm_online j = Some x \<Longrightarrow>
   x \<noteq> '''' \<Longrightarrow> fm_into i = fm_into j"
  unfolding mapping_ok_def by blast


lemma used_online_iff: "x \<in> set (used_online items) \<longleftrightarrow> x \<noteq> '''' \<and> (\<exists>i \<in> set items. fm_online i = Some x)"
  by (induction items) (auto simp: used_online_def List.map_filter_simps or_none_def truthy_iff split: option.split)

lemma set_mapping_names [simp]: "map fm_into (setFeatureMapping items f c) = map fm_into items"
  by (simp add: setFeatureMapping_def comp_def if_distrib [of fm_into] cong: if_cong)

lemma set_mapping_mem:
  "j \<in> set (setFeatureMapping items f c) \<Longrightarrow>
   (fm_into j = f \<and> fm_online j = or_none c) \<or> (fm_into j \<noteq> f \<and> j \<in> set items)"
  by (auto simp: setFeatureMapping_def split: if_splits)

lemma mapping_set_ok:
  assumes ok: "mapping_ok offline online items" and d: "or_none c = None \<or> (\<exists>x. c = Some x \<and> x \<in> set online \<and>
      (\<forall>j \<in> set items. fm_online j = Some x \<longrightarrow> fm_into j = f))"
  shows "mapping_ok offline online (setFeatureMapping items f c)"
  unfolding mapping_ok_def
proof (intro conjI ballI allI impI)
  show "map fm_into (setFeatureMapping items f c) = offline" using ok by (simp add: mapping_ok_def)
  show "set (used_online (setFeatureMapping items f c)) \<subseteq> set online"
  proof
    fix x assume "x \<in> set (used_online (setFeatureMapping items f c))"
    then obtain j where j: "x \<noteq> ''''" "j \<in> set (setFeatureMapping items f c)" "fm_online j = Some x"
      by (auto simp: used_online_iff)
    show "x \<in> set online"
      using set_mapping_mem [OF j(2)] d j ok
      by (auto simp: mapping_ok_def or_none_def used_online_iff subset_iff split: if_splits)
  qed
  fix i j x
  assume a: "i \<in> set (setFeatureMapping items f c)" "j \<in> set (setFeatureMapping items f c)"
    and x: "x \<noteq> '''' \<and> fm_online i = Some x \<and> fm_online j = Some x"
  from set_mapping_mem [OF a(1)] set_mapping_mem [OF a(2)] show "fm_into i = fm_into j"
  proof (elim disjE conjE)
    assume "i \<in> set items" "j \<in> set items"
    then show ?thesis using mapping_okD [OF ok] x by blast
  qed (use d x in \<open>auto simp: or_none_def split: if_splits\<close>)
qed

lemma mapping_one_to_one: "mapping_session offline online items \<Longrightarrow> mapping_ok offline online items"
proof (induction rule: mapping_session.induct)
  case matched
  then show ?case
    by (auto simp: mapping_ok_def autoMatchFeatures_def comp_def used_online_iff split: if_splits)
next
  case (picked items i c)
  have c: "c \<in> set online" "fm_online i = Some c \<or> c \<notin> set (used_online items)"
    using picked.hyps(3) by (auto simp: availableOnlineFeatures_def)
  show ?case
  proof (rule mapping_set_ok [OF picked.IH])
    show "or_none (Some c) = None \<or> (\<exists>x. Some c = Some x \<and> x \<in> set online \<and> (\<forall>j \<in> set items. fm_online j = Some x \<longrightarrow> fm_into j = fm_into i))"
    proof (cases "c = ''''")
      case False
      have "fm_into j = fm_into i" if "j \<in> set items" "fm_online j = Some c" for j
      proof -
        have "c \<in> set (used_online items)" using that False by (auto simp: used_online_iff)
        then have "fm_online i = Some c" using c(2) by blast
        then show ?thesis using mapping_okD [OF picked.IH that(1) picked.hyps(2) that(2)] False by blast
      qed
      then show ?thesis using c(1) by auto
    qed (simp add: or_none_def)
  qed
next
  case (cleared items f)
  show ?case by (rule mapping_set_ok [OF cleared.IH]) (simp add: or_none_def)
qed

end
