(* ===== verification/P2pProjects.thy ===== *)
theory P2pProjects
  imports Utils "HOL-Library.Multiset"
begin

text \<open>
  Projects between institutions and the message centre: votes, who may do what, the node groups of
  a new project and the vote request it is created with (\<open>pages/p2p/projects/helpers.ts\<close>), and the
  list of messages (\<open>pages/messages/helpers.ts\<close>), under \<open>web/apps/secretpad/src\<close>.
\<close>

section \<open>Votes\<close>

record party_vote =
  pv_partyId :: "string option"
  pv_action :: "string option"

record p2p_project =
  p2_projectName :: "string option"
  p2_status :: "string option"
  p2_computeMode :: "string option"
  p2_initiator :: "string option"
  p2_partyVoteInfos :: "party_vote list option"

definition votes :: "p2p_project \<Rightarrow> party_vote list" where
  "votes p = nullish (p2_partyVoteInfos p) []"

definition checkAllApproved :: "p2p_project \<Rightarrow> bool" where
  "checkAllApproved p = list_all (\<lambda>v. pv_action v = Some ''APPROVED'') (votes p)"

definition checkProjectIsReviewing :: "p2p_project \<Rightarrow> bool" where
  "checkProjectIsReviewing p \<longleftrightarrow>
     list_ex (\<lambda>v. pv_action v = Some ''REVIEWING'') (votes p) \<and> \<not> list_ex (\<lambda>v. pv_action v = Some ''REJECTED'') (votes p)"

definition isInitiator :: "p2p_project \<Rightarrow> string \<Rightarrow> bool" where
  "isInitiator p ownerId \<longleftrightarrow> ownerId \<noteq> '''' \<and> p2_initiator p = Some ownerId"

definition isInvited :: "p2p_project \<Rightarrow> string \<Rightarrow> bool" where
  "isInvited p ownerId \<longleftrightarrow>
     ownerId \<noteq> '''' \<and> \<not> isInitiator p ownerId \<and> list_ex (\<lambda>v. pv_partyId v = Some ownerId) (votes p)"

definition canEditProject :: "p2p_project \<Rightarrow> string \<Rightarrow> bool" where
  "canEditProject p ownerId \<longleftrightarrow> p2_status p \<noteq> Some ''ARCHIVED'' \<and> isInitiator p ownerId"

definition canEnterProject :: "p2p_project \<Rightarrow> bool" where
  "canEnterProject p = checkAllApproved p"

definition canArchiveProject :: "p2p_project \<Rightarrow> string \<Rightarrow> bool" where
  "canArchiveProject p ownerId =
     (if p2_status p = Some ''ARCHIVED'' then False
      else if checkAllApproved p then True
      else if checkProjectIsReviewing p then isInitiator p ownerId
      else False)"

definition archiveNeedsVote :: "p2p_project \<Rightarrow> bool" where
  "archiveNeedsVote p = checkAllApproved p"

definition hasSelfPendingVote :: "p2p_project \<Rightarrow> string \<Rightarrow> bool" where
  "hasSelfPendingVote p ownerId \<longleftrightarrow>
     p2_status p = Some ''REVIEWING'' \<and> list_ex (\<lambda>v. pv_partyId v = Some ownerId \<and> pv_action v = Some ''REVIEWING'') (votes p)"

section \<open>The list\<close>

datatype owner_tab = AllTab | MineTab | InvitedTab

record project_filters =
  pf_tab :: owner_tab
  pf_status :: string
  pf_mode :: string
  pf_keyword :: string

definition shown :: "project_filters \<Rightarrow> string \<Rightarrow> p2p_project \<Rightarrow> bool" where
  "shown f ownerId p =
     (let kw = trim (pf_keyword f); tee = str_includes (str_or (p2_computeMode p) '''') ''TEE'' in
      if pf_tab f = MineTab \<and> \<not> isInitiator p ownerId then False
      else if pf_tab f = InvitedTab \<and> \<not> isInvited p ownerId then False
      else if pf_status f \<noteq> '''' \<and> p2_status p \<noteq> Some (pf_status f) then False
      else if pf_mode f = ''TEE'' \<and> \<not> tee then False
      else if pf_mode f = ''MPC'' \<and> tee then False
      else if kw \<noteq> '''' \<and> \<not> str_includes (str_or (p2_projectName p) '''') kw then False
      else True)"

definition filterProjects :: "p2p_project list \<Rightarrow> project_filters \<Rightarrow> string \<Rightarrow> p2p_project list" where
  "filterProjects projects f ownerId = filter (shown f ownerId) projects"

section \<open>A new project\<close>

definition validateP2pName :: "string \<Rightarrow> string option" where
  "validateP2pName name =
     (let v = trim name in
      if v = '''' then Some ''p2pProjects.errors.nameRequired''
      else if utf16_length v > 32 then Some ''p2pProjects.errors.nameTooLong''
      else if \<not> legal_name v then Some ''p2pProjects.errors.pattern''
      else None)"

definition validateProjectDesc :: "string \<Rightarrow> string option" where
  "validateProjectDesc desc =
     (let v = trim desc in
      if v = '''' then None
      else if utf16_length v > 128 then Some ''p2pProjects.errors.descTooLong''
      else if \<not> legal_name v then Some ''p2pProjects.errors.pattern''
      else None)"

record node_group =
  ng_nodeId :: string
  ng_invitees :: "string list"

definition MAX_NODE_GROUPS :: nat where "MAX_NODE_GROUPS = 5"
definition MAX_INVITEES_PER_GROUP :: nat where "MAX_INVITEES_PER_GROUP = 9"

definition validateNodeGroups :: "node_group list \<Rightarrow> string option" where
  "validateNodeGroups groups =
     (if length groups = 0 then Some ''p2pProjects.errors.groupsRequired''
      else if length groups > MAX_NODE_GROUPS then Some ''p2pProjects.errors.groupsTooMany''
      else if list_ex (\<lambda>g. ng_nodeId g = '''') groups then Some ''p2pProjects.errors.nodeRequired''
      else if list_ex (\<lambda>g. length (ng_invitees g) = 0) groups then Some ''p2pProjects.errors.inviteesRequired''
      else if list_ex (\<lambda>g. length (ng_invitees g) > MAX_INVITEES_PER_GROUP) groups then Some ''p2pProjects.errors.inviteesTooMany''
      else None)"

record voter_node =
  vn_nodeId :: string
  vn_nodeName :: string
  vn_instId :: string
  vn_instName :: string

record vote_config =
  vc_projectId :: string
  vc_participants :: "string list"
  vc_groups :: "(string \<times> string list) list"

definition institution_of :: "(string \<Rightarrow> voter_node list option) \<Rightarrow> string \<Rightarrow> string \<Rightarrow> string option" where
  "institution_of votersByNode node invitee =
     map_option vn_instId (List.find (\<lambda>n. vn_nodeId n = invitee) (nullish (votersByNode node) []))"

text \<open>The loop pushes the institution of every invitee that has one; \<open>new Set\<close> keeps the first occurrences.\<close>

definition invited_institutions :: "(string \<Rightarrow> voter_node list option) \<Rightarrow> node_group list \<Rightarrow> string list" where
  "invited_institutions votersByNode groups =
     concat (map (\<lambda>g. List.map_filter (\<lambda>i. let inst = institution_of votersByNode (ng_nodeId g) i in
       if truthy inst then inst else None) (ng_invitees g)) groups)"



definition buildProjectCreateVoteConfig ::
  "string \<Rightarrow> string \<Rightarrow> node_group list \<Rightarrow> (string \<Rightarrow> voter_node list option) \<Rightarrow> vote_config" where
  "buildProjectCreateVoteConfig projectId ownerId groups votersByNode =
     \<lparr>vc_projectId = projectId,
      vc_participants = dedup (ownerId # invited_institutions votersByNode groups),
      vc_groups = map (\<lambda>g. (ng_nodeId g, ng_invitees g)) groups\<rparr>"

record route_source =
  rs_nodeId :: "string option"
  rs_nodeName :: "string option"
  rs_instId :: "string option"
  rs_instName :: "string option"

record route =
  ro_dstNodeId :: "string option"
  ro_status :: "string option"
  ro_srcNode :: "route_source option"

definition voter_of :: "route \<Rightarrow> voter_node" where
  "voter_of r = (let s = ro_srcNode r; f = (\<lambda>sel. str_or (Option.bind s sel) '''') in
     \<lparr>vn_nodeId = f rs_nodeId, vn_nodeName = f rs_nodeName, vn_instId = f rs_instId, vn_instName = f rs_instName\<rparr>)"

definition votersForNode :: "route list \<Rightarrow> string \<Rightarrow> voter_node list" where
  "votersForNode routes node =
     filter (\<lambda>n. vn_nodeId n \<noteq> '''')
       (map voter_of (filter (\<lambda>r. ro_dstNodeId r = Some node \<and> ro_status r = Some ''Succeeded'') routes))"

section \<open>Messages\<close>

datatype message_tab = ProcessTab | ApplyTab

record message_filters =
  mf_tab :: message_tab
  mf_state :: string
  mf_type :: string
  mf_keyword :: string
  mf_page :: nat
  mf_size :: nat
  mf_ownerId :: string

record message_request =
  mr_page :: nat
  mr_size :: nat
  mr_isInitiator :: bool
  mr_ownerId :: string
  mr_isProcessed :: "bool option"
  mr_type :: "string option"
  mr_keyWord :: string

definition buildMessageListRequest :: "message_filters \<Rightarrow> message_request" where
  "buildMessageListRequest f =
     \<lparr>mr_page = mf_page f, mr_size = mf_size f, mr_isInitiator = (mf_tab f = ApplyTab), mr_ownerId = mf_ownerId f,
      mr_isProcessed = (if mf_state f = '''' then None else Some (mf_state f = ''PROCESSED'')),
      mr_type = (if mf_type f \<noteq> '''' \<and> mf_type f \<noteq> ''ALL'' then Some (mf_type f) else None),
      mr_keyWord = trim (mf_keyword f)\<rparr>"

definition messageTypesFor :: "bool \<Rightarrow> string list" where
  "messageTypesFor isP2p = (if isP2p then [''PROJECT_ARCHIVE'', ''PROJECT_CREATE''] else [''TEE_DOWNLOAD'', ''NODE_ROUTE''])"

record party_status =
  ps_action :: "string option"
  ps_projectCreateVoteAction :: "string option"

record message =
  ms_type :: "string option"
  ms_status :: "string option"
  ms_projectId :: "string option"
  ms_parties :: "party_status list option"

definition canReplyMessage :: "message \<Rightarrow> message_tab \<Rightarrow> string \<Rightarrow> bool" where
  "canReplyMessage item tab state \<longleftrightarrow>
     tab = ProcessTab \<and> (state = '''' \<or> state = ''PENDING'') \<and> ms_status item = Some ''REVIEWING''"

definition canEnterProjectFromMessage :: "message \<Rightarrow> bool" where
  "canEnterProjectFromMessage item =
     (let parties = nullish (ms_parties item) [] in
      if \<not> truthy (ms_projectId item) \<or> length parties = 0 then False
      else if ms_type item = Some ''PROJECT_CREATE'' then list_all (\<lambda>p. ps_action p = Some ''APPROVED'') parties
      else if ms_type item = Some ''PROJECT_ARCHIVE'' then list_all (\<lambda>p. ps_projectCreateVoteAction p = Some ''APPROVED'') parties
      else False)"

definition REJECT_REASON_MAX :: nat where "REJECT_REASON_MAX = 50"

definition isRejectReasonValid :: "string \<Rightarrow> bool" where
  "isRejectReasonValid reason \<longleftrightarrow> utf16_length reason \<le> REJECT_REASON_MAX"

section \<open>What holds of them\<close>

text \<open>The stages a project goes through, read from its votes.\<close>

datatype stage = Archived | Agreed | UnderReview | Refused | Stalled

definition stage_of :: "p2p_project \<Rightarrow> stage" where
  "stage_of p =
     (if p2_status p = Some ''ARCHIVED'' then Archived
      else if checkAllApproved p then Agreed
      else if list_ex (\<lambda>v. pv_action v = Some ''REJECTED'') (votes p) then Refused
      else if list_ex (\<lambda>v. pv_action v = Some ''REVIEWING'') (votes p) then UnderReview
      else Stalled)"

lemma archive_by_stage:
  "canArchiveProject p ownerId \<longleftrightarrow> stage_of p = Agreed \<or> stage_of p = UnderReview \<and> isInitiator p ownerId"
  by (auto simp: canArchiveProject_def stage_of_def checkProjectIsReviewing_def)

lemma pending_not_entered:
  "hasSelfPendingVote p ownerId \<Longrightarrow> \<not> canEnterProject p \<and> \<not> archiveNeedsVote p \<and> stage_of p \<in> {UnderReview, Refused}"
proof -
  assume h: "hasSelfPendingVote p ownerId"
  then obtain v where v: "v \<in> set (votes p)" "pv_action v = Some ''REVIEWING''" and s: "p2_status p = Some ''REVIEWING''"
    by (auto simp: hasSelfPendingVote_def list_ex_iff)
  have "\<not> checkAllApproved p" unfolding checkAllApproved_def list_all_iff using v by force
  then show ?thesis
    using v s by (auto simp: canEnterProject_def archiveNeedsVote_def stage_of_def list_ex_iff)
qed

lemma shown_iff:
  "shown f ownerId p \<longleftrightarrow> (pf_tab f = MineTab \<longrightarrow> isInitiator p ownerId) \<and> (pf_tab f = InvitedTab \<longrightarrow> isInvited p ownerId) \<and>
     (pf_status f \<noteq> '''' \<longrightarrow> p2_status p = Some (pf_status f)) \<and>
     (pf_mode f = ''TEE'' \<longrightarrow> str_includes (str_or (p2_computeMode p) '''') ''TEE'') \<and>
     (pf_mode f = ''MPC'' \<longrightarrow> \<not> str_includes (str_or (p2_computeMode p) '''') ''TEE'') \<and>
     (trim (pf_keyword f) \<noteq> '''' \<longrightarrow> str_includes (str_or (p2_projectName p) '''') (trim (pf_keyword f)))"
  unfolding shown_def Let_def by simp

lemma tabs_disjoint:
  "pf_tab f = MineTab \<Longrightarrow> pf_tab f' = InvitedTab \<Longrightarrow>
   set (filterProjects ps f ownerId) \<inter> set (filterProjects ps f' ownerId) = {}"
  by (auto simp: filterProjects_def shown_iff isInvited_def)

lemma filter_split:
  "(\<And>x. R x \<longleftrightarrow> P x \<or> Q x) \<Longrightarrow> (\<And>x. \<not> (P x \<and> Q x)) \<Longrightarrow> mset (filter P xs) + mset (filter Q xs) = mset (filter R xs)"
  by (induction xs) auto

lemma modes_partition:
  "mset (filterProjects ps (f\<lparr>pf_mode := ''TEE''\<rparr>) o') + mset (filterProjects ps (f\<lparr>pf_mode := ''MPC''\<rparr>) o') =
   mset (filterProjects ps (f\<lparr>pf_mode := ''''\<rparr>) o')"
  unfolding filterProjects_def by (rule filter_split) (auto simp: shown_iff)



text \<open>The vote goes to the owner first and to every institution of an invited node, once each.\<close>

lemma vote_participants:
  fixes projectId ownerId :: string and groups :: "node_group list" and votersByNode :: "string \<Rightarrow> voter_node list option"
  defines "c \<equiv> buildProjectCreateVoteConfig projectId ownerId groups votersByNode"
  shows "hd (vc_participants c) = ownerId \<and> distinct (vc_participants c) \<and>
    set (vc_participants c) = insert ownerId {inst. inst \<noteq> '''' \<and>
      (\<exists>g \<in> set groups. \<exists>i \<in> set (ng_invitees g). institution_of votersByNode (ng_nodeId g) i = Some inst)}"
proof -
  have mf: "set (List.map_filter f xs) = {y. \<exists>x \<in> set xs. f x = Some y}" for f and xs :: "string list"
    by (induction xs) (auto simp: List.map_filter_simps split: option.split)
  have "set (invited_institutions votersByNode groups) = {inst. inst \<noteq> '''' \<and>
      (\<exists>g \<in> set groups. \<exists>i \<in> set (ng_invitees g). institution_of votersByNode (ng_nodeId g) i = Some inst)}"
    by (auto simp: invited_institutions_def mf Let_def truthy_iff split: if_splits)
  moreover have "hd (dedup (ownerId # xs)) = ownerId" for xs by simp
  ultimately show ?thesis by (simp add: c_def buildProjectCreateVoteConfig_def del: dedup.simps)
qed

text \<open>The invitees offered for a node are the partners of its open routes.\<close>

lemma voters_open_routes:
  "v \<in> set (votersForNode routes node) \<Longrightarrow>
   \<exists>r \<in> set routes. ro_dstNodeId r = Some node \<and> ro_status r = Some ''Succeeded'' \<and> voter_of r = v \<and> vn_nodeId v \<noteq> ''''"
  by (auto simp: votersForNode_def)

lemma groups_accepted:
  "validateNodeGroups groups = None \<longleftrightarrow> 1 \<le> length groups \<and> length groups \<le> 5 \<and>
     list_all (\<lambda>g. ng_nodeId g \<noteq> '''' \<and> 1 \<le> length (ng_invitees g) \<and> length (ng_invitees g) \<le> 9) groups"
proof -
  have "list_all (\<lambda>g. ng_nodeId g \<noteq> '''' \<and> 1 \<le> length (ng_invitees g) \<and> length (ng_invitees g) \<le> 9) groups \<longleftrightarrow>
      \<not> list_ex (\<lambda>g. ng_nodeId g = '''') groups \<and> \<not> list_ex (\<lambda>g. length (ng_invitees g) = 0) groups \<and>
      \<not> list_ex (\<lambda>g. length (ng_invitees g) > MAX_INVITEES_PER_GROUP) groups"
    by (induction groups) (auto simp: MAX_INVITEES_PER_GROUP_def Suc_le_eq)
  moreover have "1 \<le> length groups \<and> length groups \<le> 5 \<longleftrightarrow> \<not> length groups = 0 \<and> \<not> length groups > MAX_NODE_GROUPS"
    by (auto simp: MAX_NODE_GROUPS_def Suc_le_eq)
  moreover have "validateNodeGroups groups = None \<longleftrightarrow> \<not> length groups = 0 \<and> \<not> length groups > MAX_NODE_GROUPS \<and>
      \<not> list_ex (\<lambda>g. ng_nodeId g = '''') groups \<and> \<not> list_ex (\<lambda>g. length (ng_invitees g) = 0) groups \<and>
      \<not> list_ex (\<lambda>g. length (ng_invitees g) > MAX_INVITEES_PER_GROUP) groups"
    by (simp add: validateNodeGroups_def)
  ultimately show ?thesis by argo
qed


end
