(* ===== verification/NodeTools.thy ===== *)
theory NodeTools
  imports JsConvert Status Utils
begin

text \<open>
  Tools of the node pages: the expiry of tokens (\<open>pages/nodes/token-expiry.ts\<close>), node addresses and
  authentication codes (\<open>features/cooperative-node/auth-code.ts\<close>) and the actions on the runs of a
  periodic task (\<open>pages/periodic-tasks/helpers.ts\<close>), under \<open>web/apps/secretpad/src\<close>.

  \<open>Date.parse\<close> on a text that is not the ISO format is left to the implementation by the language, so
  it is a parameter (\<open>None\<close> for NaN); base64, UTF-8 and JSON decoding of a code is one parameter too.
\<close>

section \<open>Tokens\<close>

definition TOKEN_TTL_MS :: rat where "TOKEN_TTL_MS = 30 * 60 * 1000"

datatype issue_time = NoTime | AtNumber number | AtText string

fun replace_space :: "string \<Rightarrow> string" where
  "replace_space [] = []"
| "replace_space (c # s) = (if c = CHR '' '' then CHR ''T'' # s else c # replace_space s)"

definition only_digits :: "string \<Rightarrow> bool" where
  "only_digits s \<longleftrightarrow> s \<noteq> '''' \<and> list_all is_digit s"

definition parseTime :: "(string \<Rightarrow> rat option) \<Rightarrow> issue_time \<Rightarrow> rat option" where
  "parseTime date_parse v =
     (case v of
        NoTime \<Rightarrow> None
      | AtNumber n \<Rightarrow> (case n of Fin q \<Rightarrow> Some q | _ \<Rightarrow> None)
      | AtText s \<Rightarrow>
          if s = '''' then None
          else if only_digits s then Some (of_nat (parse_nat s))
          else date_parse (if CHR ''T'' \<in> set s \<or> CHR '' '' \<notin> set s then s else replace_space s))"

record token_expiry =
  te_expiresAt :: "rat option"
  te_expired :: bool
  te_minutesLeft :: "int option"

definition getTokenExpiry :: "(string \<Rightarrow> rat option) \<Rightarrow> issue_time \<Rightarrow> rat \<Rightarrow> rat \<Rightarrow> token_expiry" where
  "getTokenExpiry date_parse issuedAt now ttl =
     (case parseTime date_parse issuedAt of
        None \<Rightarrow> \<lparr>te_expiresAt = None, te_expired = False, te_minutesLeft = None\<rparr>
      | Some issued \<Rightarrow>
          (let expiresAt = issued + ttl; left = expiresAt - now in
           \<lparr>te_expiresAt = Some expiresAt, te_expired = (left \<le> 0),
            te_minutesLeft = Some (if left \<le> 0 then 0 else ceiling (left / 60000))\<rparr>))"

definition tokenRefetchInterval :: "(string \<Rightarrow> rat option) \<Rightarrow> issue_time \<Rightarrow> rat \<Rightarrow> rat" where
  "tokenRefetchInterval date_parse issuedAt now =
     (case te_expiresAt (getTokenExpiry date_parse issuedAt now TOKEN_TTL_MS) of
        None \<Rightarrow> TOKEN_TTL_MS
      | Some expiresAt \<Rightarrow> min TOKEN_TTL_MS (max 10000 (expiresAt - now)))"

lemma refetch_bounds: "10000 \<le> tokenRefetchInterval dp i now \<and> tokenRefetchInterval dp i now \<le> 1800000"
  by (simp add: tokenRefetchInterval_def TOKEN_TTL_MS_def min_def max_def split: option.split)

lemma minutes_left:
  fixes now :: rat
  assumes "parseTime dp i = Some t"
  defines "e \<equiv> getTokenExpiry dp i now TOKEN_TTL_MS"
  shows "\<exists>m. te_minutesLeft e = Some m \<and> (te_expired e \<longleftrightarrow> m = 0) \<and> (te_expired e \<or> 0 < m \<and>
    of_int (m - 1) * 60000 < t + TOKEN_TTL_MS - now \<and> t + TOKEN_TTL_MS - now \<le> of_int m * 60000)"
proof -
  define l where "l = t + TOKEN_TTL_MS - now"
  have e: "te_expired e \<longleftrightarrow> l \<le> 0" "te_minutesLeft e = Some (if l \<le> 0 then 0 else ceiling (l / 60000))"
    using assms(1) by (simp_all add: e_def getTokenExpiry_def Let_def l_def)
  have "0 < ceiling (l / 60000) \<and> of_int (ceiling (l / 60000) - 1) * 60000 < l \<and> l \<le> of_int (ceiling (l / 60000)) * 60000" if "0 < l"
  proof -
    define c where "c = ceiling (l / 60000)"
    have "of_int c - 1 < l / 60000" "l / 60000 \<le> of_int c" "0 < c"
      using ceiling_correct [of "l / 60000"] that by (simp_all add: c_def)
    then show ?thesis unfolding c_def [symmetric] by (simp add: field_simps)
  qed
  then show ?thesis unfolding l_def [symmetric] e by auto
qed

text \<open>The query runs again no earlier than the token ends, unless that is more than the life of a token away.\<close>

lemma refetch_after_expiry:
  assumes "parseTime dp i = Some t" "t \<le> now"
  shows "t + TOKEN_TTL_MS \<le> now + tokenRefetchInterval dp i now"
  using assms by (simp add: tokenRefetchInterval_def getTokenExpiry_def Let_def TOKEN_TTL_MS_def min_def max_def)

section \<open>Addresses\<close>

datatype protocol = Http | Https

fun protocol_text :: "protocol \<Rightarrow> string" where
  "protocol_text Http = ''http://''"
| "protocol_text Https = ''https://''"

definition PROTOCOL_BY_TYPE :: "(string \<times> protocol) list" where
  "PROTOCOL_BY_TYPE = [(''notls'', Http), (''tls'', Https), (''mtls'', Https)]"

text \<open>\<open>/^(https?):/i\<close>\<close>

definition protocol_of_url :: "string \<Rightarrow> protocol option" where
  "protocol_of_url url =
     (if to_lower (take 5 url) = ''http:'' then Some Http
      else if to_lower (take 6 url) = ''https:'' then Some Https else None)"

definition getProtocol :: "string option \<Rightarrow> string option \<Rightarrow> protocol" where
  "getProtocol url protocolType =
     (let fallback = nullish (if truthy protocolType then map_of PROTOCOL_BY_TYPE (to_lower (the protocolType)) else None) Http in
      if \<not> truthy url then fallback else nullish (protocol_of_url (the url)) fallback)"

text \<open>\<open>/(^\w+:|^)\/\//\<close>: both alternatives are anchored.\<close>

definition js_word :: "char \<Rightarrow> bool" where
  "js_word c \<longleftrightarrow> is_upper c \<or> is_lower c \<or> is_digit c \<or> c = CHR ''_''"

definition stripProtocol :: "string option \<Rightarrow> string" where
  "stripProtocol url =
     (if \<not> truthy url then ''''
      else let u = the url; w = takeWhile js_word u; r = dropWhile js_word u in
        if w \<noteq> '''' \<and> starts_with r ''://'' then drop 3 r
        else if starts_with u ''//'' then drop 2 u else u)"

text \<open>The alternatives of the port: one list of character ranges each.\<close>

definition PORT_PATTERNS :: "(char \<times> char) list list" where
  "PORT_PATTERNS =
     (let d = (CHR ''0'', CHR ''9''); n = (CHR ''1'', CHR ''9''); c = (\<lambda>x. (x, x)) in
      [[d], [n, d], [n, d, d], [n, d, d, d], [(CHR ''1'', CHR ''5''), d, d, d, d],
       [c (CHR ''6''), (CHR ''0'', CHR ''4''), d, d, d], [c (CHR ''6''), c (CHR ''5''), (CHR ''0'', CHR ''4''), d, d],
       [c (CHR ''6''), c (CHR ''5''), c (CHR ''5''), (CHR ''0'', CHR ''2''), d],
       [c (CHR ''6''), c (CHR ''5''), c (CHR ''5''), c (CHR ''3''), (CHR ''0'', CHR ''5'')]])"

definition in_ranges :: "(char \<times> char) list \<Rightarrow> string \<Rightarrow> bool" where
  "in_ranges rs s = list_all2 (\<lambda>(a, b) c. of_char a \<le> (of_char c :: nat) \<and> (of_char c :: nat) \<le> of_char b) rs s"

definition port_text :: "string \<Rightarrow> bool" where
  "port_text s = list_ex (\<lambda>rs. in_ranges rs s) PORT_PATTERNS"

text \<open>The host may hold colons, the port does not: the last colon separates them.\<close>

definition isValidNetAddress :: "string \<Rightarrow> bool" where
  "isValidNetAddress a =
     (let r = rev a; p = takeWhile (\<lambda>c. c \<noteq> CHR '':'') r; h = dropWhile (\<lambda>c. c \<noteq> CHR '':'') r in
      list_all (\<lambda>c. \<not> is_ws c) a \<and> h \<noteq> [] \<and> port_text (rev p) \<and>
      1 \<le> utf16_length (rev (tl h)) \<and> utf16_length (rev (tl h)) \<le> 50)"

section \<open>Authentication codes\<close>

record parsed_auth_code =
  ac_certText :: string
  ac_dstNodeId :: string
  ac_name :: string
  ac_dstNetAddress :: string
  ac_protocol :: protocol
  ac_instId :: string
  ac_instName :: string
  ac_masterNodeId :: string

definition REQUIRED_KEYS :: "string list" where
  "REQUIRED_KEYS = [''certText'', ''dstNodeId'', ''name'', ''dstNetAddress'', ''instId'', ''instName'', ''masterNodeId'']"

definition parseAuthCode :: "(string \<Rightarrow> jsval option) \<Rightarrow> string \<Rightarrow> parsed_auth_code option" where
  "parseAuthCode decode code =
     (if code = '''' \<or> trim code = '''' then None
      else case decode (trim code) of
          Some (JObj ob) \<Rightarrow>
            if list_ex (\<lambda>k. \<not> js_truthy (get_prop ob k)) REQUIRED_KEYS then None
            else let text = (\<lambda>k. string_of (get_prop ob k)); addr = text ''dstNetAddress'' in
              Some \<lparr>ac_certText = text ''certText'', ac_dstNodeId = text ''dstNodeId'', ac_name = text ''name'',
                    ac_dstNetAddress = stripProtocol (Some addr), ac_protocol = getProtocol (Some addr) None,
                    ac_instId = text ''instId'', ac_instName = text ''instName'', ac_masterNodeId = text ''masterNodeId''\<rparr>
        | _ \<Rightarrow> None)"

section \<open>Runs of a periodic task\<close>

definition canOperateSchedule :: "string option \<Rightarrow> bool \<Rightarrow> string \<Rightarrow> bool" where
  "canOperateSchedule owner isP2p ownerId = (if \<not> isP2p then True else truthy owner \<and> owner = Some ownerId)"

datatype schedule_action = Offline | OfflineDisabled | Delete

definition scheduleAction :: "string option \<Rightarrow> bool \<Rightarrow> schedule_action" where
  "scheduleAction stats taskRunning =
     (if stats = Some ''UP'' then (if taskRunning then OfflineDisabled else Offline) else Delete)"

definition jobStatusBadge :: "string option \<Rightarrow> badge" where
  "jobStatusBadge status =
     (let upper = to_upper (str_or status '''') in
      if upper = ''TO_BE_RUN'' \<or> upper = ''PENDING'' then BadgeWarning
      else if upper = ''STOPPING'' then BadgeProcessing
      else case normalizeStatus status of
          Some SUCCEED \<Rightarrow> BadgeSuccess
        | Some FAILED \<Rightarrow> BadgeError
        | Some STOPPED \<Rightarrow> BadgeError
        | Some RUNNING \<Rightarrow> BadgeProcessing
        | Some INITIALIZED \<Rightarrow> BadgeProcessing
        | Some STAGING \<Rightarrow> BadgeProcessing
        | None \<Rightarrow> BadgeDefault)"

definition subTaskStatusBadge :: "string option \<Rightarrow> badge" where
  "subTaskStatusBadge status =
     (if status = Some ''SUCCEED'' then BadgeSuccess
      else if status = Some ''FAILED'' \<or> status = Some ''STOPPED'' then BadgeError
      else if status = Some ''RUNNING'' \<or> status = Some ''STOPPING'' then BadgeProcessing
      else if status = Some ''TO_BE_RUN'' then BadgeWarning else BadgeDefault)"

definition shouldPollSubTasks :: "string option list \<Rightarrow> bool" where
  "shouldPollSubTasks statuses =
     list_ex (\<lambda>s. s \<in> set [Some ''RUNNING'', Some ''TO_BE_RUN'', Some ''STOPPING'']) statuses"

datatype rerun_type = RerunAll | RerunFailed

record rerun_option =
  ro_type :: rerun_type
  ro_labelKey :: string
  ro_disabled :: bool

record sub_task_actions =
  sa_stop :: bool
  sa_rerun :: "rerun_option list"
  sa_confirmKey :: "string option"

definition THIRTY_DAYS_MS :: rat where "THIRTY_DAYS_MS = 30 * 24 * 60 * 60 * 1000"

definition parse_start :: "(string \<Rightarrow> rat option) \<Rightarrow> string option \<Rightarrow> rat option" where
  "parse_start date_parse v =
     (if \<not> truthy v then None
      else if only_digits (the v) then Some (of_nat (parse_nat (the v))) else date_parse (replace_space (the v)))"

definition over_thirty_days :: "(string \<Rightarrow> rat option) \<Rightarrow> string option \<Rightarrow> rat \<Rightarrow> bool" where
  "over_thirty_days date_parse startTime now =
     (case parse_start date_parse startTime of None \<Rightarrow> True | Some started \<Rightarrow> now - started > THIRTY_DAYS_MS)"

definition subTaskActions :: "(string \<Rightarrow> rat option) \<Rightarrow> string option \<Rightarrow> string option \<Rightarrow> bool \<Rightarrow> rat \<Rightarrow> sub_task_actions" where
  "subTaskActions date_parse status startTime allReRun now =
     (let failed = (status = Some ''FAILED'' \<or> status = Some ''STOPPED'');
          all = \<lparr>ro_type = RerunAll, ro_labelKey = ''periodicTasks.rerunAll'', ro_disabled = allReRun\<rparr>
      in if status = Some ''RUNNING'' then \<lparr>sa_stop = True, sa_rerun = [], sa_confirmKey = None\<rparr>
         else if \<not> failed \<and> status \<noteq> Some ''SUCCEED'' then \<lparr>sa_stop = False, sa_rerun = [], sa_confirmKey = None\<rparr>
         else if failed \<and> \<not> over_thirty_days date_parse startTime now then
           \<lparr>sa_stop = False,
            sa_rerun = [\<lparr>ro_type = RerunFailed, ro_labelKey = ''periodicTasks.rerunFailed'', ro_disabled = False\<rparr>, all],
            sa_confirmKey = Some ''periodicTasks.rerunFailedConfirm''\<rparr>
         else \<lparr>sa_stop = False, sa_rerun = [all\<lparr>ro_labelKey := ''periodicTasks.rerun''\<rparr>],
               sa_confirmKey = Some (if failed then ''periodicTasks.rerunOverwritePartial'' else ''periodicTasks.rerunOverwrite'')\<rparr>)"


section \<open>The ports are the numbers up to 65535\<close>

definition decimal :: "nat list \<Rightarrow> bool" where
  "decimal ds \<longleftrightarrow> ds \<noteq> [] \<and> list_all (\<lambda>d. d < 10) ds \<and> (length ds = 1 \<or> hd ds \<noteq> 0)"

definition dvalue :: "nat list \<Rightarrow> nat" where
  "dvalue ds = foldl (\<lambda>a d. 10 * a + d) 0 ds"

lemma dvalue_snoc [simp]: "dvalue (ds @ [d]) = 10 * dvalue ds + d"
  by (simp add: dvalue_def)

lemma show_nat_step: "10 \<le> n \<Longrightarrow> show_nat n = show_nat (n div 10) @ [digit_char (n mod 10)]"
  by (subst show_nat.simps) simp

lemma show_nat_digit: "n < 10 \<Longrightarrow> show_nat n = [digit_char n]"
  by (subst show_nat.simps) simp

lemma decimal_snoc: "decimal (ds @ [d]) \<Longrightarrow> ds \<noteq> [] \<Longrightarrow> decimal ds \<and> hd ds \<noteq> 0 \<and> d < 10"
  by (cases ds) (auto simp: decimal_def)

lemma decimal_positive: "decimal ds \<Longrightarrow> hd ds \<noteq> 0 \<Longrightarrow> 0 < dvalue ds"
proof (induction ds rule: rev_induct)
  case (snoc d ds)
  then show ?case using decimal_snoc [of ds d] by (cases "ds = []") (auto simp: dvalue_def)
qed (simp add: decimal_def)

lemma decimal_show: "decimal ds \<Longrightarrow> show_nat (dvalue ds) = map digit_char ds"
proof (induction ds rule: rev_induct)
  case (snoc d ds)
  show ?case
  proof (cases "ds = []")
    case True
    then show ?thesis using snoc.prems by (simp add: decimal_def dvalue_def show_nat_digit)
  next
    case False
    note d = decimal_snoc [OF snoc.prems False]
    then have "10 \<le> 10 * dvalue ds + d" using decimal_positive [of ds] by simp
    then show ?thesis using d snoc.IH by (simp add: show_nat_step)
  qed
qed (simp add: decimal_def)

lemma show_decimal: "\<exists>ds. decimal ds \<and> dvalue ds = n"
proof (induction n rule: less_induct)
  case (less n)
  show ?case
  proof (cases "n < 10")
    case True
    then show ?thesis by (intro exI [of _ "[n]"]) (simp add: decimal_def dvalue_def)
  next
    case False
    then obtain ds where ds: "decimal ds" "dvalue ds = n div 10" using less [of "n div 10"] by auto
    have "hd ds \<noteq> 0"
    proof
      assume z: "hd ds = 0"
      then obtain "ds = [0]" using ds(1) by (cases ds) (auto simp: decimal_def)
      then show False using ds(2) False by (simp add: dvalue_def)
    qed
    then have "decimal (ds @ [n mod 10])" using ds(1) by (cases ds) (auto simp: decimal_def)
    then show ?thesis using ds(2) by (intro exI [of _ "ds @ [n mod 10]"]) simp
  qed
qed

lemma of_digit_char: "d < 10 \<Longrightarrow> of_char (digit_char d) = 48 + d" for d :: nat
  by (simp add: digit_char_def)

lemma five_digits:
  assumes "a < 10" "b < 10" "c < 10" "d < 10" "e < (10 :: nat)"
  shows "10 * (10 * (10 * (10 * a + b) + c) + d) + e \<le> 65535 \<longleftrightarrow>
    a \<le> 5 \<or> a = 6 \<and> b \<le> 4 \<or> a = 6 \<and> b = 5 \<and> c \<le> 4 \<or> a = 6 \<and> b = 5 \<and> c = 5 \<and> d \<le> 2 \<or>
    a = 6 \<and> b = 5 \<and> c = 5 \<and> d = 3 \<and> e \<le> 5"
proof -
  define x where "x = 10 * a + b"
  define y where "y = 10 * x + c"
  define z where "z = 10 * y + d"
  have "10 * z + e \<le> 65535 \<longleftrightarrow> z < 6553 \<or> z = 6553 \<and> e \<le> 5" using assms(5) by linarith
  moreover have "z < 6553 \<longleftrightarrow> y < 655 \<or> y = 655 \<and> d \<le> 2" "z = 6553 \<longleftrightarrow> y = 655 \<and> d = 3" using assms(4) unfolding z_def by (linarith, presburger)
  moreover have "y < 655 \<longleftrightarrow> x < 65 \<or> x = 65 \<and> c \<le> 4" "y = 655 \<longleftrightarrow> x = 65 \<and> c = 5" using assms(3) unfolding y_def by (linarith, presburger)
  moreover have "x < 65 \<longleftrightarrow> a \<le> 5 \<or> a = 6 \<and> b \<le> 4" "x = 65 \<longleftrightarrow> a = 6 \<and> b = 5" using assms(2) unfolding x_def by (linarith, presburger)
  ultimately have "10 * z + e \<le> 65535 \<longleftrightarrow> a \<le> 5 \<or> a = 6 \<and> b \<le> 4 \<or> a = 6 \<and> b = 5 \<and> c \<le> 4 \<or> a = 6 \<and> b = 5 \<and> c = 5 \<and> d \<le> 2 \<or>
      a = 6 \<and> b = 5 \<and> c = 5 \<and> d = 3 \<and> e \<le> 5" by (simp only: conj_assoc disj_assoc)
  then show ?thesis unfolding z_def y_def x_def .
qed

lemma port_decimal:
  assumes "decimal ds"
  shows "port_text (map digit_char ds) \<longleftrightarrow> dvalue ds \<le> 65535"
proof -
  note defs = port_text_def PORT_PATTERNS_def in_ranges_def dvalue_def decimal_def Let_def of_digit_char
  consider a where "ds = [a]" | a b where "ds = [a, b]" | a b c where "ds = [a, b, c]" | a b c d where "ds = [a, b, c, d]"
    | a b c d e where "ds = [a, b, c, d, e]" | a b c d e f r where "ds = a # b # c # d # e # f # r"
    using assms unfolding decimal_def by (metis neq_Nil_conv)
  then show ?thesis
  proof cases
    case 5
    have ds: "a < 10" "b < 10" "c < 10" "d < 10" "e < 10" "0 < a" using assms 5 by (simp_all add: decimal_def)
    have "port_text (map digit_char ds) \<longleftrightarrow>
        1 \<le> a \<and> a \<le> 5 \<or> a = 6 \<and> b \<le> 4 \<or> a = 6 \<and> b = 5 \<and> c \<le> 4 \<or> a = 6 \<and> b = 5 \<and> c = 5 \<and> d \<le> 2 \<or>
        a = 6 \<and> b = 5 \<and> c = 5 \<and> d = 3 \<and> e \<le> 5"
      unfolding 5 using ds
      by (simp add: port_text_def PORT_PATTERNS_def in_ranges_def Let_def of_digit_char) linarith
    moreover have "dvalue ds = 10 * (10 * (10 * (10 * a + b) + c) + d) + e" by (simp add: 5 dvalue_def)
    moreover have "1 \<le> a" using ds(6) by simp
    ultimately show ?thesis using five_digits [OF ds(1-5)] by simp
  next
    case 6
    have "100000 * hd xs \<le> dvalue xs" if "6 \<le> length xs" for xs
      using that
    proof (induction xs rule: rev_induct)
      case (snoc x xs)
      show ?case
      proof (cases "length xs = 5")
        case True
        then obtain a b c d e where "xs = [a, b, c, d, e]" by (auto simp: length_Suc_conv eval_nat_numeral)
        then show ?thesis by (simp add: dvalue_def)
      next
        case False
        then have "6 \<le> length xs" "xs \<noteq> []" using snoc.prems by auto
        then show ?thesis using snoc.IH by simp
      qed
    qed simp
    from this [of ds] have "100000 \<le> dvalue ds" using assms 6 by (auto simp: decimal_def)
    moreover have "\<not> port_text (map digit_char ds)" using 6 by (simp add: port_text_def PORT_PATTERNS_def in_ranges_def Let_def)
    ultimately show ?thesis by simp
  qed (use assms in \<open>auto simp: defs\<close>)
qed

lemma port_digits:
  assumes "port_text s"
  shows "\<exists>ds. decimal ds \<and> s = map digit_char ds"
proof -
  define ds where "ds = map digit_val s"
  have d: "c \<in> set s \<Longrightarrow> is_digit c" for c
    using assms
    by (auto simp: port_text_def PORT_PATTERNS_def in_ranges_def Let_def list_all2_Cons1 is_digit_def)
  have inv: "digit_char (digit_val c) = c \<and> digit_val c < 10" if "is_digit c" for c
    using that by (auto simp: digit_char_def digit_val_def is_digit_def)
  have "s = map digit_char ds" using d inv by (simp add: ds_def map_idI)
  moreover have "decimal ds"
  proof -
    have "list_all (\<lambda>x. x < 10) ds" using d inv by (auto simp: ds_def list_all_iff)
    moreover have "s \<noteq> [] \<and> (length s = 1 \<or> hd s \<noteq> CHR ''0'')"
      using assms by (auto simp: port_text_def PORT_PATTERNS_def in_ranges_def Let_def list_all2_Cons1)
    moreover have zero: "digit_char 0 = CHR ''0''" by code_simp
    moreover have "hd ds \<noteq> 0" if "s \<noteq> []" "hd s \<noteq> CHR ''0''"
    proof
      assume "hd ds = 0"
      then have "digit_val (hd s) = 0" using that(1) by (simp add: ds_def hd_map)
      then show False using inv [of "hd s"] d [of "hd s"] that zero by simp
    qed
    ultimately show ?thesis unfolding decimal_def by (auto simp: ds_def)
  qed
  ultimately show ?thesis by blast
qed

lemma port_iff: "port_text s \<longleftrightarrow> (\<exists>n \<le> 65535. s = show_nat n)"
proof
  assume p: "port_text s"
  then obtain ds where ds: "decimal ds" "s = map digit_char ds" using port_digits by blast
  then show "\<exists>n \<le> 65535. s = show_nat n" using p port_decimal [OF ds(1)] decimal_show [OF ds(1)] by auto
next
  assume "\<exists>n \<le> 65535. s = show_nat n"
  then obtain n where n: "n \<le> 65535" "s = show_nat n" by blast
  obtain ds where "decimal ds" "dvalue ds = n" using show_decimal by blast
  then show "port_text s" using n port_decimal [of ds] decimal_show [of ds] by simp
qed


lemma port_no_colon: "n \<le> (65535 :: nat) \<Longrightarrow> list_all (\<lambda>c. c \<noteq> CHR '':'' \<and> \<not> is_ws c) (show_nat n)"
  by (auto simp: list_all_iff is_ws_def is_digit_def dest!: show_nat_digits)

lemma split_last:
  "list_all (\<lambda>c. c \<noteq> x) xs \<Longrightarrow> takeWhile (\<lambda>c. c \<noteq> x) (xs @ x # r) = xs \<and> dropWhile (\<lambda>c. c \<noteq> x) (xs @ x # r) = x # r"
  by (induction xs) auto

lemma net_address_iff:
  "isValidNetAddress a \<longleftrightarrow> list_all (\<lambda>c. \<not> is_ws c) a \<and>
     (\<exists>h n. a = h @ '':'' @ show_nat n \<and> n \<le> 65535 \<and> 1 \<le> utf16_length h \<and> utf16_length h \<le> 50)"
proof
  assume v: "isValidNetAddress a"
  define p h where "p = takeWhile (\<lambda>c. c \<noteq> CHR '':'') (rev a)" and "h = dropWhile (\<lambda>c. c \<noteq> CHR '':'') (rev a)"
  have parts: "list_all (\<lambda>c. \<not> is_ws c) a" "h \<noteq> []" "port_text (rev p)" "1 \<le> utf16_length (rev (tl h))" "utf16_length (rev (tl h)) \<le> 50"
    using v by (simp_all add: isValidNetAddress_def Let_def p_def h_def)
  have "\<not> hd h \<noteq> CHR '':''" unfolding h_def by (rule hd_dropWhile) (use parts(2) in \<open>simp add: h_def\<close>)
  then have "h = CHR '':'' # tl h" using parts(2) by (cases h) simp_all
  moreover have "rev a = p @ h" by (simp add: p_def h_def)
  ultimately have "rev a = p @ CHR '':'' # tl h" by (rule back_subst [where P = "\<lambda>x. rev a = p @ x", rotated])
  then have "rev (rev a) = rev (p @ CHR '':'' # tl h)" by (rule arg_cong)
  then have "a = rev (tl h) @ '':'' @ rev p" by simp
  then show "list_all (\<lambda>c. \<not> is_ws c) a \<and>
     (\<exists>h n. a = h @ '':'' @ show_nat n \<and> n \<le> 65535 \<and> 1 \<le> utf16_length h \<and> utf16_length h \<le> 50)"
    using parts port_iff by blast
next
  assume "list_all (\<lambda>c. \<not> is_ws c) a \<and>
     (\<exists>h n. a = h @ '':'' @ show_nat n \<and> n \<le> 65535 \<and> 1 \<le> utf16_length h \<and> utf16_length h \<le> 50)"
  then obtain h n where a: "list_all (\<lambda>c. \<not> is_ws c) a" "a = h @ '':'' @ show_nat n" "n \<le> 65535" "1 \<le> utf16_length h" "utf16_length h \<le> 50"
    by blast
  have "list_all (\<lambda>c. c \<noteq> CHR '':'') (rev (show_nat n))" using port_no_colon [OF a(3)] by (auto simp: list_all_iff)
  note split = split_last [OF this, of "rev h"]
  have "rev a = rev (show_nat n) @ CHR '':'' # rev h" by (simp add: a(2))
  then show "isValidNetAddress a"
    unfolding isValidNetAddress_def Let_def using split a port_iff by auto
qed

text \<open>An address that carries its protocol is taken apart and put together again.\<close>

lemma protocol_round_trip:
  "getProtocol (Some (protocol_text p @ address)) t = p \<and> stripProtocol (Some (protocol_text p @ address)) = address"
proof (cases p)
  case Http
  have "to_lower ''http:'' = ''http:''" by code_simp
  moreover have "list_all js_word ''http''" "\<not> js_word CHR '':''" by code_simp+
  ultimately show ?thesis
    using Http by (simp add: getProtocol_def stripProtocol_def protocol_of_url_def Let_def starts_with_def)
next
  case Https
  have "to_lower ''https:'' = ''https:''" "to_lower ''https'' = ''https''" by code_simp+
  moreover have "list_all js_word ''https''" "\<not> js_word CHR '':''" by code_simp+
  ultimately show ?thesis
    using Https by (simp add: getProtocol_def stripProtocol_def protocol_of_url_def Let_def starts_with_def)
qed

lemma auth_code_accepted:
  "parseAuthCode decode code = Some r \<longleftrightarrow>
     trim code \<noteq> '''' \<and> (\<exists>ob. decode (trim code) = Some (JObj ob) \<and> (\<forall>k \<in> set REQUIRED_KEYS. js_truthy (get_prop ob k)) \<and>
       r = \<lparr>ac_certText = string_of (get_prop ob ''certText''), ac_dstNodeId = string_of (get_prop ob ''dstNodeId''),
         ac_name = string_of (get_prop ob ''name''),
         ac_dstNetAddress = stripProtocol (Some (string_of (get_prop ob ''dstNetAddress''))),
         ac_protocol = getProtocol (Some (string_of (get_prop ob ''dstNetAddress''))) None,
         ac_instId = string_of (get_prop ob ''instId''), ac_instName = string_of (get_prop ob ''instName''),
         ac_masterNodeId = string_of (get_prop ob ''masterNodeId'')\<rparr>)"
proof -
  have "code = '''' \<Longrightarrow> trim code = ''''" by (simp add: trim_def)
  then show ?thesis
    by (auto simp: parseAuthCode_def Let_def list_ex_iff split: option.splits jsval.splits if_splits)
qed

section \<open>Stopping and running again\<close>

lemma stop_or_rerun:
  "sa_stop (subTaskActions dp st t r now) \<longleftrightarrow> st = Some ''RUNNING''"
  "sa_stop (subTaskActions dp st t r now) \<Longrightarrow> sa_rerun (subTaskActions dp st t r now) = []"
  "sa_rerun (subTaskActions dp st t r now) \<noteq> [] \<longleftrightarrow> st \<in> {Some ''SUCCEED'', Some ''FAILED'', Some ''STOPPED''}"
  by (auto simp: subTaskActions_def Let_def)

lemma partial_rerun:
  "(\<exists>x \<in> set (sa_rerun (subTaskActions dp st t r now)). ro_type x = RerunFailed) \<longleftrightarrow>
     st \<in> {Some ''FAILED'', Some ''STOPPED''} \<and> (\<exists>s. parse_start dp t = Some s \<and> now - s \<le> 2592000000)"
  by (auto simp: subTaskActions_def Let_def over_thirty_days_def THIRTY_DAYS_MS_def split: option.splits)

lemma full_rerun_once:
  "x \<in> set (sa_rerun (subTaskActions dp st t r now)) \<Longrightarrow> ro_type x = RerunAll \<Longrightarrow> ro_disabled x = r"
  by (auto simp: subTaskActions_def Let_def split: if_splits)

text \<open>A run that can still change is polled; one that can be run again is not the reason of polling.\<close>

lemma polled_not_rerun:
  "shouldPollSubTasks [st] \<Longrightarrow> sa_rerun (subTaskActions dp st t r now) = []"
  by (auto simp: shouldPollSubTasks_def subTaskActions_def Let_def)

end
