(* ===== verification/NodeOutput.thy ===== *)
theory NodeOutput
  imports Report
begin

text \<open>
  The output of a node, \<open>normalizeOutput\<close> (\<open>web/packages/dag-next/src/result/output.ts\<close>): the two
  shapes the backend answers with are brought to one.
\<close>

datatype result_kind = KTable | KModel | KRule | KReport | KServing | KReadData | KUnknown

definition resultKindOf :: "string option \<Rightarrow> result_kind" where
  "resultKindOf type =
     (if \<not> truthy type then KUnknown
      else let t = to_lower (the type) in
        if t = ''table'' \<or> starts_with t ''sf.table'' then KTable
        else if t = ''sf.serving.model'' \<or> t = ''serving_model'' \<or> t = ''serving'' then KServing
        else if t = ''model'' \<or> starts_with t ''sf.model'' then KModel
        else if t = ''rule'' \<or> starts_with t ''sf.rule'' then KRule
        else if t = ''report'' \<or> t = ''sf.report'' then KReport
        else if t = ''read_data'' \<or> t = ''sf.read_data'' then KReadData
        else KUnknown)"

definition output_str :: "jsval \<Rightarrow> string option" where
  "output_str v = (if v = Undefined \<or> v = Null \<or> v = JStr '''' then None else Some (string_of v))"

definition splitList :: "jsval \<Rightarrow> string list" where
  "splitList v =
     (case v of
        JArr xs \<Rightarrow> map string_of xs
      | JStr s \<Rightarrow> if s = '''' then [] else split_on (CHR '','') s
      | _ \<Rightarrow> [])"

record output_row =
  ow_nodeId :: "string option"
  ow_nodeName :: "string option"
  ow_path :: "string option"
  ow_tableId :: "string option"
  ow_domainDataId :: "string option"
  ow_dsId :: "string option"
  ow_nodeType :: "string option"
  ow_datasourceType :: "string option"
  ow_columns :: "string list"
  ow_columnTypes :: "string list"

record node_output =
  no_kind :: result_kind
  no_rawType :: "string option"
  no_codeName :: "string option"
  no_gmtCreate :: "string option"
  no_jobId :: "string option"
  no_taskId :: "string option"
  no_graphId :: "string option"
  no_rows :: "output_row list"
  no_tabs :: "jsval list"
  no_warnings :: "string list"

text \<open>\<open>a ?? b\<close> on the parts of an object is \<open>pick\<close>; \<open>meta.columns\<close> and \<open>meta.rows\<close> hold objects.\<close>

definition objects :: "jsval \<Rightarrow> jsobj list" where
  "objects v = (case v of JArr xs \<Rightarrow> map (\<lambda>x. nullish (as_fields x) []) xs | _ \<Rightarrow> [])"

definition column_text :: "jsobj \<Rightarrow> string \<Rightarrow> string" where
  "column_text c k = (let v = get_prop c k in if v = Undefined \<or> v = Null then '''' else string_of v)"

definition normalize_row :: "jsobj \<Rightarrow> jsobj list \<Rightarrow> jsobj \<Rightarrow> output_row" where
  "normalize_row meta metaColumns row =
     (let names = splitList (get_prop row ''fields''); types = splitList (pick row [''fieldTypes'', ''field_types'']);
          old = (names = [] \<and> metaColumns \<noteq> []);
          ds = pick row [''dsId'', ''datasourceId''] in
      \<lparr>ow_nodeId = output_str (pick row [''nodeId'', ''node_id'']), ow_nodeName = output_str (pick row [''nodeName'', ''node_name'']),
       ow_path = output_str (pick row [''path'', ''relativeUri'']), ow_tableId = output_str (pick row [''tableId'', ''table_id'']),
       ow_domainDataId = output_str (pick row [''domainDataId'', ''domain_data_id'', ''tableId'']),
       ow_dsId = output_str (if ds = Undefined then get_prop meta ''datasourceId'' else ds),
       ow_nodeType = output_str (get_prop row ''type''), ow_datasourceType = output_str (get_prop row ''datasourceType''),
       ow_columns = (if old then map (\<lambda>c. column_text c ''name'') metaColumns else names),
       ow_columnTypes = (if old then map (\<lambda>c. column_text c ''type'') metaColumns else types)\<rparr>)"

definition raw_type :: "jsobj \<Rightarrow> string option" where
  "raw_type r =
     nullish_opt (output_str (get_prop r ''type''))
       (case objects (get_prop r ''outputs'') of [] \<Rightarrow> None | x # _ \<Rightarrow> output_str (get_prop x ''type''))"

definition output_warnings :: "jsobj \<Rightarrow> string list" where
  "output_warnings r =
     (case pick r [''warning'', ''warnings''] of
        JArr xs \<Rightarrow> map string_of xs
      | JStr s \<Rightarrow> if s \<noteq> '''' then [s] else []
      | _ \<Rightarrow> [])"

text \<open>The outer option is the fuel of \<open>parseReportTabs\<close>, the inner one the code's \<open>null\<close>.\<close>

definition normalizeOutput :: "nat \<Rightarrow> (string \<Rightarrow> jsval option) \<Rightarrow> jsval \<Rightarrow> node_output option option" where
  "normalizeOutput n parse raw =
     (case as_fields raw of
        None \<Rightarrow> Some None
      | Some r \<Rightarrow>
          (case parseReportTabs n parse (get_prop r ''tabs'') of
             None \<Rightarrow> None
           | Some tabs \<Rightarrow>
               (let meta = nullish (as_fields (get_prop r ''meta'')) []; rawType = raw_type r; kind = resultKindOf rawType in
                Some (Some \<lparr>no_kind = (if kind = KUnknown \<and> tabs \<noteq> [] then KReport else kind), no_rawType = rawType,
                  no_codeName = output_str (pick r [''codeName'', ''code_name'']),
                  no_gmtCreate = output_str (pick r [''gmtCreate'', ''gmt_create'']),
                  no_jobId = output_str (pick r [''jobId'', ''job_id'']), no_taskId = output_str (pick r [''taskId'', ''task_id'']),
                  no_graphId = output_str (pick r [''graphID'', ''graphId'', ''graph_id'']),
                  no_rows = map (normalize_row meta (objects (get_prop meta ''columns''))) (objects (get_prop meta ''rows'')),
                  no_tabs = tabs, no_warnings = output_warnings r\<rparr>))))"

definition downloadDisabled :: "string option \<Rightarrow> bool" where
  "downloadDisabled t \<longleftrightarrow> to_upper (str_or t '''') \<in> set [''OSS'', ''ODPS'', ''MYSQL'']"

definition isClassificationTable :: "(string option \<times> string option) list \<Rightarrow> bool" where
  "isClassificationTable columns = list_ex (\<lambda>(colName, name). nullish_opt colName name = Some ''__final_level__'') columns"

section \<open>The two shapes agree\<close>

text \<open>The output of a table as the Java and as the Go service answer it.\<close>

definition java_answer :: "string \<Rightarrow> string list \<Rightarrow> string list \<Rightarrow> string \<Rightarrow> jsval" where
  "java_answer tableId names types ds =
     JObj [(''type'', JStr ''table''), (''meta'', JObj [(''rows'', JArr [JObj [(''tableId'', JStr tableId),
       (''fields'', JStr (join_with '','' names)), (''fieldTypes'', JStr (join_with '','' types)), (''dsId'', JStr ds)]])])]"

definition go_answer :: "string \<Rightarrow> string list \<Rightarrow> string list \<Rightarrow> string \<Rightarrow> jsval" where
  "go_answer tableId names types ds =
     JObj [(''type'', JStr ''table''), (''meta'', JObj
       [(''rows'', JArr [JObj [(''tableId'', JStr tableId)]]),
        (''columns'', JArr (map (\<lambda>(n, t). JObj [(''name'', JStr n), (''type'', JStr t)]) (zip names types))),
        (''datasourceId'', JStr ds)])]"

lemma shapes_agree:
  assumes "names \<noteq> []" "length types = length names"
    and "list_all (\<lambda>s. s \<noteq> '''' \<and> CHR '','' \<notin> set s) names" "list_all (\<lambda>s. s \<noteq> '''' \<and> CHR '','' \<notin> set s) types"
  shows "normalizeOutput (Suc n) parse (java_answer tableId names types ds) =
    normalizeOutput (Suc n) parse (go_answer tableId names types ds)"
proof -
  have types: "types \<noteq> []" using assms(1,2) by auto
  have sp: "splitList (JStr (join_with '','' xs)) = xs" if "xs \<noteq> []" "list_all (\<lambda>s. s \<noteq> '''' \<and> CHR '','' \<notin> set s) xs" for xs
  proof -
    have "join_with '','' xs \<noteq> ''''" using that by (cases xs; cases "tl xs") auto
    moreover have "split_on (CHR '','') (join_with '','' xs) = xs"
      using split_join [of xs "CHR '',''"] that by (simp add: list_all_iff)
    ultimately show ?thesis by (simp add: splitList_def)
  qed
  have cols: "map (\<lambda>c. column_text c ''name'') (map (\<lambda>(n, t). [(''name'', JStr n), (''type'', JStr t)]) (zip names types)) = names"
    "map (\<lambda>c. column_text c ''type'') (map (\<lambda>(n, t). [(''name'', JStr n), (''type'', JStr t)]) (zip names types)) = types"
    using assms(2) by (auto simp: column_text_def get_prop_def Let_def comp_def split_beta intro: nth_equalityI)
  show ?thesis
    using assms(1) types sp [OF assms(1,3)] sp [OF types assms(4)] cols assms(2)
    by (simp add: normalizeOutput_def java_answer_def go_answer_def get_prop_def Let_def normalize_row_def objects_def
        raw_type_def output_warnings_def comp_def split_beta splitList_def [of Undefined])
qed

lemma output_read:
  assumes "shorter_values parse" "weight raw \<le> n"
  shows "normalizeOutput n parse raw \<noteq> None"
proof (cases raw)
  case (JObj ob)
  have "parseReportTabs n parse (get_prop ob ''tabs'') \<noteq> None"
    using assms(2) weight_prop [of ob "''tabs''"] JObj by (intro report_tabs_total [OF assms(1)]) simp
  then show ?thesis by (auto simp: JObj normalizeOutput_def Let_def)
next
  case (JArr xs)
  have "parseReportTabs n parse Undefined \<noteq> None"
    using assms(2) JArr by (intro report_tabs_total [OF assms(1)]) simp
  then show ?thesis by (auto simp: JArr normalizeOutput_def Let_def get_prop_def)
qed (simp_all add: normalizeOutput_def)

lemma output_kind_known:
  "normalizeOutput n parse raw = Some (Some out) \<Longrightarrow> no_tabs out \<noteq> [] \<Longrightarrow> no_kind out \<noteq> KUnknown"
  by (auto simp: normalizeOutput_def Let_def simp del: pick.simps split: option.splits if_splits)

end
