(* ===== verification/RuleForms.thy ===== *)
theory RuleForms
  imports Serializers
begin

text \<open>
  The other forms of \<open>web/packages/dag-next/src/custom-serializers.ts\<close>: conditional rules,
  calculations, group-by queries and the weights of a linear model, and the registry that finds the
  serializer of a protobuf class.  Values a form only carries are JavaScript values.
\<close>

section \<open>Conditional rules\<close>

record case_cond =
  cd_column :: "string option"
  cd_op :: "string option"
  cd_value :: jsval
  cd_connection :: "string option"

record case_when =
  cw_when :: "case_cond option"
  cw_conds :: "case_cond list option"
  cw_then :: jsval

record 'w case_form =
  cf_whens :: "'w list option"
  cf_else_value :: jsval
  cf_output_column :: "string option"
  cf_as_label :: "bool option"
  cf_float_epsilon :: "rat option"

record saved_when =
  sw_conds :: "case_cond option list option"
  sw_then :: jsval
  sw_connections :: "string list option"

text \<open>A saved value is the converted form, or the form as it is when it has no rule.\<close>

datatype saved_case = Converted "saved_when case_form" | Plain "case_when case_form"

definition empty_cond :: case_cond where
  "empty_cond = \<lparr>cd_column = None, cd_op = None, cd_value = Undefined, cd_connection = None\<rparr>"

definition save_when :: "case_when \<Rightarrow> saved_when" where
  "save_when w =
     \<lparr>sw_conds = Some (cw_when w # map (\<lambda>c. Some (c\<lparr>cd_connection := None\<rparr>)) (nullish (cw_conds w) [])),
      sw_then = cw_then w,
      sw_connections = Some (List.map_filter (\<lambda>c. if truthy (cd_connection c) then cd_connection c else None) (nullish (cw_conds w) []))\<rparr>"

definition caseWhenSerializer :: "case_when case_form \<Rightarrow> saved_case" where
  "caseWhenSerializer f =
     (case cf_whens f of
        Some (w # ws) \<Rightarrow> Converted \<lparr>cf_whens = Some (map save_when (w # ws)), cf_else_value = cf_else_value f,
          cf_output_column = cf_output_column f, cf_as_label = cf_as_label f, cf_float_epsilon = cf_float_epsilon f\<rparr>
      | _ \<Rightarrow> Plain f)"

text \<open>\<open>conds[index].connection = connection\<close>, for the conditions there are.\<close>

fun connect_conds :: "string list \<Rightarrow> case_cond list \<Rightarrow> case_cond list" where
  "connect_conds (k # ks) (c # cs) = c\<lparr>cd_connection := Some k\<rparr> # connect_conds ks cs"
| "connect_conds _ cs = cs"

definition load_when :: "saved_when \<Rightarrow> case_when" where
  "load_when w =
     (let conds = map (\<lambda>c. nullish c empty_cond) (nullish (sw_conds w) []) in
      case conds of
        [] \<Rightarrow> \<lparr>cw_when = None, cw_conds = Some [], cw_then = sw_then w\<rparr>
      | c # cs \<Rightarrow> \<lparr>cw_when = Some c, cw_conds = Some (connect_conds (nullish (sw_connections w) []) cs), cw_then = sw_then w\<rparr>)"

definition default_case :: "case_when case_form" where
  "default_case =
     (let f = JObj [(''type'', JStr ''CONST_FLOAT'')] in
      \<lparr>cf_whens = Some [\<lparr>cw_when = Some (empty_cond\<lparr>cd_op := Some ''EQ'', cd_value := f\<rparr>), cw_conds = None, cw_then = f\<rparr>],
       cf_else_value = JObj [(''type'', JStr ''CONST_FLOAT''), (''value'', Undefined)], cf_output_column = None,
       cf_as_label = Some False, cf_float_epsilon = Some (1 / 1000000)\<rparr>)"

text \<open>A form that was saved without rules has none to convert: its list is empty or missing.\<close>

definition caseWhenUnserializer :: "saved_case option \<Rightarrow> case_when case_form" where
  "caseWhenUnserializer v =
     (case v of
        None \<Rightarrow> default_case
      | Some (Plain f) \<Rightarrow> f\<lparr>cf_whens := Some []\<rparr>
      | Some (Converted f) \<Rightarrow> \<lparr>cf_whens = Some (map load_when (nullish (cf_whens f) [])), cf_else_value = cf_else_value f,
          cf_output_column = cf_output_column f, cf_as_label = cf_as_label f, cf_float_epsilon = cf_float_epsilon f\<rparr>)"

section \<open>Calculations, queries, weights\<close>

definition keep_columns :: "string \<Rightarrow> string list" where
  "keep_columns s = filter (\<lambda>c. length c > 0) (split_on CHR '','' s)"

text \<open>\<open>None\<close>: \<open>split\<close> of something that is not a text throws.\<close>

definition calculateSerializer :: "jsobj \<Rightarrow> jsobj option" where
  "calculateSerializer form =
     (let names = get_prop form ''newColNames'' in
      if js_truthy names then
        (case names of JStr s \<Rightarrow> Some (set_prop ''newColNames'' (JArr (map JStr (keep_columns s))) form) | _ \<Rightarrow> None)
      else Some form)"

definition calculateUnserializer :: "jsobj option \<Rightarrow> jsobj" where
  "calculateUnserializer v =
     (case v of
        None \<Rightarrow> [(''op'', JStr ''STANDARDIZE'')]
      | Some ob \<Rightarrow> (case get_prop ob ''newColNames'' of
            JArr xs \<Rightarrow> set_prop ''newColNames'' (JStr (string_of (JArr xs))) ob
          | _ \<Rightarrow> ob))"

record column_query =
  cq_function :: "string option"
  cq_column_name :: "string option"

definition groupbySerializer :: "column_query list \<Rightarrow> column_query list" where
  "groupbySerializer queries = queries"

definition groupbyUnserializer :: "column_query list option \<Rightarrow> column_query list" where
  "groupbyUnserializer v =
     (case v of None \<Rightarrow> replicate 2 \<lparr>cq_function = None, cq_column_name = None\<rparr> | Some queries \<Rightarrow> queries)"

record weight_datum =
  wd_key :: "string option"
  wd_featureName :: string
  wd_party :: string
  wd_featureWeight :: number

record linear_model =
  lm_modelHash :: string
  lm_featureWeights :: "weight_datum list option"
  lm_bias :: number

definition modelModificationsSerializer :: "linear_model \<Rightarrow> linear_model" where
  "modelModificationsSerializer d =
     \<lparr>lm_modelHash = lm_modelHash d, lm_featureWeights = map_option (map (\<lambda>w. w\<lparr>wd_key := None\<rparr>)) (lm_featureWeights d),
      lm_bias = lm_bias d\<rparr>"

definition weight_key :: "weight_datum \<Rightarrow> string" where
  "weight_key w = wd_featureName w @ ''-'' @ wd_party w"

definition modelModificationsUnSerializer :: "linear_model option \<Rightarrow> linear_model option" where
  "modelModificationsUnSerializer v =
     (case v of
        None \<Rightarrow> None
      | Some d \<Rightarrow> Some \<lparr>lm_modelHash = lm_modelHash d,
          lm_featureWeights = map_option (map (\<lambda>w. w\<lparr>wd_key := Some (weight_key w)\<rparr>)) (lm_featureWeights d), lm_bias = lm_bias d\<rparr>)"

datatype serializer_kind = FeatureColumnForm | CaseWhenForm | CalculateForm | GroupByForm | BinningForm | LinearModelForm

definition customSerializerRegistry :: "(string \<times> serializer_kind) list" where
  "customSerializerRegistry =
     [(''feature_column_config_pb2.FeatureColumnConfig'', FeatureColumnForm), (''case_when_rules_pb2.CaseWhenRule'', CaseWhenForm),
      (''calculate_rules_pb2.CalculateOpRules'', CalculateForm),
      (''groupby_aggregation_config_pb2.GroupbyAggregationConfig'', GroupByForm),
      (''Binning_modifications'', BinningForm), (''linear_model_pb2'', LinearModelForm)]"

definition getCustomSerializer :: "string option \<Rightarrow> serializer_kind option" where
  "getCustomSerializer cls = (if truthy cls then map_of customSerializerRegistry (the cls) else None)"

definition DRAWER_EDITED_PROTOBUF_CLS :: "string list" where
  "DRAWER_EDITED_PROTOBUF_CLS = [''Binning_modifications'', ''linear_model_pb2'']"

section \<open>What comes back\<close>

text \<open>The connections of a rule come back where they were when every condition but the last ones has one.\<close>

definition connected_first :: "case_cond list \<Rightarrow> bool" where
  "connected_first cs \<longleftrightarrow>
     list_all (\<lambda>c. cd_connection c = None) (dropWhile (\<lambda>c. truthy (cd_connection c)) cs)"

lemma connect_back:
  "connected_first cs \<Longrightarrow>
   connect_conds (List.map_filter (\<lambda>c. if truthy (cd_connection c) then cd_connection c else None) cs)
     (map (\<lambda>c. c\<lparr>cd_connection := None\<rparr>) cs) = cs"
proof (induction cs)
  case (Cons c cs)
  show ?case
  proof (cases "truthy (cd_connection c)")
    case True
    then obtain k where k: "cd_connection c = Some k" by (auto simp: truthy_iff)
    have "connected_first cs" using Cons.prems True by (simp add: connected_first_def)
    then show ?thesis using Cons.IH True k by (simp add: List.map_filter_simps)
  next
    case False
    then have none: "list_all (\<lambda>c. cd_connection c = None) (c # cs)" using Cons.prems by (simp add: connected_first_def)
    then have "List.map_filter (\<lambda>c. if truthy (cd_connection c) then cd_connection c else None) (c # cs) = []"
      by (induction "c # cs") (auto simp: List.map_filter_def filter_empty_conv list_all_iff)
    moreover have "map (\<lambda>c. c\<lparr>cd_connection := None\<rparr>) (c # cs) = c # cs"
      by (rule map_idI) (use none in \<open>auto simp: list_all_iff\<close>)
    ultimately show ?thesis by (metis connect_conds.simps(2))
  qed
qed (simp add: List.map_filter_simps)

definition rule_form :: "case_when case_form \<Rightarrow> bool" where
  "rule_form f \<longleftrightarrow> (\<exists>ws. cf_whens f = Some ws \<and> list_all (\<lambda>w. cw_when w \<noteq> None \<and>
     (\<exists>cs. cw_conds w = Some cs \<and> connected_first cs)) ws)"

lemma load_save_when:
  assumes "cw_when w \<noteq> None" "cw_conds w = Some cs" "connected_first cs"
  shows "load_when (save_when w) = w"
proof -
  have "map (\<lambda>c. nullish c empty_cond) (map (\<lambda>c. Some (c\<lparr>cd_connection := None\<rparr>)) cs) = map (\<lambda>c. c\<lparr>cd_connection := None\<rparr>) cs"
    by simp
  then show ?thesis using assms connect_back [OF assms(3)] by (auto simp: load_when_def save_when_def Let_def comp_def)
qed

lemma rules_return: "rule_form f \<Longrightarrow> caseWhenUnserializer (Some (caseWhenSerializer f)) = f"
proof -
  assume "rule_form f"
  then obtain ws where ws: "cf_whens f = Some ws"
      "list_all (\<lambda>w. cw_when w \<noteq> None \<and> (\<exists>cs. cw_conds w = Some cs \<and> connected_first cs)) ws"
    by (auto simp: rule_form_def)
  have "map load_when (map save_when ws) = ws"
    using ws(2) by (auto simp: list_all_iff load_save_when intro!: map_idI)
  then show ?thesis using ws(1) by (cases ws) (simp_all add: caseWhenSerializer_def caseWhenUnserializer_def)
qed

text \<open>A condition without a connection before one that has it: the connection moves.\<close>

lemma connection_moves:
  "\<exists>w. cw_when w \<noteq> None \<and> map_option (map cd_connection) (cw_conds w) = Some [None, Some ''OR''] \<and>
     map_option (map cd_connection) (cw_conds (load_when (save_when w))) = Some [Some ''OR'', None]"
  by (intro exI [of _ "\<lparr>cw_when = Some empty_cond, cw_conds = Some [empty_cond, empty_cond\<lparr>cd_connection := Some ''OR''\<rparr>], cw_then = Undefined\<rparr>"])
     (simp add: load_when_def save_when_def empty_cond_def Let_def List.map_filter_simps)

lemma set_prop_same: "map_of ob k = Some v \<Longrightarrow> set_prop k v ob = ob"
  by (induction ob) (auto split: if_splits)

lemma string_of_texts: "string_of (JArr (map JStr cs)) = join_with '','' cs"
  by (simp add: comp_def)

lemma calculation_returns:
  assumes "map_of form ''newColNames'' = Some (JStr (join_with '','' cs))" "cs \<noteq> []"
    and "list_all (\<lambda>c. c \<noteq> '''' \<and> CHR '','' \<notin> set c) cs"
  shows "\<exists>saved. calculateSerializer form = Some saved \<and> get_prop saved ''newColNames'' = JArr (map JStr cs) \<and>
    calculateUnserializer (Some saved) = form"
proof -
  have "join_with '','' cs \<noteq> ''''" using assms(2,3) by (cases cs; cases "tl cs") auto
  moreover have "split_on CHR '','' (join_with '','' cs) = cs" using split_join [of cs "CHR '',''"] assms(2,3) by (simp add: list_all_iff)
  then have "keep_columns (join_with '','' cs) = cs" using assms(3) by (auto simp: keep_columns_def list_all_iff intro!: filter_eq_self)
  ultimately show ?thesis
    using assms(1) by (simp add: calculateSerializer_def calculateUnserializer_def get_prop_def Let_def string_of_texts set_prop_same del: string_of.simps)
qed

lemma weights_return:
  "lm_featureWeights d = Some ws \<Longrightarrow> list_all (\<lambda>w. wd_key w = Some (weight_key w)) ws \<Longrightarrow>
   modelModificationsUnSerializer (Some (modelModificationsSerializer d)) = Some d"
proof -
  assume a: "lm_featureWeights d = Some ws" "list_all (\<lambda>w. wd_key w = Some (weight_key w)) ws"
  have "map (\<lambda>w. w\<lparr>wd_key := Some (weight_key w)\<rparr>) (map (\<lambda>w. w\<lparr>wd_key := None\<rparr>) ws) = ws"
    unfolding map_map by (rule map_idI) (use a(2) in \<open>auto simp: list_all_iff weight_key_def\<close>)
  then show ?thesis using a(1) by (simp add: modelModificationsUnSerializer_def modelModificationsSerializer_def)
qed

lemma drawer_forms: "list_all (\<lambda>c. getCustomSerializer (Some c) \<in> {Some BinningForm, Some LinearModelForm}) DRAWER_EDITED_PROTOBUF_CLS"
  by code_simp

end
