(* ===== verification/AttrData.thy ===== *)
theory AttrData
  imports GraphAdapter NodeOutput
begin

text \<open>
  Where the drop-down lists of the attribute form come from,
  \<open>web/apps/secretpad/src/pages/dag/attr-data-provider.ts\<close>, with \<open>directUpstream\<close> of
  \<open>graph-model.ts\<close>.  The services are functions: \<open>pv_output node output\<close> and
  \<open>pv_tableColumns owner table\<close> are the answers, \<open>None\<close> when the call is rejected.

  Columns are asked for along the edges, against their direction, by promises that are kept in a
  map: the first request for a node and an anchor is the one that counts, and \<open>pv_depth\<close> is the
  depth of that request.  A promise for a node on a cycle waits for itself; the fuel of
  \<open>columnsOfOutput\<close> is the length of the chains of promises, and \<open>None\<close> a promise that has not
  settled within it.
\<close>

section \<open>The nodes before a node\<close>

record upstream =
  up_nodeId :: string
  up_sourceAnchor :: "string option"
  up_inputIndex :: nat

definition upstream_of_edge :: "graph_edge \<Rightarrow> upstream" where
  "upstream_of_edge e = \<lparr>up_nodeId = edge_source e, up_sourceAnchor = source_anchor e,
     up_inputIndex = (case parseAnchor (target_anchor e) of None \<Rightarrow> 0 | Some (n, g, i) \<Rightarrow> i)\<rparr>"

definition directUpstream :: "string \<Rightarrow> graph_edge list \<Rightarrow> upstream list" where
  "directUpstream nodeId edges = sort_key up_inputIndex (map upstream_of_edge (filter (\<lambda>e. edge_target e = nodeId) edges))"

lemma directUpstream_set: "set (directUpstream n es) = upstream_of_edge ` {e \<in> set es. edge_target e = n}"
  by (auto simp: directUpstream_def)

lemma directUpstream_mset:
  "mset (directUpstream n es) = image_mset upstream_of_edge (filter_mset (\<lambda>e. edge_target e = n) (mset es))"
  by (simp add: directUpstream_def)

lemma directUpstream_sorted: "sorted (map up_inputIndex (directUpstream n es))"
  by (simp add: directUpstream_def)

section \<open>The answers of the services\<close>

record provider =
  pv_parse :: "string \<Rightarrow> jsval option"
  pv_nesting :: nat
  pv_output :: "string \<Rightarrow> string \<Rightarrow> jsval option"
  pv_tableColumns :: "string \<Rightarrow> string \<Rightarrow> (string \<times> string option) list option"
  pv_project :: "project_detail option"
  pv_depth :: "string \<Rightarrow> string option \<Rightarrow> nat"

record column_option =
  co_name :: string
  co_type :: "string option"
  co_party :: "string option"

definition READ_DATA_NODE :: string where "READ_DATA_NODE = ''read_data/datatable''"

definition text_field :: "jsval \<Rightarrow> string \<Rightarrow> string option" where
  "text_field v k = (case v of JObj ob \<Rightarrow> (case get_prop ob k of JStr s \<Rightarrow> Some s | _ \<Rightarrow> None) | _ \<Rightarrow> None)"

definition selectedDatatableId :: "dag_node option \<Rightarrow> string option" where
  "selectedDatatableId node =
     (case Option.bind node node_def of
        None \<Rightarrow> None
      | Some d \<Rightarrow>
          (case get_prop d ''attrs'' of
             JArr attrs \<Rightarrow>
               (let paths = (case get_prop d ''attrPaths'' of JArr ps \<Rightarrow> ps | _ \<Rightarrow> []);
                    i = (if JStr ''datatable_selected'' \<in> set paths
                         then length (takeWhile (\<lambda>p. p \<noteq> JStr ''datatable_selected'') paths) else 0);
                    s = Option.bind (at_opt attrs i) (\<lambda>a. text_field a ''s'')
                in if truthy s then s else None)
           | _ \<Rightarrow> None))"

definition project_nodes :: "provider \<Rightarrow> project_party list" where
  "project_nodes pv = (case pv_project pv of None \<Rightarrow> [] | Some p \<Rightarrow> pd_nodes p)"

definition ownerOfTable :: "provider \<Rightarrow> string \<Rightarrow> string option" where
  "ownerOfTable pv t =
     map_option pp_nodeId (List.find (\<lambda>n. list_ex (\<lambda>d. pt_id d = t) (pp_datatables n)) (project_nodes pv))"

definition byId :: "dag_node list \<Rightarrow> string \<Rightarrow> dag_node option" where
  "byId nodes i = List.find (\<lambda>n. node_id n = i) nodes"

definition output_of :: "dag_node \<Rightarrow> string option \<Rightarrow> string option" where
  "output_of u anchor = (if truthy anchor then anchor else Option.bind (node_outputs u) (\<lambda>xs. at_opt xs 0))"

text \<open>A rejected fetch is \<open>Some None\<close>; \<open>None\<close> is an answer nested deeper than \<open>pv_nesting\<close>.\<close>

definition fetched :: "provider \<Rightarrow> string \<Rightarrow> string \<Rightarrow> node_output option option option" where
  "fetched pv n out =
     (case pv_output pv n out of None \<Rightarrow> Some None | Some raw \<Rightarrow> map_option Some (normalizeOutput (pv_nesting pv) (pv_parse pv) raw))"

definition row_columns :: "node_output option \<Rightarrow> column_option list" where
  "row_columns out =
     (case out of
        None \<Rightarrow> []
      | Some r \<Rightarrow> concat (map (\<lambda>row. map (\<lambda>(i, f). \<lparr>co_name = f, co_type = at_opt (ow_columnTypes row) i, co_party = ow_nodeId row\<rparr>)
          (enumerate 0 (ow_columns row))) (no_rows r)))"

section \<open>The columns of an output\<close>

text \<open>
  What a promise of \<open>memo\<close> settles to: a rejection is turned into \<open>undefined\<close> (\<open>None\<close>).  \<open>flat\<close>
  takes arrays apart and keeps \<open>undefined\<close> as an element, so the elements are optional too.
\<close>

type_synonym promised = "column_option option list option"

definition flat_part :: "promised \<Rightarrow> column_option option list" where
  "flat_part p = (case p of None \<Rightarrow> [None] | Some xs \<Rightarrow> xs)"

definition table_columns :: "provider \<Rightarrow> dag_node \<Rightarrow> promised" where
  "table_columns pv u =
     (let t = selectedDatatableId (Some u); owner = Option.bind t (ownerOfTable pv) in
      if t = None \<or> \<not> truthy owner then Some []
      else map_option (map (\<lambda>(n, ty). Some \<lparr>co_name = n, co_type = ty, co_party = owner\<rparr>)) (pv_tableColumns pv (the owner) (the t)))"

text \<open>The columns the output itself names: \<open>Some None\<close> when fetching it was rejected.\<close>

definition own_columns :: "provider \<Rightarrow> dag_node \<Rightarrow> string option \<Rightarrow> column_option list option option" where
  "own_columns pv u anchor =
     (let outputId = output_of u anchor in
      if \<not> truthy outputId then Some (Some [])
      else map_option (map_option row_columns) (fetched pv (node_id u) (the outputId)))"

primrec columnsOfOutput ::
  "nat \<Rightarrow> provider \<Rightarrow> dag_node list \<Rightarrow> graph_edge list \<Rightarrow> dag_node \<Rightarrow> string option \<Rightarrow> promised option" where
  "columnsOfOutput 0 pv nodes edges u anchor = None"
| "columnsOfOutput (Suc n) pv nodes edges u anchor =
     (if node_codeName u = Some READ_DATA_NODE then Some (table_columns pv u)
      else
        (case own_columns pv u anchor of
           None \<Rightarrow> None
         | Some None \<Rightarrow> Some None
         | Some (Some cols) \<Rightarrow>
             if cols \<noteq> [] then Some (Some (map Some cols))
             else if pv_depth pv (node_id u) anchor > 10 then Some (Some [])
             else map_option (\<lambda>rs. Some (concat (map flat_part rs)))
               (those (map (\<lambda>up. case byId nodes (up_nodeId up) of None \<Rightarrow> Some (Some [])
                   | Some m \<Rightarrow> columnsOfOutput n pv nodes edges m (up_sourceAnchor up)) (directUpstream (node_id u) edges)))))"

section \<open>What the form asks for\<close>

definition option_key :: "column_option \<Rightarrow> string" where
  "option_key c = co_name c @ [CHR 0x00] @ nullish (co_party c) ''''"

fun dedupe :: "string list \<Rightarrow> column_option list \<Rightarrow> column_option list" where
  "dedupe seen [] = []"
| "dedupe seen (c # cs) =
     (if option_key c \<in> set seen then dedupe seen cs else c # dedupe (option_key c # seen) cs)"

definition upstreamOf :: "dag_node \<Rightarrow> graph_edge list \<Rightarrow> nat option \<Rightarrow> upstream list" where
  "upstreamOf node edges i =
     (let ups = directUpstream (node_id node) edges in
      case i of None \<Rightarrow> ups | Some k \<Rightarrow> filter (\<lambda>u. up_inputIndex u = k) ups)"

text \<open>\<open>Some None\<close> is a rejected promise: \<open>dedupe\<close> reads the name of an element that is \<open>undefined\<close>.\<close>

definition fetchColumns ::
  "nat \<Rightarrow> provider \<Rightarrow> dag_node list \<Rightarrow> graph_edge list \<Rightarrow> dag_node \<Rightarrow> nat option \<Rightarrow> column_option list option option" where
  "fetchColumns n pv nodes edges node i =
     map_option (\<lambda>rs. let cols = concat (map flat_part rs) in if None \<in> set cols then None else Some (dedupe [] (map the cols)))
       (those (map (\<lambda>up. case byId nodes (up_nodeId up) of None \<Rightarrow> Some (Some [])
           | Some m \<Rightarrow> columnsOfOutput n pv nodes edges m (up_sourceAnchor up)) (upstreamOf node edges i)))"

definition fetchTables :: "provider \<Rightarrow> (string \<times> string) list" where
  "fetchTables pv = concat (map (\<lambda>n. map (\<lambda>t.
      (pt_id t, str_or (pt_name t) (pt_id t) @ '' ('' @ str_or (pp_nodeName n) (pp_nodeId n) @ '')'')) (pp_datatables n)) (project_nodes pv))"

definition party_name :: "provider \<Rightarrow> string \<Rightarrow> string" where
  "party_name pv i = str_or (Option.bind (List.find (\<lambda>p. pp_nodeId p = i) (project_nodes pv)) pp_nodeName) i"

text \<open>One step of the loop over the upstream nodes; \<open>parties\<close> is the map, in the order of its keys.\<close>

definition parties_of_rows :: "output_row list \<Rightarrow> (string \<times> string) list \<Rightarrow> (string \<times> string) list" where
  "parties_of_rows rows parties =
     foldl (\<lambda>ps r. if truthy (ow_nodeId r) then set_prop (the (ow_nodeId r)) (str_or (ow_nodeName r) (the (ow_nodeId r))) ps else ps)
       parties rows"

definition upstream_parties ::
  "provider \<Rightarrow> dag_node list \<Rightarrow> (string \<times> string) list \<Rightarrow> upstream \<Rightarrow> (string \<times> string) list option option" where
  "upstream_parties pv nodes parties u =
     (case byId nodes (up_nodeId u) of
        None \<Rightarrow> Some (Some parties)
      | Some m \<Rightarrow>
          if node_codeName m = Some READ_DATA_NODE then
            (let owner = Option.bind (selectedDatatableId (Some m)) (ownerOfTable pv) in
             Some (Some (if truthy owner then set_prop (the owner) (party_name pv (the owner)) parties else parties)))
          else if \<not> truthy (output_of m (up_sourceAnchor u)) then Some (Some parties)
          else map_option (map_option (\<lambda>out. case out of None \<Rightarrow> parties | Some r \<Rightarrow> parties_of_rows (no_rows r) parties))
                 (fetched pv (node_id m) (the (output_of m (up_sourceAnchor u)))))"

primrec all_parties ::
  "provider \<Rightarrow> dag_node list \<Rightarrow> upstream list \<Rightarrow> (string \<times> string) list \<Rightarrow> (string \<times> string) list option option" where
  "all_parties pv nodes [] parties = Some (Some parties)"
| "all_parties pv nodes (u # us) parties =
     (case upstream_parties pv nodes parties u of
        None \<Rightarrow> None | Some None \<Rightarrow> Some None | Some (Some ps) \<Rightarrow> all_parties pv nodes us ps)"

definition fetchParties ::
  "provider \<Rightarrow> dag_node list \<Rightarrow> graph_edge list \<Rightarrow> dag_node \<Rightarrow> bool \<Rightarrow> (string \<times> string) list option option" where
  "fetchParties pv nodes edges node from_upstream =
     (if from_upstream then all_parties pv nodes (upstreamOf node edges None) []
      else Some (Some (map (\<lambda>n. (pp_nodeId n, str_or (pp_nodeName n) (pp_nodeId n))) (project_nodes pv))))"

record upstream_features =
  uf_tableName :: string
  uf_tableFeatures :: "string list"
  uf_nodeName :: string

text \<open>\<open>byParty\<close>: the names of the columns of every party, parties in the order they first occur.\<close>

definition by_party :: "column_option list \<Rightarrow> (string \<times> string list) list" where
  "by_party cols = foldl (\<lambda>m c. let p = str_or (co_party c) '''' in
       set_prop p (nullish (map_of m p) [] @ [co_name c]) m) [] cols"

definition underscored :: "string \<Rightarrow> string" where
  "underscored s = map (\<lambda>c. if c = CHR ''-'' then CHR ''_'' else c) s"

definition features_of_upstream ::
  "provider \<Rightarrow> bool \<Rightarrow> string \<Rightarrow> dag_node \<Rightarrow> upstream \<Rightarrow> column_option list \<Rightarrow> upstream_features list" where
  "features_of_upstream pv sample baseName m u cols =
     map (\<lambda>(party, feats).
         let tableId = (if sample then selectedDatatableId (Some m) else Some baseName);
             t = str_or tableId (case parseAnchor (up_sourceAnchor u) of None \<Rightarrow> '''' | Some (n, g, i) \<Rightarrow> n)
         in \<lparr>uf_tableName = underscored (party @ ''_'' @ t), uf_tableFeatures = feats,
             uf_nodeName = party_name pv party\<rparr>)
       (by_party cols)"

text \<open>The loop over the upstream nodes waits for one after the other and ends at the first rejection.\<close>

primrec in_turn :: "'a list option option list \<Rightarrow> 'a list option option" where
  "in_turn [] = Some (Some [])"
| "in_turn (p # ps) =
     (case p of None \<Rightarrow> None | Some None \<Rightarrow> Some None | Some (Some xs) \<Rightarrow> map_option (map_option ((@) xs)) (in_turn ps))"

definition fetchUpstreamFeatures ::
  "nat \<Rightarrow> provider \<Rightarrow> dag_node list \<Rightarrow> graph_edge list \<Rightarrow> dag_node \<Rightarrow> upstream_features list option option" where
  "fetchUpstreamFeatures n pv nodes edges node =
     (let ups = upstreamOf node edges None;
          sample = (case ups of [] \<Rightarrow> False | u # _ \<Rightarrow> Option.bind (byId nodes (up_nodeId u)) node_codeName = Some READ_DATA_NODE);
          baseName = str_or (Option.bind (node_inputs node) (\<lambda>xs. at_opt xs 0))
            (case ups of [] \<Rightarrow> '''' | u # _ \<Rightarrow> str_or (up_sourceAnchor u) '''')
      in in_turn (map (\<lambda>u. case byId nodes (up_nodeId u) of
             None \<Rightarrow> Some (Some [])
           | Some m \<Rightarrow> map_option (\<lambda>cols. if None \<in> set (flat_part cols) then None
               else Some (features_of_upstream pv sample baseName m u (map the (flat_part cols))))
               (columnsOfOutput n pv nodes edges m (up_sourceAnchor u))) ups))"

section \<open>Every request for columns ends\<close>

lemma those_None: "those xs = None \<longleftrightarrow> None \<in> set xs"
  by (induction xs) (auto split: option.split)

lemma those_Some: "those xs = Some ys \<longleftrightarrow> xs = map Some ys"
  by (induction xs arbitrary: ys) (auto split: option.splits simp: map_eq_Cons_conv)

text \<open>The answer of an upstream node, with the fuel \<open>n\<close>.\<close>

definition asked :: "nat \<Rightarrow> provider \<Rightarrow> dag_node list \<Rightarrow> graph_edge list \<Rightarrow> upstream \<Rightarrow> promised option" where
  "asked n pv nodes edges up = (case byId nodes (up_nodeId up) of None \<Rightarrow> Some (Some [])
     | Some m \<Rightarrow> columnsOfOutput n pv nodes edges m (up_sourceAnchor up))"

lemma columns_Suc: "columnsOfOutput (Suc n) pv nodes edges u anchor =
     (if node_codeName u = Some READ_DATA_NODE then Some (table_columns pv u)
      else
        (case own_columns pv u anchor of
           None \<Rightarrow> None
         | Some None \<Rightarrow> Some None
         | Some (Some cols) \<Rightarrow>
             if cols \<noteq> [] then Some (Some (map Some cols))
             else if pv_depth pv (node_id u) anchor > 10 then Some (Some [])
             else map_option (\<lambda>rs. Some (concat (map flat_part rs)))
               (those (map (asked n pv nodes edges) (directUpstream (node_id u) edges)))))"
  unfolding asked_def [abs_def] by (rule columnsOfOutput.simps(2))

declare columnsOfOutput.simps(2) [simp del]

lemma asked_more:
  "(\<And>u anchor r. columnsOfOutput n pv nodes edges u anchor = Some r \<Longrightarrow> columnsOfOutput m pv nodes edges u anchor = Some r) \<Longrightarrow>
   those (map (asked n pv nodes edges) ups) = Some rs \<Longrightarrow> those (map (asked m pv nodes edges) ups) = Some rs"
  by (induction ups arbitrary: rs) (auto simp: asked_def split: option.splits)

lemma more_fuel: "columnsOfOutput n pv nodes edges u anchor = Some r \<Longrightarrow> columnsOfOutput (Suc n) pv nodes edges u anchor = Some r"
proof (induction n arbitrary: u anchor r)
  case (Suc n)
  note more = asked_more [OF Suc.IH]
  show ?case
    using Suc.prems more unfolding columns_Suc [of n] columns_Suc [of "Suc n"]
    by (auto split: if_splits option.splits)
qed simp

lemma enough_fuel: "columnsOfOutput n pv nodes edges u anchor = Some r \<Longrightarrow> n \<le> m \<Longrightarrow> columnsOfOutput m pv nodes edges u anchor = Some r"
  by (induction m) (auto simp: le_Suc_eq more_fuel)

lemma asked_enough:
  assumes "asked n pv nodes edges up = Some r" "n \<le> m"
  shows "asked m pv nodes edges up = Some r"
proof (cases "byId nodes (up_nodeId up)")
  case (Some k)
  then show ?thesis using enough_fuel [of n pv nodes edges k "up_sourceAnchor up" r m] assms by (simp add: asked_def)
qed (insert assms, simp add: asked_def)

text \<open>Every answer can be read with the depth \<open>pv_nesting\<close>.\<close>

definition readable :: "provider \<Rightarrow> bool" where
  "readable pv \<longleftrightarrow> (\<forall>n out raw. pv_output pv n out = Some raw \<longrightarrow> normalizeOutput (pv_nesting pv) (pv_parse pv) raw \<noteq> None)"

lemma readable_own: "readable pv \<Longrightarrow> own_columns pv u anchor \<noteq> None"
  by (auto simp: own_columns_def Let_def fetched_def readable_def split: option.splits)

lemma all_asked:
  "\<forall>up \<in> set us. \<exists>n. asked n pv nodes edges up \<noteq> None \<Longrightarrow> \<exists>n. \<forall>up \<in> set us. asked n pv nodes edges up \<noteq> None"
proof (induction us)
  case (Cons up us)
  then obtain n k where nk: "\<forall>up \<in> set us. asked n pv nodes edges up \<noteq> None" "asked k pv nodes edges up \<noteq> None" by force
  have "asked (max n k) pv nodes edges x \<noteq> None" if j: "asked j pv nodes edges x \<noteq> None" "j \<le> max n k" for x j
  proof -
    obtain r where "asked j pv nodes edges x = Some r" using j(1) by auto
    from asked_enough [OF this j(2)] show ?thesis by simp
  qed
  from this [of n] this [of k] have "\<forall>up \<in> set (up # us). asked (max n k) pv nodes edges up \<noteq> None"
    using nk by (metis max.cobounded1 max.cobounded2 set_ConsD)
  then show ?case by blast
qed simp

lemma columns_settle:
  assumes "readable pv" "acyclic (edge_rel edges)"
  shows "\<exists>n. columnsOfOutput n pv nodes edges u anchor \<noteq> None"
proof -
  have "wf (edge_rel edges)" using assms(2) by (intro finite_acyclic_wf) (simp_all add: edge_rel_def)
  then have "\<forall>u anchor. node_id u = i \<longrightarrow> (\<exists>n. columnsOfOutput n pv nodes edges u anchor \<noteq> None)" for i
  proof (induction i rule: wf_induct_rule)
    case (less i)
    have "\<exists>n. asked n pv nodes edges up \<noteq> None" if "up \<in> set (directUpstream i edges)" for up
    proof -
      have r: "(up_nodeId up, i) \<in> edge_rel edges"
        using that by (auto simp: directUpstream_set upstream_of_edge_def edge_rel_def)
      show ?thesis
      proof (cases "byId nodes (up_nodeId up)")
        case (Some m)
        then have "node_id m = up_nodeId up" by (auto simp: byId_def find_Some_iff)
        then show ?thesis using less.IH [OF r] Some by (auto simp: asked_def)
      qed (simp add: asked_def)
    qed
    then obtain n where "\<forall>up \<in> set (directUpstream i edges). asked n pv nodes edges up \<noteq> None"
      using all_asked [of "directUpstream i edges" pv nodes edges] by blast
    then have "those (map (asked n pv nodes edges) (directUpstream i edges)) \<noteq> None" by (auto simp: those_None)
    then have "node_id u = i \<Longrightarrow> columnsOfOutput (Suc n) pv nodes edges u anchor \<noteq> None" for u anchor
      using readable_own [OF assms(1), of u anchor] unfolding columns_Suc by (auto split: option.splits)
    then show ?case by blast
  qed
  then show ?thesis by blast
qed

lemma fetchColumns_asked: "fetchColumns n pv nodes edges node i =
  map_option (\<lambda>rs. let cols = concat (map flat_part rs) in if None \<in> set cols then None else Some (dedupe [] (map the cols)))
    (those (map (asked n pv nodes edges) (upstreamOf node edges i)))"
  by (simp add: fetchColumns_def asked_def [abs_def])

lemma fetchColumns_settles:
  assumes "readable pv" "acyclic (edge_rel edges)"
  shows "\<exists>n. fetchColumns n pv nodes edges node i \<noteq> None"
proof -
  have "\<exists>n. asked n pv nodes edges up \<noteq> None" for up
  proof (cases "byId nodes (up_nodeId up)")
    case (Some m)
    then show ?thesis using columns_settle [OF assms, of nodes m "up_sourceAnchor up"] by (simp add: asked_def)
  qed (simp add: asked_def)
  then obtain n where "\<forall>up \<in> set (upstreamOf node edges i). asked n pv nodes edges up \<noteq> None"
    using all_asked [of "upstreamOf node edges i" pv nodes edges] by blast
  then have "those (map (asked n pv nodes edges) (upstreamOf node edges i)) \<noteq> None" by (auto simp: those_None)
  then show ?thesis by (auto simp: fetchColumns_asked)
qed

section \<open>The list of columns\<close>

lemma dedupe_keys: "option_key ` set (dedupe seen cs) = option_key ` set cs - set seen"
  by (induction cs arbitrary: seen) auto

lemma dedupe_distinct: "distinct (map option_key (dedupe seen cs))"
proof (induction cs arbitrary: seen)
  case (Cons c cs)
  then show ?case using dedupe_keys [of "option_key c # seen" cs] by auto
qed simp

lemma dedupe_subset: "set (dedupe seen cs) \<subseteq> set cs"
  by (induction cs arbitrary: seen) auto

lemma defined_elements:
  assumes "None \<notin> set ys"
  shows "the ` set ys = {c. Some c \<in> set ys}"
proof (intro set_eqI iffI)
  fix c assume "c \<in> the ` set ys"
  then obtain x where x: "x \<in> set ys" "c = the x" by blast
  have "x \<noteq> None" using assms x(1) by metis
  then show "c \<in> {c. Some c \<in> set ys}" using x by auto
qed force

lemma columns_listed:
  assumes "fetchColumns n pv nodes edges node i = Some (Some cols)"
  shows "distinct (map option_key cols)"
    and "\<forall>up \<in> set (upstreamOf node edges i). \<exists>xs. asked n pv nodes edges up = Some (Some (map Some xs))"
    and "option_key ` set cols = option_key ` (\<Union>up \<in> set (upstreamOf node edges i). {c. Some c \<in> set (flat_part (the (asked n pv nodes edges up)))})"
proof -
  obtain rs where rs: "map (asked n pv nodes edges) (upstreamOf node edges i) = map Some rs"
      "\<forall>r \<in> set rs. None \<notin> set (flat_part r)" "cols = dedupe [] (map the (concat (map flat_part rs)))"
    using assms by (auto simp: fetchColumns_asked those_Some Let_def split: if_splits)
  have im: "asked n pv nodes edges ` set (upstreamOf node edges i) = Some ` set rs"
    using arg_cong [OF rs(1), of set] by simp
  show "distinct (map option_key cols)" by (simp add: rs(3) dedupe_distinct)
  have settled: "\<exists>xs. r = Some (map Some xs)" if r: "r \<in> set rs" for r
  proof -
    have n: "None \<notin> set (flat_part r)" using rs(2) r by blast
    then obtain ys where ys: "r = Some ys" by (cases r) (auto simp: flat_part_def)
    have "(Some \<circ> the) x = x" if "x \<in> set ys" for x
    proof -
      have "x \<noteq> None" using that n ys by (metis flat_part_def option.simps(5))
      then show ?thesis by auto
    qed
    then have "map Some (map the ys) = ys" by (simp add: map_idI)
    then show ?thesis using ys by metis
  qed
  show "\<forall>up \<in> set (upstreamOf node edges i). \<exists>xs. asked n pv nodes edges up = Some (Some (map Some xs))"
    using im settled by (metis (no_types, lifting) imageE image_eqI)
  have "set (map the (concat (map flat_part rs))) = (\<Union>r \<in> set rs. {c. Some c \<in> set (flat_part r)})"
  proof -
    have "set (map the (concat (map flat_part rs))) = (\<Union>r \<in> set rs. the ` set (flat_part r))" by (simp add: image_UN)
    also have "... = (\<Union>r \<in> set rs. {c. Some c \<in> set (flat_part r)})"
      using rs(2) by (intro SUP_cong refl) (simp add: defined_elements)
    finally show ?thesis .
  qed
  also have "... = (\<Union>a \<in> Some ` set rs. {c. Some c \<in> set (flat_part (the a))})" by simp
  also have "... = (\<Union>up \<in> set (upstreamOf node edges i). {c. Some c \<in> set (flat_part (the (asked n pv nodes edges up)))})"
    by (simp only: im [symmetric]) simp
  finally show "option_key ` set cols = option_key ` (\<Union>up \<in> set (upstreamOf node edges i). {c. Some c \<in> set (flat_part (the (asked n pv nodes edges up)))})"
    by (simp add: rs(3) dedupe_keys)
qed

text \<open>
  A rejected fetch is meant to count as no columns (\<open>catch(() => undefined)\<close>); \<open>undefined\<close> is an
  element of the list that is searched for duplicates, and the whole request is rejected.
\<close>

lemma one_failure_rejects_all:
  assumes "up \<in> set (upstreamOf node edges i)" "asked n pv nodes edges up = Some None"
    and "fetchColumns n pv nodes edges node i = Some r"
  shows "r = None"
proof (cases r)
  case (Some cols)
  with assms columns_listed(2) [of n pv nodes edges node i cols] show ?thesis by fastforce
qed

section \<open>Features by party\<close>

lemma by_party_snoc: "by_party (cs @ [c]) =
  (let p = str_or (co_party c) '''' in set_prop p (nullish (map_of (by_party cs) p) [] @ [co_name c]) (by_party cs))"
  by (simp add: by_party_def)

lemma by_party_lookup:
  "nullish (map_of (by_party cols) p) [] = map co_name (filter (\<lambda>c. str_or (co_party c) '''' = p) cols)"
proof (induction cols rule: rev_induct)
  case (snoc c cs)
  then show ?case by (auto simp: by_party_snoc Let_def)
qed (simp add: by_party_def)

lemma by_party_distinct: "distinct (map fst (by_party cols))"
proof (induction cols rule: rev_induct)
  case (snoc c cs)
  then show ?case by (simp add: by_party_snoc Let_def distinct_set_prop)
qed (simp add: by_party_def)

end
