(* ===== verification/Spec2Isabelle.thy ===== *)
theory Spec2Isabelle
  imports Polling GraphImport TemplateRegistry Access ComponentConfig CanvasSession GraphEditor ModelChain Sm3 Utils Serializers Refresh Schedule CreateProject Report Datatable DataSource QuickConfig TemplateWizard DataAuth P2pProjects NodeTools NodeOutput RuleForms AttrData
begin

text \<open>  The web console of PrivaHub (\<open>web/\<close>): a canvas on which a privacy-computing pipeline is drawn, the
  templates that fill it, the hooks that save and run it, and the pages around it.  The development
  models the parts of the TypeScript sources that decide something; a definition has the name of
  the function it models.  File names below are relative to \<open>web/packages/\<close> (\<open>dag-next\<close>, \<open>utils\<close>,
  \<open>api-client\<close>) or \<open>web/apps/secretpad/src/\<close> (\<open>pages\<close>, \<open>features\<close>, \<open>shared\<close>).

  How the parts interact.  The page \<open>pages/dag\<close> asks the graph service for a graph, turns the
  answer into a canvas, hands every change of the canvas to the hook that saves it, and polls the
  states of the nodes while a job runs.  The canvas keeps its nodes, edges, undo and redo stacks and
  accepts an edge only if the connection rules allow it.  Templates build a graph from a
  configuration that a wizard, the quick-configuration drawer or the project wizard derives from a
  form.  Every request passes the session middleware, which repairs an expired session once.

  The canvas (\<open>dag-next/src\<close>).
  \<open>Prelude\<close> holds what the sources use of the language; \<open>Worklist\<close> the graph traversals, once, as
  reachability, behind a locale that the traversals of the sources interpret.  \<open>GraphModel\<close>,
  \<open>Connection\<close> and \<open>GraphImport\<close> are \<open>graph-model.ts\<close>; \<open>Canvas\<close>, \<open>CanvasEditor\<close> and \<open>TidyLayout\<close>
  are the operations of \<open>index.tsx\<close>, each a function from canvas state to canvas state, and
  \<open>CanvasSession\<close> the states a user can reach with them (identifiers distinct, edges between ports
  that exist, one edge for each input, no cycle; the stacks refine a linear history of versions).
  \<open>Status\<close> is \<open>status.ts\<close> and its second normaliser in \<open>client.ts\<close>.  \<open>JsValue\<close>, \<open>JsConvert\<close> and
  \<open>Decimals\<close> are values of type \<open>unknown\<close> and the conversions between numbers and texts;
  \<open>ComponentConfig\<close> is \<open>component-config.ts\<close> (normalisation, validation, registries), \<open>Serializers\<close>
  and \<open>RuleForms\<close> are \<open>custom-serializers.ts\<close>, \<open>Report\<close> and \<open>NodeOutput\<close> are \<open>result/report.ts\<close> and
  \<open>result/output.ts\<close>.
  \<open>AttrData\<close> is \<open>pages/dag/attr-data-provider.ts\<close>: where the columns, tables and parties offered by
  the attribute form come from.

  The graph page (\<open>pages/dag\<close>).
  \<open>GraphApi\<close> reads the answers of \<open>api-client/src/ext/graph.ts\<close>, \<open>GraphAdapter\<close> and \<open>ModelChain\<close>
  are \<open>adapters.ts\<close>, \<open>GraphEditor\<close> is \<open>use-graph-editor.ts\<close> and \<open>Polling\<close> is \<open>use-node-status.ts\<close>:
  the refs of a hook are a record, every callback a step, and answers may arrive in any order.

  Templates (\<open>features/dag-templates\<close>).
  \<open>Builder\<close> is \<open>builder.ts\<close>, \<open>TemplateLayout\<close> is \<open>layout.ts\<close>, \<open>TemplateShape\<close> decides whether a
  template is wired correctly, \<open>TemplatesBasic\<close>, \<open>TemplatesModeling\<close>, \<open>TemplatesRisk\<close> and
  \<open>TemplatesTee\<close> are the 26 templates, \<open>TemplateRegistry\<close> is \<open>registry.ts\<close>, \<open>columns.ts\<close> and
  \<open>features/create-project/templates.ts\<close>, \<open>TemplateWizard\<close> is \<open>use-template-wizard.ts\<close>, and
  \<open>QuickConfig\<close> is \<open>dag-next/src/template-quick-config.tsx\<close> with \<open>pages/dag/quick-config.ts\<close>.

  Session and access.
  \<open>Access\<close> is \<open>shared/lib/platform.ts\<close>, \<open>shared/lib/access.ts\<close> and \<open>pages/dag/edit-permissions.ts\<close>;
  \<open>Session\<close> is \<open>session.ts\<close> and \<open>data-resource.ts\<close> of \<open>api-client\<close>; \<open>Refresh\<close> is the refresh of the
  session in \<open>session.ts\<close> and \<open>api.ts\<close> as an event system over requests, answers and timers.

  Forms and pages.
  \<open>Utils\<close> is \<open>password.ts\<close> and \<open>csv.ts\<close>, \<open>Sm3\<close> the hash of passwords on 32-bit words, \<open>Calendar\<close> and
  \<open>Schedule\<close> the periodic tasks (\<open>features/schedule-form/schedule.ts\<close>), \<open>CreateProject\<close> is
  \<open>features/create-project\<close>, \<open>Datatable\<close> is \<open>utils/src/datatable.ts\<close> with the models of upload and
  registration, \<open>DataSource\<close> is \<open>features/datasource-form/model.ts\<close>, \<open>DataAuth\<close> is
  \<open>pages/data-tables/auth-model.ts\<close> and \<open>pages/models/feature-mapping.ts\<close>, \<open>P2pProjects\<close> the helpers
  of \<open>pages/p2p/projects\<close> and \<open>pages/messages\<close>, \<open>NodeTools\<close> is \<open>token-expiry.ts\<close>, \<open>auth-code.ts\<close> and
  the helpers of periodic tasks.

  How the model reads the code.  The guards \<open>readOnly\<close> of the canvas operations are in \<open>editor_step\<close> (a read-only canvas takes no editing event); the
  definitions \<open>handleConnect\<close>, \<open>handleDeleteEdge\<close>, \<open>handleDeleteNodes\<close> and \<open>applyImportedGraph\<close> are
  the bodies behind them, without the optional interception of a connection by the host.  The index
  of an anchor is a natural number of any size, and only carriage return and line feed are line
  breaks.  A description that is not a text is dropped by \<open>column_def\<close>.  \<open>arrangeByPanelStyle\<close> finds
  the item it moves by its value.  \<open>number_text\<close> prints exact decimals without exponents.
  \<open>owns_node\<close>, \<open>canvas_ok\<close>, \<open>edge_ok\<close> and the like are predicates of the specification.

  What the lemmas show.  Invariants of the reachable states of the stateful parts (canvas session,
  autosave, polling, session refresh, column and feature authorisation); refinement of the undo and
  redo stacks to a version history; exact characterisations of every check (a form or connection is
  accepted if and only if ...); round trips of what is saved and read back; equality of optimised or
  duplicated routines with a reference (hash with the standard, the answers of both backends);
  termination of the loops; and, for the templates, that every node reads an output that exists,
  with the configuration it was given.

  Bounds and fuel.  The loop of \<open>getScheduledDatesWithinRange\<close> stops after 7320 candidates, as the
  code does, and \<open>long_ranges_schedulable\<close> shows when that is enough; the undo stack keeps
  \<open>HISTORY_LIMIT\<close> versions; \<open>parseReportTabs\<close> and \<open>normalizeOutput\<close> take a depth that bounds the
  nesting of texts that contain JSON, and the weight of the value is shown to suffice; the rounds of
  \<open>tidyLayout\<close> are bounded by the number of nodes, which is proved and not assumed.

  What is a parameter.  \<open>JSON.parse\<close>, \<open>Date.parse\<close>, the decoder of authorisation codes, the backend
  that answers calls, the server and the network are arguments of the definitions or events of the
  model.  Numbers are exact rationals with infinities and not-a-number (no rounding of binary
  fractions), local time has a fixed offset, texts are UTF-8 bytes with lengths counted in UTF-16
  units where the sources count them, \<open>trim\<close> removes the ASCII white space.  A value with a declared
  type is taken to have it; a value of type \<open>unknown\<close> is a \<open>jsval\<close>.

  Not modelled: the React views and their event wiring, translation dictionaries, the design system,
  the generated client and the readers of the other services, which copy fields, the Go backend
  (\<open>internal/\<close>, \<open>cmd/\<close>, \<open>pkg/\<close>), the orders that use \<open>localeCompare\<close>, and in autosave a replay whose
  fetch itself fails.
\<close>

section \<open>Sample data for the witnesses\<close>

definition demo_node :: "string \<Rightarrow> dag_node" where
  "demo_node n = \<lparr>node_id = n, node_name = '''', node_status = Ready, node_x = 0, node_y = 0,
     node_progress = None, node_codeName = None, node_def = None, node_inputs = Some [],
     node_outputs = Some [outputAnchor n 0],
     node_ports = Some [\<lparr>port_id = inputAnchor n 0, port_group = Input, port_index = 0, port_name = None, port_types = []\<rparr>,
                        \<lparr>port_id = outputAnchor n 0, port_group = Output, port_index = 0, port_name = None, port_types = []\<rparr>],
     node_results = None, node_category = ''unknown'', node_icon = [], node_configFinished = None\<rparr>"

definition demo_canvas :: canvas where
  "demo_canvas = \<lparr>canvas_nodes = [demo_node ''g-node-1'', demo_node ''g-node-2''], canvas_edges = []\<rparr>"

lemma demo_canvas_good: "canvas_good demo_canvas"
  by (simp add: canvas_good_def demo_canvas_def demo_node_def canvas_inv_def canvas_ok_def edges_known_def edge_rel_def
      acyclic_def deriveInputs_def)

definition demo_ctx :: conn_ctx where
  "demo_ctx = \<lparr>ctx_edges = [], ctx_portsOf = portsOf demo_canvas\<rparr>"

lemma show_nat_2: "show_nat 2 = ''2''"
  by code_simp

lemma show_nat_1: "show_nat (Suc 0) = ''1''"
  by code_simp

definition demo_file_nodes :: "dag_node list" where
  "demo_file_nodes = [demo_node ''x-node-1'', demo_node ''x-node-2'']"

definition demo_file_edges :: "graph_edge list" where
  "demo_file_edges = [connect ''x'' 1 0 2 0, connect ''y'' 1 0 2 0]"

lemma demo_file_ids: "proper_ids demo_file_nodes [''g-node-8'', ''g-node-9'']"
  by (simp add: proper_ids_def demo_file_nodes_def demo_node_def)

lemma demo_file_inner:
  "filter (\<lambda>e. edge_source e \<in> node_id ` set demo_file_nodes \<and> edge_target e \<in> node_id ` set demo_file_nodes) demo_file_edges =
   [connect ''x'' 1 0 2 0]"
  using show_nat_2 show_nat_1 by (simp add: demo_file_nodes_def demo_file_edges_def connect_def nodeId_def demo_node_def)

lemma demo_file_edge: "edge_ok (connect ''x'' 1 0 2 0)"
  using draw_edge_ok [of "''x''" "(1, 0, 2, 0)"] by (simp add: draw_edge_def no_line_break_def)

definition leak_configs :: configs where
  "leak_configs = no_configs\<lparr>cfg_receiverKey := Some (One ''id''), cfg_featureSelects := Some [''id'', ''a1'', ''y''],
     cfg_labelSelects := Some \<lparr>ls_s = Some ''y'', ls_ss = None\<rparr>\<rparr>"

lemma leak_features: "modeling_features leak_configs = [''a1'']"
  by code_simp

definition demo_value :: "int \<Rightarrow> attribute_value" where
  "demo_value i = \<lparr>av_f = None, av_i64 = Some (Fin (of_int i)), av_s = None, av_b = None, av_fs = None, av_i64s = None,
     av_ss = None, av_bs = None, av_is_na = None, av_custom_cls = None, av_custom_value = Undefined\<rparr>"

definition demo_int :: attribute_def where
  "demo_int = \<lparr>ad_prefixes = None, ad_name = Some ''n'', ad_desc = None, ad_type = JNum (Fin 2),
     ad_atomic = Some ((no_bounds (Some False))\<lparr>aa_lower_enabled := Some True, aa_lower := Some (demo_value 1)\<rparr>),
     ad_union = None, ad_custom_cls = Undefined, ad_fromInputIndex = None, ad_col_min = None, ad_col_max = None\<rparr>"

definition demo_node_def :: jsobj where
  "demo_node_def = [(''attrPaths'', JArr [JStr ''n'']), (''attrs'', JArr [JObj [(''i64'', JStr ''5'')]])]"

definition demo_account :: platform_context where
  "demo_account = \<lparr>platformType = EDGE, ownerType = ''EDGE'', ownerId = ''alice'', deployMode = ALL_IN_ONE\<rparr>"
definition demo_named :: canvas where
  "demo_named = \<lparr>canvas_nodes = [(demo_node ''g-node-1'')\<lparr>node_name := ''n'', node_codeName := Some ''ml.train/x''\<rparr>], canvas_edges = []\<rparr>"


definition demo_detail :: graph_detail where
  "demo_detail = \<lparr>gt_projectId = Some ''p'', gt_graphId = Some ''g'', gt_name = None,
     gt_nodes = [\<lparr>gd_id = ''g-node-1'', gd_codeName = Some ''data_prep/psi'', gd_label = None, gd_x = Some (Fin 1), gd_y = None,
       gd_inputs = None, gd_outputs = Some [''g-node-1-output-0''], gd_def = None, gd_status = Some ''SUCCEED'', gd_jobId = None,
       gd_taskId = None, gd_progress = None, gd_results = Undefined, gd_parties = Undefined\<rparr>],
     gt_edges = [], gt_maxParallelism = None, gt_dataSourceConfig = Undefined\<rparr>"

definition demo_bins :: raw_data where
  "demo_bins = \<lparr>rd_modelHash = ''h'', rd_variableBins =
     [\<lparr>rr_featureName = ''x1'', rr_validBinCount = 2, rr_iv = Some (Fin (3 / 10)), rr_featureType = ''numeric'',
       rr_validBins =
         [\<lparr>rb_markForMerge = Some False, rb_leftBound = BText ''-Infinity'', rb_rightBound = BNum (Fin (3 / 2)),
           rb_fillingValue = Some (Fin (- 1 / 5)), rb_totalCount = Some (Fin 10)\<rparr>,
          \<lparr>rb_markForMerge = Some True, rb_leftBound = BNum (Fin (3 / 2)), rb_rightBound = BText ''Infinity'',
           rb_fillingValue = Some (Fin (2 / 5)), rb_totalCount = Some (Fin 20)\<rparr>],
       rr_isWoe = True,
       rr_elseBin = Some \<lparr>rb_markForMerge = Some False, rb_leftBound = BNum (Fin 0), rb_rightBound = BNum (Fin 0),
         rb_fillingValue = Some (Fin 0), rb_totalCount = Some (Fin 0)\<rparr>,
       rr_partyName = ''alice''\<rparr>]\<rparr>"

definition demo_component :: component_summary where
  "demo_component = \<lparr>cs_app = ''secretflow'', cs_domain = ''psi'', cs_name = ''psi'', cs_version = None, cs_desc = None\<rparr>"

definition demo_quick :: quick_form where
  "demo_quick = initialState\<lparr>qf_dataTableReceiver := Some ''t1'', qf_receiverKeys := [''id1''],
     qf_dataTableSender := Some ''t2'', qf_senderKeys := [''id2''], qf_featureSelects := [''a1''], qf_receiverPSI := [''alice'']\<rparr>"

definition demo_wizard :: wizard_form where
  "demo_wizard = key_as_feature\<lparr>wf_featureColumns := [''a1'', ''a2'']\<rparr>"

definition demo_env :: wizard_env where
  "demo_env = \<lparr>we_nodes = [''alice'', ''bob''], we_tables = (\<lambda>_. []), we_now = ''now''\<rparr>"

definition demo_creation :: create_input where
  "demo_creation = \<lparr>ci_name = ''demo'', ci_description = None, ci_computeMode = MPC, ci_computeFunc = None,
     ci_teeNodeId = None, ci_templateKey = None, ci_graphName = None, ci_participants = []\<rparr>"

definition demo_center :: create_context where
  "demo_center = \<lparr>cx_platformType = ''CENTER'', cx_ownerType = ''CENTER'', cx_ownerId = ''''\<rparr>"

definition demo_backend :: backend where
  "demo_backend = \<lparr>bk_answer = (\<lambda>_ _. Inr ''p''), bk_settles = (\<lambda>_ n. [0..<n])\<rparr>"

definition demo_rules :: "case_when case_form" where
  "demo_rules = \<lparr>cf_whens = Some [\<lparr>cw_when = Some \<lparr>cd_column = Some ''x1'', cd_op = Some ''GT'', cd_value = JStr ''1'', cd_connection = None\<rparr>,
       cw_conds = Some [\<lparr>cd_column = Some ''x2'', cd_op = Some ''LT'', cd_value = JStr ''2'', cd_connection = Some ''AND''\<rparr>], cw_then = JStr ''a''\<rparr>],
     cf_else_value = JStr ''b'', cf_output_column = Some ''out'', cf_as_label = Some False, cf_float_epsilon = None\<rparr>"

section \<open>Properties\<close>

text \<open>
  C1. Hypotheses: the canvas opened and every canvas the page receives from the server later are consistent (acyclic, edges from outputs to inputs of its own distinct nodes, no input port twice, every node with the inputs its edges say, every edge identifier made of its two anchors, no underscore in the identifier of a node an edge ends in); a connection is drawn between two nodes of the canvas to one without underscore in its identifier; identifiers allocated for pasted, duplicated and added nodes are new, and an added node has no inputs yet; an imported file is importable (identifiers as many as nodes, distinct, not empty, without underscore or line break; its edges acyclic, well formed, no two into one port). Then in every state reachable by edits, undo, redo, copy, drag, configuration, import and server updates, on a read-only canvas or not, the canvas and every version on the undo and redo stacks is consistent, the stacks hold at most 50 versions, and the undo and redo buttons are enabled exactly when their stack is not empty.
\<close>

theorem session_consistent:
  assumes "session ro st"
  shows "(\<forall>c \<in> set (ed_canvas st # ed_undo st @ ed_redo st). canvas_good c) \<and> history_ok st"
  using session_good [OF assms] session_history [OF assms] by (auto simp: versions_good_def)

theorem session_consistent_witness:
  "canvas_good (ed_canvas (editor_step False (mount demo_canvas) (Edit (Edges (Connect ''g-node-1'' ''g-node-2'' None))))) \<and>
   canvas_edges (ed_canvas (editor_step False (mount demo_canvas) (Edit (Edges (Connect ''g-node-1'' ''g-node-2'' None))))) \<noteq> []"
proof
  have "session False (mount demo_canvas)" by (rule session.opened [OF demo_canvas_good])
  then have "session False (editor_step False (mount demo_canvas) (Edit (Edges (Connect ''g-node-1'' ''g-node-2'' None))))"
    by (rule session.event) (simp add: op_known_def mount_def canvas_ids_def demo_canvas_def demo_node_def)
  from session_consistent [OF this]
  show "canvas_good (ed_canvas (editor_step False (mount demo_canvas) (Edit (Edges (Connect ''g-node-1'' ''g-node-2'' None)))))"
    by simp
  show "canvas_edges (ed_canvas (editor_step False (mount demo_canvas) (Edit (Edges (Connect ''g-node-1'' ''g-node-2'' None))))) \<noteq> []"
    by code_simp
qed

text \<open>
  C2. The undo and redo stacks with their flags implement a list of versions with a cursor: an edit drops the versions after the cursor and appends one (the oldest beyond 50 is lost), undo and redo move the cursor, every other event replaces the present version or does nothing; the canvas shown is the version at the cursor. No hypothesis.
\<close>

theorem versions_refined:
  "versions_of (editor_step ro st ev) = vs_apply (vs_event_of ro st ev) (versions_of st) \<and>
   vs_now (versions_of st) = ed_canvas st"
  by (simp add: versions_simulate)

text \<open>
  C3. From any editor state, after a series of at most 50 edits each of which is recorded in the history (an edit that is refused or changes nothing is not), undoing as many times brings back exactly the canvas before them, and redoing as many times brings back the canvas after them.
\<close>

theorem undo_redo_restores:
  assumes "all_recorded st eds" "length eds \<le> HISTORY_LIMIT"
  shows "ed_canvas ((handleUndo ^^ length eds) (foldl (\<lambda>st ed. run_edit ed st) st eds)) = ed_canvas st \<and>
    ed_canvas ((handleRedo ^^ length eds) ((handleUndo ^^ length eds) (foldl (\<lambda>st ed. run_edit ed st) st eds))) =
      ed_canvas (foldl (\<lambda>st ed. run_edit ed st) st eds)"
  using assms by (rule undo_redo_edits)

theorem undo_redo_restores_witness:
  "ed_canvas ((handleUndo ^^ 2) (run_edit (Edges (DeleteNodes [''g-node-1''])) (run_edit Tidy (mount demo_canvas)))) = demo_canvas"
proof -
  have "ed_canvas ((handleUndo ^^ length [Tidy, Edges (DeleteNodes [''g-node-1''])])
      (foldl (\<lambda>st ed. run_edit ed st) (mount demo_canvas) [Tidy, Edges (DeleteNodes [''g-node-1''])])) = ed_canvas (mount demo_canvas)"
    by (rule undo_redo_restores [THEN conjunct1]) (simp_all add: HISTORY_LIMIT_def)
  then show ?thesis by (simp add: mount_def numeral_2_eq_2)
qed



text \<open>
  C5. In every reachable state of the autosave hook, for any order in which the server applies and answers saves, an unsaved edit has a timer that will save it, or a save of its version is on its way, or that save has failed; and a save on its way that carries the present version belongs to the present graph.
\<close>

theorem no_edit_forgotten:
  assumes "saving_session fifo st"
  shows "(as_dirty st \<longrightarrow> as_timer st \<or> (\<exists>r \<in> set (as_requests st). sr_version r = as_version st) \<or> as_failed st) \<and>
    (\<forall>r \<in> set (as_requests st). sr_version r \<le> as_version st \<and> (sr_version r = as_version st \<longrightarrow> \<not> outdated r st))"
  using session_pending [OF assms] by (simp add: edits_pending_def requests_ok_def)

theorem no_edit_forgotten_witness:
  "as_timer (onGraphChange False demo_canvas (start ''k'' 0 demo_canvas)) \<or> as_failed (onGraphChange False demo_canvas (start ''k'' 0 demo_canvas))"
proof -
  let ?st = "save_step (start ''k'' 0 demo_canvas) (Change False demo_canvas)"
  have s: "saving_session False ?st" by (rule saving_session.event [OF saving_session.opened]) simp_all
  have "as_dirty ?st \<and> as_requests ?st = []" by (simp add: onGraphChange_def start_def Let_def)
  then show ?thesis using no_edit_forgotten [OF s] by simp
qed

text \<open>
  C6. The checks of a connection, in whatever order the code runs them, accept exactly the acceptable candidates.
\<close>

theorem validateConnection_exact: "validateConnection cand ctx = Inr () \<longleftrightarrow> acceptable cand ctx"
  by (rule validateConnection_ok)

text \<open>
  C7. In every interleaving of requests, answers, refresh calls (accepted, refused or with a lost answer), timers and logins, starting from an opened page: at most one refresh call is on its way, whoever waits for a refresh waits while that one is on its way, and every request is sent at most twice.
\<close>

theorem one_refresh_at_a_time:
  assumes "api_session lossless s"
  shows "length (rs_flights s) \<le> 1 \<and>
    ((\<exists>r \<in> set (rs_requests s). rq_phase r = Waiting) \<longrightarrow> length (rs_flights s) = 1) \<and>
    (\<forall>r \<in> set (rs_requests s). rq_sends r \<le> 2)"
  using session_single_flight [OF assms] session_sends [OF assms]
  by (auto simp: single_flight_def sends_ok_def split: if_splits)

theorem one_refresh_at_a_time_witness:
  "length (rs_flights (session_run (opened_session None ''/'') lost_answer)) \<le> 1"
  using one_refresh_at_a_time [OF lost_answer_reused [THEN conjunct1]] by blast

text \<open>
  C8. In every interleaving in which no refresh answer is lost, the server never accepts the same refresh token twice, and the token in the cookie and the one on its way are tokens the server issued and has not accepted yet. (lost_answer_reuses_token shows that the hypothesis is needed.)
\<close>

theorem no_token_used_twice:
  assumes "api_session True s"
  shows "distinct (rs_used s) \<and> (\<forall>t \<in> insert (rs_cookie s) (set (rs_flights s)). t < rs_issued s \<and> t \<notin> set (rs_used s))"
  using session_tokens [OF assms] by (simp add: tokens_ok_def)

theorem no_token_used_twice_witness:
  "distinct (rs_used (session_run (opened_session None ''/'') [Send True, Unauthorized 0, RefreshOk 0]))"
proof -
  have "api_session True (session_run (opened_session None ''/'') [Send True, Unauthorized 0, RefreshOk 0])"
    unfolding session_run_def foldl_Cons foldl_Nil
    by (intro api_session.event api_session.opened) (auto simp: session_simps)
  from no_token_used_twice [OF this] show ?thesis by blast
qed

text \<open>
  C9. In every reachable state of the session, while a request is unfinished some event other than a new request or a login can happen, and every such event lowers a natural-number bound on the work left; so once no new request and no login comes, after finitely many events every request is finished.
\<close>

theorem requests_end:
  assumes "api_session lossless s"
  shows "((\<exists>r \<in> set (rs_requests s). \<forall>q. rq_phase r \<noteq> Finished q) \<longrightarrow> (\<exists>ev. may_happen s ev \<and> \<not> from_outside ev)) \<and>
    (\<forall>ev. may_happen s ev \<and> \<not> from_outside ev \<longrightarrow> session_work (session_step s ev) < session_work s)"
  using session_not_stuck session_work_decreases session_single_flight [OF assms] by blast

theorem requests_end_witness:
  "\<exists>ev. may_happen (session_step (opened_session None ''/'') (Send True)) ev \<and> \<not> from_outside ev"
proof -
  have s: "api_session False (session_step (opened_session None ''/'') (Send True))"
    by (rule api_session.event [OF api_session.opened]) simp_all
  show ?thesis using requests_end [OF s] by (simp add: opened_session_def)
qed

text \<open>
  C10. For a start time that can be parsed and lies in the year 101 or later: the form of a periodic task is accepted exactly when it has an identifier, a description of at most 200 characters, a valid time, a cycle with valid days, a parsable end at least 24 hours after the start and not before now, and at least one scheduled moment between the two; in particular the guard of 7320 days never rejects a task.
\<close>

theorem schedule_accepted_exactly:
  assumes "parseDateTime (sv_startTime v) = Some a" "101 \<le> getFullYear a"
  shows "isScheduleValid (validateSchedule v now) \<longleftrightarrow>
    sv_scheduleId v \<noteq> '''' \<and> utf16_length (sv_scheduleDesc v) \<le> 200 \<and> isValidTime (sv_time v) \<and>
    (\<exists>b cyc. parseDateTime (sv_endTime v) = Some b \<and> sv_cycle v = Some cyc \<and> valid_days cyc (sv_days v) \<and>
       a + DAY_MS \<le> b \<and> now \<le> b \<and> (\<exists>z. moment_in a b cyc (sv_days v) (sv_time v) z))"
  using assms by (rule schedule_accepted)

theorem schedule_accepted_exactly_witness:
  "\<not> isScheduleValid (validateSchedule \<lparr>sv_scheduleId = ''s'', sv_scheduleDesc = '''', sv_startTime = ''2024-02-28T09:30'',
     sv_endTime = ''2024-03-02T09:30'', sv_cycle = Some CycleW, sv_days = [], sv_time = ''10:00''\<rparr> 0)"
proof -
  have "parseDateTime ''2024-02-28T09:30'' = Some 1709112600000" "101 \<le> getFullYear 1709112600000" by code_simp+
  then show ?thesis by (subst schedule_accepted_exactly) (auto simp: valid_days_def)
qed

text \<open>
  C11. Validation accepts exactly the values that satisfy the specification good_value.
\<close>

theorem validation_exact:
  "validateAttr d value = None \<longleftrightarrow> good_value d value"
  by (rule validateAttr_None)

text \<open>
  C12. Choosing ports for a gesture between two nodes: the pair returned is acceptable, and a rejection means that no pair of ports of the two nodes is.
\<close>

theorem pickConnection_exact:
  "case pickConnection s t ctx of
     Inr cand \<Rightarrow> acceptable cand ctx
   | Inl reason \<Rightarrow>
       (\<forall>inp \<in> set (ports_in_group Input (ctx_portsOf ctx t)).
        \<forall>out \<in> set (ports_in_group Output (ctx_portsOf ctx s)). \<not> acceptable (port_pair s t inp out) ctx)"
  using pickConnection_sound [of s t ctx] pickConnection_complete [of s t ctx] by (auto split: sum.splits)

theorem pickConnection_exact_witness:
  "acceptable \<lparr>cand_source = ''g-node-1'', cand_target = ''g-node-2'',
      cand_source_anchor = ''g-node-1-output-0'', cand_target_anchor = ''g-node-2-input-0''\<rparr> demo_ctx"
proof -
  have "pickConnection ''g-node-1'' ''g-node-2'' demo_ctx =
    Inr \<lparr>cand_source = ''g-node-1'', cand_target = ''g-node-2'',
      cand_source_anchor = ''g-node-1-output-0'', cand_target_anchor = ''g-node-2-input-0''\<rparr>"
    by code_simp
  then show ?thesis
    using pickConnection_exact [where s = "''g-node-1''" and t = "''g-node-2''" and ctx = demo_ctx] by simp
qed

text \<open>
  C13. The search the cycle check runs is exact: it finds a node if and only if a path of edges leads to it.
\<close>

theorem reachable_iff_path: "isReachable x y es \<longleftrightarrow> (x, y) \<in> (edge_rel es)\<^sup>*"
  by (rule isReachable_rtrancl)

text \<open>
  C14. For every modelling template, if the wizard form is valid and neither join key was chosen as a feature (key_as_feature_lost shows what happens otherwise), the graph the wizard builds reads the two chosen tables, joins them on the chosen keys and trains on exactly the chosen features and label (k-means without a label).
\<close>

theorem wizard_graph_sent:
  fixes form :: wizard_form and env :: wizard_env and g :: string
  assumes "isModelingKey (wf_templateKey form)" "isValid form"
    and "wf_receiverKey form \<notin> set (wf_featureColumns form)" "wf_senderKey form \<notin> set (wf_featureColumns form)"
  defines "tg \<equiv> tpl_build (selectedTemplate form) g (buildConfigs env form)"
  shows "node_attr tg (nodeId g 1) ''datatable_selected'' = Some (sAttr (wf_receiverTableId form)) \<and>
     node_attr tg (nodeId g 2) ''datatable_selected'' = Some (sAttr (wf_senderTableId form)) \<and>
     node_attr tg (nodeId g 3) ''input/input_ds1/input_ds1_keys'' = Some (ssAttr [wf_receiverKey form]) \<and>
     node_attr tg (nodeId g 3) ''input/input_ds2/input_ds2_keys'' = Some (ssAttr [wf_senderKey form]) \<and>
     node_attr tg (nodeId g 5) ''input/input_ds/feature_selects'' = Some (ssAttr (wf_featureColumns form)) \<and>
     node_attr tg (nodeId g 5) ''input/input_ds/label'' =
       (if wf_templateKey form = ''kmeans'' then None else Some (ssAttr [wf_labelColumn form]))"
  using modeling_graph_sent [OF assms(1-4)] unfolding modeling_graph_of_def tg_def .

theorem wizard_graph_sent_witness:
  "node_attr (tpl_build (selectedTemplate demo_wizard) ''g'' (buildConfigs demo_env demo_wizard)) (nodeId ''g'' 5)
     ''input/input_ds/feature_selects'' = Some (ssAttr [''a1'', ''a2''])"
proof -
  have m: "isModelingKey (wf_templateKey demo_wizard)"
    by (simp add: demo_wizard_def key_as_feature_def isModelingKey_def modelingPresets_def)
  have "selectedTemplate demo_wizard = selectedTemplate key_as_feature"
    by (simp add: selectedTemplate_def demo_wizard_def)
  then have v: "isValid demo_wizard"
    using key_as_feature_lost [THEN conjunct1] by (simp add: isValid_def Let_def demo_wizard_def) (simp add: key_as_feature_def trim_def is_ws_def split: if_splits)
  show ?thesis
    using wizard_graph_sent [OF m v, where env = demo_env and g = "''g''"] by (simp add: demo_wizard_def) (simp add: key_as_feature_def)
qed

text \<open>
  C15. For every registered template but the configured TEE pipeline, every graph identifier without line break and every configuration, the built graph has distinct nodes whose edges start at declared outputs, end at declared inputs, form no cycle, and give each node exactly the inputs it declares.
\<close>

theorem templates_wired:
  "t \<in> set allTemplates \<Longrightarrow> tpl_key t \<noteq> ''tee'' \<Longrightarrow> no_line_break g \<Longrightarrow> well_wired (tpl_build t g c)"
  by (rule all_well_wired)

theorem templates_wired_witness: "well_wired (tpl_build (with_layout riskTemplate) ''g'' no_configs)"
  by (rule templates_wired)
     (simp_all add: allTemplates_def registered_def riskTemplate_def metadata_def no_line_break_def)

text \<open>
  C16. If the project call is answered with a nonempty project identifier and of the calls made at once each settles exactly once, in any order, then the creation succeeds with that identifier whatever the other calls answer, the first call made is the project call, and the messages of the warnings are exactly, with multiplicity, the rejections among all later calls of the recorded transcript.
\<close>

theorem creation_reported:
  assumes "settles_all bk" "bk_answer bk [] (project_call input) = Inr pid" "pid \<noteq> ''''"
    and "createProjectWithSetup input ctx bk = (calls, outcome)"
  shows "\<exists>r. outcome = Inr r \<and> cr_projectId r = pid \<and> hd calls = project_call input \<and>
    mset (map cw_message (cr_warnings r)) =
      mset (concat (map (\<lambda>i. case bk_answer bk (take i calls) (calls ! i) of Inl m \<Rightarrow> [m] | Inr _ \<Rightarrow> []) [1..<length calls]))"
  using transcript_reported [OF assms] unfolding rejections_def .

theorem creation_reported_witness:
  "\<exists>r. snd (createProjectWithSetup demo_creation demo_center demo_backend) = Inr r \<and> cr_projectId r = ''p''"
proof -
  have s: "settles_all demo_backend" by (simp add: settles_all_def demo_backend_def)
  have a: "bk_answer demo_backend [] (project_call demo_creation) = Inr ''p''"
    by (simp add: demo_backend_def project_call_def Let_def)
  obtain calls outcome where c: "createProjectWithSetup demo_creation demo_center demo_backend = (calls, outcome)" by fastforce
  from creation_reported [OF s a _ c] c show ?thesis by auto
qed



text \<open>
  C18. For every message shorter than 2^31 - 72 bytes, the hash the code computes on JavaScript numbers with signed 32-bit operators and a partly shifted word schedule is the SM3 of the standard, stated on 32-bit words.
\<close>

theorem sm3_is_the_standard:
  assumes "fits m"
  shows "sm3Bytes m = std_sm3 m"
  using assms by (rule sm3Bytes_std)

theorem sm3_is_the_standard_witness:
  "sm3Bytes [0x61, 0x62, 0x63] = std_sm3 [0x61, 0x62, 0x63]"
  by (rule sm3_is_the_standard) (simp add: fits_def)

text \<open>
  C19. If the nodes of the canvas have distinct identifiers, the layout button keeps exactly the nodes of the canvas, only moved, gives any two of them places more than a card (144 by 64) apart, and, when the graph has no cycle, puts the target of every edge at least 220 pixels to the right of its source.
\<close>

theorem tidy_layout_sound:
  assumes "distinct (map node_id ns)" "p \<in> set (tidyLayout ns es)" "q \<in> set (tidyLayout ns es)"
  shows "(\<exists>n \<in> set ns. same_node p n) \<and> node_id ` set (tidyLayout ns es) = node_id ` set ns \<and>
    (node_id p \<noteq> node_id q \<longrightarrow> boxes_apart p q) \<and>
    (acyclic (edge_rel es) \<and> (node_id p, node_id q) \<in> edge_rel es \<longrightarrow> node_x p + 220 \<le> node_x q)"
  using assms tidyLayout_keeps(1) [OF assms(1), of es] tidyLayout_apart [OF assms]
    tidyLayout_left_to_right [OF assms(1) _ assms(2,3)] tidyLayout_same_ids [OF assms(1), of es]
  by blast

theorem tidy_layout_sound_witness:
  "boxes_apart (tidyLayout (canvas_nodes demo_canvas) [connect ''g'' 1 0 2 0] ! 0)
     (tidyLayout (canvas_nodes demo_canvas) [connect ''g'' 1 0 2 0] ! 1)"
proof -
  have ids: "map node_id (tidyLayout (canvas_nodes demo_canvas) [connect ''g'' 1 0 2 0]) = [''g-node-1'', ''g-node-2'']"
    by code_simp
  then have "length (tidyLayout (canvas_nodes demo_canvas) [connect ''g'' 1 0 2 0]) = 2" by (metis length_map length_Cons list.size(3) numeral_2_eq_2)
  moreover from this ids have "node_id (tidyLayout (canvas_nodes demo_canvas) [connect ''g'' 1 0 2 0] ! 0) = ''g-node-1''"
    "node_id (tidyLayout (canvas_nodes demo_canvas) [connect ''g'' 1 0 2 0] ! 1) = ''g-node-2''"
    by (simp_all add: map_eq_Cons_conv) auto
  moreover have "distinct (map node_id (canvas_nodes demo_canvas))" by (simp add: demo_canvas_def demo_node_def)
  ultimately show ?thesis
    using tidy_layout_sound [of "canvas_nodes demo_canvas" "tidyLayout (canvas_nodes demo_canvas) [connect ''g'' 1 0 2 0] ! 0"
        "[connect ''g'' 1 0 2 0]" "tidyLayout (canvas_nodes demo_canvas) [connect ''g'' 1 0 2 0] ! 1"]
    by simp
qed

text \<open>
  C20. If the nodes have distinct identifiers, the layering loop of the layout button ends for every graph, cyclic ones included, after at most as many rounds as there are nodes, with every node in exactly one layer.
\<close>

theorem tidy_rounds_bounded:
  assumes "distinct (map node_id ns)"
  shows "length (all_layers ns es) \<le> length ns \<and> mset (concat (all_layers ns es)) = mset (map node_id ns)"
  using all_layers_bounded [OF assms, of es] all_layers_mset [OF assms, of es] by blast

theorem tidy_rounds_bounded_witness:
  "length (all_layers (canvas_nodes demo_canvas) [connect ''g'' 1 0 2 0, connect ''g'' 2 0 1 0]) \<le> length (canvas_nodes demo_canvas)"
proof -
  have "distinct (map node_id (canvas_nodes demo_canvas))" by (simp add: demo_canvas_def demo_node_def)
  then show ?thesis using tidy_rounds_bounded by blast
qed

text \<open>
  C21. Hypotheses: the nodes of the file have distinct identifiers, the host allocates one for each, distinct, nonempty and without line breaks; among the edges of the file whose two ends are nodes of the file (the others are dropped) there is no cycle, each joins an output of its source to an input of its target, and no two name the same port. Then the imported canvas is consistent: acyclic, no target anchor twice, edges well formed, and every node with exactly the inputs its new edges give it.
\<close>

theorem import_consistent:
  fixes ns :: "dag_node list" and es :: "graph_edge list" and ids :: "string list"
  assumes "proper_ids ns ids"
  defines "inner \<equiv> filter (\<lambda>e. edge_source e \<in> node_id ` set ns \<and> edge_target e \<in> node_id ` set ns) es"
  assumes "acyclic (edge_rel inner)" "distinct (map (\<lambda>e. parseAnchor (target_anchor e)) inner)" "\<forall>e \<in> set inner. edge_ok e"
  shows "canvas_ok (applyImportedGraph ns es ids)"
  using assms by (intro import_ok) (simp_all add: kept_def)

theorem import_consistent_witness:
  "canvas_ok (applyImportedGraph demo_file_nodes demo_file_edges [''g-node-8'', ''g-node-9''])"
  by (rule import_consistent [OF demo_file_ids], unfold demo_file_inner)
    (use demo_file_edge in \<open>simp_all add: edge_rel_def connect_def nodeId_def acyclic_insert wf_acyclic show_nat_2 show_nat_1\<close>)

text \<open>
  C22. If the nodes of the file have distinct identifiers, the host allocates one for each (distinct, nonempty, without line breaks), and every edge of the file between two of its nodes joins an output of its source to an input of its target, then the i-th imported node has the i-th allocated identifier and receives, slot by slot, the renamed anchors of what the edges between nodes of the file gave it; an empty slot stays empty.
\<close>

theorem import_inputs:
  fixes ns :: "dag_node list" and es :: "graph_edge list" and ids :: "string list"
  assumes "proper_ids ns ids" "i < length ns"
  defines "inner \<equiv> filter (\<lambda>e. edge_source e \<in> node_id ` set ns \<and> edge_target e \<in> node_id ` set ns) es"
  assumes "\<forall>e \<in> set inner. edge_ok e"
  shows "node_id (canvas_nodes (applyImportedGraph ns es ids) ! i) = ids ! i \<and>
    node_inputs (canvas_nodes (applyImportedGraph ns es ids) ! i) =
      Some (map (\<lambda>s. if s = '''' then '''' else remap_text (id_map ns ids) s) (deriveInputs (node_id (ns ! i)) inner))"
  using assms imported_node [of ns ids es i] by (simp add: kept_def)

theorem import_inputs_witness:
  "node_id (canvas_nodes (applyImportedGraph demo_file_nodes demo_file_edges [''g-node-8'', ''g-node-9'']) ! 1) = ''g-node-9'' \<and>
   node_inputs (canvas_nodes (applyImportedGraph demo_file_nodes demo_file_edges [''g-node-8'', ''g-node-9'']) ! 1) =
     Some (map (\<lambda>s. if s = '''' then '''' else remap_text (id_map demo_file_nodes [''g-node-8'', ''g-node-9'']) s)
       (deriveInputs (node_id (demo_file_nodes ! 1)) [connect ''x'' 1 0 2 0]))"
  using import_inputs [OF demo_file_ids, of 1 demo_file_edges] demo_file_edge unfolding demo_file_inner
  by (simp add: demo_file_nodes_def)

text \<open>
  C23. In every modelling template, for every configuration: the training node (node 5) exists and its feature_selects attribute is exactly the list of the chosen columns, in their order, that are neither the label nor a join key of either party (no such attribute when none is left), and no other node has a feature_selects attribute.
\<close>

theorem modeling_no_leak:
  assumes "pre \<in> set modelingPresets"
  defines "safe \<equiv> \<lambda>c. filter (\<lambda>f. f \<noteq> labelOf (cfg_labelSelects c) \<and> f \<notin> set (toList (cfg_receiverKey c)) \<and>
      f \<notin> set (toList (cfg_senderKey c))) (nullish (cfg_featureSelects c) [])"
  shows "(\<exists>n \<in> set (tg_nodes (modeling_build pre g c)). gn_id n = nodeId g 5 \<and>
      feature_attrs n = (if safe c = [] then [] else [ssAttr (safe c)])) \<and>
    (\<forall>n \<in> set (tg_nodes (modeling_build pre g c)). gn_id n \<noteq> nodeId g 5 \<longrightarrow> feature_attrs n = [])"
proof -
  have ok: "preset_ok pre" using presets_ok assms(1) by (auto simp: list_all_iff)
  have s: "safe c = modeling_features c"
    by (auto simp: safe_def modeling_features_def modeling_identifiers_def Let_def intro: filter_cong)
  show ?thesis
    using modeling_train_node [of pre g c] modeling_feature_attrs [OF ok, of _ g c] unfolding s by auto
qed

theorem modeling_no_leak_witness:
  "\<exists>n \<in> set (tg_nodes (modeling_build (modelingPresets ! 0) ''g'' leak_configs)).
     gn_id n = nodeId ''g'' 5 \<and> feature_attrs n = [ssAttr [''a1'']]"
proof -
  have p: "modelingPresets ! 0 \<in> set modelingPresets" by (simp add: modelingPresets_def)
  have s: "filter (\<lambda>f. f \<noteq> labelOf (cfg_labelSelects leak_configs) \<and> f \<notin> set (toList (cfg_receiverKey leak_configs)) \<and>
      f \<notin> set (toList (cfg_senderKey leak_configs))) (nullish (cfg_featureSelects leak_configs) []) = [''a1'']"
    by code_simp
  from modeling_no_leak [OF p, of "''g''" leak_configs] show ?thesis unfolding s by simp
qed

text \<open>
  C24. In the configured TEE pipeline, for every configuration and every graph identifier without line break: the conversion of the training set (node 7) exists and declares the training half of the split (output 0 of node 5) as its first input, the edge drawn to it comes from the test half (output 1 of node 5), so the inputs derived from the edges start with the test half; and this is exactly the node of the graph whose declared inputs differ from those its edges give it.
\<close>

theorem tee_template_miswired:
  assumes "no_line_break g"
  shows "(\<exists>n \<in> set (tg_nodes (tee_build g c)). gn_id n = nodeId g 7 \<and> gn_inputs n = [outAnchor g 5 0, outAnchor g 6 0]) \<and>
    connect g 5 1 7 0 \<in> set (tg_edges (tee_build g c)) \<and>
    deriveInputs (nodeId g 7) (tg_edges (tee_build g c)) = [outAnchor g 5 1, outAnchor g 6 0] \<and>
    (\<forall>n \<in> set (tg_nodes (tee_build g c)).
       gn_inputs n = deriveInputs (gn_id n) (tg_edges (tee_build g c)) \<longleftrightarrow> gn_id n \<noteq> nodeId g 7)"
  using tee_conversion [OF assms, of c] tee_inputs_agree [OF assms, of _ c]
  by (simp add: inputs_agree_def) (simp add: tee_build_def tee_edges_def Let_def)

theorem tee_template_miswired_witness:
  "connect ''g'' 5 1 7 0 \<in> set (tg_edges (tee_build ''g'' no_configs)) \<and>
   deriveInputs (nodeId ''g'' 7) (tg_edges (tee_build ''g'' no_configs)) = [outAnchor ''g'' 5 1, outAnchor ''g'' 6 0]"
  using tee_template_miswired [of "''g''" no_configs] by (simp add: no_line_break_def)

text \<open>
  C25. For a valid time and a start in the year 100 or later, the dates returned are, in order and without repetition, exactly those of the first 7320 days of the range that the cycle selects and whose moment lies between start and end, both included.
\<close>

theorem scheduled_dates_exact:
  assumes "isValidTime t" "100 \<le> getFullYear a"
  shows "getScheduledDatesWithinRange a b cyc days t =
    map (\<lambda>z. ymd (z * DAY_MS))
      (filter (\<lambda>z. is_candidate cyc days (z * DAY_MS) \<and> a \<le> z * DAY_MS + time_ms t \<and> z * DAY_MS + time_ms t \<le> b)
        [day_of a .. min (day_of b) (day_of a + 7319)])"
  using assms by (rule scheduled_dates)

theorem scheduled_dates_exact_witness:
  "getScheduledDatesWithinRange 1709112600000 1709285400000 CycleD [] ''10:00'' = [''20240228'', ''20240229'']"
proof -
  have "isValidTime ''10:00''" "100 \<le> getFullYear 1709112600000" by code_simp+
  note * = scheduled_dates_exact [OF this, of 1709285400000 CycleD "[]"]
  have z: "day_of 1709112600000 = 19781" "min (day_of 1709285400000) (19781 + 7319) = 19783" by code_simp+
  have u: "[19781 .. 19783 :: int] = [19781, 19782, 19783]" by code_simp
  have t: "time_ms ''10:00'' = 36000000" by code_simp
  have y: "ymd (19781 * DAY_MS) = ''20240228''" "ymd (19782 * DAY_MS) = ''20240229''" by code_simp+
  show ?thesis unfolding * z u t using y by (simp add: is_candidate_def DAY_MS_def)
qed

text \<open>
  C26. A graph detail whose optional texts are not empty strings, whose numbers are not NaN and whose data source configuration is not null, written as a JSON object in camelCase or in snake_case, is read back field by field as it was.
\<close>

theorem graph_detail_round_trip:
  assumes "detail_clean g"
  shows "normalizeGraphDetail parse (detail_object camelCase g) = g"
  using assms by (rule read_detail)

theorem graph_detail_round_trip_witness:
  "normalizeGraphDetail (\<lambda>_. None) (detail_object False demo_detail) = demo_detail"
  by (rule graph_detail_round_trip) code_simp

text \<open>
  C27. While a model is prepared for publishing, after any sequence of the automatic matching, picks of a feature offered for the row and clearings: every offline feature keeps its row in order, only online features of the list are used, and no nonempty online feature serves two differently named offline features.
\<close>

theorem features_mapped_once:
  assumes "mapping_session offline online items"
  shows "map fm_into items = offline \<and> set (used_online items) \<subseteq> set online \<and>
    (\<forall>i \<in> set items. \<forall>j \<in> set items. \<forall>x. x \<noteq> '''' \<and> fm_online i = Some x \<and> fm_online j = Some x \<longrightarrow> fm_into i = fm_into j)"
  using mapping_one_to_one [OF assms] unfolding mapping_ok_def .

theorem features_mapped_once_witness:
  "set (used_online (setFeatureMapping (autoMatchFeatures [''a'', ''b''] [''a'', ''c'']) ''b'' (Some ''c''))) \<subseteq> {''a'', ''c''}"
proof -
  have b: "\<lparr>fm_into = ''b'', fm_online = None\<rparr> \<in> set (autoMatchFeatures [''a'', ''b''] [''a'', ''c''])"
    by (simp add: autoMatchFeatures_def)
  have c: "''c'' \<in> set (availableOnlineFeatures [''a'', ''c''] (autoMatchFeatures [''a'', ''b''] [''a'', ''c'']) None)"
    by code_simp
  have "mapping_session [''a'', ''b''] [''a'', ''c'']
      (setFeatureMapping (autoMatchFeatures [''a'', ''b''] [''a'', ''c'']) ''b'' (Some ''c''))"
    using mapping_session.picked [OF mapping_session.matched b, of "''c''"] c by simp
  from features_mapped_once [OF this] show ?thesis by simp
qed

text \<open>
  C28. The layout never puts two cards on top of each other.
\<close>

theorem layout_separates:
  "distinct (map gn_id (tg_nodes g)) \<Longrightarrow> n \<in> set (tg_nodes (layoutTemplate g)) \<Longrightarrow>
   n' \<in> set (tg_nodes (layoutTemplate g)) \<Longrightarrow> gn_id n \<noteq> gn_id n' \<Longrightarrow> apart n n'"
  by (rule layout_apart)

theorem layout_separates_witness:
  "apart (tg_nodes (layoutTemplate (psi_build ''g'' no_configs)) ! 0) (tg_nodes (layoutTemplate (psi_build ''g'' no_configs)) ! 1)"
proof (rule layout_separates [where g = "psi_build ''g'' no_configs"])
  show "distinct (map gn_id (tg_nodes (psi_build ''g'' no_configs)))" by (simp add: psi_build_def Let_def)
qed (simp_all add: psi_build_def Let_def layoutTemplate_def)

text \<open>
  C29. The layout of an acyclic graph follows its edges: a target stands at least a row below its source.
\<close>

theorem layout_follows_edges:
  assumes "distinct (map gn_id (tg_nodes g))" "acyclic (edge_rel (tg_edges g))" "e \<in> set (tg_edges g)"
    and "n \<in> set (tg_nodes (layoutTemplate g))" "gn_id n = edge_source e"
    and "n' \<in> set (tg_nodes (layoutTemplate g))" "gn_id n' = edge_target e"
  shows "gn_y n + 200 \<le> gn_y n'"
  using assms by (rule layout_down)

theorem layout_follows_edges_witness:
  "gn_y (tg_nodes (layoutTemplate (privacyGuide_build ''g'' no_configs)) ! 0) + 200 \<le>
   gn_y (tg_nodes (layoutTemplate (privacyGuide_build ''g'' no_configs)) ! 1)"
proof (rule layout_follows_edges [where g = "privacyGuide_build ''g'' no_configs" and e = "connect ''g'' 1 0 2 0"])
  have "well_formed (privacyGuide_build ''g'' no_configs)"
    using privacyGuide_wired [of "''g''"] by (simp add: well_wired_def no_line_break_def)
  then show "distinct (map gn_id (tg_nodes (privacyGuide_build ''g'' no_configs)))"
    "acyclic (edge_rel (tg_edges (privacyGuide_build ''g'' no_configs)))" by (simp_all add: well_formed_def)
qed (simp_all add: privacyGuide_build_def Let_def layoutTemplate_def connect_def)

text \<open>
  C30. The end of a run is reported at most once: without a new run request or a response that shows activity, a sequence of responses yields at most one report.
\<close>

theorem at_most_one_report_per_run:
  "list_all (\<lambda>e. \<not> arming e) es \<Longrightarrow> length (snd (poll_run p es)) \<le> 1"
  by (rule at_most_one_report)

theorem at_most_one_report_witness:
  "length (snd (poll_run \<lparr>runRequested = True, wasActive = True, pollsSinceStart = 0\<rparr>
     [Response \<lparr>gs_finished = True, gs_jobId = None, gs_nodes = []\<rparr>, Response \<lparr>gs_finished = True, gs_jobId = None, gs_nodes = []\<rparr>])) \<le> 1"
  by (rule at_most_one_report_per_run) (simp add: arming_def any_active_def)

text \<open>
  C31. A pending run is never forgotten: when a response is not the last one, the query asks again.
\<close>

theorem waiting_keeps_asking:
  "on_response p data = (p', None) \<Longrightarrow> armed p' \<Longrightarrow> refetches p' (Some data)"
  by (rule armed_refetches)

theorem waiting_keeps_asking_witness:
  "refetches \<lparr>runRequested = True, wasActive = False, pollsSinceStart = 1\<rparr> (Some \<lparr>gs_finished = True, gs_jobId = None, gs_nodes = []\<rparr>)"
  by (rule waiting_keeps_asking [where p = "\<lparr>runRequested = True, wasActive = False, pollsSinceStart = 0\<rparr>"])
     (simp_all add: on_response_def any_active_def armed_def Let_def)

text \<open>
  C32. The grace period after a run request has a hole: a first response of the previous job that is finished but still lists pending nodes ends the new run at once.
\<close>

theorem stale_finish_reported:
  assumes "gs_finished data" "any_active data"
    and "\<not> list_ex (\<lambda>n. normalizeStatus (sn_status n) = Some RUNNING) (gs_nodes data)"
  shows "snd (on_response (fst (poll_step p MarkRunStarted)) data) \<noteq> None"
  using assms by (simp add: on_response_def shouldPollStatus_def any_active_def Let_def)

theorem stale_finish_reported_witness:
  "snd (on_response (fst (poll_step poll_init MarkRunStarted))
     \<lparr>gs_finished = True, gs_jobId = None, gs_nodes = [\<lparr>sn_id = ''n'', sn_status = Some ''INITIALIZED'', sn_taskId = None, sn_jobId = None,
       sn_progress = None, sn_errMsg = None, sn_parties = Undefined\<rparr>]\<rparr>) \<noteq> None"
  by (rule stale_finish_reported) code_simp+

text \<open>
  C33. A value accepted for a required integer attribute is a whole number within the bounds and among the allowed values.
\<close>

theorem accepted_integer:
  assumes "normalizeType (ad_type d) = ''AT_INT''" "Option.bind (ad_atomic d) aa_is_optional \<noteq> Some True"
    and "validateAttr d value = None"
  shows "\<exists>i :: int. scalarNumber value = Some (Fin (of_int i)) \<and> within_bounds d (Fin (of_int i)) \<and>
     (allowedList d = [] \<or> Fin (of_int i) \<in> set (map number_of (allowedList d)))"
proof -
  have "good_scalar d True value"
    using assms by (auto simp: validateAttr_None good_value_def may_be_empty_def isColumnType_def Let_def split: if_splits)
  then show ?thesis by (auto simp: good_scalar_def good_number_def is_integer_iff)
qed

theorem accepted_integer_witness:
  "\<exists>i :: int. scalarNumber (Some (demo_value 5)) = Some (Fin (of_int i)) \<and> within_bounds demo_int (Fin (of_int i)) \<and>
     (allowedList demo_int = [] \<or> Fin (of_int i) \<in> set (map number_of (allowedList demo_int)))"
  by (rule accepted_integer) code_simp+

text \<open>
  C34. A configuration whose values are all accepted makes the node count as configured.
\<close>

theorem valid_configuration_finished:
  assumes "array_of (get_prop nd ''attrPaths'') = Some paths" "array_of (get_prop nd ''attrs'') = Some attrs"
    and "\<forall>d \<in> set defs. validateAttr d (nodeDefToValueMap (Some nd) (attrPathOf d)) = None"
    and "\<forall>d \<in> set defs. \<not> flagged (nodeDefToValueMap (Some nd) (attrPathOf d))"
  shows "isConfigFinished (Some nd) defs"
  using assms by (intro valid_config_finished) (auto simp: configured_list_def)

theorem valid_configuration_finished_witness:
  "isConfigFinished (Some demo_node_def) [demo_int]"
  by (rule valid_configuration_finished [where paths = "[JStr ''n'']" and attrs = "[JObj [(''i64'', JStr ''5'')]]"]) code_simp+

text \<open>
  C35. Normalisation of attribute values and of type names is idempotent.
\<close>

theorem value_normalisation_idempotent:
  "(\<forall>v. normalizeAttrValue raw = Some v \<longrightarrow> normalizeAttrValue (JObj (value_object v)) = Some v) \<and>
   normalizeType (JStr (normalizeType t)) = normalizeType t"
  using normalizeAttrValue_twice normalizeType_idem by blast

theorem value_normalisation_idempotent_witness:
  "normalizeAttrValue (JObj (value_object (demo_value 5))) = Some (demo_value 5)"
proof -
  have "normalizeAttrValue (JObj [(''i64'', JStr ''5'')]) = Some (demo_value 5)" by code_simp
  then show ?thesis using value_normalisation_idempotent by blast
qed

text \<open>
  C36. Parsing the anchor built for a node whose identifier has no line break, a side and an index returns them.
\<close>

theorem anchor_round_trip:
  "no_line_break n \<Longrightarrow>
   parseAnchor (Some (inputAnchor n i)) = Some (n, Input, i) \<and> parseAnchor (Some (outputAnchor n i)) = Some (n, Output, i)"
  by (simp add: anchor_simps)

theorem anchor_round_trip_witness:
  "parseAnchor (Some (inputAnchor ''g-node-1'' 12)) = Some (''g-node-1'', Input, 12) \<and>
   parseAnchor (Some (outputAnchor ''g-node-1'' 12)) = Some (''g-node-1'', Output, 12)"
  by (rule anchor_round_trip) (simp add: no_line_break_def)

text \<open>
  C37. The downstream and upstream walks compute the transitive closure in both directions.
\<close>

theorem walks_are_inverse:
  "set (downstreamIds x es) = {y. (x, y) \<in> (edge_rel es)\<^sup>+} \<and> distinct (downstreamIds x es) \<and>
   (x \<in> set (upstreamIds y es) \<longleftrightarrow> y \<in> set (downstreamIds x es))"
  using canvas_walks.down.set_walk canvas_walks.down.distinct_walk canvas_walks.walk_inverse by blast

text \<open>
  C38. The chosen form control is the override, or the first rule of the highest score, or the default.
\<close>

theorem renderer_first_best:
  "case (if truthy (rc_codeName ctx) then overrides (the (rc_codeName ctx) @ '':'' @ rc_path ctx) else None) of
     Some kind \<Rightarrow> resolveRenderer overrides ctx = kind
   | None \<Rightarrow> first_best (if rc_typeName ctx = ''AT_CUSTOM_PROTOBUF'' then RCustom else RInput)
       (RENDER_RULES ctx (if truthy (rc_codeName ctx) then map_of CODE_NAME_RENDER_KEY (the (rc_codeName ctx)) else None))
       (resolveRenderer overrides ctx)"
  by (simp add: resolveRenderer_def best_rule_first_best Let_def split: option.split)

text \<open>
  C39. The landing page can be opened exactly by the accounts of a known platform.
\<close>

theorem landing_page_opens:
  "canAccessPath (target_path (ht_to (resolveHomePath ctx first)) (ht_nodeId (resolveHomePath ctx first))) ctx =
     Some (platformType ctx \<in> set ALL_PLATFORMS)"
  using landing_accessible by (simp add: known_platform_def)

text \<open>
  C40. The wizard has exactly one form for every template.
\<close>

theorem template_kinds:
  "t \<in> set allTemplates \<Longrightarrow>
   length (filter id [isTwoTableTemplate t, isSingleTableTemplate t, needsNoInputs t]) = 1"
  by (rule one_kind)

theorem template_kinds_witness:
  "length (filter id [isTwoTableTemplate (with_layout blankTemplate), isSingleTableTemplate (with_layout blankTemplate),
     needsNoInputs (with_layout blankTemplate)]) = 1"
  by (rule template_kinds) (simp add: allTemplates_def registered_def)

section \<open>Further theorems\<close>

text \<open>
  From a canvas that is consistent, whose edge identifiers are made of their anchors and whose edge targets have no underscore in their identifiers, any sequence of connecting (to nodes without underscore), deleting edges and deleting nodes leads to such a canvas.
\<close>

theorem canvas_session_consistent:
  "canvas_inv c \<Longrightarrow> list_all op_names_ok ops \<Longrightarrow> canvas_inv (foldl apply_op c ops)"
  by (rule session_inv)

theorem canvas_session_consistent_witness:
  "canvas_inv demo_canvas \<and>
   canvas_edges (foldl apply_op demo_canvas [Connect ''g-node-1'' ''g-node-2'' None]) \<noteq> [] \<and>
   canvas_inv (foldl apply_op demo_canvas [Connect ''g-node-1'' ''g-node-2'' None, DeleteNodes [''g-node-1'']])"
proof (intro conjI)
  show inv: "canvas_inv demo_canvas"
    by (simp add: demo_canvas_def demo_node_def canvas_inv_def canvas_ok_def edge_rel_def acyclic_def
        deriveInputs_def)
  show "canvas_edges (foldl apply_op demo_canvas [Connect ''g-node-1'' ''g-node-2'' None]) \<noteq> []"
    by code_simp
  show "canvas_inv (foldl apply_op demo_canvas [Connect ''g-node-1'' ''g-node-2'' None, DeleteNodes [''g-node-1'']])"
    by (rule canvas_session_consistent [OF inv]) simp
qed

text \<open>
  The grouping by category shows every template exactly once.
\<close>

theorem templates_by_category_complete: "mset (concat (map snd templatesByCategory)) = mset allTemplates"
  by (rule templatesByCategory_all)

text \<open>
  A template is found under its own key.
\<close>

theorem template_lookup: "t \<in> set allTemplates \<Longrightarrow> templateByKey (tpl_key t) = Some t"
  by (rule templateByKey_found)

theorem template_lookup_witness: "templateByKey ''psi'' = Some (with_layout psiTemplate)"
  using template_lookup [of "with_layout psiTemplate"]
  by (simp add: allTemplates_def registered_def psiTemplate_def metadata_def)

text \<open>
  The status table of the job list and the one of the canvas agree on every text the canvas table knows; on the others the job table gives STAGING for blank texts and INITIALIZED otherwise. The canvas table does not know the empty text and PENDING_CONFIG, although its comment maps both to STAGING.
\<close>

theorem status_tables_agree:
  "mapJobStatus s =
     (case normalizeStatus s of
        Some r \<Rightarrow> r
      | None \<Rightarrow> if trim (str_or s '''') = '''' then STAGING else INITIALIZED) \<and>
   normalizeStatus (Some '''') = None \<and> normalizeStatus (Some ''PENDING_CONFIG'') = None \<and>
   mapJobStatus (Some ''PENDING_CONFIG'') = INITIALIZED"
  by (intro conjI mapJobStatus_normalize) code_simp+

text \<open>
  For the top-level keys of the atomic part of an attribute definition: an object that spells them in camelCase is read as the same object spelled with underscores. (Nested values are read in one spelling only.)
\<close>

theorem atomic_spelling_irrelevant:
  assumes "snake_keys r"
  shows "normalize_atomic (camel_object r) = normalize_atomic r"
  using assms by (rule normalize_atomic_camel)

theorem atomic_spelling_irrelevant_witness:
  "normalize_atomic (camel_object [(''is_optional'', JBool True)]) = normalize_atomic [(''is_optional'', JBool True)]"
  by (rule atomic_spelling_irrelevant) code_simp

text \<open>
  The column attributes of the form are those of the inputs, input by input in order, with headings in between (each built by the same constructor, column_def).
\<close>

theorem input_columns_complete:
  "filter is_column_def (buildInputColumnDefs inputs) = columns_of 0 (nullish inputs [])"
  by (simp add: buildInputColumnDefs_def input_defs_columns)

text \<open>
  Rearranging a panel keeps exactly the visible items and splits them by the advanced flag.
\<close>

theorem panel_keeps_items:
  "case arrangeByPanelStyle styles path items codeName mode of (common, advanced) \<Rightarrow>
     mset common + mset advanced =
       filter_mset (\<lambda>it. panel_visible styles codeName mode (path it)) (mset items) \<and>
     list_all (\<lambda>it. \<not> panel_advanced styles codeName mode (path it)) common \<and>
     list_all (\<lambda>it. panel_advanced styles codeName mode (path it)) advanced"
  using arrangeByPanelStyle_parts by (auto split: prod.split)

text \<open>
  For an account of one of the known platforms the side menu shows every entry of the platform exactly once, and every entry shown leads to a page the account may open.
\<close>

theorem menu_shows_all_and_opens:
  assumes "platformType ctx \<in> set ALL_PLATFORMS"
  shows "mset (entries_of (getMenu ctx)) = mset (entries_of (getPlatformMenu ctx)) \<and>
     distinct (map mi_path (entries_of (getPlatformMenu ctx))) \<and>
     list_all (opens ctx) (entries_of (getMenu ctx))"
  using assms getMenu_all platform_menu_distinct menu_opens [of ctx] by (simp add: known_platform_def list_all_iff)

theorem menu_shows_all_and_opens_witness:
  "list_all (opens demo_account) (entries_of (getMenu demo_account))"
proof -
  have "platformType demo_account \<in> set ALL_PLATFORMS" by code_simp
  then show ?thesis using menu_shows_all_and_opens by blast
qed

text \<open>
  On a named node (nonempty identifier): test accounts and administrators of the center write on every node, any other account on its own node, on the node whose identifier is its institution, and on an autonomous platform on the listed nodes of its institution; nobody else writes.
\<close>

theorem write_rule_exact:
  assumes "n \<noteq> ''''"
  shows "canWriteNode ctx (Some n) scope \<longleftrightarrow>
     platformType ctx = TEST \<or> (platformType ctx = CENTER \<and> ownerType ctx = ''CENTER'') \<or> owns_node ctx n scope"
  using assms by (rule canWriteNode_exact)

theorem write_rule_exact_witness:
  "canWriteNode demo_account (Some ''bob'') None \<longleftrightarrow>
     platformType demo_account = TEST \<or> (platformType demo_account = CENTER \<and> ownerType demo_account = ''CENTER'') \<or>
     owns_node demo_account ''bob'' None"
  by (rule write_rule_exact) simp

text \<open>
  An account that may enter the view of a node may also write on it. For an account of a known platform, if the node shown as its own has a nonempty identifier, it may enter that node.
\<close>

theorem node_view_permissions:
  "(canEnterNode ctx n \<longrightarrow> canWriteNode ctx n scope) \<and>
   (platformType ctx \<in> set ALL_PLATFORMS \<and> resolveMyNodeId ctx r = Some m \<and> m \<noteq> '''' \<longrightarrow> canEnterNode ctx (Some m))"
  using enter_implies_write my_node_enterable by (auto simp: known_platform_def)

theorem node_view_permissions_witness:
  "canWriteNode demo_account (Some ''alice'') None \<and> canEnterNode demo_account (Some ''alice'')"
proof -
  have "canEnterNode demo_account (Some ''alice'')" by code_simp
  then show ?thesis using node_view_permissions by blast
qed

text \<open>
  A canvas may be edited exactly when no reason for read-only is given, editing the canvas implies editing the project, and a peer-to-peer account with a nonempty identifier never edits a canvas whose known, nonempty creator is another node.
\<close>

theorem canvas_permissions:
  "(ep_graph (dagEditPermissions i) \<longrightarrow> ep_project (dagEditPermissions i)) \<and>
   (ep_reason (dagEditPermissions i) = None \<longleftrightarrow> ep_graph (dagEditPermissions i)) \<and>
   (di_platformType i \<in> {AUTONOMY, P2P} \<and> truthy (di_graphOwnerId i) \<and> di_ownerId i \<noteq> '''' \<and>
      di_graphOwnerId i \<noteq> Some (di_ownerId i) \<longrightarrow> \<not> ep_graph (dagEditPermissions i))"
  using permissions_graded permissions_reason foreign_graph_read_only by (auto simp: truthy_iff)

theorem canvas_permissions_witness:
  "\<not> ep_graph (dagEditPermissions \<lparr>di_platformType = P2P, di_ownerId = ''alice'', di_project = Some None,
     di_projectsLoaded = True, di_graphOwnerId = Some ''bob''\<rparr>)"
  using canvas_permissions [of "\<lparr>di_platformType = P2P, di_ownerId = ''alice'', di_project = Some None,
     di_projectsLoaded = True, di_graphOwnerId = Some ''bob''\<rparr>"] by simp

text \<open>
  Newly allocated node identifiers are distinct and unused.
\<close>

theorem allocated_identifiers_fresh:
  "distinct (allocateNodeIds g ids server k) \<and> length (allocateNodeIds g ids server k) = k \<and>
   set (allocateNodeIds g ids server k) \<inter> set ids = {}"
  by (rule allocateNodeIds_fresh)

text \<open>
  A copy has the ports, outputs and results a new node of the component would have, and no inputs.
\<close>

theorem copies_are_rewired:
  assumes "node_ports n = Some (buildPorts (node_id n) def)" "node_outputs n = Some (buildOutputIds (node_id n) def)"
    "node_results n = Some (buildResultOutputs (node_id n) def)"
  shows "node_ports (clone_node off n m) = Some (buildPorts m def) \<and>
    node_outputs (clone_node off n m) = Some (buildOutputIds m def) \<and>
    node_results (clone_node off n m) = Some (buildResultOutputs m def) \<and>
    node_inputs (clone_node off n m) = Some [] \<and> node_status (clone_node off n m) = Ready"
  using clone_like_fresh [OF assms] by simp

theorem copies_are_rewired_witness:
  "node_ports (clone_node 40 ((demo_node ''a'')\<lparr>node_ports := Some (buildPorts ''a'' None),
     node_outputs := Some (buildOutputIds ''a'' None), node_results := Some (buildResultOutputs ''a'' None)\<rparr>) ''b'') =
   Some (buildPorts ''b'' None)"
  by (rule copies_are_rewired [THEN conjunct1]) (simp_all add: demo_node_def)

text \<open>
  Without that order an edit can be lost: after two overlapping saves the page says saved while the server stores the older canvas.
\<close>

theorem overlapping_saves_lost:
  "saving_session False (save_run (start key srv c) (overlapping a b)) \<and>
   as_state (save_run (start key srv c) (overlapping a b)) = Saved \<and>
   \<not> as_dirty (save_run (start key srv c) (overlapping a b)) \<and>
   as_local (save_run (start key srv c) (overlapping a b)) = b \<and>
   as_stored (save_run (start key srv c) (overlapping a b)) key = Some (1, a)"
  by (rule overlapping_saves)

text \<open>
  Saving and reloading keeps a canvas consistent, with its nodes and edges.
\<close>

theorem saved_graph_consistent:
  assumes "canvas_good c" "\<forall>n \<in> set (canvas_nodes c). node_id n \<noteq> ''''"
  shows "canvas_good (reload parse defs i18n (save_body c)) \<and>
    canvas_edges (reload parse defs i18n (save_body c)) = canvas_edges c \<and>
    map node_id (canvas_nodes (reload parse defs i18n (save_body c))) = map node_id (canvas_nodes c)"
  using assms by (rule reload_good)

theorem saved_graph_consistent_witness:
  "canvas_good (reload (\<lambda>_. None) (\<lambda>_. None) id (save_body demo_canvas))"
  by (rule saved_graph_consistent [OF demo_canvas_good, THEN conjunct1]) (simp add: demo_canvas_def demo_node_def)

text \<open>
  Saving what was loaded changes nothing: the second body sent equals the first.
\<close>

theorem saving_is_stable:
  assumes "settled defs c"
  shows "save_body (reload parse defs i18n (save_body c)) = save_body c"
  using assms by (rule save_stable)

theorem saving_is_stable_witness:
  "save_body (reload (\<lambda>_. None) (\<lambda>_. None) id (save_body demo_named)) = save_body demo_named"
  by (rule saving_is_stable)
     (simp add: settled_def settled_node_def demo_named_def demo_node_def edges_known_def)

text \<open>
  Every digest is 64 lower-case hexadecimal digits.
\<close>

theorem digest_is_hex: "length (sm3 s) = 64 \<and> set (sm3 s) \<subseteq> set ''0123456789abcdef''"
  by (rule sm3_hex)

text \<open>
  The search for a path along tables is exact, whatever the order of the edges and with cycles.
\<close>

theorem table_path_exact:
  assumes "lookup ns (node_id from) = Some from" "lookup ns (node_id to) \<noteq> None"
  shows "tablePathExists from to ns es \<longleftrightarrow> (node_id from, node_id to) \<in> (table_rel ns es)\<^sup>+"
  using assms by (rule tablePathExists_iff)

theorem table_path_exact_witness:
  "(''a'', ''b'') \<in> (table_rel [chain_node ''a'' ''x'', chain_node ''b'' ''x''] [chain_edge ''a'' ''b''])\<^sup>+"
proof -
  let ?ns = "[chain_node ''a'' ''x'', chain_node ''b'' ''x'']"
  have "lookup ?ns (node_id (chain_node ''a'' ''x'')) = Some (chain_node ''a'' ''x'')"
    "lookup ?ns (node_id (chain_node ''b'' ''x'')) \<noteq> None" by (simp_all add: lookup_def chain_node_def)
  note table_path_exact [OF this, of "[chain_edge ''a'' ''b'']"]
  moreover have "tablePathExists (chain_node ''a'' ''x'') (chain_node ''b'' ''x'') ?ns [chain_edge ''a'' ''b'']"
    by (simp add: tablePathExists_def table_edges_def chain_node_def chain_edge_def)
  ultimately show ?thesis by (simp add: chain_node_def)
qed

text \<open>
  A submission consists of the chosen node, its succeeded preprocessing ancestors along tables and its succeeded postprocessing descendants.
\<close>

theorem submission_nodes:
  assumes "permutes sorted_by" "lookup ns i = Some selected"
    and "domainOf selected = ''ml.train'' \<or> domainOf selected = ''ml.predict''"
  shows "set (submitNodesOf (computeModelChain sorted_by i ns es statusOf)) =
    {selected} \<union>
    {n \<in> set ns. (node_id n, node_id selected) \<in> (edge_rel es)\<^sup>+ \<and> statusOf n = Success \<and>
       domainOf n = ''preprocessing'' \<and> tablePathExists n selected ns es} \<union>
    {n \<in> set ns. (node_id selected, node_id n) \<in> (edge_rel es)\<^sup>+ \<and> statusOf n = Success \<and> domainOf n = ''postprocessing''}"
  unfolding submit_nodes [OF assms] by (auto simp: pre_nodes_def post_nodes_def ancestors_iff descendants_iff succeeded_def)

theorem submission_nodes_witness:
  "chain_node ''t'' ''ml.train/x'' \<in>
     set (submitNodesOf (computeModelChain (\<lambda>cmp xs. rev xs) ''t'' [chain_node ''t'' ''ml.train/x''] [] node_status))"
proof -
  have "permutes (\<lambda>cmp xs. rev xs)" by (simp add: permutes_def)
  moreover have "lookup [chain_node ''t'' ''ml.train/x''] ''t'' = Some (chain_node ''t'' ''ml.train/x'')"
    by (simp add: lookup_def chain_node_def)
  moreover have "domainOf (chain_node ''t'' ''ml.train/x'') = ''ml.train''" by code_simp
  ultimately show ?thesis using submission_nodes [of "\<lambda>cmp xs. rev xs"] by simp
qed

text \<open>
  Where the chain goes wrong: the training node chosen need not be the nearest one, and the comparator of the sort is not an order.
\<close>

theorem model_chain_flaws:
  "mc_modelNode (computeModelChain sorted_by ''pred''
       [chain_node ''near'' ''ml.train/a'', chain_node ''far'' ''ml.train/b'', chain_node ''pred'' ''ml.predict/c'']
       [chain_edge ''far'' ''near'', chain_edge ''near'' ''pred''] statusOf) = [chain_node ''far'' ''ml.train/b''] \<and>
   \<not> consistent_on (chain_order [chain_edge ''a'' ''c'']) {chain_node ''a'' ''x'', chain_node ''b'' ''x'', chain_node ''c'' ''x''}"
  using nearest_training_missed [of sorted_by statusOf] chain_order_not_an_order by blast

text \<open>
  The password form is accepted exactly when the policy holds for both passwords, they differ, and the confirmation agrees.
\<close>

theorem edge_password_exact:
  "\<not> hasEdgePasswordErrors (validateEdgePassword old new confirm) \<longleftrightarrow>
     strong old \<and> strong new \<and> old \<noteq> new \<and> confirm = new"
  by (rule edge_password_accepted)

text \<open>
  Reading a quoted CSV line gives its fields back, trimmed.
\<close>

theorem csv_round_trip:
  assumes "fs \<noteq> []"
  shows "splitCsvLine (join_with '','' (map quote_field fs)) = map trim fs"
  using assms by (rule splitCsvLine_quoted)

theorem csv_round_trip_witness:
  "splitCsvLine (join_with '','' (map quote_field [''a,b'', [dquote]])) = map trim [''a,b'', [dquote]]"
  by (rule csv_round_trip) simp

text \<open>
  A header has no issue exactly when its names are legal and distinct up to case.
\<close>

theorem column_names_exact:
  "validateColumnNames names = [] \<longleftrightarrow>
     (\<forall>n \<in> set names. legal_name (trim n)) \<and> distinct (map (\<lambda>n. to_lower (trim n)) names)"
  by (rule validateColumnNames_none)

theorem column_names_exact_witness: "validateColumnNames ['' id'', ''x_1''] = []"
proof -
  have "(\<forall>n \<in> set ['' id'', ''x_1'']. legal_name (trim n)) \<and> distinct (map (\<lambda>n. to_lower (trim n)) ['' id'', ''x_1''])"
    by code_simp
  then show ?thesis using column_names_exact by blast
qed

text \<open>
  Editing nothing changes nothing: the bins read for the table and saved again are those of the engine.
\<close>

theorem binning_round_trip:
  assumes "list_all good_record (rd_variableBins d)"
  shows "binModificationsSerializer (binModificationsUnSerializer d) = Some d"
  using assms by (rule bins_round_trip)

theorem binning_round_trip_witness:
  "binModificationsSerializer (binModificationsUnSerializer demo_bins) = Some demo_bins"
proof (rule binning_round_trip)
  have "decimal 20 (3 / 2)" unfolding decimal_def by (rule exI [of _ "150000000000000000000"]) simp
  then show "list_all good_record (rd_variableBins demo_bins)"
    by (simp add: demo_bins_def good_record_def good_bin_def good_bound_def)
qed

text \<open>
  A group of the palette lists exactly the shown components of its heading, in order.
\<close>

theorem groups_complete:
  "map_of (groupComponents cs mode label) k =
     (if \<forall>c \<in> set (shown_components cs mode). label c \<noteq> k then None
      else Some (map card_of (filter (\<lambda>c. label c = k) (shown_components cs mode))))"
  by (rule groupComponents_lookup)

theorem groups_complete_witness:
  "map_of (groupComponents [demo_component] None cs_domain) ''psi'' = Some [card_of demo_component]"
  using groups_complete [of "[demo_component]" None cs_domain "''psi''"]
  by (simp add: shown_components_def demo_component_def to_upper_def)

text \<open>
  If a refresh answer is lost, a request still on its way can make the console present the used token again.
\<close>

theorem lost_answer_reuses_token:
  "api_session False (session_run (opened_session st path) lost_answer) \<and>
   \<not> distinct (rs_used (session_run (opened_session st path) lost_answer))"
  using lost_answer_reused by simp

text \<open>
  The CSRF token sent is that of the secure cookie, else of the plain one, else none.
\<close>

theorem csrf_token_exact:
  assumes "\<forall>kv \<in> set kvs. plain_name (fst kv)" "kvs \<noteq> []"
  shows "readCsrfToken (Some (cookie_header kvs)) =
    Some (case map_of (rev kvs) ''__Host-privahub_csrf'' of
        Some v \<Rightarrow> if v \<noteq> '''' then v else str_or (map_of (rev kvs) ''privahub_csrf'') ''''
      | None \<Rightarrow> str_or (map_of (rev kvs) ''privahub_csrf'') '''')"
  using assms by (rule csrf_read)

theorem csrf_token_exact_witness:
  "readCsrfToken (Some (cookie_header [(''privahub_csrf'', ''a;b c'')])) = Some ''a;b c''"
  by (subst csrf_token_exact) (simp_all add: plain_name_def is_ws_def trim_def)

text \<open>
  One malformed cookie, of whatever name, makes the headers of every state-changing request throw.
\<close>

theorem malformed_cookie_blocks_requests:
  assumes "truthy cookie" "isStateChanging method" "piece \<in> set (split_on CHR '';'' (the cookie))" "cookie_of piece = None"
  shows "sessionHeaders cookie method = None"
  using assms by (rule malformed_cookie_blocks)

theorem malformed_cookie_blocks_requests_witness:
  "sessionHeaders (Some ''theme=50%'') ''POST'' = None"
  by (rule malformed_cookie_blocks_requests [of _ _ "''theme=50%''"]) code_simp+

text \<open>
  The owner identifier is filled in exactly when it is missing, and only once.
\<close>

theorem owner_filled_once:
  assumes "ownerFieldFor path (Some u) = Some f" "ru_ownerId u = Some i" "trim i \<noteq> ''''"
  shows "withDataResourceOwner path (JObj ob) (Some u) =
      (if has_text ob f \<or> has_text ob (snake f) then JObj ob else JObj (set_prop f (JStr i) ob)) \<and>
    withDataResourceOwner path (withDataResourceOwner path (JObj ob) (Some u)) (Some u) = withDataResourceOwner path (JObj ob) (Some u)"
  using owner_filled [OF assms(1), of ob "JObj ob"] owner_filled_twice [of "Some u" i path "JObj ob"] assms(2,3) by simp

theorem owner_filled_once_witness:
  "withDataResourceOwner ''/api/v1alpha1/inst/get?x'' (JObj []) (Some \<lparr>ru_ownerId = Some ''alice'', ru_ownerType = Some ''EDGE''\<rparr>) =
   JObj [(''instId'', JStr ''alice'')]"
proof -
  have f: "ownerFieldFor ''/api/v1alpha1/inst/get?x'' (Some \<lparr>ru_ownerId = Some ''alice'', ru_ownerType = Some ''EDGE''\<rparr>) = Some ''instId''"
    by code_simp
  have "withDataResourceOwner ''/api/v1alpha1/inst/get?x'' (JObj []) (Some \<lparr>ru_ownerId = Some ''alice'', ru_ownerType = Some ''EDGE''\<rparr>) =
      (if has_text [] ''instId'' \<or> has_text [] (snake ''instId'') then JObj [] else JObj (set_prop ''instId'' (JStr ''alice'') []))"
    by (rule owner_filled_once [OF f, THEN conjunct1]) (simp_all add: trim_def is_ws_def)
  then show ?thesis by (simp add: has_text_def get_prop_def)
qed

text \<open>
  Loading the page removes a legacy bearer token; clearing a session removes the login marker.
\<close>

theorem legacy_token_removed:
  "(case migrateLegacyTokenStorage st of None \<Rightarrow> True | Some m \<Rightarrow> m LEGACY_TOKEN_KEY = None) \<and>
   \<not> hasStoredSession (clearStoredSession st)"
  using migrated Session.cleared by blast

text \<open>
  A range of a day, a week or 61 days always has a date for a daily, weekly or monthly task.
\<close>

theorem long_ranges_schedulable:
  assumes "isValidTime t" "valid_days cyc days" "101 \<le> getFullYear a" "a + period cyc * DAY_MS \<le> b"
  shows "getScheduledDatesWithinRange a b cyc days t \<noteq> []"
  using assms by (rule period_schedulable)

theorem long_ranges_schedulable_witness:
  "getScheduledDatesWithinRange 1709112600000 (1709112600000 + 61 * DAY_MS) CycleM [''31''] ''10:00'' \<noteq> []"
proof (rule long_ranges_schedulable)
  show "isValidTime ''10:00''" "101 \<le> getFullYear 1709112600000" by code_simp+
  show "valid_days CycleM [''31'']" by code_simp
qed (simp add: period_def)

text \<open>
  The request of a periodic task reads back to the times and days of the form.
\<close>

theorem schedule_request_faithful:
  assumes "parseDateTime (sv_startTime v) = Some a" "1000 \<le> getFullYear a" "getFullYear a \<le> 9999"
    and "parseDateTime (sv_endTime v) = Some b" "1000 \<le> getFullYear b" "getFullYear b \<le> 9999"
    and "sv_cycle v = Some cyc" "valid_days cyc (sv_days v)"
  shows "\<exists>r. buildSchedulePayload v p g ns = Some r \<and>
    parseDateTime (cr_startTime (sr_cron r)) = Some a \<and> parseDateTime (cr_endTime (sr_cron r)) = Some b \<and>
    (cyc \<noteq> CycleD \<longrightarrow> set (split_on CHR '','' (cr_scheduleDate (sr_cron r))) = day_name ` set (sv_days v))"
  using assms by (rule request_faithful)

theorem schedule_request_faithful_witness:
  "\<exists>r. buildSchedulePayload \<lparr>sv_scheduleId = ''s'', sv_scheduleDesc = '''', sv_startTime = ''2024-02-28T09:30'',
     sv_endTime = ''2024-03-02T09:30'', sv_cycle = Some CycleM, sv_days = [''-1'', ''15''], sv_time = ''10:00''\<rparr> ''p'' ''g'' [] = Some r \<and>
     set (split_on CHR '','' (cr_scheduleDate (sr_cron r))) = {''end'', ''15''}"
proof -
  have p: "parseDateTime ''2024-02-28T09:30'' = Some 1709112600000" "1000 \<le> getFullYear 1709112600000" "getFullYear 1709112600000 \<le> 9999"
    "parseDateTime ''2024-03-02T09:30'' = Some 1709371800000" "1000 \<le> getFullYear 1709371800000" "getFullYear 1709371800000 \<le> 9999"
    "valid_days CycleM [''-1'', ''15'']" by code_simp+
  have d: "day_name ` {''-1'', ''15''} = {''end'', ''15''}" by (simp add: day_name_def LAST_DAY_OF_MONTH_def insert_commute)
  let ?v = "\<lparr>sv_scheduleId = ''s'', sv_scheduleDesc = '''', sv_startTime = ''2024-02-28T09:30'',
     sv_endTime = ''2024-03-02T09:30'', sv_cycle = Some CycleM, sv_days = [''-1'', ''15''], sv_time = ''10:00''\<rparr>"
  from schedule_request_faithful [of ?v 1709112600000 1709371800000 CycleM "''p''" "''g''" "[]"]
  show ?thesis using p d by fastforce
qed

text \<open>
  A valid quick configuration reaches the attributes of the nodes of the built graph unchanged.
\<close>

theorem quick_configuration_saved:
  assumes "validateQuickConfig QPsi s = []" "'''' \<notin> set (selections s)"
    and "quick_graph QPsi g s tables project = Some tg"
  shows "node_attr tg (nodeId g 1) ''datatable_selected'' = Some (sAttr (the (qf_dataTableReceiver s))) \<and>
    node_attr tg (nodeId g 2) ''datatable_selected'' = Some (sAttr (the (qf_dataTableSender s))) \<and>
    node_attr tg (nodeId g 3) ''input/input_ds1/keys'' = Some (ssAttr (qf_receiverKeys s)) \<and>
    node_attr tg (nodeId g 3) ''input/input_ds2/keys'' = Some (ssAttr (qf_senderKeys s)) \<and>
    node_attr tg (nodeId g 3) ''receiver_parties'' = Some (ssAttr (qf_receiverPSI s)) \<and>
    node_attr tg (nodeId g 4) ''input/input_ds/features'' = Some (ssAttr (qf_featureSelects s))"
  using assms by (rule quick_psi_saved)

theorem quick_configuration_saved_witness:
  "\<exists>tg. quick_graph QPsi ''g'' demo_quick [] None = Some tg \<and>
     node_attr tg (nodeId ''g'' 3) ''input/input_ds2/keys'' = Some (ssAttr [''id2''])"
proof -
  have v: "validateQuickConfig QPsi demo_quick = []"
    by (simp add: validateQuickConfig_def two_table_errors_def key_errors_Nil isTwoTable_def isMpcPsi_def demo_quick_def)
  have e: "'''' \<notin> set (selections demo_quick)" by (simp add: demo_quick_def selections_def initialState_def)
  obtain tg where tg: "quick_graph QPsi ''g'' demo_quick [] None = Some tg" by (metis quick_psi_build)
  have k: "qf_senderKeys demo_quick = [''id2'']" by (simp add: demo_quick_def)
  from quick_configuration_saved [OF v e tg] tg k show ?thesis by auto
qed

text \<open>
  isValidNetAddress accepts exactly host:port with a host of 1..50 characters and a port of 0..65535 in canonical decimal.
\<close>

theorem net_address_bounds:
  "isValidNetAddress a \<longleftrightarrow> list_all (\<lambda>c. \<not> is_ws c) a \<and>
     (\<exists>h n. a = h @ '':'' @ show_nat n \<and> n \<le> 65535 \<and> 1 \<le> utf16_length h \<and> utf16_length h \<le> 50)"
  by (rule net_address_iff)

text \<open>
  isSchemaValid accepts exactly the nonempty lists of well-formed columns with distinct trimmed names.
\<close>

theorem schema_accepted_exactly:
  "isSchemaValid sfs \<longleftrightarrow> sfs \<noteq> [] \<and>
     (\<forall>f \<in> set sfs. feature_name (trim (sf_name f)) \<and> utf16_length (trim (sf_name f)) \<le> 64 \<and> sf_type f \<noteq> '''' \<and>
        utf16_length (sf_desc f) \<le> 200) \<and>
     distinct (map (\<lambda>f. trim (sf_name f)) sfs)"
  by (simp add: schema_accepted good_field_def field_names_def comp_def)

theorem schema_accepted_exactly_witness:
  "\<not> isSchemaValid [\<lparr>sf_name = ''a'', sf_type = ''int'', sf_desc = ''''\<rparr>, \<lparr>sf_name = '' a'', sf_type = ''int'', sf_desc = ''''\<rparr>]"
  using schema_accepted_exactly [of "[\<lparr>sf_name = ''a'', sf_type = ''int'', sf_desc = ''''\<rparr>, \<lparr>sf_name = '' a'', sf_type = ''int'', sf_desc = ''''\<rparr>]"]
  by (simp add: trim_def is_ws_def)

text \<open>
  caseWhenUnserializer after caseWhenSerializer is the identity on complete forms whose connectives are set from the front.
\<close>

theorem rule_forms_return:
  assumes "cf_whens f = Some ws"
    and "list_all (\<lambda>w. cw_when w \<noteq> None \<and> (\<exists>cs. cw_conds w = Some cs \<and>
      list_all (\<lambda>c. cd_connection c = None) (dropWhile (\<lambda>c. truthy (cd_connection c)) cs))) ws"
  shows "caseWhenUnserializer (Some (caseWhenSerializer f)) = f"
  using assms by (intro rules_return) (simp add: rule_form_def connected_first_def)

theorem rule_forms_return_witness:
  "caseWhenUnserializer (Some (caseWhenSerializer demo_rules)) = demo_rules"
  using rule_forms_return [of demo_rules "the (cf_whens demo_rules)"]
  by (simp add: demo_rules_def)

text \<open>
  normalizeOutput gives equal results on the Java and the Go shape of the same table.
\<close>

theorem output_shapes_agree:
  assumes "names \<noteq> []" "length types = length names"
    and "list_all (\<lambda>s. s \<noteq> '''' \<and> CHR '','' \<notin> set s) names" "list_all (\<lambda>s. s \<noteq> '''' \<and> CHR '','' \<notin> set s) types"
  shows "normalizeOutput (Suc n) parse
      (JObj [(''type'', JStr ''table''), (''meta'', JObj [(''rows'', JArr [JObj [(''tableId'', JStr tableId),
         (''fields'', JStr (join_with '','' names)), (''fieldTypes'', JStr (join_with '','' types)), (''dsId'', JStr ds)]])])]) =
    normalizeOutput (Suc n) parse
      (JObj [(''type'', JStr ''table''), (''meta'', JObj
         [(''rows'', JArr [JObj [(''tableId'', JStr tableId)]]),
          (''columns'', JArr (map (\<lambda>(n, t). JObj [(''name'', JStr n), (''type'', JStr t)]) (zip names types))),
          (''datasourceId'', JStr ds)])])"
  using shapes_agree [OF assms, of n parse tableId ds] by (simp only: java_answer_def go_answer_def)

theorem output_shapes_agree_witness:
  "normalizeOutput 1 (\<lambda>_. None)
      (JObj [(''type'', JStr ''table''), (''meta'', JObj [(''rows'', JArr [JObj [(''tableId'', JStr ''t''),
         (''fields'', JStr ''id,x1''), (''fieldTypes'', JStr ''str,float''), (''dsId'', JStr ''d'')]])])]) =
    normalizeOutput 1 (\<lambda>_. None)
      (JObj [(''type'', JStr ''table''), (''meta'', JObj
         [(''rows'', JArr [JObj [(''tableId'', JStr ''t'')]]),
          (''columns'', JArr [JObj [(''name'', JStr ''id''), (''type'', JStr ''str'')], JObj [(''name'', JStr ''x1''), (''type'', JStr ''float'')]]),
          (''datasourceId'', JStr ''d'')])])"
  using output_shapes_agree [of "[''id'', ''x1'']" "[''str'', ''float'']" 0 "\<lambda>_. None" "''t''" "''d''"] by simp

text \<open>
  The participants of the creation vote are the owner followed by exactly the distinct institutions of the invited nodes.
\<close>

theorem vote_participants_exact:
  fixes projectId ownerId :: string and groups :: "node_group list" and votersByNode :: "string \<Rightarrow> voter_node list option"
  defines "c \<equiv> buildProjectCreateVoteConfig projectId ownerId groups votersByNode"
  shows "hd (vc_participants c) = ownerId \<and> distinct (vc_participants c) \<and>
    set (vc_participants c) = insert ownerId {inst. inst \<noteq> '''' \<and>
      (\<exists>g \<in> set groups. \<exists>i \<in> set (ng_invitees g). institution_of votersByNode (ng_nodeId g) i = Some inst)}"
  unfolding c_def by (rule vote_participants)

theorem vote_participants_exact_witness:
  "hd (vc_participants (buildProjectCreateVoteConfig ''p'' ''alice'' [\<lparr>ng_nodeId = ''n'', ng_invitees = [''b'']\<rparr>]
     (\<lambda>_. Some [\<lparr>vn_nodeId = ''b'', vn_nodeName = '''', vn_instId = ''bob'', vn_instName = ''''\<rparr>]))) = ''alice''"
  using vote_participants_exact by blast

text \<open>
  validateDatasourceForm accepts exactly legal names, accepted type fields and 1..k distinct nodes.
\<close>

theorem datasource_form_exact:
  "validateDatasourceForm v nodeIds k = [] \<longleftrightarrow>
     legal_name (trim (dv_name v)) \<and> utf16_length (trim (dv_name v)) \<le> 32 \<and> type_accepted v \<and>
     nodeIds \<noteq> [] \<and> '''' \<notin> set nodeIds \<and> length nodeIds \<le> k \<and> distinct nodeIds"
  by (rule datasource_accepted)

text \<open>
  The refetch interval of the token page lies between 10 seconds and 30 minutes.
\<close>

theorem token_polling_bounds:
  "10000 \<le> tokenRefetchInterval dp i now \<and> tokenRefetchInterval dp i now \<le> 1800000"
  by (rule refetch_bounds)

text \<open>
  parseReportTabs returns for every value with fuel its weight.
\<close>

theorem report_reader_total:
  assumes "shorter_values parse"
  shows "parseReportTabs (weight raw) parse raw \<noteq> None"
  using report_tabs_total [OF assms] by simp

theorem report_reader_total_witness:
  "parseReportTabs (weight (JArr [])) (\<lambda>_. None) (JArr []) \<noteq> None"
  by (rule report_reader_total) (simp add: shorter_values_def)

end
